(* ===== verification/Prelude.thy ===== *)
theory Prelude
  imports Main "HOL-Library.Word" "HOL-Library.AList"
begin

text \<open>
  What every component of the development shares: the C++ machine integers, the error monad
  in which undefined behaviour is a value, reads and writes of a \<open>std::vector\<close> through
  \<open>operator[]\<close>, and the finite maps that stand for \<open>std::unordered_map\<close>.

  \<open>int\<close> and \<open>unsigned int\<close> of the runtime are both 32 bits wide; a value of either is an
  \<open>i32\<close>, and the operator that reads it says which of the two the code has: \<open>\<le>s\<close> and \<open><s\<close>
  are the signed comparisons, \<open>\<le>\<close> and \<open><\<close> the unsigned ones.
\<close>

unbundle bit_operations_syntax

type_synonym i32 = "32 word"
type_synonym ThreadID = i32
type_synonym Address = nat

named_theorems res_simps \<open>evaluation of the error monad\<close>
named_theorems vec_simps \<open>reads and writes of vectors\<close>
named_theorems epoch_simps \<open>thread id and clock of packed epochs\<close>

subsection \<open>Errors\<close>

text \<open>
  \<open>OutOfRange i n\<close> is an access through \<open>operator[]\<close> at index \<open>i\<close> of a vector of size \<open>n\<close>
  with \<open>i \<ge> n\<close>: undefined behaviour in C++, which the model reports and does not continue.
  \<open>Unreachable\<close> is a statement marked \<open>llvm_unreachable\<close> or an assertion that fails, \<open>NullPointer\<close> the use
  of a null pointer, \<open>Uninitialised\<close> the read of a variable that was not written, \<open>SignedOverflow\<close> an
  \<open>int\<close> incremented beyond its largest value.
\<close>

datatype fault = OutOfRange nat nat | Unreachable | NullPointer | Uninitialised | SignedOverflow

type_synonym 'a res = "fault + 'a"

definition bnd :: "'a res \<Rightarrow> ('a \<Rightarrow> 'b res) \<Rightarrow> 'b res" where
  "bnd m f = (case m of Inl e \<Rightarrow> Inl e | Inr x \<Rightarrow> f x)"

lemma bnd_Inr [simp, res_simps]: "bnd (Inr x) f = f x"
  by (simp add: bnd_def)

lemma bnd_Inl [simp, res_simps]: "bnd (Inl e) f = Inl e"
  by (simp add: bnd_def)

lemma bnd_eq_Inr_iff: "bnd m f = Inr y \<longleftrightarrow> (\<exists>x. m = Inr x \<and> f x = Inr y)"
  by (cases m) auto

lemma bnd_InrE:
  assumes "bnd m f = Inr y"
  obtains x where "m = Inr x" and "f x = Inr y"
  using assms by (auto simp: bnd_eq_Inr_iff)

lemma bnd_total:
  "\<exists>x. m = Inr x \<Longrightarrow> (\<And>x. m = Inr x \<Longrightarrow> \<exists>y. f x = Inr y) \<Longrightarrow> \<exists>y. bnd m f = Inr y"
  by auto

lemma bnd_assoc: "bnd (bnd m f) g = bnd m (\<lambda>x. bnd (f x) g)"
  by (cases m) auto

lemma bnd_if: "bnd (if b then m else m') f = (if b then bnd m f else bnd m' f)"
  by simp

subsection \<open>Vectors\<close>

definition vget :: "'a list \<Rightarrow> nat \<Rightarrow> 'a res" where
  "vget xs i = (if i < length xs then Inr (xs ! i) else Inl (OutOfRange i (length xs)))"

definition vset :: "'a list \<Rightarrow> nat \<Rightarrow> 'a \<Rightarrow> 'a list res" where
  "vset xs i v = (if i < length xs then Inr (xs[i := v]) else Inl (OutOfRange i (length xs)))"

lemma vget_Inr [vec_simps]: "i < length xs \<Longrightarrow> vget xs i = Inr (xs ! i)"
  by (simp add: vget_def)

lemma vset_Inr [vec_simps]: "i < length xs \<Longrightarrow> vset xs i v = Inr (xs[i := v])"
  by (simp add: vset_def)

lemma vget_eq_Inr_iff: "vget xs i = Inr v \<longleftrightarrow> i < length xs \<and> v = xs ! i"
  by (auto simp: vget_def)

lemma vset_eq_Inr_iff: "vset xs i v = Inr ys \<longleftrightarrow> i < length xs \<and> ys = xs[i := v]"
  by (auto simp: vset_def)

lemma vset_eq_Inl_iff: "vset xs i v = Inl e \<longleftrightarrow> length xs \<le> i \<and> e = OutOfRange i (length xs)"
  by (auto simp: vset_def)

subsection \<open>Finite maps\<close>

text \<open>
  A \<open>std::unordered_map\<close> is an association list with distinct keys: \<open>find\<close> is \<open>map_of\<close>,
  \<open>m[k] = v\<close> is \<open>AList.update\<close>, \<open>size()\<close> is the length.
\<close>

abbreviation keys_of :: "('k \<times> 'v) list \<Rightarrow> 'k set" where
  "keys_of m \<equiv> fst ` set m"

lemma map_of_None_iff: "map_of m k = None \<longleftrightarrow> k \<notin> keys_of m"
  by (simp add: map_of_eq_None_iff)

lemma map_of_Some_key: "map_of m k = Some v \<Longrightarrow> k \<in> keys_of m"
  by (force dest: map_of_SomeD)

lemma key_map_of_Some: "k \<in> keys_of m \<Longrightarrow> \<exists>v. map_of m k = Some v"
  by (metis map_of_None_iff option.exhaust)

lemma map_of_update [simp]: "map_of (AList.update k v m) = (map_of m)(k \<mapsto> v)"
  by (simp add: update_conv')

lemma keys_update [simp]: "keys_of (AList.update k v m) = insert k (keys_of m)"
  by (simp add: dom_update)

lemma length_update_new: "k \<notin> keys_of m \<Longrightarrow> length (AList.update k v m) = Suc (length m)"
  by (induction m) auto

lemma length_update_old: "k \<in> keys_of m \<Longrightarrow> length (AList.update k v m) = length m"
  by (induction m) auto

subsection \<open>Signed comparison\<close>

lemma sint_as_uint: "sint (x :: i32) = uint x - (if bit x 31 then 4294967296 else 0)"
proof -
  have "uint x < 4294967296" using uint_lt2p [of x] by simp
  then have "uint x mod 4294967296 = uint x" by (simp add: mod_pos_pos_trivial)
  then show ?thesis
    by (simp add: sint_uint signed_take_bit_eq_take_bit_minus take_bit_eq_mod bit_uint_iff)
qed

subsection \<open>Numbers in decimal\<close>

fun show_nat :: "nat \<Rightarrow> string" where
  "show_nat n = (if n < 10 then [char_of (48 + n)]
     else show_nat (n div 10) @ [char_of (48 + n mod 10)])"

declare show_nat.simps [simp del]

text \<open>The inverse, to show that the digits determine the number.\<close>

definition read_nat :: "string \<Rightarrow> nat" where
  "read_nat cs = foldl (\<lambda>n c. 10 * n + (of_char c - 48)) 0 cs"

lemma read_show_nat: "read_nat (show_nat n) = n"
proof (induction n rule: show_nat.induct)
  case (1 n)
  have digit: "of_char (char_of (48 + d) :: char) - 48 = d" if "d < 10" for d :: nat
    using that by simp
  show ?case
  proof (cases "n < 10")
    case True
    then show ?thesis using digit [OF True] by (subst show_nat.simps) (simp add: read_nat_def)
  next
    case False
    then have "read_nat (show_nat n) = 10 * (n div 10) + n mod 10"
      using 1 digit [of "n mod 10"] by (subst show_nat.simps) (simp add: read_nat_def)
    then show ?thesis by simp
  qed
qed

lemma show_nat_inject: "show_nat m = show_nat n \<longleftrightarrow> m = n"
  by (metis read_show_nat)

end
