(* ===== verification/Epoch.thy ===== *)
theory Epoch
  imports Prelude
begin

text \<open>
  Epochs: a thread id and a clock packed in one \<open>int\<close>, thread id in the upper 8 bits and clock
  in the lower 24 (the macros \<open>TID\<close>, \<open>CLOCK\<close> and \<open>READ_SHARED\<close> of \<open>etsan/defs.h\<close>).
  The lemmas say which pairs an epoch can hold, that packing and unpacking are inverse there,
  and that the signed comparison the code applies to whole epochs compares the clocks
  whenever the thread ids agree.
\<close>

subsection \<open>The macros\<close>

definition TID :: "i32 \<Rightarrow> i32" where
  "TID x = drop_bit 24 (x AND 0xFF000000)"

definition CLOCK :: "i32 \<Rightarrow> i32" where
  "CLOCK x = x AND 0x00FFFFFF"

definition READ_SHARED :: i32 where
  "READ_SHARED = 0xEFFFFFFF"

text \<open>\<open>idx << 24\<close>: the epoch with clock 0 of a thread.\<close>

definition epoch0 :: "nat \<Rightarrow> i32" where
  "epoch0 idx = push_bit 24 (word_of_nat idx)"

definition mk_epoch :: "nat \<Rightarrow> nat \<Rightarrow> i32" where
  "mk_epoch t c = epoch0 t + word_of_nat c"

abbreviation tid_of :: "i32 \<Rightarrow> nat" where
  "tid_of x \<equiv> unat (TID x)"

abbreviation clock_of :: "i32 \<Rightarrow> nat" where
  "clock_of x \<equiv> unat (CLOCK x)"

subsection \<open>Unpacking in numbers\<close>

lemma unat_CLOCK: "unat (CLOCK x) = unat x mod 16777216"
proof -
  have "CLOCK x = take_bit 24 x"
    by (simp add: CLOCK_def take_bit_eq_mask mask_eq_exp_minus_1)
  then show ?thesis by (simp add: unsigned_take_bit_eq take_bit_eq_mod unat_mod_distrib)
qed

lemma TID_drop: "TID x = drop_bit 24 x"
proof (rule bit_word_eqI)
  fix n assume "n < LENGTH(32)"
  have upper: "(0xFF000000 :: i32) = push_bit 24 (mask 8)"
    by (simp add: push_bit_eq_mult mask_eq_exp_minus_1)
  show "bit (TID x) n \<longleftrightarrow> bit (drop_bit 24 x) n"
    unfolding TID_def upper by (auto simp: bit_simps dest: bit_imp_le_length)
qed

lemma unat_TID: "unat (TID x) = unat x div 16777216"
  by (simp add: TID_drop drop_bit_eq_div unat_div_distrib)

lemma unat_split: "unat x = tid_of x * 16777216 + clock_of x"
  by (simp add: unat_TID unat_CLOCK)

lemma tid_of_less: "tid_of x < 256"
proof -
  have "unat x < 4294967296" using unsigned_less [of x, where ?'a = nat] by simp
  then show ?thesis by (simp add: unat_TID)
qed

lemma clock_of_less: "clock_of x < 16777216"
  by (simp add: unat_CLOCK)

lemma epoch_eqI: "tid_of x = tid_of y \<Longrightarrow> clock_of x = clock_of y \<Longrightarrow> x = y"
  by (metis unat_split word_unat_eq_iff)

subsection \<open>Packing\<close>

lemma unat_mk_epoch: "t < 256 \<Longrightarrow> c < 16777216 \<Longrightarrow> unat (mk_epoch t c) = t * 16777216 + c"
  unfolding mk_epoch_def epoch0_def push_bit_eq_mult
  by (simp add: unat_word_ariths unat_of_nat)

lemma tid_of_mk [epoch_simps]: "t < 256 \<Longrightarrow> c < 16777216 \<Longrightarrow> tid_of (mk_epoch t c) = t"
  by (simp add: unat_TID unat_mk_epoch)

lemma clock_of_mk [epoch_simps]: "t < 256 \<Longrightarrow> c < 16777216 \<Longrightarrow> clock_of (mk_epoch t c) = c"
  by (simp add: unat_CLOCK unat_mk_epoch)

lemma mk_epoch_unpack: "mk_epoch (tid_of x) (clock_of x) = x"
  by (rule epoch_eqI) (simp_all add: epoch_simps tid_of_less clock_of_less)

lemma epoch0_mk: "epoch0 t = mk_epoch t 0"
  by (simp add: mk_epoch_def)

lemma mk_epoch_inject:
  assumes "t < 256" "c < 16777216" "t' < 256" "c' < 16777216"
  shows "mk_epoch t c = mk_epoch t' c' \<longleftrightarrow> t = t' \<and> c = c'"
  using assms by (metis tid_of_mk clock_of_mk)

lemma mk_epoch_Suc: "mk_epoch t c + 1 = mk_epoch t (Suc c)"
  by (simp add: mk_epoch_def add.assoc add.commute)

subsection \<open>Comparing epochs\<close>

lemma bit31_TID: "bit x 31 \<longleftrightarrow> bit (TID x) 7"
  by (simp add: TID_drop bit_simps)

lemma sle_same_tid:
  assumes "TID x = TID y"
  shows "x \<le>s y \<longleftrightarrow> clock_of x \<le> clock_of y"
proof -
  have "bit x 31 = bit y 31" using assms by (simp add: bit31_TID)
  then have "x \<le>s y \<longleftrightarrow> uint x \<le> uint y"
    by (simp add: word_sle_eq sint_as_uint)
  also have "\<dots> \<longleftrightarrow> unat x \<le> unat y"
    by (simp add: word_le_def [symmetric] word_le_nat_alt)
  also have "\<dots> \<longleftrightarrow> clock_of x \<le> clock_of y"
    using unat_split [of x] unat_split [of y] assms by simp
  finally show ?thesis .
qed

lemma sless_same_tid:
  assumes "TID x = TID y"
  shows "x <s y \<longleftrightarrow> clock_of x < clock_of y"
proof -
  have "x <s y \<longleftrightarrow> x \<le>s y \<and> x \<noteq> y"
    by (simp add: word_sless_alt word_sle_eq) (metis order_less_le signed_word_eqI)
  then show ?thesis
    using sle_same_tid [OF assms] assms epoch_eqI [of x y] by (auto simp: order_less_le)
qed

text \<open>\<open>CLOCK\<close> keeps the sign bit clear, so the code's \<open>int\<close> comparison of clocks is the
  comparison of the numbers.\<close>

lemma CLOCK_sless: "CLOCK x <s CLOCK y \<longleftrightarrow> clock_of x < clock_of y"
proof -
  have tid0: "TID (CLOCK z) = 0" for z
    by (simp add: word_unat_eq_iff unat_TID unat_CLOCK)
  have "clock_of (CLOCK z) = clock_of z" for z by (simp add: unat_CLOCK)
  then show ?thesis using sless_same_tid [of "CLOCK x" "CLOCK y"] tid0 by simp
qed

lemma READ_SHARED_parts: "tid_of READ_SHARED = 239" "clock_of READ_SHARED = 16777215"
  by (simp_all add: unat_TID unat_CLOCK READ_SHARED_def)

lemma mk_epoch_not_READ_SHARED:
  "t < 239 \<Longrightarrow> c < 16777216 \<Longrightarrow> mk_epoch t c \<noteq> READ_SHARED"
  using READ_SHARED_parts tid_of_mk [of t c] by auto

lemma not_READ_SHARED: "tid_of x < 239 \<Longrightarrow> x \<noteq> READ_SHARED"
  using READ_SHARED_parts by auto

subsection \<open>Properties\<close>

text \<open>
  C15: Thread ids below 256 and clocks below \<open>2^24\<close> fit: the macros read back what was packed, and
  the packed words of one thread compare as its clocks do.
\<close>

theorem epoch_roundtrip:
  assumes "t < 256" and "c < 16777216" and "c' < 16777216"
  shows "unat (TID (push_bit 24 (word_of_nat t) + word_of_nat c)) = t \<and>
    unat (CLOCK (push_bit 24 (word_of_nat t) + word_of_nat c)) = c \<and>
    (mk_epoch t c \<le>s mk_epoch t c' \<longleftrightarrow> c \<le> c')"
proof -
  note m = tid_of_mk [OF assms(1,2)] clock_of_mk [OF assms(1,2)]
  have "TID (mk_epoch t c) = TID (mk_epoch t c')"
    using assms by (simp add: word_unat_eq_iff epoch_simps)
  then have "mk_epoch t c \<le>s mk_epoch t c' \<longleftrightarrow> c \<le> c'"
    using assms by (simp add: sle_same_tid epoch_simps)
  with m show ?thesis by (simp add: mk_epoch_def epoch0_def)
qed

theorem epoch_roundtrip_witness:
  "unat (TID (push_bit 24 (word_of_nat 200) + word_of_nat 5)) = 200 \<and>
    unat (CLOCK (push_bit 24 (word_of_nat 200) + word_of_nat 5)) = 5 \<and>
    (mk_epoch 200 5 \<le>s mk_epoch 200 6 \<longleftrightarrow> (5 :: nat) \<le> 6)"
  by (rule epoch_roundtrip) simp_all

lemma full_clock_Suc:
  assumes "clock_of e = 16777215"
  shows "e + 1 = mk_epoch (Suc (tid_of e) mod 256) 0"
proof -
  have "(16777216 :: i32) = push_bit 24 1" by simp
  then have carry: "mk_epoch t 16777215 + 1 = mk_epoch (Suc t) 0" for t
    by (simp add: mk_epoch_def epoch0_def push_bit_add algebra_simps)
  have wrap: "mk_epoch 256 0 = mk_epoch 0 0"
    by (simp add: mk_epoch_def epoch0_def push_bit_eq_mult)
  have "e + 1 = mk_epoch (Suc (tid_of e)) 0"
    using carry [of "tid_of e"] mk_epoch_unpack [of e] assms by simp
  moreover have "Suc (tid_of e) < 256 \<or> Suc (tid_of e) = 256"
    using tid_of_less [of e] by arith
  ultimately show ?thesis using wrap by (metis mod_less mod_self)
qed

end
