(* ===== verification/Clocks.thy ===== *)
theory Clocks
  imports Epoch
begin

text \<open>
  Vector clocks (\<open>VectorClock\<close>, \<open>newVectorClock\<close>, \<open>ExtendVectorClock\<close> and
  \<open>ExtendVectorClocks\<close> of \<open>etsan/defs.h\<close>, and the join and copy loops of
  \<open>etsan/fasttrack.h\<close>). A clock is \<^emph>\<open>well formed\<close> when the entry at every index carries the
  thread id of that index; the loops keep that, and read as functions from thread ids to
  clock values they compute the pointwise maximum and the copy.
\<close>

type_synonym VectorClock = "i32 list"

subsection \<open>The operations\<close>

definition resize :: "VectorClock \<Rightarrow> nat \<Rightarrow> VectorClock" where
  "resize VC n = take n VC @ replicate (n - length VC) 0"

definition newVectorClock :: "VectorClock \<Rightarrow> nat \<Rightarrow> VectorClock" where
  "newVectorClock VC sz = fold (\<lambda>t vc. vc[t := epoch0 t]) [0..<sz] (resize VC sz)"

definition ExtendVectorClock :: "VectorClock \<Rightarrow> nat \<Rightarrow> VectorClock" where
  "ExtendVectorClock C totalThreads =
     fold (\<lambda>tid vc. vc @ [epoch0 tid]) [length C..<totalThreads] C"

definition ExtendVectorClocks :: "VectorClock \<Rightarrow> VectorClock \<Rightarrow> VectorClock \<times> VectorClock" where
  "ExtendVectorClocks C1 C2 =
     (let t_size = length C1; l_size = length C2; sz = max t_size l_size
      in (ExtendVectorClock C1 sz, ExtendVectorClock C2 sz))"

text \<open>\<open>std::max\<close> on \<open>int\<close>: the first argument unless it is smaller.\<close>

definition cmax :: "i32 \<Rightarrow> i32 \<Rightarrow> i32" where
  "cmax a b = (if a <s b then b else a)"

text \<open>\<open>for (i \<dots>) A[i] = std::max(A[i], B[i])\<close> and \<open>for (i \<dots>) A[i] = B[i]\<close>.\<close>

fun join_loop :: "nat list \<Rightarrow> VectorClock \<Rightarrow> VectorClock \<Rightarrow> VectorClock res" where
  "join_loop [] A B = Inr A"
| "join_loop (i # is) A B =
     bnd (vget A i) (\<lambda>a. bnd (vget B i) (\<lambda>b. bnd (vset A i (cmax a b)) (\<lambda>A'. join_loop is A' B)))"

fun copy_loop :: "nat list \<Rightarrow> VectorClock \<Rightarrow> VectorClock \<Rightarrow> VectorClock res" where
  "copy_loop [] A B = Inr A"
| "copy_loop (i # is) A B = bnd (vget B i) (\<lambda>b. bnd (vset A i b) (\<lambda>A'. copy_loop is A' B))"

subsection \<open>What they compute\<close>

lemma length_resize [simp]: "length (resize VC n) = n"
  by (simp add: resize_def)

lemma fold_update_nth:
  "fold (\<lambda>t vc. vc[t := f t]) [0..<n] xs = map f [0..<min n (length xs)] @ drop n xs"
proof (induction n)
  case 0
  then show ?case by simp
next
  case (Suc n)
  show ?case
  proof (cases "n < length xs")
    case True
    then have "drop n xs = xs ! n # drop (Suc n) xs" by (rule Cons_nth_drop_Suc [symmetric])
    with Suc True show ?thesis by (simp add: list_update_append min_def)
  next
    case False
    with Suc show ?thesis by (simp add: min_def list_update_beyond)
  qed
qed

lemma newVectorClock_eq: "newVectorClock VC n = map epoch0 [0..<n]"
  by (simp add: newVectorClock_def fold_update_nth)

lemma length_newVectorClock [simp]: "length (newVectorClock VC n) = n"
  by (simp add: newVectorClock_eq)

lemma fold_push_back: "fold (\<lambda>t vc. vc @ [f t]) ts xs = xs @ map f ts"
  by (induction ts arbitrary: xs) auto

lemma ExtendVectorClock_eq: "ExtendVectorClock C n = C @ map epoch0 [length C..<n]"
  by (simp add: ExtendVectorClock_def fold_push_back)

lemma length_ExtendVectorClock [simp]: "length (ExtendVectorClock C n) = max (length C) n"
  by (simp add: ExtendVectorClock_eq max_def)

lemma nth_ExtendVectorClock:
  "i < max (length C) n \<Longrightarrow>
    ExtendVectorClock C n ! i = (if i < length C then C ! i else epoch0 i)"
  by (auto simp: ExtendVectorClock_eq nth_append max_def split: if_splits)

lemma ExtendVectorClock_id [simp]: "n \<le> length C \<Longrightarrow> ExtendVectorClock C n = C"
  by (simp add: ExtendVectorClock_eq)

lemma ExtendVectorClocks_eq:
  "ExtendVectorClocks C1 C2 =
    (ExtendVectorClock C1 (length C2), ExtendVectorClock C2 (length C1))"
proof (cases "length C1 \<le> length C2")
  case True
  then show ?thesis by (simp add: ExtendVectorClocks_def max_absorb2)
next
  case False
  then show ?thesis by (simp add: ExtendVectorClocks_def max_absorb1)
qed

subsection \<open>The loops stay in range\<close>

lemma join_loop_total:
  assumes "distinct is" and "\<forall>i \<in> set is. i < length A \<and> i < length B"
  shows "join_loop is A B =
    Inr (map (\<lambda>i. if i \<in> set is then cmax (A ! i) (B ! i) else A ! i) [0..<length A])"
  using assms
proof (induction "is" arbitrary: A)
  case Nil
  then show ?case by (simp add: map_nth)
next
  case (Cons i "is")
  let ?A' = "A[i := cmax (A ! i) (B ! i)]"
  have "join_loop (i # is) A B = join_loop is ?A' B"
    using Cons.prems by (simp add: vec_simps)
  also have "\<dots> = Inr (map (\<lambda>j. if j \<in> set is then cmax (?A' ! j) (B ! j) else ?A' ! j)
      [0..<length ?A'])"
    using Cons.prems by (intro Cons.IH) auto
  also have "\<dots> = Inr (map (\<lambda>j. if j \<in> set (i # is) then cmax (A ! j) (B ! j) else A ! j)
      [0..<length A])"
    using Cons.prems by (auto simp: nth_list_update)
  finally show ?case .
qed

lemma copy_loop_total:
  assumes "\<forall>i \<in> set is. i < length A \<and> i < length B"
  shows "copy_loop is A B =
    Inr (map (\<lambda>i. if i \<in> set is then B ! i else A ! i) [0..<length A])"
  using assms
proof (induction "is" arbitrary: A)
  case Nil
  then show ?case by (simp add: map_nth)
next
  case (Cons i "is")
  let ?A' = "A[i := B ! i]"
  have "copy_loop (i # is) A B = copy_loop is ?A' B"
    using Cons.prems by (simp add: vec_simps)
  also have "\<dots> = Inr (map (\<lambda>j. if j \<in> set is then B ! j else ?A' ! j) [0..<length ?A'])"
    using Cons.prems by (intro Cons.IH) auto
  also have "\<dots> = Inr (map (\<lambda>j. if j \<in> set (i # is) then B ! j else A ! j) [0..<length A])"
    using Cons.prems by (auto simp: nth_list_update)
  finally show ?case .
qed

text \<open>On clocks of equal length the whole-vector loops are the pointwise maximum and the copy.\<close>

lemma join_loop_same_length:
  "length A = length B \<Longrightarrow>
    join_loop [0..<length B] A B = Inr (map2 cmax A B)"
  by (subst join_loop_total) (auto intro!: nth_equalityI)

lemma copy_loop_same_length:
  "length A = length B \<Longrightarrow> copy_loop [0..<length A] A B = Inr B"
  by (subst copy_loop_total) (auto intro!: nth_equalityI)

subsection \<open>Clocks as functions\<close>

text \<open>
  \<open>wf_clock C\<close>: the entry at index \<open>i\<close> has thread id \<open>i\<close>. \<open>clk C i\<close> is the clock that \<open>C\<close>
  holds for thread \<open>i\<close>, with 0 for a thread beyond its end: the value
  \<open>ExtendVectorClock\<close> would put there.
\<close>

definition wf_clock :: "VectorClock \<Rightarrow> bool" where
  "wf_clock C \<longleftrightarrow> (\<forall>i < length C. tid_of (C ! i) = i)"

definition clk :: "VectorClock \<Rightarrow> nat \<Rightarrow> nat" where
  "clk C i = (if i < length C then clock_of (C ! i) else 0)"

lemma wf_clockD: "wf_clock C \<Longrightarrow> i < length C \<Longrightarrow> tid_of (C ! i) = i"
  by (simp add: wf_clock_def)

lemma wf_clock_length: "wf_clock C \<Longrightarrow> length C \<le> 256"
  using tid_of_less by (metis not_less wf_clockD less_irrefl)

lemma clk_less: "clk C i < 16777216"
  by (simp add: clk_def clock_of_less)

lemma epoch0_parts [epoch_simps]: "t < 256 \<Longrightarrow> tid_of (epoch0 t) = t"
  "t < 256 \<Longrightarrow> clock_of (epoch0 t) = 0"
  by (simp_all add: epoch0_mk epoch_simps)

lemma wf_clock_nth: "wf_clock C \<Longrightarrow> i < length C \<Longrightarrow> C ! i = mk_epoch i (clk C i)"
  by (metis clk_def mk_epoch_unpack wf_clockD)

lemma wf_newVectorClock: "n \<le> 256 \<Longrightarrow> wf_clock (newVectorClock VC n)"
  by (simp add: wf_clock_def newVectorClock_eq epoch_simps)

lemma clk_newVectorClock: "n \<le> 256 \<Longrightarrow> clk (newVectorClock VC n) i = 0"
  by (simp add: clk_def newVectorClock_eq epoch_simps)

lemma wf_ExtendVectorClock: "wf_clock C \<Longrightarrow> n \<le> 256 \<Longrightarrow> wf_clock (ExtendVectorClock C n)"
  using wf_clock_length [of C] by (auto simp: wf_clock_def nth_ExtendVectorClock epoch_simps)

lemma clk_ExtendVectorClock: "n \<le> 256 \<Longrightarrow> clk (ExtendVectorClock C n) i = clk C i"
  by (auto simp: clk_def nth_ExtendVectorClock epoch_simps)

lemma clk_list_update:
  "i < length C \<Longrightarrow> clk (C[i := v]) j = (if j = i then clock_of v else clk C j)"
  by (simp add: clk_def)

lemma wf_list_update:
  "wf_clock C \<Longrightarrow> tid_of v = i \<Longrightarrow> wf_clock (C[i := v])"
  unfolding wf_clock_def by (metis length_list_update nth_list_update_eq nth_list_update_neq)

lemma cmax_same_tid:
  "TID a = TID b \<Longrightarrow> tid_of (cmax a b) = tid_of a \<and> clock_of (cmax a b) = max (clock_of a) (clock_of b)"
  by (auto simp: cmax_def sless_same_tid max_def)

lemma map2_cmax:
  assumes "wf_clock A" "wf_clock B" "length A = length B"
  shows "wf_clock (map2 cmax A B)" "clk (map2 cmax A B) i = max (clk A i) (clk B i)"
proof -
  have "TID (A ! j) = TID (B ! j)" if "j < length B" for j
    using assms that by (simp add: word_unat_eq_iff wf_clockD)
  then show "wf_clock (map2 cmax A B)" "clk (map2 cmax A B) i = max (clk A i) (clk B i)"
    using assms by (auto simp: wf_clock_def clk_def cmax_same_tid)
qed

text \<open>The statements shared by \<open>ft_acquire\<close>, \<open>ft_fork\<close> and \<open>ft_join\<close>: extend both clocks, then
  join the second into the first.\<close>

definition ext_join :: "VectorClock \<Rightarrow> VectorClock \<Rightarrow> VectorClock" where
  "ext_join A B = map2 cmax (ExtendVectorClock A (length B)) (ExtendVectorClock B (length A))"

lemma length_ext_join [simp]: "length (ext_join A B) = max (length A) (length B)"
  by (simp add: ext_join_def max.commute)

lemma wf_ext_join: "wf_clock A \<Longrightarrow> wf_clock B \<Longrightarrow> wf_clock (ext_join A B)"
  unfolding ext_join_def
  by (rule map2_cmax) (auto simp: wf_ExtendVectorClock wf_clock_length max.commute)

lemma clk_ext_join:
  "wf_clock A \<Longrightarrow> wf_clock B \<Longrightarrow> clk (ext_join A B) i = max (clk A i) (clk B i)"
  unfolding ext_join_def
  by (subst map2_cmax)
    (auto simp: wf_ExtendVectorClock wf_clock_length clk_ExtendVectorClock max.commute)

lemma join_loop_ext:
  "join_loop [0..<max (length A) (length B)]
      (ExtendVectorClock A (length B)) (ExtendVectorClock B (length A)) = Inr (ext_join A B)"
  using join_loop_same_length [of "ExtendVectorClock A (length B)" "ExtendVectorClock B (length A)"]
  by (simp add: ext_join_def max.commute)

lemma copy_loop_ext:
  "copy_loop [0..<max (length A) (length B)]
      (ExtendVectorClock B (length A)) (ExtendVectorClock A (length B)) =
    Inr (ExtendVectorClock A (length B))"
  using copy_loop_same_length [of "ExtendVectorClock B (length A)" "ExtendVectorClock A (length B)"]
  by (simp add: max.commute)

subsection \<open>Properties\<close>

text \<open>
  Extending two well-formed clocks of any lengths and joining the second into the first never
  leaves a vector, keeps the clock well formed and computes the pointwise maximum; the second
  clock keeps its values.
\<close>

lemma extend_and_join:
  assumes "wf_clock A" and "wf_clock B"
  shows "\<exists>J. (let (A', B') = ExtendVectorClocks A B in join_loop [0..<length B'] A' B') = Inr J \<and>
    wf_clock J \<and> length J = max (length A) (length B) \<and> (\<forall>i. clk J i = max (clk A i) (clk B i)) \<and>
    (\<forall>i. clk (snd (ExtendVectorClocks A B)) i = clk B i)"
  using join_loop_ext [of A B] wf_ext_join [OF assms] clk_ext_join [OF assms] wf_clock_length [OF assms(1)]
  by (simp add: ExtendVectorClocks_eq clk_ExtendVectorClock max.commute)

end
