(* ===== verification/Runtime.thy ===== *)
theory Runtime
  imports Clocks
begin

text \<open>
  The metadata of the race detection runtime (\<open>etsan/defs.h\<close>): the states of threads,
  variables and locks, the global tables \<open>TS\<close>, \<open>VS\<close> and \<open>LS\<close>, and the functions that find
  an entry or create it. The mutexes of the tables have no state here: each function below runs
  between a \<open>lock()\<close> and an \<open>unlock()\<close> and is one step of the model.
\<close>

subsection \<open>Threads\<close>

record ThreadState =
  ts_tid :: i32
  ts_C :: VectorClock
  ts_epoch :: i32

definition ThreadState_init :: ThreadState where
  "ThreadState_init = \<lparr>ts_tid = 0, ts_C = [], ts_epoch = 0\<rparr>"

definition updateEpoch :: "ThreadState \<Rightarrow> ThreadState res" where
  "updateEpoch t = bnd (vget (ts_C t) (unat (ts_tid t))) (\<lambda>e. Inr (t\<lparr>ts_epoch := e\<rparr>))"

text \<open>\<open>epoch\<close> is an \<open>int\<close>: \<open>epoch++\<close> is undefined on the largest one.\<close>

abbreviation INT_MAX :: i32 where
  "INT_MAX \<equiv> 0x7FFFFFFF"

definition increment :: "ThreadState \<Rightarrow> ThreadState res" where
  "increment t =
     (if ts_epoch t = INT_MAX then Inl SignedOverflow
      else let e = ts_epoch t + 1
        in bnd (vset (ts_C t) (unat (ts_tid t)) e) (\<lambda>C'. Inr (t\<lparr>ts_epoch := e, ts_C := C'\<rparr>)))"

subsection \<open>Variables and locks\<close>

record VarState =
  vs_W :: i32
  vs_R :: i32
  vs_Rvc :: VectorClock
  vs_Racy :: bool

record LockState =
  ls_L :: VectorClock

subsection \<open>The global state\<close>

text \<open>
  \<open>TS\<close>, \<open>VS\<close> and \<open>LS\<close> are the objects of the same names (\<open>TS.C\<close>, \<open>VS.Vstates\<close> and \<open>LS.L\<close> are
  \<open>TS_C\<close>, \<open>Vstates\<close> and \<open>LS_L\<close>), \<open>NumThreads\<close> and \<open>isConcurrent\<close> the global counters.
\<close>

record rt =
  TS_C :: "(ThreadID \<times> ThreadState) list"
  NumThreads :: i32
  isConcurrent :: i32
  Vstates :: "(Address \<times> VarState) list"
  VS_reads :: i32
  VS_writes :: i32
  LS_L :: "(Address \<times> LockState) list"

definition rt_init :: rt where
  "rt_init = \<lparr>TS_C = [], NumThreads = 0, isConcurrent = 0, Vstates = [], VS_reads = 0,
     VS_writes = 0, LS_L = []\<rparr>"

definition thread_of :: "rt \<Rightarrow> ThreadID \<Rightarrow> ThreadState option" where
  "thread_of s k = map_of (TS_C s) k"

definition var_of :: "rt \<Rightarrow> Address \<Rightarrow> VarState option" where
  "var_of s a = map_of (Vstates s) a"

definition lock_of :: "rt \<Rightarrow> Address \<Rightarrow> LockState option" where
  "lock_of s l = map_of (LS_L s) l"

definition put_thread :: "ThreadID \<Rightarrow> ThreadState \<Rightarrow> rt \<Rightarrow> rt" where
  "put_thread k t s = s\<lparr>TS_C := AList.update k t (TS_C s)\<rparr>"

definition put_var :: "Address \<Rightarrow> VarState \<Rightarrow> rt \<Rightarrow> rt" where
  "put_var a x s = s\<lparr>Vstates := AList.update a x (Vstates s)\<rparr>"

definition put_lock :: "Address \<Rightarrow> LockState \<Rightarrow> rt \<Rightarrow> rt" where
  "put_lock l m s = s\<lparr>LS_L := AList.update l m (LS_L s)\<rparr>"

subsection \<open>Finding an entry or creating it\<close>

text \<open>The inner loop of \<open>UpdateThreadClocks\<close>: the entries that are pushed to one clock.\<close>

definition pushed_epoch :: "ThreadState \<Rightarrow> nat \<Rightarrow> i32" where
  "pushed_epoch t idx =
     (let epoch = epoch0 idx in if unat (ts_tid t) = idx then epoch + 1 else epoch)"

definition UpdateThreadClocks_one :: "nat \<Rightarrow> ThreadState \<Rightarrow> ThreadState" where
  "UpdateThreadClocks_one nThreads t =
     t\<lparr>ts_C := fold (\<lambda>idx vc. vc @ [pushed_epoch t idx]) [length (ts_C t)..<nThreads] (ts_C t)\<rparr>"

definition UpdateThreadClocks :: "rt \<Rightarrow> rt" where
  "UpdateThreadClocks s =
     (let nThreads = length (TS_C s)
      in s\<lparr>TS_C := map (\<lambda>(k, t). (k, UpdateThreadClocks_one nThreads t)) (TS_C s)\<rparr>)"

text \<open>
  The branch of \<open>getState\<close> for an unknown thread. After \<open>UpdateThreadClocks\<close> the new clock has
  \<open>TS.C.size()\<close> entries, and \<open>st->tid\<close> is \<open>TS.C.size()\<close> too: the assignment
  \<open>( st->C )[ st->tid ] = st->epoch\<close> is a write through \<open>vset\<close> like every other.
\<close>

definition getState_new :: "ThreadID \<Rightarrow> rt \<Rightarrow> (ThreadState \<times> rt) res" where
  "getState_new k s =
     (let s1 = put_thread k ThreadState_init s;
          n = word_of_nat (length (TS_C s1));
          st = ThreadState_init\<lparr>ts_tid := n, ts_epoch := push_bit 24 n + 1\<rparr>;
          s2 = UpdateThreadClocks (put_thread k st (s1\<lparr>NumThreads := n\<rparr>));
          st2 = the (thread_of s2 k)
      in bnd (vset (ts_C st2) (unat (ts_tid st2)) (ts_epoch st2)) (\<lambda>C'.
           let st3 = st2\<lparr>ts_C := C'\<rparr>; s3 = put_thread k st3 s2
           in Inr (st3, s3\<lparr>NumThreads := word_of_nat (length (TS_C s3)) + 1\<rparr>)))"

definition getState :: "ThreadID \<Rightarrow> rt \<Rightarrow> (ThreadState \<times> rt) res" where
  "getState k s = (case thread_of s k of None \<Rightarrow> getState_new k s | Some st \<Rightarrow> Inr (st, s))"

text \<open>\<open>getThreadState()\<close>; \<open>self\<close> is \<open>(ThreadID) pthread_self()\<close>.\<close>

definition getThreadState :: "ThreadID \<Rightarrow> rt \<Rightarrow> (ThreadState \<times> rt) res" where
  "getThreadState self s = getState self s"

definition VarState_new :: "ThreadState \<Rightarrow> bool \<Rightarrow> VarState" where
  "VarState_new t isWrite =
     (let vs = \<lparr>vs_W = push_bit 24 (ts_tid t), vs_R = push_bit 24 (ts_tid t), vs_Rvc = [],
            vs_Racy = False\<rparr>
      in if isWrite then vs\<lparr>vs_W := ts_epoch t\<rparr> else vs\<lparr>vs_R := ts_epoch t\<rparr>)"

definition getVarState :: "ThreadID \<Rightarrow> Address \<Rightarrow> bool \<Rightarrow> rt \<Rightarrow> (VarState \<times> rt) res" where
  "getVarState self addr isWrite s =
     (case var_of s addr of
        None \<Rightarrow> bnd (getThreadState self s) (\<lambda>(t, s1).
           let vs = VarState_new t isWrite in Inr (vs, put_var addr vs s1))
      | Some vstt \<Rightarrow> Inr (vstt, s))"

definition getLockState :: "Address \<Rightarrow> rt \<Rightarrow> (LockState \<times> rt) res" where
  "getLockState lock s =
     (case lock_of s lock of
        None \<Rightarrow>
          let m = \<lparr>ls_L = newVectorClock [] (unat (NumThreads s))\<rparr>
          in Inr (m, put_lock lock m s)
      | Some m \<Rightarrow> Inr (m, s))"

text \<open>The numbers the destructors of the tables print.\<close>

definition TStates_stats :: "rt \<Rightarrow> nat" where
  "TStates_stats s = length (TS_C s)"

definition VStates_stats :: "rt \<Rightarrow> nat \<times> i32 \<times> i32 \<times> nat" where
  "VStates_stats s =
     (length (Vstates s), VS_reads s, VS_writes s,
      fold (\<lambda>(a, x) races. if vs_Racy x then races + 1 else races) (Vstates s) 0)"

definition LStates_stats :: "rt \<Rightarrow> nat" where
  "LStates_stats s = length (LS_L s)"

subsection \<open>Lookups after updates\<close>

lemma INT_MAX_parts: "tid_of INT_MAX = 127" "clock_of INT_MAX = 16777215"
  by (simp_all add: unat_TID unat_CLOCK)

named_theorems rt_simps \<open>projections of the runtime state\<close>

lemma put_thread_simps [simp, rt_simps]:
  "thread_of (put_thread k t s) = (thread_of s)(k \<mapsto> t)"
  "var_of (put_thread k t s) = var_of s"
  "lock_of (put_thread k t s) = lock_of s"
  "NumThreads (put_thread k t s) = NumThreads s"
  "isConcurrent (put_thread k t s) = isConcurrent s"
  "Vstates (put_thread k t s) = Vstates s"
  "LS_L (put_thread k t s) = LS_L s"
  "keys_of (TS_C (put_thread k t s)) = insert k (keys_of (TS_C s))"
  by (auto simp: put_thread_def thread_of_def var_of_def lock_of_def fun_eq_iff)

lemma put_var_simps [simp, rt_simps]:
  "var_of (put_var a x s) = (var_of s)(a \<mapsto> x)"
  "thread_of (put_var a x s) = thread_of s"
  "lock_of (put_var a x s) = lock_of s"
  "NumThreads (put_var a x s) = NumThreads s"
  "isConcurrent (put_var a x s) = isConcurrent s"
  "TS_C (put_var a x s) = TS_C s"
  "LS_L (put_var a x s) = LS_L s"
  by (auto simp: put_var_def thread_of_def var_of_def lock_of_def fun_eq_iff)

lemma put_lock_simps [simp, rt_simps]:
  "lock_of (put_lock l m s) = (lock_of s)(l \<mapsto> m)"
  "thread_of (put_lock l m s) = thread_of s"
  "var_of (put_lock l m s) = var_of s"
  "NumThreads (put_lock l m s) = NumThreads s"
  "isConcurrent (put_lock l m s) = isConcurrent s"
  "TS_C (put_lock l m s) = TS_C s"
  "Vstates (put_lock l m s) = Vstates s"
  by (auto simp: put_lock_def thread_of_def var_of_def lock_of_def fun_eq_iff)

lemma thread_of_None_iff: "thread_of s k = None \<longleftrightarrow> k \<notin> keys_of (TS_C s)"
  by (simp add: thread_of_def map_of_None_iff)

lemma counters_simps [simp, rt_simps]:
  "thread_of (s\<lparr>NumThreads := n\<rparr>) = thread_of s"
  "var_of (s\<lparr>NumThreads := n\<rparr>) = var_of s"
  "lock_of (s\<lparr>NumThreads := n\<rparr>) = lock_of s"
  "thread_of (s\<lparr>isConcurrent := c\<rparr>) = thread_of s"
  "var_of (s\<lparr>isConcurrent := c\<rparr>) = var_of s"
  "lock_of (s\<lparr>isConcurrent := c\<rparr>) = lock_of s"
  "thread_of (s\<lparr>VS_reads := c\<rparr>) = thread_of s"
  "var_of (s\<lparr>VS_reads := c\<rparr>) = var_of s"
  "lock_of (s\<lparr>VS_reads := c\<rparr>) = lock_of s"
  "thread_of (s\<lparr>VS_writes := c\<rparr>) = thread_of s"
  "var_of (s\<lparr>VS_writes := c\<rparr>) = var_of s"
  "lock_of (s\<lparr>VS_writes := c\<rparr>) = lock_of s"
  by (auto simp: thread_of_def var_of_def lock_of_def fun_eq_iff)

lemma thread_of_UpdateThreadClocks:
  "thread_of (UpdateThreadClocks s) k =
     map_option (UpdateThreadClocks_one (length (TS_C s))) (thread_of s k)"
  by (simp add: UpdateThreadClocks_def thread_of_def Let_def map_of_map)

lemma UpdateThreadClocks_simps [simp, rt_simps]:
  "Vstates (UpdateThreadClocks s) = Vstates s"
  "LS_L (UpdateThreadClocks s) = LS_L s"
  "keys_of (TS_C (UpdateThreadClocks s)) = keys_of (TS_C s)"
  by (force simp: UpdateThreadClocks_def Let_def)+

lemma length_UpdateThreadClocks_one:
  "length (ts_C (UpdateThreadClocks_one n t)) = max (length (ts_C t)) n"
  by (simp add: UpdateThreadClocks_one_def fold_push_back max_def)

lemma UpdateThreadClocks_one_tid [simp]:
  "ts_tid (UpdateThreadClocks_one n t) = ts_tid t"
  "ts_epoch (UpdateThreadClocks_one n t) = ts_epoch t"
  by (simp_all add: UpdateThreadClocks_one_def)

text \<open>The clock of a new thread has one entry too few for the thread's own id.\<close>

lemma getState_new_write:
  assumes new: "thread_of s k = None" and few: "Suc (length (TS_C s)) < 4294967296"
  shows "getState_new k s =
    Inl (OutOfRange (Suc (length (TS_C s))) (Suc (length (TS_C s))))"
proof -
  let ?n = "Suc (length (TS_C s))"
  let ?st = "ThreadState_init\<lparr>ts_tid := word_of_nat ?n, ts_epoch := push_bit 24 (word_of_nat ?n) + 1\<rparr>"
  define s1 where "s1 = put_thread k ThreadState_init s"
  define s2 where "s2 = put_thread k ?st (s1\<lparr>NumThreads := word_of_nat ?n\<rparr>)"
  have len1: "length (TS_C s1) = ?n"
    using new by (simp add: s1_def put_thread_def length_update_new thread_of_None_iff)
  have len2: "length (TS_C s2) = ?n"
    using new
    by (simp add: s2_def s1_def put_thread_def length_update_new thread_of_None_iff)
  have st2: "thread_of (UpdateThreadClocks s2) k = Some (UpdateThreadClocks_one ?n ?st)"
    by (simp add: thread_of_UpdateThreadClocks len2) (simp add: s2_def)
  have "unat (word_of_nat ?n :: i32) = ?n"
    using few by (simp add: unat_of_nat del: of_nat_Suc)
  moreover have "length (ts_C (UpdateThreadClocks_one ?n ?st)) = ?n"
    by (simp add: length_UpdateThreadClocks_one ThreadState_init_def)
  ultimately have "vset (ts_C (UpdateThreadClocks_one ?n ?st))
      (unat (ts_tid (UpdateThreadClocks_one ?n ?st))) (ts_epoch (UpdateThreadClocks_one ?n ?st)) =
      Inl (OutOfRange ?n ?n)"
    by (simp add: vset_def del: of_nat_Suc)
  then show ?thesis
    unfolding getState_new_def Let_def s1_def [symmetric] len1 s2_def [symmetric] st2 option.sel
    by simp
qed

lemma getState_new_frame:
  assumes "getState_new k s = Inr (t, s')"
  shows "thread_of s' k = Some t" "Vstates s' = Vstates s" "LS_L s' = LS_L s"
    "thread_of s j \<noteq> None \<Longrightarrow> thread_of s' j \<noteq> None"
  using assms
  by (auto simp: getState_new_def Let_def bnd_eq_Inr_iff thread_of_UpdateThreadClocks
      split: if_splits)

subsection \<open>The find-or-create interface\<close>

text \<open>
  \<open>getState\<close>, \<open>getVarState\<close> and \<open>getLockState\<close> share one contract: an existing entry is returned
  and nothing changes; after a call the entry is in the table; no entry disappears. The
  callbacks of \<open>tsan_interface.cc\<close> fetch two entries as the arguments of one call, in an order C++
  does not fix; the contract makes the order irrelevant when both exist.
\<close>

locale registry =
  fixes find :: "'s \<Rightarrow> 'k \<Rightarrow> 'v option"
    and get :: "'k \<Rightarrow> 's \<Rightarrow> ('v \<times> 's) res"
  assumes get_found: "find s k = Some v \<Longrightarrow> get k s = Inr (v, s)"
    and get_present: "get k s = Inr (v, s') \<Longrightarrow> find s' k = Some v"
    and get_keeps: "get k s = Inr (v, s') \<Longrightarrow> find s j \<noteq> None \<Longrightarrow> find s' j \<noteq> None"
begin

lemma get_again: "get k s = Inr (v, s') \<Longrightarrow> get k s' = Inr (v, s')"
  by (rule get_found) (rule get_present)

lemma get_other_total:
  assumes "get k s = Inr (v, s')" and "find s j = Some w"
  obtains w' where "get j s' = Inr (w', s')"
  using get_keeps [OF assms(1), of j] assms(2) get_found by fastforce

lemma get_two:
  "find s k = Some v \<Longrightarrow> find s j = Some w \<Longrightarrow>
    bnd (get k s) (\<lambda>(a, s1). bnd (get j s1) (\<lambda>(b, s2). f a b s2)) = f v w s"
  by (simp add: get_found)

lemma get_order:
  assumes "find s k = Some v" and "find s j = Some w"
  shows "bnd (get k s) (\<lambda>(a, s1). bnd (get j s1) (\<lambda>(b, s2). f a b s2)) =
    bnd (get j s) (\<lambda>(b, s1). bnd (get k s1) (\<lambda>(a, s2). f a b s2))"
  using assms by (simp add: get_found)

end

lemma getState_found: "thread_of s k = Some t \<Longrightarrow> getState k s = Inr (t, s)"
  by (simp add: getState_def)

interpretation threads: registry thread_of getState
proof
  show "getState k s = Inr (v, s') \<Longrightarrow> thread_of s' k = Some v" for k s v s'
    by (auto simp: getState_def dest: getState_new_frame(1) split: option.splits)
  show "getState k s = Inr (v, s') \<Longrightarrow> thread_of s j \<noteq> None \<Longrightarrow> thread_of s' j \<noteq> None" for k s v s' j
    using getState_new_frame(4) [of k s v s' j] by (auto simp: getState_def split: option.splits)
qed (rule getState_found)

lemma getState_frame:
  assumes "getState k s = Inr (t, s')"
  shows "Vstates s' = Vstates s" "LS_L s' = LS_L s"
  using assms by (auto simp: getState_def dest: getState_new_frame(2,3) split: option.splits)

lemma getState_var_of: "getState k s = Inr (t, s') \<Longrightarrow> var_of s' = var_of s"
  by (auto simp: var_of_def fun_eq_iff dest: getState_frame(1))

interpretation vars: registry var_of "\<lambda>a. getVarState self a isWrite" for self isWrite
proof
  show "var_of s k = Some v \<Longrightarrow> getVarState self k isWrite s = Inr (v, s)" for s k v
    by (simp add: getVarState_def)
  show "getVarState self k isWrite s = Inr (v, s') \<Longrightarrow> var_of s' k = Some v" for k s v s'
    by (auto simp: getVarState_def Let_def bnd_eq_Inr_iff split: option.splits)
  show "getVarState self k isWrite s = Inr (v, s') \<Longrightarrow> var_of s j \<noteq> None \<Longrightarrow> var_of s' j \<noteq> None"
    for k s v s' j
    by (auto simp: getVarState_def Let_def bnd_eq_Inr_iff getThreadState_def
        dest: getState_var_of split: option.splits)
qed

interpretation locks: registry lock_of getLockState
  by unfold_locales (auto simp: getLockState_def Let_def split: option.splits if_splits)

lemma getVarState_found: "var_of s a = Some x \<Longrightarrow> getVarState self a w s = Inr (x, s)"
  by (rule vars.get_found)

lemma getVarState_new:
  "var_of s a = None \<Longrightarrow> thread_of s self = Some t \<Longrightarrow>
    getVarState self a w s = Inr (VarState_new t w, put_var a (VarState_new t w) s)"
  by (simp add: getVarState_def getThreadState_def getState_found Let_def)

lemma getLockState_found: "lock_of s l = Some m \<Longrightarrow> getLockState l s = Inr (m, s)"
  by (rule locks.get_found)

lemma getLockState_new:
  "lock_of s l = None \<Longrightarrow>
    getLockState l s = Inr (\<lparr>ls_L = newVectorClock [] (unat (NumThreads s))\<rparr>,
      put_lock l \<lparr>ls_L = newVectorClock [] (unat (NumThreads s))\<rparr> s)"
  by (simp add: getLockState_def Let_def)

subsection \<open>Properties\<close>

text \<open>
  C5: The first call of \<open>getState\<close> for a thread writes one past the end of that thread's new clock:
  after \<open>UpdateThreadClocks\<close> the clock has as many entries as there are threads, and the thread's id is
  that number.
\<close>

theorem new_thread_write_out_of_range:
  assumes "thread_of s k = None" and "Suc (length (TS_C s)) < 4294967296"
  shows "getState k s = Inl (OutOfRange (Suc (length (TS_C s))) (Suc (length (TS_C s))))"
  using getState_new_write [OF assms] assms(1) by (simp add: getState_def)

theorem new_thread_write_out_of_range_witness: "getState 11 rt_init = Inl (OutOfRange 1 1)"
  using new_thread_write_out_of_range [of rt_init 11] by (simp add: rt_init_def thread_of_def)

text \<open>
  C16: \<open>ThreadState::increment\<close> has no guard against the 24 bits of the clock. On a full clock it makes the
  first epoch of the next thread id (of thread 0 after 255) the thread's own epoch and clock entry, except for
  thread 127: its full clock is the largest \<open>int\<close>, and incrementing that is undefined. The epoch of thread 239
  with a full clock is the marker \<open>READ_SHARED\<close>.
\<close>

theorem clock_overflow:
  assumes "unat (ts_tid t) < length (ts_C t)" and "clock_of (ts_epoch t) = 16777215"
  shows "(if tid_of (ts_epoch t) = 127 then increment t = Inl SignedOverflow
      else \<exists>t'. increment t = Inr t' \<and> tid_of (ts_epoch t') = Suc (tid_of (ts_epoch t)) mod 256 \<and>
        clock_of (ts_epoch t') = 0 \<and> ts_tid t' = ts_tid t \<and> ts_C t' = (ts_C t)[unat (ts_tid t) := ts_epoch t']) \<and>
    (tid_of (ts_epoch t) = 239 \<longleftrightarrow> ts_epoch t = READ_SHARED)"
proof -
  have "tid_of (ts_epoch t) = 239 \<longleftrightarrow> ts_epoch t = READ_SHARED"
    using assms(2) READ_SHARED_parts epoch_eqI by metis
  moreover have "tid_of (ts_epoch t) = 127 \<longleftrightarrow> ts_epoch t = INT_MAX"
    using assms(2) INT_MAX_parts epoch_eqI by metis
  moreover have "Suc (tid_of (ts_epoch t)) mod 256 < 256" by simp
  ultimately show ?thesis using assms full_clock_Suc [OF assms(2)]
    by (simp add: increment_def vset_def epoch_simps Let_def)
qed

theorem clock_overflow_witness:
  "(\<exists>t'. increment \<lparr>ts_tid = 0, ts_C = [16777215], ts_epoch = 16777215\<rparr> = Inr t' \<and>
      tid_of (ts_epoch t') = 1 \<and> clock_of (ts_epoch t') = 0) \<and>
    increment \<lparr>ts_tid = 0, ts_C = [INT_MAX], ts_epoch = INT_MAX\<rparr> = Inl SignedOverflow"
proof -
  let ?t = "\<lparr>ts_tid = 0, ts_C = [16777215], ts_epoch = 16777215\<rparr> :: ThreadState"
  let ?u = "\<lparr>ts_tid = 0, ts_C = [INT_MAX], ts_epoch = INT_MAX\<rparr> :: ThreadState"
  have "unat (ts_tid ?t) < length (ts_C ?t)" "clock_of (ts_epoch ?t) = 16777215"
    "tid_of (ts_epoch ?t) = 0" by (simp_all add: unat_TID unat_CLOCK)
  moreover have "unat (ts_tid ?u) < length (ts_C ?u)" by simp
  ultimately show ?thesis using clock_overflow [of ?t] clock_overflow [of ?u] INT_MAX_parts by auto
qed

end
