(* ===== verification/FastTrack.thy ===== *)
theory FastTrack
  imports Runtime
begin

text \<open>
  The FastTrack rules of \<open>etsan/fasttrack.h\<close>. The references \<open>x\<close>, \<open>t\<close>, \<open>u\<close> and \<open>lock\<close> of the
  code are arguments and results here: a function takes the objects' values and returns the new
  ones, and the caller stores them back. Every \<open>operator[]\<close> goes through \<open>vget\<close> or \<open>vset\<close>, so
  an index past the end of a clock is a fault of the whole call.
\<close>

subsection \<open>Reads\<close>

text \<open>\<open>TID(e) != t.tid && CLOCK(e) > CLOCK( t.C[TID(e)] )\<close>; the clock is read only when the ids
  differ.\<close>

definition epoch_races :: "i32 \<Rightarrow> ThreadState \<Rightarrow> bool res" where
  "epoch_races e t =
     (if TID e \<noteq> ts_tid t
      then bnd (vget (ts_C t) (unat (TID e))) (\<lambda>c. Inr (CLOCK c <s CLOCK e))
      else Inr False)"

text \<open>The last part of \<open>ft_read\<close>: the update of the read state.\<close>

definition ft_read_update :: "VarState \<Rightarrow> ThreadState \<Rightarrow> nat \<Rightarrow> VarState res" where
  "ft_read_update x t numThreads =
     (if vs_R x = READ_SHARED
      then bnd (vset (vs_Rvc x) (unat (ts_tid t)) (ts_epoch t)) (\<lambda>v. Inr (x\<lparr>vs_Rvc := v\<rparr>))
      else bnd (vget (ts_C t) (unat (TID (vs_R x)))) (\<lambda>c.
        if vs_R x \<le>s c then Inr (x\<lparr>vs_R := ts_epoch t\<rparr>)
        else
          let v0 = (if length (vs_Rvc x) = 0 then newVectorClock (vs_Rvc x) numThreads
                    else vs_Rvc x)
          in bnd (vset v0 (unat (TID (vs_R x))) (vs_R x)) (\<lambda>v1.
             bnd (vset v1 (unat (ts_tid t)) (ts_epoch t)) (\<lambda>v2.
             Inr (x\<lparr>vs_Rvc := v2, vs_R := READ_SHARED\<rparr>)))))"

definition ft_read :: "VarState \<Rightarrow> ThreadState \<Rightarrow> rt \<Rightarrow> (bool \<times> VarState \<times> rt) res" where
  "ft_read x t s =
     (let s' = s\<lparr>VS_reads := VS_reads s + 1\<rparr>
      in if vs_Racy x then Inr (False, x, s')
         else if vs_R x = ts_epoch t then Inr (False, x, s')
         else bnd (epoch_races (vs_W x) t) (\<lambda>reportIsRacy.
              bnd (ft_read_update x t (unat (NumThreads s'))) (\<lambda>x'.
              Inr (reportIsRacy, x', s'))))"

subsection \<open>Writes\<close>

text \<open>The loop of a write to a read-shared variable.\<close>

fun shared_loop :: "nat list \<Rightarrow> VectorClock \<Rightarrow> VectorClock \<Rightarrow> bool \<Rightarrow> bool res" where
  "shared_loop [] Rvc C reportIsRacy = Inr reportIsRacy"
| "shared_loop (u # us) Rvc C reportIsRacy =
     bnd (vget Rvc u) (\<lambda>r. bnd (vget C u) (\<lambda>c.
       shared_loop us Rvc C (if c <s r then True else reportIsRacy)))"

definition ft_write :: "VarState \<Rightarrow> ThreadState \<Rightarrow> rt \<Rightarrow> (bool \<times> VarState \<times> rt) res" where
  "ft_write x t s =
     (let s' = s\<lparr>VS_writes := VS_writes s + 1\<rparr>
      in if vs_Racy x then Inr (False, x, s')
         else if vs_W x = ts_epoch t then Inr (False, x, s')
         else bnd (epoch_races (vs_W x) t) (\<lambda>ww.
              bnd (if vs_R x \<noteq> READ_SHARED
                   then bnd (epoch_races (vs_R x) t) (\<lambda>rw. Inr (ww \<or> rw, x))
                   else bnd (shared_loop [0..<min (length (vs_Rvc x)) (length (ts_C t))]
                               (vs_Rvc x) (ts_C t) ww) (\<lambda>r.
                        Inr (r, x\<lparr>vs_R := push_bit 24 (TID (ts_epoch t))\<rparr>))) (\<lambda>(r, x1).
              Inr (r, x1\<lparr>vs_W := ts_epoch t\<rparr>, s'))))"

subsection \<open>Synchronisation\<close>

definition ft_acquire :: "ThreadState \<Rightarrow> LockState \<Rightarrow> (ThreadState \<times> LockState) res" where
  "ft_acquire t lock =
     (let (tC, L) = ExtendVectorClocks (ts_C t) (ls_L lock)
      in bnd (join_loop [0..<length L] tC L) (\<lambda>tC'.
         bnd (updateEpoch (t\<lparr>ts_C := tC'\<rparr>)) (\<lambda>t'.
         Inr (t', lock\<lparr>ls_L := L\<rparr>))))"

definition ft_release :: "ThreadState \<Rightarrow> LockState \<Rightarrow> (ThreadState \<times> LockState) res" where
  "ft_release t lock =
     (let (tC, L) = ExtendVectorClocks (ts_C t) (ls_L lock)
      in bnd (copy_loop [0..<length L] L tC) (\<lambda>L'.
         bnd (updateEpoch (t\<lparr>ts_C := tC\<rparr>)) (\<lambda>t1.
         bnd (increment t1) (\<lambda>t2.
         Inr (t2, lock\<lparr>ls_L := L'\<rparr>)))))"

text \<open>
  \<open>ft_fork\<close> and \<open>ft_join\<close> take two references of one type. \<open>ft_fork t u\<close> is the call with two
  different objects, \<open>ft_fork_self t\<close> the call with one object for both; likewise for
  \<open>ft_join\<close>. The results are the pair \<open>(t, u)\<close>, and the one object. The change of
  \<open>isConcurrent\<close> is \<open>fork_count\<close> and \<open>join_count\<close>.
\<close>

definition fork_count :: "i32 \<Rightarrow> i32" where
  "fork_count n = n + 1"

definition join_count :: "i32 \<Rightarrow> i32" where
  "join_count n = (if n \<noteq> 0 then n - 1 else n)"

definition ft_fork :: "ThreadState \<Rightarrow> ThreadState \<Rightarrow> (ThreadState \<times> ThreadState) res" where
  "ft_fork t u =
     (let (tC, uC) = ExtendVectorClocks (ts_C t) (ts_C u)
      in bnd (join_loop [0..<length uC] uC tC) (\<lambda>uC'.
         bnd (updateEpoch (u\<lparr>ts_C := uC'\<rparr>)) (\<lambda>u'.
         bnd (increment (t\<lparr>ts_C := tC\<rparr>)) (\<lambda>t'.
         Inr (t', u')))))"

definition ft_fork_self :: "ThreadState \<Rightarrow> ThreadState res" where
  "ft_fork_self t =
     (let tC = snd (ExtendVectorClocks (ts_C t) (ts_C t))
      in bnd (join_loop [0..<length tC] tC tC) (\<lambda>tC'.
         bnd (updateEpoch (t\<lparr>ts_C := tC'\<rparr>)) increment))"

definition ft_join :: "ThreadState \<Rightarrow> ThreadState \<Rightarrow> (ThreadState \<times> ThreadState) res" where
  "ft_join t u =
     (let (tC, uC) = ExtendVectorClocks (ts_C t) (ts_C u)
      in bnd (join_loop [0..<length tC] tC uC) (\<lambda>tC'.
         bnd (updateEpoch (t\<lparr>ts_C := tC'\<rparr>)) (\<lambda>t'.
         bnd (increment (u\<lparr>ts_C := uC\<rparr>)) (\<lambda>u'.
         Inr (t', u')))))"

definition ft_join_self :: "ThreadState \<Rightarrow> ThreadState res" where
  "ft_join_self t =
     (let tC = fst (ExtendVectorClocks (ts_C t) (ts_C t))
      in bnd (join_loop [0..<length tC] tC tC) (\<lambda>tC'.
         bnd (updateEpoch (t\<lparr>ts_C := tC'\<rparr>)) increment))"

subsection \<open>What the synchronisation rules compute\<close>

text \<open>
  Each rule returns exactly when the thread's own id is inside the extended clock; then its
  result is the join, or the copy, of the two clocks.
\<close>

lemma updateEpoch_cases:
  "updateEpoch t =
    (if unat (ts_tid t) < length (ts_C t) then Inr (t\<lparr>ts_epoch := ts_C t ! unat (ts_tid t)\<rparr>)
     else Inl (OutOfRange (unat (ts_tid t)) (length (ts_C t))))"
  by (simp add: updateEpoch_def vget_def)

lemma increment_cases:
  "increment t =
    (if ts_epoch t = INT_MAX then Inl SignedOverflow
     else if unat (ts_tid t) < length (ts_C t)
     then Inr (t\<lparr>ts_epoch := ts_epoch t + 1, ts_C := (ts_C t)[unat (ts_tid t) := ts_epoch t + 1]\<rparr>)
     else Inl (OutOfRange (unat (ts_tid t)) (length (ts_C t))))"
  by (simp add: increment_def vset_def Let_def)

lemma ft_acquire_cases:
  "ft_acquire t lock =
    (let J = ext_join (ts_C t) (ls_L lock); i = unat (ts_tid t)
     in if i < length J
        then Inr (t\<lparr>ts_C := J, ts_epoch := J ! i\<rparr>,
                  lock\<lparr>ls_L := ExtendVectorClock (ls_L lock) (length (ts_C t))\<rparr>)
        else Inl (OutOfRange i (length J)))"
  using join_loop_ext [of "ts_C t" "ls_L lock"]
  by (simp add: ft_acquire_def ExtendVectorClocks_eq updateEpoch_cases Let_def max.commute)

lemma ft_release_cases:
  "ft_release t lock =
    (let E = ExtendVectorClock (ts_C t) (length (ls_L lock)); i = unat (ts_tid t)
     in if i < length E
        then if E ! i = INT_MAX then Inl SignedOverflow
             else Inr (t\<lparr>ts_C := E[i := E ! i + 1], ts_epoch := E ! i + 1\<rparr>, lock\<lparr>ls_L := E\<rparr>)
        else Inl (OutOfRange i (length E)))"
  using copy_loop_ext [of "ts_C t" "ls_L lock"]
  by (simp add: ft_release_def ExtendVectorClocks_eq updateEpoch_cases increment_cases Let_def
      max.commute)

lemma ft_fork_cases:
  "ft_fork t u =
    (let J = ext_join (ts_C u) (ts_C t); E = ExtendVectorClock (ts_C t) (length (ts_C u));
         i = unat (ts_tid t); j = unat (ts_tid u)
     in if j < length J
        then if ts_epoch t = INT_MAX then Inl SignedOverflow
             else if i < length E
             then Inr (t\<lparr>ts_C := E[i := ts_epoch t + 1], ts_epoch := ts_epoch t + 1\<rparr>,
                       u\<lparr>ts_C := J, ts_epoch := J ! j\<rparr>)
             else Inl (OutOfRange i (length E))
        else Inl (OutOfRange j (length J)))"
  using join_loop_ext [of "ts_C u" "ts_C t"]
  by (simp add: ft_fork_def ExtendVectorClocks_eq updateEpoch_cases increment_cases Let_def
      max.commute)

lemma ft_join_cases:
  "ft_join t u =
    (let J = ext_join (ts_C t) (ts_C u); E = ExtendVectorClock (ts_C u) (length (ts_C t));
         i = unat (ts_tid t); j = unat (ts_tid u)
     in if i < length J
        then if ts_epoch u = INT_MAX then Inl SignedOverflow
             else if j < length E
             then Inr (t\<lparr>ts_C := J, ts_epoch := J ! i\<rparr>,
                       u\<lparr>ts_C := E[j := ts_epoch u + 1], ts_epoch := ts_epoch u + 1\<rparr>)
             else Inl (OutOfRange j (length E))
        else Inl (OutOfRange i (length J)))"
  using join_loop_ext [of "ts_C t" "ts_C u"]
  by (simp add: ft_join_def ExtendVectorClocks_eq updateEpoch_cases increment_cases Let_def
      max.commute)

lemma epoch0_not_max: "epoch0 i \<noteq> INT_MAX"
proof -
  have "even (epoch0 i)" by (simp add: epoch0_def push_bit_eq_mult)
  then show ?thesis by auto
qed

subsection \<open>Well-formed threads, locks and variables\<close>

text \<open>
  The shape the code's comments ask for, with \<open>N\<close> for \<open>NumThreads\<close>: every clock has one entry per
  thread id below \<open>N\<close>, entry \<open>i\<close> carries thread id \<open>i\<close>, and \<open>epoch == C[tid]\<close>.
\<close>

definition wf_thread :: "nat \<Rightarrow> ThreadState \<Rightarrow> bool" where
  "wf_thread N t \<longleftrightarrow> wf_clock (ts_C t) \<and> length (ts_C t) = N \<and> unat (ts_tid t) < N \<and>
     ts_epoch t = ts_C t ! unat (ts_tid t)"

definition wf_lock :: "nat \<Rightarrow> LockState \<Rightarrow> bool" where
  "wf_lock N m \<longleftrightarrow> wf_clock (ls_L m) \<and> length (ls_L m) = N"

definition wf_var :: "nat \<Rightarrow> VarState \<Rightarrow> bool" where
  "wf_var N x \<longleftrightarrow> \<not> vs_Racy x \<and> unat (TID (vs_W x)) < N \<and>
     (vs_R x = READ_SHARED \<or> unat (TID (vs_R x)) < N) \<and>
     wf_clock (vs_Rvc x) \<and> (length (vs_Rvc x) = N \<or> vs_Rvc x = [] \<and> vs_R x \<noteq> READ_SHARED)"

abbreviation own_clock :: "ThreadState \<Rightarrow> nat" where
  "own_clock t \<equiv> clk (ts_C t) (unat (ts_tid t))"

lemma wf_threadD:
  assumes "wf_thread N t"
  shows "wf_clock (ts_C t)" "length (ts_C t) = N" "unat (ts_tid t) < N"
    "ts_epoch t = ts_C t ! unat (ts_tid t)" "N \<le> 256"
  using assms wf_clock_length by (auto simp: wf_thread_def)

lemma wf_thread_epoch:
  assumes "wf_thread N t"
  shows "tid_of (ts_epoch t) = unat (ts_tid t)" "clock_of (ts_epoch t) = own_clock t"
    "TID (ts_epoch t) = ts_tid t" "ts_epoch t = mk_epoch (unat (ts_tid t)) (own_clock t)"
proof -
  show tid: "tid_of (ts_epoch t) = unat (ts_tid t)" and "clock_of (ts_epoch t) = own_clock t"
    using wf_threadD [OF assms] by (simp_all add: wf_clockD clk_def)
  from tid show "TID (ts_epoch t) = ts_tid t" by (simp add: word_unat_eq_iff)
  show "ts_epoch t = mk_epoch (unat (ts_tid t)) (own_clock t)"
    using wf_threadD [OF assms] by (simp add: wf_clock_nth)
qed

lemma epoch_plus1:
  assumes "wf_thread N t" and "own_clock t < 16777215"
  shows "ts_epoch t + 1 = mk_epoch (unat (ts_tid t)) (Suc (own_clock t))"
    "tid_of (ts_epoch t + 1) = unat (ts_tid t)" "clock_of (ts_epoch t + 1) = Suc (own_clock t)"
proof -
  show eq: "ts_epoch t + 1 = mk_epoch (unat (ts_tid t)) (Suc (own_clock t))"
    by (subst wf_thread_epoch(4) [OF assms(1)]) (rule mk_epoch_Suc)
  have "unat (ts_tid t) < 256" using wf_threadD [OF assms(1)] by simp
  then show "tid_of (ts_epoch t + 1) = unat (ts_tid t)"
    "clock_of (ts_epoch t + 1) = Suc (own_clock t)"
    using assms(2) by (simp_all add: eq epoch_simps)
qed

lemma epoch_not_max:
  assumes "wf_thread N t" and "own_clock t < 16777215"
  shows "ts_epoch t \<noteq> INT_MAX" "ts_C t ! unat (ts_tid t) \<noteq> INT_MAX"
  using assms wf_thread_epoch(2) [OF assms(1)] wf_threadD(4) [OF assms(1)] INT_MAX_parts(2) by auto

text \<open>The clocks after a rule, as functions: join is the maximum, release publishes and ticks.\<close>

definition tick :: "(nat \<Rightarrow> nat) \<Rightarrow> nat \<Rightarrow> nat \<Rightarrow> nat" where
  "tick f i = f(i := Suc (f i))"

definition vmax :: "(nat \<Rightarrow> nat) \<Rightarrow> (nat \<Rightarrow> nat) \<Rightarrow> nat \<Rightarrow> nat" where
  "vmax f g = (\<lambda>i. max (f i) (g i))"

lemma wf_thread_join:
  assumes "wf_thread N t" and "wf_clock D" and "length D = N"
  shows "wf_thread N (t\<lparr>ts_C := ext_join (ts_C t) D, ts_epoch := ext_join (ts_C t) D ! unat (ts_tid t)\<rparr>)"
    "clk (ext_join (ts_C t) D) = vmax (clk (ts_C t)) (clk D)"
  using assms by (auto simp: wf_thread_def wf_ext_join clk_ext_join vmax_def fun_eq_iff)

lemma wf_thread_tick:
  assumes "wf_thread N t" and "own_clock t < 16777215"
  shows "wf_thread N (t\<lparr>ts_C := (ts_C t)[unat (ts_tid t) := ts_epoch t + 1], ts_epoch := ts_epoch t + 1\<rparr>)"
    "clk ((ts_C t)[unat (ts_tid t) := ts_epoch t + 1]) = tick (clk (ts_C t)) (unat (ts_tid t))"
  using assms epoch_plus1 [OF assms]
  by (auto simp: wf_thread_def wf_list_update clk_list_update tick_def fun_eq_iff)

lemma ft_acquire_wf:
  assumes t: "wf_thread N t" and m: "wf_lock N m"
  obtains t' where "ft_acquire t m = Inr (t', m)" "wf_thread N t'" "ts_tid t' = ts_tid t"
    "clk (ts_C t') = vmax (clk (ts_C t)) (clk (ls_L m))"
  using assms wf_thread_join [OF t, of "ls_L m"]
  by (fastforce simp: ft_acquire_cases Let_def wf_thread_def wf_lock_def)

lemma ft_release_wf:
  assumes t: "wf_thread N t" and m: "wf_lock N m" and small: "own_clock t < 16777215"
  obtains t' m' where "ft_release t m = Inr (t', m')" "wf_thread N t'" "ts_tid t' = ts_tid t"
    "wf_lock N m'" "clk (ts_C t') = tick (clk (ts_C t)) (unat (ts_tid t))"
    "clk (ls_L m') = clk (ts_C t)"
  using assms wf_thread_tick [OF t small] epoch_not_max [OF t small]
  by (fastforce simp: ft_release_cases Let_def wf_thread_def wf_lock_def)

lemma ft_fork_wf:
  assumes t: "wf_thread N t" and u: "wf_thread N u" and small: "own_clock t < 16777215"
  obtains t' u' where "ft_fork t u = Inr (t', u')" "wf_thread N t'" "wf_thread N u'"
    "ts_tid t' = ts_tid t" "ts_tid u' = ts_tid u"
    "clk (ts_C t') = tick (clk (ts_C t)) (unat (ts_tid t))"
    "clk (ts_C u') = vmax (clk (ts_C u)) (clk (ts_C t))"
  using assms wf_thread_tick [OF t small] epoch_not_max [OF t small] wf_thread_join [OF u, of "ts_C t"]
  by (fastforce simp: ft_fork_cases Let_def wf_thread_def)

lemma ft_join_wf:
  assumes t: "wf_thread N t" and u: "wf_thread N u" and small: "own_clock u < 16777215"
  obtains t' u' where "ft_join t u = Inr (t', u')" "wf_thread N t'" "wf_thread N u'"
    "ts_tid t' = ts_tid t" "ts_tid u' = ts_tid u"
    "clk (ts_C t') = vmax (clk (ts_C t)) (clk (ts_C u))"
    "clk (ts_C u') = tick (clk (ts_C u)) (unat (ts_tid u))"
  using assms wf_thread_tick [OF u small] epoch_not_max [OF u small] wf_thread_join [OF t, of "ts_C u"]
  by (fastforce simp: ft_join_cases Let_def wf_thread_def)

subsection \<open>Reads and writes stay in range\<close>

text \<open>On well-formed states every index of \<open>ft_read\<close> and \<open>ft_write\<close> is in range, and the
  variable they leave is well formed. With 240 threads or more an epoch can be \<open>READ_SHARED\<close>.\<close>

lemma vget_wf: "wf_thread N t \<Longrightarrow> i < N \<Longrightarrow> vget (ts_C t) i = Inr (ts_C t ! i)"
  by (simp add: wf_thread_def vget_def)

lemma epoch_races_wf:
  "wf_thread N t \<Longrightarrow> tid_of e < N \<Longrightarrow> \<exists>b. epoch_races e t = Inr b"
  by (cases "TID e = ts_tid t") (auto simp: epoch_races_def vget_wf)

lemma wf_set_own:
  "wf_thread N t \<Longrightarrow> wf_clock v \<Longrightarrow> wf_clock (v[unat (ts_tid t) := ts_epoch t])"
  using wf_thread_epoch(1) by (simp add: wf_list_update)

lemma ft_read_update_wf:
  assumes t: "wf_thread N t" and x: "wf_var N x" and few: "N \<le> 239"
  obtains x' where "ft_read_update x t N = Inr x'" "wf_var N x'"
proof -
  note T = wf_threadD [OF t] and E = wf_thread_epoch [OF t]
  have R: "vs_R x = READ_SHARED \<or> tid_of (vs_R x) < N" using x by (simp add: wf_var_def)
  show ?thesis
  proof (cases "vs_R x = READ_SHARED")
    case True
    with x T have "ft_read_update x t N = Inr (x\<lparr>vs_Rvc := (vs_Rvc x)[unat (ts_tid t) := ts_epoch t]\<rparr>)"
      by (auto simp: ft_read_update_def wf_var_def vec_simps)
    with True x t show ?thesis by (intro that) (auto simp: wf_var_def wf_set_own)
  next
    case False
    with R have r: "tid_of (vs_R x) < N" by simp
    show ?thesis
    proof (cases "vs_R x \<le>s ts_C t ! tid_of (vs_R x)")
      case True
      then have "ft_read_update x t N = Inr (x\<lparr>vs_R := ts_epoch t\<rparr>)"
        using False r by (simp add: ft_read_update_def vget_wf [OF t])
      moreover have "wf_var N (x\<lparr>vs_R := ts_epoch t\<rparr>)"
        using x T(3) E(1) few not_READ_SHARED [of "ts_epoch t"] by (auto simp: wf_var_def)
      ultimately show ?thesis by (rule that)
    next
      case nle: False
      define v where "v = (if length (vs_Rvc x) = 0 then newVectorClock (vs_Rvc x) N else vs_Rvc x)"
      have v: "wf_clock v" "length v = N"
        using x T by (auto simp: v_def wf_var_def wf_newVectorClock)
      have "ft_read_update x t N = Inr (x\<lparr>vs_Rvc := v[tid_of (vs_R x) := vs_R x,
          unat (ts_tid t) := ts_epoch t], vs_R := READ_SHARED\<rparr>)"
        unfolding ft_read_update_def Let_def v_def [symmetric]
        using False nle r v T by (simp add: vget_wf [OF t] vec_simps)
      moreover have "wf_var N (x\<lparr>vs_Rvc := v[tid_of (vs_R x) := vs_R x,
          unat (ts_tid t) := ts_epoch t], vs_R := READ_SHARED\<rparr>)"
        using x v t by (auto simp: wf_var_def wf_set_own wf_list_update)
      ultimately show ?thesis by (rule that)
    qed
  qed
qed

lemma ft_read_wf:
  assumes t: "wf_thread N t" and x: "wf_var N x" and few: "N \<le> 239"
    and N: "unat (NumThreads s) = N"
  obtains r x' where "ft_read x t s = Inr (r, x', s\<lparr>VS_reads := VS_reads s + 1\<rparr>)" "wf_var N x'"
proof (cases "vs_R x = ts_epoch t")
  case True
  with x show ?thesis by (intro that [of False x]) (simp_all add: ft_read_def wf_var_def)
next
  case False
  obtain x' where "ft_read_update x t N = Inr x'" "wf_var N x'" using ft_read_update_wf [OF t x few] .
  moreover obtain b where "epoch_races (vs_W x) t = Inr b"
    using epoch_races_wf [OF t, of "vs_W x"] x by (auto simp: wf_var_def)
  ultimately show ?thesis
    using False x N by (intro that [of b x']) (simp_all add: ft_read_def wf_var_def)
qed

lemma shared_loop_ex:
  "\<forall>i \<in> set is. i < length R \<and> i < length C \<Longrightarrow> \<exists>b'. shared_loop is R C b = Inr b'"
  by (induction "is" arbitrary: b) (auto simp: vec_simps)

lemma ft_write_wf:
  assumes t: "wf_thread N t" and x: "wf_var N x" and few: "N \<le> 239"
  obtains r x' where "ft_write x t s = Inr (r, x', s\<lparr>VS_writes := VS_writes s + 1\<rparr>)" "wf_var N x'"
proof (cases "vs_W x = ts_epoch t")
  case True
  with x show ?thesis by (intro that [of False x]) (simp_all add: ft_write_def wf_var_def)
next
  case False
  note T = wf_threadD [OF t] and E = wf_thread_epoch [OF t]
  obtain b where W: "epoch_races (vs_W x) t = Inr b"
    using epoch_races_wf [OF t, of "vs_W x"] x by (auto simp: wf_var_def)
  show ?thesis
  proof (cases "vs_R x = READ_SHARED")
    case True
    obtain c where c: "shared_loop [0..<min (length (vs_Rvc x)) (length (ts_C t))]
        (vs_Rvc x) (ts_C t) b = Inr c"
      using shared_loop_ex [of "[0..<min (length (vs_Rvc x)) (length (ts_C t))]" "vs_Rvc x" "ts_C t" b]
      by auto
    let ?x = "x\<lparr>vs_R := push_bit 24 (TID (ts_epoch t)), vs_W := ts_epoch t\<rparr>"
    have "push_bit 24 (TID (ts_epoch t)) = mk_epoch (unat (ts_tid t)) 0"
      by (simp add: mk_epoch_def epoch0_def E(3) of_nat_unat)
    then have own: "tid_of (push_bit 24 (TID (ts_epoch t))) < N"
      using T by (simp add: epoch_simps)
    then have "push_bit 24 (TID (ts_epoch t)) \<noteq> READ_SHARED" using few by (intro not_READ_SHARED) simp
    with own x E(1) T(3) have "wf_var N ?x" by (auto simp: wf_var_def)
    with True False c W x show ?thesis
      by (intro that [of c ?x]) (simp_all add: ft_write_def wf_var_def)
  next
    case exclusive: False
    obtain c where "epoch_races (vs_R x) t = Inr c"
      using epoch_races_wf [OF t, of "vs_R x"] x exclusive by (auto simp: wf_var_def)
    with exclusive False W x E T show ?thesis
      by (intro that [of "b \<or> c" "x\<lparr>vs_W := ts_epoch t\<rparr>"]) (auto simp: ft_write_def wf_var_def)
  qed
qed

lemma VarState_new_wf:
  assumes t: "wf_thread N t" and few: "N \<le> 239"
  shows "wf_var N (VarState_new t w)"
proof -
  note T = wf_threadD [OF t] and E = wf_thread_epoch [OF t]
  have "push_bit 24 (ts_tid t) = mk_epoch (unat (ts_tid t)) 0"
    by (simp add: mk_epoch_def epoch0_def of_nat_unat)
  then have own: "tid_of (push_bit 24 (ts_tid t)) = unat (ts_tid t)" using T by (simp add: epoch_simps)
  then have "push_bit 24 (ts_tid t) \<noteq> READ_SHARED" "ts_epoch t \<noteq> READ_SHARED"
    using few T(3) E(1) by (auto intro!: not_READ_SHARED)
  with own T(3) E(1) show ?thesis by (auto simp: wf_var_def VarState_new_def Let_def wf_clock_def)
qed

subsection \<open>Properties\<close>

text \<open>
  C8: A lock hands over what its holder knew: after a release by \<open>t\<close> and an acquire by \<open>u\<close>, the
  clock of \<open>u\<close> is the maximum of its own and the one \<open>t\<close> had at the release, and what \<open>t\<close> does after the
  release has a clock that \<open>u\<close> has not seen.
\<close>

theorem release_acquire:
  assumes t: "wf_thread N t" and u: "wf_thread N u" and m: "wf_lock N m"
    and small: "own_clock t < 16777215" and seen: "clk (ts_C u) (unat (ts_tid t)) \<le> own_clock t"
  shows "\<exists>t' m' u'. ft_release t m = Inr (t', m') \<and> ft_acquire u m' = Inr (u', m') \<and>
    wf_thread N t' \<and> wf_thread N u' \<and> wf_lock N m' \<and>
    clk (ts_C u') = vmax (clk (ts_C u)) (clk (ts_C t)) \<and>
    clk (ts_C u') (unat (ts_tid t)) < own_clock t'"
proof -
  obtain t' m' where r: "ft_release t m = Inr (t', m')" "wf_thread N t'" "ts_tid t' = ts_tid t"
    "wf_lock N m'" "clk (ts_C t') = tick (clk (ts_C t)) (unat (ts_tid t))" "clk (ls_L m') = clk (ts_C t)"
    using ft_release_wf [OF t m small] .
  obtain u' where a: "ft_acquire u m' = Inr (u', m')" "wf_thread N u'"
    "clk (ts_C u') = vmax (clk (ts_C u)) (clk (ls_L m'))"
    using ft_acquire_wf [OF u r(4)] .
  have "clk (ts_C u') (unat (ts_tid t)) < own_clock t'"
    using r(3,5,6) a(3) seen by (simp add: vmax_def tick_def)
  with r a show ?thesis by auto
qed

text \<open>Two threads and a lock for the examples below.\<close>

definition thread0 :: ThreadState where
  "thread0 = \<lparr>ts_tid = 0, ts_C = [3, 0x01000000], ts_epoch = 3\<rparr>"

definition thread1 :: ThreadState where
  "thread1 = \<lparr>ts_tid = 1, ts_C = [0, 0x01000001], ts_epoch = 0x01000001\<rparr>"

definition lock0 :: LockState where
  "lock0 = \<lparr>ls_L = [0, 0x01000000]\<rparr>"

lemma examples_wf: "wf_thread 2 thread0" "wf_thread 2 thread1" "wf_lock 2 lock0"
  by (auto simp: thread0_def thread1_def lock0_def wf_thread_def wf_lock_def wf_clock_def unat_TID less_Suc_eq)

theorem release_acquire_witness:
  "\<exists>t' m' u'. ft_release thread0 lock0 = Inr (t', m') \<and> ft_acquire thread1 m' = Inr (u', m') \<and>
    wf_thread 2 t' \<and> wf_thread 2 u' \<and> wf_lock 2 m' \<and>
    clk (ts_C u') = vmax (clk (ts_C thread1)) (clk (ts_C thread0)) \<and>
    clk (ts_C u') (unat (ts_tid thread0)) < own_clock t'"
  by (rule release_acquire [OF examples_wf]) (simp_all add: thread0_def thread1_def clk_def unat_CLOCK)

text \<open>A fork gives the child what the parent knew, and the parent's next step is new to the child.\<close>

lemma fork_child_covers_parent:
  assumes t: "wf_thread N t" and u: "wf_thread N u" and small: "own_clock t < 16777215"
    and seen: "clk (ts_C u) (unat (ts_tid t)) \<le> own_clock t"
  shows "\<exists>t' u'. ft_fork t u = Inr (t', u') \<and> wf_thread N t' \<and> wf_thread N u' \<and>
    clk (ts_C u') = vmax (clk (ts_C u)) (clk (ts_C t)) \<and>
    clk (ts_C u') (unat (ts_tid t)) < own_clock t'"
proof -
  obtain t' u' where "ft_fork t u = Inr (t', u')" "wf_thread N t'" "wf_thread N u'"
    "ts_tid t' = ts_tid t" "clk (ts_C t') = tick (clk (ts_C t)) (unat (ts_tid t))"
    "clk (ts_C u') = vmax (clk (ts_C u)) (clk (ts_C t))"
    using ft_fork_wf [OF t u small] by metis
  with seen show ?thesis by (simp add: vmax_def tick_def)
qed

text \<open>A join gives the parent what the child knew, and ends the child's epoch.\<close>

lemma join_parent_covers_child:
  assumes t: "wf_thread N t" and u: "wf_thread N u" and small: "own_clock u < 16777215"
    and seen: "clk (ts_C t) (unat (ts_tid u)) \<le> own_clock u"
  shows "\<exists>t' u'. ft_join t u = Inr (t', u') \<and> wf_thread N t' \<and> wf_thread N u' \<and>
    clk (ts_C t') = vmax (clk (ts_C t)) (clk (ts_C u)) \<and>
    clk (ts_C t') (unat (ts_tid u)) < own_clock u'"
proof -
  obtain t' u' where "ft_join t u = Inr (t', u')" "wf_thread N t'" "wf_thread N u'"
    "ts_tid u' = ts_tid u" "clk (ts_C t') = vmax (clk (ts_C t)) (clk (ts_C u))"
    "clk (ts_C u') = tick (clk (ts_C u)) (unat (ts_tid u))"
    using ft_join_wf [OF t u small] by metis
  with seen show ?thesis by (simp add: vmax_def tick_def)
qed

text \<open>
  C9: Fork and join hand over clocks: after a fork the child knows what the parent knew, and the parent's
  next step is new to it; after a join the parent knows what the child knew, and the child's epoch is over.
\<close>

theorem fork_join_hand_over:
  assumes t: "wf_thread N t" and u: "wf_thread N u"
    and small: "own_clock t < 16777215" "own_clock u < 16777215"
    and seen: "clk (ts_C u) (unat (ts_tid t)) \<le> own_clock t" "clk (ts_C t) (unat (ts_tid u)) \<le> own_clock u"
  shows "(\<exists>t' u'. ft_fork t u = Inr (t', u') \<and> wf_thread N t' \<and> wf_thread N u' \<and>
      clk (ts_C u') = vmax (clk (ts_C u)) (clk (ts_C t)) \<and>
      clk (ts_C u') (unat (ts_tid t)) < own_clock t') \<and>
    (\<exists>t' u'. ft_join t u = Inr (t', u') \<and> wf_thread N t' \<and> wf_thread N u' \<and>
      clk (ts_C t') = vmax (clk (ts_C t)) (clk (ts_C u)) \<and>
      clk (ts_C t') (unat (ts_tid u)) < own_clock u')"
  using fork_child_covers_parent [OF t u small(1) seen(1)] join_parent_covers_child [OF t u small(2) seen(2)] by blast

theorem fork_join_hand_over_witness:
  "(\<exists>t' u'. ft_fork thread0 thread1 = Inr (t', u') \<and> wf_thread 2 t' \<and> wf_thread 2 u' \<and>
      clk (ts_C u') = vmax (clk (ts_C thread1)) (clk (ts_C thread0)) \<and>
      clk (ts_C u') (unat (ts_tid thread0)) < own_clock t') \<and>
    (\<exists>t' u'. ft_join thread0 thread1 = Inr (t', u') \<and> wf_thread 2 t' \<and> wf_thread 2 u' \<and>
      clk (ts_C t') = vmax (clk (ts_C thread0)) (clk (ts_C thread1)) \<and>
      clk (ts_C t') (unat (ts_tid thread1)) < own_clock u')"
  by (rule fork_join_hand_over [OF examples_wf(1,2)]) (simp_all add: thread0_def thread1_def clk_def unat_CLOCK)

text \<open>
  C11: The synchronisation rules fail in two cases only. Either an id is not below the longer of the two clocks,
  for the only access that can leave a vector is the one at a thread's own id; or the rule increments an epoch
  that is the largest \<open>int\<close>: \<open>ft_release\<close> that of the thread, as its clock has it, \<open>ft_fork\<close> that of the
  parent and \<open>ft_join\<close> that of the child.
\<close>

theorem sync_rules_fault_iff:
  "((\<exists>f. ft_acquire t m = Inl f) \<longleftrightarrow> max (length (ts_C t)) (length (ls_L m)) \<le> unat (ts_tid t)) \<and>
   ((\<exists>f. ft_release t m = Inl f) \<longleftrightarrow> max (length (ts_C t)) (length (ls_L m)) \<le> unat (ts_tid t) \<or>
     unat (ts_tid t) < length (ts_C t) \<and> ts_C t ! unat (ts_tid t) = INT_MAX) \<and>
   ((\<exists>f. ft_fork t u = Inl f) \<longleftrightarrow>
     max (length (ts_C t)) (length (ts_C u)) \<le> max (unat (ts_tid t)) (unat (ts_tid u)) \<or> ts_epoch t = INT_MAX) \<and>
   ((\<exists>f. ft_join t u = Inl f) \<longleftrightarrow>
     max (length (ts_C t)) (length (ts_C u)) \<le> max (unat (ts_tid t)) (unat (ts_tid u)) \<or> ts_epoch u = INT_MAX)"
proof (intro conjI)
  let ?i = "unat (ts_tid t)" and ?n = "max (length (ts_C t)) (length (ls_L m))"
  show "(\<exists>f. ft_acquire t m = Inl f) \<longleftrightarrow> ?n \<le> ?i"
    by (simp add: ft_acquire_cases Let_def) linarith
  have "ExtendVectorClock (ts_C t) (length (ls_L m)) ! ?i = INT_MAX \<longleftrightarrow>
      ?i < length (ts_C t) \<and> ts_C t ! ?i = INT_MAX" if "?i < ?n"
    using that epoch0_not_max by (simp add: nth_ExtendVectorClock)
  then show "(\<exists>f. ft_release t m = Inl f) \<longleftrightarrow> ?n \<le> ?i \<or> ?i < length (ts_C t) \<and> ts_C t ! ?i = INT_MAX"
    by (cases "?i < ?n") (auto simp: ft_release_cases Let_def less_max_iff_disj not_less)
  show "(\<exists>f. ft_fork t u = Inl f) \<longleftrightarrow>
     max (length (ts_C t)) (length (ts_C u)) \<le> max (unat (ts_tid t)) (unat (ts_tid u)) \<or> ts_epoch t = INT_MAX"
    by (simp add: ft_fork_cases Let_def) linarith
  show "(\<exists>f. ft_join t u = Inl f) \<longleftrightarrow>
     max (length (ts_C t)) (length (ts_C u)) \<le> max (unat (ts_tid t)) (unat (ts_tid u)) \<or> ts_epoch u = INT_MAX"
    by (simp add: ft_join_cases Let_def) linarith
qed

text \<open>
  On well-formed states with at most 239 thread ids neither \<open>ft_read\<close> nor \<open>ft_write\<close> leaves a vector,
  and both leave a well-formed variable.
\<close>

theorem accesses_in_range:
  assumes "wf_thread N t" and "wf_var N x" and "N \<le> 239" and "unat (NumThreads s) = N"
  shows "(\<exists>r x'. ft_read x t s = Inr (r, x', s\<lparr>VS_reads := VS_reads s + 1\<rparr>) \<and> wf_var N x') \<and>
    (\<exists>r x'. ft_write x t s = Inr (r, x', s\<lparr>VS_writes := VS_writes s + 1\<rparr>) \<and> wf_var N x')"
  using ft_read_wf [OF assms] ft_write_wf [OF assms(1-3), of s] by metis

theorem accesses_in_range_witness:
  "let x = VarState_new thread0 True; s = rt_init\<lparr>NumThreads := 2\<rparr>
   in (\<exists>r x'. ft_read x thread1 s = Inr (r, x', s\<lparr>VS_reads := VS_reads s + 1\<rparr>) \<and> wf_var 2 x') \<and>
    (\<exists>r x'. ft_write x thread1 s = Inr (r, x', s\<lparr>VS_writes := VS_writes s + 1\<rparr>) \<and> wf_var 2 x')"
  unfolding Let_def
  by (rule accesses_in_range [OF examples_wf(2)]) (simp_all add: VarState_new_wf examples_wf)

text \<open>
  No access ever sets \<open>Racy\<close>: the flag both functions test first is false for every variable
  the runtime creates and stays false, so the early return for variables already reported is never
  taken and the number of races the destructor of \<open>VS\<close> prints stays 0.
\<close>

theorem racy_never_set:
  assumes "ft_read x t s = Inr (r, x', s') \<or> ft_write x t s = Inr (r, x', s')"
  shows "vs_Racy x' = vs_Racy x \<and> \<not> vs_Racy (VarState_new t w)"
  using assms
  by (auto simp: ft_read_def ft_write_def ft_read_update_def VarState_new_def Let_def bnd_eq_Inr_iff
      split: if_splits)

theorem racy_never_set_witness:
  "\<exists>x' s'. ft_read (VarState_new thread0 True) thread1 (rt_init\<lparr>NumThreads := 2\<rparr>) = Inr (True, x', s') \<and>
    vs_Racy x' = vs_Racy (VarState_new thread0 True)"
proof -
  let ?r = "ft_read (VarState_new thread0 True) thread1 (rt_init\<lparr>NumThreads := 2\<rparr>)"
  have "case ?r of Inr (r, x', s') \<Rightarrow> r | Inl _ \<Rightarrow> False" by code_simp
  then obtain x' s' where "?r = Inr (True, x', s')" by (auto split: sum.splits)
  with racy_never_set [OF disjI1 [OF this]] show ?thesis by auto
qed

text \<open>
  A write to a read-shared variable compares only the entries both clocks have: reads by a
  thread whose id the writer's clock does not reach are not seen, however recent they are.
\<close>

theorem shared_write_skips_new_threads:
  assumes "vs_R x = READ_SHARED" and "\<not> vs_Racy x" and "vs_W x \<noteq> ts_epoch t"
    and "epoch_races (vs_W x) t = Inr False"
    and "\<forall>i < min (length (vs_Rvc x)) (length (ts_C t)). vs_Rvc x ! i \<le>s ts_C t ! i"
  shows "\<exists>x' s'. ft_write x t s = Inr (False, x', s') \<and> vs_W x' = ts_epoch t"
proof -
  have loop: "\<forall>i \<in> set is. i < length R \<and> i < length C \<and> R ! i \<le>s C ! i \<Longrightarrow>
      shared_loop is R C b = Inr b" for "is" R C b
    by (induction "is") (auto simp: vec_simps word_sless_alt word_sle_eq)
  have "shared_loop [0..<min (length (vs_Rvc x)) (length (ts_C t))] (vs_Rvc x) (ts_C t) False = Inr False"
    using assms(5) by (intro loop) auto
  with assms show ?thesis by (simp add: ft_write_def)
qed

theorem shared_write_skips_new_threads_witness:
  "\<exists>x' s'. ft_write \<lparr>vs_W = 0, vs_R = READ_SHARED, vs_Rvc = [0, 0x01000000, 0x02000009], vs_Racy = False\<rparr>
      thread0 rt_init = Inr (False, x', s') \<and> vs_W x' = ts_epoch thread0"
  by (rule shared_write_skips_new_threads)
    (auto simp: thread0_def epoch_races_def TID_def less_Suc_eq word_sle_eq)

end
