(* ===== verification/Race.thy ===== *)
theory Race
  imports Prelude
begin

text \<open>
  A reported race (\<open>etsan/race.h\<close>): the class \<open>Race\<close>, the message it prints, and the functor
  \<open>race_compare\<close> that orders the set of reports. A \<open>char *\<close> is a \<open>cstr\<close>: its address together
  with the characters it points to, which are constants of the instrumented program. The code
  compares the addresses where it compares \<open>char *\<close> values, and reads the characters where it
  builds a \<open>std::string\<close>.
\<close>

type_synonym cstr = "Address \<times> string"

definition nl :: string where
  "nl = [CHR 0x0A]"

definition esc :: string where
  "esc = [CHR 0x1B]"

subsection \<open>Numbers in decimal\<close>

text \<open>\<open>operator<<\<close> of a stream on \<open>unsigned int\<close> and on \<open>int\<close>.\<close>

definition show_uint :: "i32 \<Rightarrow> string" where
  "show_uint x = show_nat (unat x)"

definition show_int :: "i32 \<Rightarrow> string" where
  "show_int x = (if sint x < 0 then CHR ''-'' # show_nat (nat (- sint x)) else show_nat (nat (sint x)))"

subsection \<open>The class\<close>

record Race =
  r_tid :: i32
  r_lineNo :: i32
  r_accessType :: string
  r_objName :: string
  r_fileName :: string
  r_trace :: "cstr list"
  r_isMessageCreated :: bool

definition Race_new :: "i32 \<Rightarrow> i32 \<Rightarrow> string \<Rightarrow> cstr \<Rightarrow> cstr \<Rightarrow> Race" where
  "Race_new tid lineNo accessType objName fileName =
     \<lparr>r_tid = tid, r_lineNo = lineNo, r_accessType = accessType, r_objName = snd objName,
      r_fileName = snd fileName, r_trace = [], r_isMessageCreated = False\<rparr>"

text \<open>\<open>Race::printStack\<close>; the free function of the same name in \<open>race_report.h\<close> has this loop too.\<close>

fun stack_lines :: "nat \<Rightarrow> cstr list \<Rightarrow> string" where
  "stack_lines depth [] = []"
| "stack_lines depth (func # trace) =
     (let msg = replicate depth (CHR '' '')
      in msg @ '' '' @ [CHR 0x27] @ ''--->'' @ snd func @ ''(...)'' @ nl @ stack_lines (depth + 4) trace)"

definition Race_printStack :: "Race \<Rightarrow> string" where
  "Race_printStack r = stack_lines 1 (r_trace r)"

definition race_text :: "Race \<Rightarrow> string" where
  "race_text r =
     ''============================================='' @ nl @
     esc @ ''[1;32mEMBEDSANITIZER Race report'' @ esc @ ''[m'' @ nl @
     esc @ ''[1;31m A race detected at: '' @ r_fileName r @ esc @ ''[m'' @ nl @
     ''  At line number: '' @ show_int (r_lineNo r) @ nl @
     ''  Thread (tid='' @ show_uint (r_tid r) @ '') '' @
     r_accessType r @ '' '' @ [CHR 0x22] @ r_objName r @ [CHR 0x22] @ ''     '' @ nl @
     ''                                             '' @ nl @
     esc @ ''[1;33m Call stack:   '' @ esc @ ''[m              '' @ nl @
     Race_printStack r @
     ''============================================='' @ nl"

text \<open>\<open>createRaceMessage\<close> appends to the string it is given and marks the race.\<close>

definition createRaceMessage :: "Race \<Rightarrow> string \<Rightarrow> bool \<times> Race \<times> string" where
  "createRaceMessage r msg =
     (if r_isMessageCreated r then (True, r, msg)
      else (False, r\<lparr>r_isMessageCreated := True\<rparr>, msg @ race_text r))"

subsection \<open>Comparison\<close>

text \<open>\<open>operator<\<close> of \<open>std::string\<close>: lexicographic on unsigned characters.\<close>

fun str_less :: "string \<Rightarrow> string \<Rightarrow> bool" where
  "str_less [] [] = False"
| "str_less [] (y # ys) = True"
| "str_less (x # xs) [] = False"
| "str_less (x # xs) (y # ys) =
     (if x = y then str_less xs ys else (of_char x :: nat) < of_char y)"

text \<open>The \<open>int\<close> values \<open>-1\<close>, \<open>0\<close> and \<open>1\<close> the functor returns, converted to \<open>bool\<close>.\<close>

definition race_compare :: "Race \<Rightarrow> Race \<Rightarrow> bool" where
  "race_compare lhs rhs =
     (if r_fileName lhs = r_fileName rhs then
        if r_lineNo lhs <s r_lineNo rhs then (-1 :: int) \<noteq> 0
        else if r_lineNo rhs <s r_lineNo lhs then (1 :: int) \<noteq> 0
        else if r_accessType lhs = r_accessType rhs then (0 :: int) \<noteq> 0
        else (-1 :: int) \<noteq> 0
      else str_less (r_fileName lhs) (r_fileName rhs))"

text \<open>The fields the functor looks at.\<close>

definition race_key :: "Race \<Rightarrow> string \<times> i32 \<times> string" where
  "race_key r = (r_fileName r, r_lineNo r, r_accessType r)"

lemma str_less_irrefl: "\<not> str_less x x"
  by (induction x) auto

lemma str_less_asym: "str_less x y \<Longrightarrow> \<not> str_less y x"
  by (induction x y rule: str_less.induct) (auto split: if_splits)

lemma str_less_trans: "str_less x y \<Longrightarrow> str_less y z \<Longrightarrow> str_less x z"
proof (induction x y arbitrary: z rule: str_less.induct)
  case (2 y ys)
  then show ?case by (cases z) auto
next
  case (4 x xs y ys)
  then show ?case by (cases z) (auto split: if_splits)
qed auto

lemma str_less_total: "x \<noteq> y \<Longrightarrow> str_less x y \<or> str_less y x"
proof (induction x y rule: str_less.induct)
  case (4 x xs y ys)
  show ?case
  proof (cases "x = y")
    case True
    with 4 show ?thesis by simp
  next
    case False
    then have "of_char x \<noteq> (of_char y :: nat)" by simp
    then have "of_char x < (of_char y :: nat) \<or> of_char y < (of_char x :: nat)"
      by (rule nat_neq_iff [THEN iffD1])
    with False show ?thesis by simp
  qed
qed auto

lemma sless_total: "a \<noteq> (b :: i32) \<Longrightarrow> a <s b \<or> b <s a"
  by (metis neq_iff word_sless_alt signed_word_eqI)

lemma race_compare_same_file:
  "r_fileName a = r_fileName b \<Longrightarrow> race_compare a b \<longleftrightarrow> race_key a \<noteq> race_key b"
  using sless_total [of "r_lineNo a" "r_lineNo b"]
  by (auto simp: race_compare_def race_key_def)

lemma race_compare_other_file:
  "r_fileName a \<noteq> r_fileName b \<Longrightarrow> race_compare a b \<longleftrightarrow> str_less (r_fileName a) (r_fileName b)"
  by (simp add: race_compare_def)

lemma race_compare_iff:
  "race_compare a b \<longleftrightarrow>
    (if r_fileName a = r_fileName b then race_key a \<noteq> race_key b
     else str_less (r_fileName a) (r_fileName b))"
  using race_compare_same_file race_compare_other_file by auto

text \<open>Equal keys are exactly what the functor holds to be equivalent.\<close>

lemma race_compare_equiv:
  "\<not> race_compare a b \<and> \<not> race_compare b a \<longleftrightarrow> race_key a = race_key b"
proof (cases "r_fileName a = r_fileName b")
  case True
  then show ?thesis by (auto simp: race_compare_iff)
next
  case False
  then show ?thesis
    using str_less_total [OF False] by (auto simp: race_compare_iff race_key_def)
qed

end
