(* ===== verification/RaceReport.thy ===== *)
theory RaceReport
  imports Race
begin

text \<open>
  The bookkeeping of \<open>etsan/race_report.h\<close> and \<open>etsan/file_dictionary.h\<close>: the call stacks of the
  threads, the set of reported races and the printing of each race's message. The state holds the
  three globals and the characters written to \<open>std::cout\<close>. \<open>self\<close> is \<open>pthread_self()\<close>.

  \<open>races\<close> is a \<open>std::set\<close> ordered by \<open>race_compare\<close>. It is the list of its elements in iteration
  order. Insertion searches the tree for a gap between two elements; which gaps the search can end
  in depends on the shape of the tree, because \<open>race_compare\<close> is not a strict weak order. \<open>pos\<close> is
  the choice the tree makes and \<open>tree_search\<close> what every search tree guarantees of it: the search
  went right at the element before the gap and left at the element after it.
\<close>

subsection \<open>State\<close>

record reports =
  callStack :: "(ThreadID \<times> cstr list) list"
  races :: "Race list"
  cout :: string

definition reports_init :: reports where
  "reports_init = \<lparr>callStack = [], races = [], cout = []\<rparr>"

subsection \<open>Call stacks\<close>

text \<open>\<open>callStack[tid]\<close>: an absent key gets an empty vector.\<close>

definition frames :: "reports \<Rightarrow> ThreadID \<Rightarrow> cstr list" where
  "frames s tid = (case map_of (callStack s) tid of None \<Rightarrow> [] | Some fs \<Rightarrow> fs)"

definition put_frames :: "ThreadID \<Rightarrow> cstr list \<Rightarrow> reports \<Rightarrow> reports" where
  "put_frames tid fs s = s\<lparr>callStack := AList.update tid fs (callStack s)\<rparr>"

definition pushFunction :: "ThreadID \<Rightarrow> cstr \<Rightarrow> reports \<Rightarrow> reports" where
  "pushFunction self funcName s = put_frames self (frames s self @ [funcName]) s"

definition popFunction :: "ThreadID \<Rightarrow> cstr \<Rightarrow> reports \<Rightarrow> reports" where
  "popFunction self funcName s =
     (let stackFrame = frames s self; s' = put_frames self stackFrame s
      in if length stackFrame \<noteq> 0 \<and> fst (last stackFrame) = fst funcName
         then put_frames self (butlast stackFrame) s'
         else s'\<lparr>cout := cout s' @ ''Something wrong with Function Stack: '' @ snd funcName @ nl\<rparr>)"

definition getStack :: "ThreadID \<Rightarrow> reports \<Rightarrow> cstr list \<times> reports" where
  "getStack tid s = (frames s tid, put_frames tid (frames s tid) s)"

definition printStack :: "ThreadID \<Rightarrow> reports \<Rightarrow> string \<times> reports" where
  "printStack self s = (stack_lines 1 (frames s self), put_frames self (frames s self) s)"

subsection \<open>The set of races\<close>

definition tree_search :: "(Race list \<Rightarrow> Race \<Rightarrow> nat) \<Rightarrow> bool" where
  "tree_search pos \<longleftrightarrow> (\<forall>xs r. pos xs r \<le> length xs \<and>
     (0 < pos xs r \<longrightarrow> \<not> race_compare r (xs ! (pos xs r - 1))) \<and>
     (pos xs r < length xs \<longrightarrow> race_compare r (xs ! pos xs r)))"

text \<open>\<open>races.insert(r)\<close>: the element before the gap is compared once more, and \<open>r\<close> is not
  inserted when it is not below \<open>r\<close>.\<close>

definition races_insert :: "(Race list \<Rightarrow> Race \<Rightarrow> nat) \<Rightarrow> Race \<Rightarrow> Race list \<Rightarrow> Race list" where
  "races_insert pos r xs =
     (let p = pos xs r
      in if p = 0 \<or> race_compare (xs ! (p - 1)) r then take p xs @ r # drop p xs else xs)"

fun print_loop :: "Race list \<Rightarrow> string \<Rightarrow> Race list \<times> string" where
  "print_loop [] msg = ([], msg)"
| "print_loop (race # rs) msg =
     (let (_, race', msg') = createRaceMessage race msg; (rs', msg'') = print_loop rs msg'
      in (race' # rs', msg''))"

definition printRaces :: "reports \<Rightarrow> reports" where
  "printRaces s = (let (rs, msg) = print_loop (races s) [] in s\<lparr>races := rs, cout := cout s @ msg\<rparr>)"

definition reportRace :: "string \<Rightarrow> (Race list \<Rightarrow> Race \<Rightarrow> nat) \<Rightarrow> ThreadID \<Rightarrow> i32 \<Rightarrow> cstr \<Rightarrow> cstr \<Rightarrow> reports \<Rightarrow> reports" where
  "reportRace accessType pos self lineNo objName fileName s =
     (let (trace, s1) = getStack self s;
          race = (Race_new self lineNo accessType objName fileName)\<lparr>r_trace := trace\<rparr>
      in printRaces (s1\<lparr>races := races_insert pos race (races s1)\<rparr>))"

definition reportRaceOnRead :: "(Race list \<Rightarrow> Race \<Rightarrow> nat) \<Rightarrow> ThreadID \<Rightarrow> i32 \<Rightarrow> cstr \<Rightarrow> cstr \<Rightarrow> reports \<Rightarrow> reports" where
  "reportRaceOnRead = reportRace ''read''"

definition reportRaceOnWrite :: "(Race list \<Rightarrow> Race \<Rightarrow> nat) \<Rightarrow> ThreadID \<Rightarrow> i32 \<Rightarrow> cstr \<Rightarrow> cstr \<Rightarrow> reports \<Rightarrow> reports" where
  "reportRaceOnWrite = reportRace ''write''"

subsection \<open>The dictionary of files\<close>

record FileDictionary =
  module_paths :: "string list"
  files :: "Address list"

definition inserFile :: "cstr \<Rightarrow> FileDictionary \<Rightarrow> FileDictionary" where
  "inserFile file_name d = d\<lparr>files := List.insert (fst file_name) (files d)\<rparr>"

definition exists_file :: "cstr \<Rightarrow> FileDictionary \<Rightarrow> bool" where
  "exists_file file_name d \<longleftrightarrow> fst file_name \<in> set (files d)"

definition saveModule :: "cstr \<Rightarrow> FileDictionary \<Rightarrow> FileDictionary" where
  "saveModule module_path d =
     d\<lparr>module_paths := if snd module_path \<in> set (module_paths d) then module_paths d
        else takeWhile (\<lambda>p. str_less p (snd module_path)) (module_paths d) @
          snd module_path # dropWhile (\<lambda>p. str_less p (snd module_path)) (module_paths d)\<rparr>"

subsection \<open>Call stacks: what they do\<close>

lemma frames_put [simp]: "frames (put_frames tid fs s) u = (if u = tid then fs else frames s u)"
  by (simp add: frames_def put_frames_def)

lemma put_frames_simps [simp]:
  "races (put_frames tid fs s) = races s" "cout (put_frames tid fs s) = cout s"
  by (simp_all add: put_frames_def)

lemma frames_cong [simp]:
  "frames (s\<lparr>races := rs\<rparr>) = frames s" "frames (s\<lparr>cout := c\<rparr>) = frames s"
  by (simp_all add: frames_def fun_eq_iff)

lemma pushFunction_simps [simp]:
  "frames (pushFunction self f s) u = (if u = self then frames s self @ [f] else frames s u)"
  "races (pushFunction self f s) = races s" "cout (pushFunction self f s) = cout s"
  by (simp_all add: pushFunction_def)

lemma popFunction_match:
  assumes "frames s self = fs @ [g]" and "fst g = fst f"
  shows "frames (popFunction self f s) u = (if u = self then fs else frames s u)"
    "races (popFunction self f s) = races s" "cout (popFunction self f s) = cout s"
  using assms by (simp_all add: popFunction_def Let_def)

lemma popFunction_mismatch:
  assumes "frames s self = [] \<or> fst (last (frames s self)) \<noteq> fst f"
  shows "frames (popFunction self f s) = frames s" "races (popFunction self f s) = races s"
    "cout (popFunction self f s) = cout s @ ''Something wrong with Function Stack: '' @ snd f @ nl"
  using assms by (auto simp: popFunction_def Let_def fun_eq_iff)

lemma popFunction_other [simp]: "u \<noteq> self \<Longrightarrow> frames (popFunction self f s) u = frames s u"
  by (simp add: popFunction_def Let_def)

text \<open>
  A run of function entries and exits by several threads. \<open>balanced k es\<close>: the calls of thread
  \<open>k\<close> in \<open>es\<close> are properly nested.
\<close>

datatype call = Enter ThreadID cstr | Leave ThreadID cstr

fun do_call :: "call \<Rightarrow> reports \<Rightarrow> reports" where
  "do_call (Enter k f) s = pushFunction k f s"
| "do_call (Leave k f) s = popFunction k f s"

fun caller :: "call \<Rightarrow> ThreadID" where
  "caller (Enter k f) = k"
| "caller (Leave k f) = k"

inductive nested :: "call list \<Rightarrow> bool" where
  nested_Nil: "nested []"
| nested_call: "nested es \<Longrightarrow> nested es' \<Longrightarrow> fst f = fst g \<Longrightarrow>
    nested (Enter k f # es @ Leave k g # es')"

lemma fold_call_other:
  "k \<notin> caller ` set es \<Longrightarrow> frames (fold do_call es s) k = frames s k"
proof (induction es arbitrary: s)
  case (Cons e es)
  then show ?case by (cases e) auto
qed simp

lemma nested_frames_own:
  "nested es \<Longrightarrow> \<forall>e \<in> set es. caller e = k \<Longrightarrow>
    frames (fold do_call es s) k = frames s k \<and> cout (fold do_call es s) = cout s"
proof (induction arbitrary: s rule: nested.induct)
  case nested_Nil
  then show ?case by simp
next
  case (nested_call es es' f g j)
  then have [simp]: "j = k" by simp
  let ?s1 = "fold do_call es (pushFunction k f s)"
  have s1: "frames ?s1 k = frames s k @ [f]" "cout ?s1 = cout s"
    using nested_call.IH(1) [of "pushFunction k f s"] nested_call.prems by simp_all
  have "frames (popFunction k g ?s1) k = frames s k" "cout (popFunction k g ?s1) = cout s"
    using popFunction_match [OF s1(1) nested_call.hyps(3)] s1(2) by simp_all
  then show ?case
    using nested_call.IH(2) [of "popFunction k g ?s1"] nested_call.prems by simp
qed

text \<open>Interleaving with other threads does not matter: a thread's stack is a function of its own
  calls.\<close>

lemma frames_filter:
  "frames s k = frames s' k \<Longrightarrow>
    frames (fold do_call es s) k = frames (fold do_call (filter (\<lambda>e. caller e = k) es) s') k"
proof (induction es arbitrary: s s')
  case (Cons e es)
  have step: "frames (do_call e s) k = frames (do_call e s') k" if "caller e = k"
    using Cons.prems that by (cases e) (auto simp: popFunction_def Let_def)
  show ?case
  proof (cases "caller e = k")
    case True
    then show ?thesis using Cons.IH [OF step] by simp
  next
    case False
    then have "frames (do_call e s) k = frames s' k" using Cons.prems by (cases e) auto
    with False show ?thesis using Cons.IH by simp
  qed
qed simp

subsection \<open>Printing\<close>

text \<open>Between two reports every race of the set has been printed.\<close>

definition all_printed :: "reports \<Rightarrow> bool" where
  "all_printed s \<longleftrightarrow> (\<forall>r \<in> set (races s). r_isMessageCreated r)"

lemma print_loop_eq:
  "print_loop rs msg =
    (map (\<lambda>r. r\<lparr>r_isMessageCreated := True\<rparr>) rs,
     msg @ concat (map race_text (filter (\<lambda>r. \<not> r_isMessageCreated r) rs)))"
  by (induction rs arbitrary: msg) (auto simp: createRaceMessage_def)

lemma printRaces_eq:
  "printRaces s = s\<lparr>races := map (\<lambda>r. r\<lparr>r_isMessageCreated := True\<rparr>) (races s),
     cout := cout s @ concat (map race_text (filter (\<lambda>r. \<not> r_isMessageCreated r) (races s)))\<rparr>"
  by (simp add: printRaces_def print_loop_eq)

lemma all_printed_printRaces: "all_printed (printRaces s)"
  by (simp add: all_printed_def printRaces_eq)

lemma printRaces_idem: "all_printed s \<Longrightarrow> printRaces s = s"
  by (auto simp: all_printed_def printRaces_eq intro!: map_idI reports.equality
      simp: filter_False)

lemma race_key_update [simp]:
  "race_key (r\<lparr>r_isMessageCreated := b\<rparr>) = race_key r" "race_key (r\<lparr>r_trace := tr\<rparr>) = race_key r"
  by (simp_all add: race_key_def)

lemma races_insert_keys:
  "race_key ` set (races_insert pos r xs) \<subseteq> insert (race_key r) (race_key ` set xs)"
  by (auto simp: races_insert_def Let_def dest: in_set_takeD in_set_dropD)

text \<open>What one report does: either the race is new in the set and exactly its message is printed,
  or it was not inserted and nothing is printed.\<close>

definition report_inserts :: "(Race list \<Rightarrow> Race \<Rightarrow> nat) \<Rightarrow> Race \<Rightarrow> Race list \<Rightarrow> bool" where
  "report_inserts pos r xs \<longleftrightarrow> pos xs r = 0 \<or> race_compare (xs ! (pos xs r - 1)) r"

definition new_race :: "string \<Rightarrow> ThreadID \<Rightarrow> i32 \<Rightarrow> cstr \<Rightarrow> cstr \<Rightarrow> reports \<Rightarrow> Race" where
  "new_race accessType self lineNo objName fileName s =
     \<lparr>r_tid = self, r_lineNo = lineNo, r_accessType = accessType, r_objName = snd objName,
      r_fileName = snd fileName, r_trace = frames s self, r_isMessageCreated = False\<rparr>"

lemma filter_not_printed:
  "\<forall>r \<in> set xs. r_isMessageCreated r \<Longrightarrow> filter (\<lambda>r. \<not> r_isMessageCreated r) xs = []"
  by simp

lemma reportRace_cases:
  assumes "all_printed s"
    and rdef: "r = new_race accessType self lineNo objName fileName s"
    and s'_def: "s' = reportRace accessType pos self lineNo objName fileName s"
  shows "all_printed s'" "frames s' = frames s"
    "cout s' = cout s @ (if report_inserts pos r (races s) then race_text r else [])"
    "races s' = (if report_inserts pos r (races s)
       then take (pos (races s) r) (races s) @ r\<lparr>r_isMessageCreated := True\<rparr> # drop (pos (races s) r) (races s)
       else races s)"
proof -
  let ?s1 = "put_frames self (frames s self) s"
  have s': "s' = printRaces (?s1\<lparr>races := races_insert pos r (races s)\<rparr>)"
    by (simp add: s'_def reportRace_def getStack_def rdef new_race_def Race_new_def)
  have old: "\<forall>r \<in> set (races s). r_isMessageCreated r" using assms(1) by (simp add: all_printed_def)
  have r: "\<not> r_isMessageCreated r" by (simp add: rdef new_race_def)
  have same: "map (\<lambda>r. r\<lparr>r_isMessageCreated := True\<rparr>) xs = xs"
    "filter (\<lambda>r. \<not> r_isMessageCreated r) xs = []"
    if "set xs \<subseteq> set (races s)" for xs
    using that old by (auto simp: filter_empty_conv subset_iff intro!: map_idI)
  note sub = set_take_subset [of "pos (races s) r" "races s"] set_drop_subset [of "pos (races s) r" "races s"]
  show "all_printed s'" by (simp add: s' all_printed_printRaces)
  show "frames s' = frames s" by (auto simp: s' printRaces_eq fun_eq_iff)
  show "cout s' = cout s @ (if report_inserts pos r (races s) then race_text r else [])"
    using r by (simp add: s' printRaces_eq races_insert_def Let_def report_inserts_def same sub)
  show "races s' = (if report_inserts pos r (races s)
       then take (pos (races s) r) (races s) @ r\<lparr>r_isMessageCreated := True\<rparr> # drop (pos (races s) r) (races s)
       else races s)"
    by (simp add: s' printRaces_eq races_insert_def Let_def report_inserts_def same sub)
qed

subsection \<open>Where insertion puts a race\<close>

text \<open>The leftmost gap is one a search can end in.\<close>

definition first_gap :: "Race list \<Rightarrow> Race \<Rightarrow> nat" where
  "first_gap xs r = length (takeWhile (\<lambda>x. \<not> race_compare r x) xs)"

lemma first_gap_search: "tree_search first_gap"
  unfolding tree_search_def first_gap_def
proof (intro allI conjI impI)
  fix xs r
  let ?P = "\<lambda>x. \<not> race_compare r x"
  let ?k = "length (takeWhile ?P xs)"
  show "?k \<le> length xs" by (rule length_takeWhile_le)
  show "\<not> race_compare r (xs ! (?k - 1))" if "0 < ?k"
  proof -
    have "takeWhile ?P xs ! (?k - 1) \<in> set (takeWhile ?P xs)" using that by (intro nth_mem) simp
    then have "?P (takeWhile ?P xs ! (?k - 1))" by (auto dest: set_takeWhileD)
    with that show ?thesis by (simp add: takeWhile_nth)
  qed
  show "race_compare r (xs ! ?k)" if "?k < length xs"
    using nth_length_takeWhile [OF that] by simp
qed

definition file_order :: "Race list \<Rightarrow> bool" where
  "file_order xs \<longleftrightarrow> sorted_wrt (\<lambda>a b. str_less (r_fileName a) (r_fileName b)) xs"

lemma file_orderD:
  "file_order xs \<Longrightarrow> i < j \<Longrightarrow> j < length xs \<Longrightarrow> str_less (r_fileName (xs ! i)) (r_fileName (xs ! j))"
  by (simp add: file_order_def sorted_wrt_iff_nth_less)

text \<open>With one race per file, the gap is the place the file's name has in the order.\<close>

lemma search_new_file:
  assumes pos: "tree_search pos" and xs: "file_order xs" and new: "\<forall>x \<in> set xs. r_fileName x \<noteq> r_fileName r"
  shows "\<forall>i < pos xs r. str_less (r_fileName (xs ! i)) (r_fileName r)"
    "\<forall>i < length xs. pos xs r \<le> i \<longrightarrow> str_less (r_fileName r) (r_fileName (xs ! i))"
proof -
  let ?p = "pos xs r" and ?f = "\<lambda>i. r_fileName (xs ! i)"
  have p: "?p \<le> length xs" "0 < ?p \<Longrightarrow> \<not> race_compare r (xs ! (?p - 1))"
    "?p < length xs \<Longrightarrow> race_compare r (xs ! ?p)"
    using pos by (auto simp: tree_search_def)
  have cmp: "race_compare r (xs ! i) \<longleftrightarrow> str_less (r_fileName r) (?f i)" if "i < length xs" for i
    using new that race_compare_other_file [of r "xs ! i"] nth_mem by metis
  have tot: "\<not> str_less (r_fileName r) (?f i) \<Longrightarrow> str_less (?f i) (r_fileName r)" if "i < length xs" for i
    using new that str_less_total nth_mem by metis
  show "\<forall>i < ?p. str_less (?f i) (r_fileName r)"
  proof (intro allI impI)
    fix i assume i: "i < ?p"
    then have last: "str_less (?f (?p - 1)) (r_fileName r)" using p cmp [of "?p - 1"] tot [of "?p - 1"] by simp
    show "str_less (?f i) (r_fileName r)"
    proof (cases "i = ?p - 1")
      case False
      then have "str_less (?f i) (?f (?p - 1))" using i p(1) by (intro file_orderD [OF xs]) auto
      then show ?thesis using last by (rule str_less_trans)
    qed (use last in simp)
  qed
  show "\<forall>i < length xs. ?p \<le> i \<longrightarrow> str_less (r_fileName r) (?f i)"
  proof (intro allI impI)
    fix i assume i: "i < length xs" "?p \<le> i"
    then have first: "str_less (r_fileName r) (?f ?p)" using p cmp [of ?p] by simp
    show "str_less (r_fileName r) (?f i)"
    proof (cases "i = ?p")
      case False
      then have "str_less (?f ?p) (?f i)" using i by (intro file_orderD [OF xs]) auto
      with first show ?thesis by (rule str_less_trans)
    qed (use first in simp)
  qed
qed

lemma insert_new_file:
  assumes pos: "tree_search pos" and xs: "file_order xs" and new: "\<forall>x \<in> set xs. r_fileName x \<noteq> r_fileName r"
  shows "file_order (races_insert pos r xs)" "set (races_insert pos r xs) = insert r (set xs)"
proof -
  let ?p = "pos xs r"
  note s = search_new_file [OF assms]
  have p: "?p \<le> length xs" using pos by (auto simp: tree_search_def)
  have "race_compare (xs ! (?p - 1)) r" if "0 < ?p"
  proof -
    have "xs ! (?p - 1) \<in> set xs" using that p by (intro nth_mem) simp
    with new s(1) that show ?thesis by (simp add: race_compare_other_file)
  qed
  then have eq: "races_insert pos r xs = take ?p xs @ r # drop ?p xs"
    by (cases "?p = 0") (simp_all add: races_insert_def Let_def)
  have "set (take ?p xs) \<union> set (drop ?p xs) = set xs"
    by (metis append_take_drop_id set_append)
  then show "set (races_insert pos r xs) = insert r (set xs)" by (auto simp: eq)
  have lo: "\<forall>x \<in> set (take ?p xs). str_less (r_fileName x) (r_fileName r)"
    using s(1) p by (auto simp: in_set_conv_nth)
  have hi: "\<forall>x \<in> set (drop ?p xs). str_less (r_fileName r) (r_fileName x)"
    using s(2) p by (auto simp: in_set_conv_nth)
  have "sorted_wrt (\<lambda>a b. str_less (r_fileName a) (r_fileName b)) (take ?p xs @ drop ?p xs)"
    using xs by (simp add: file_order_def)
  then show "file_order (races_insert pos r xs)"
    using lo hi str_less_trans by (auto simp: file_order_def eq sorted_wrt_append)
qed

lemma insert_known_key:
  assumes pos: "tree_search pos" and xs: "file_order xs" and x: "x \<in> set xs" "race_key x = race_key r"
  shows "races_insert pos r xs = xs"
proof -
  let ?p = "pos xs r"
  have p: "?p \<le> length xs" "0 < ?p \<Longrightarrow> \<not> race_compare r (xs ! (?p - 1))"
    "?p < length xs \<Longrightarrow> race_compare r (xs ! ?p)"
    using pos by (auto simp: tree_search_def)
  obtain i where i: "i < length xs" "xs ! i = x" using x(1) by (auto simp: in_set_conv_nth)
  have fn: "r_fileName x = r_fileName r" using x(2) by (simp add: race_key_def)
  have before: "race_compare (xs ! j) r" "\<not> race_compare r (xs ! j)" if "j < i" for j
    using file_orderD [OF xs that i(1)] i(2) fn str_less_irrefl str_less_asym
    by (auto simp: race_compare_iff)
  have after: "race_compare r (xs ! j)" "\<not> race_compare (xs ! j) r" if "i < j" "j < length xs" for j
    using file_orderD [OF xs that] i(2) fn str_less_irrefl str_less_asym
    by (auto simp: race_compare_iff)
  have same: "\<not> race_compare r (xs ! i)" "\<not> race_compare (xs ! i) r"
    using x(2) i(2) fn by (auto simp: race_compare_iff)
  have "?p = Suc i"
  proof (rule ccontr)
    assume "?p \<noteq> Suc i"
    then consider "?p \<le> i" | "Suc i < ?p" by linarith
    then show False
    proof cases
      case 1
      then have "?p < length xs" using i(1) by simp
      then have "race_compare r (xs ! ?p)" by (rule p(3))
      with 1 before(2) [of ?p] same show False by (cases "?p = i") auto
    next
      case 2
      then have "race_compare r (xs ! (?p - 1))" using p(1) by (intro after) auto
      with 2 p(2) show False by simp
    qed
  qed
  with same show ?thesis by (simp add: races_insert_def)
qed

subsection \<open>Properties\<close>

text \<open>
  C19: If the calls of one thread are properly nested, its call stack is afterwards what it was
  before, however the calls of other threads are interleaved with them.
\<close>

theorem nested_calls_restore_stack:
  assumes "nested (filter (\<lambda>e. caller e = k) es)"
  shows "frames (fold do_call es s) k = frames s k"
  using nested_frames_own [OF assms, of k s] frames_filter [of s k s es] by simp

theorem nested_calls_restore_stack_witness:
  "frames (fold do_call [Enter 1 (10, ''main''), Enter 2 (20, ''f''), Enter 1 (30, ''g''),
      Leave 1 (30, ''g''), Leave 1 (10, ''main'')] reports_init) 1 = frames reports_init 1"
proof (rule nested_calls_restore_stack)
  have "nested [Enter 1 (30, ''g''), Leave 1 (30, ''g'')]"
    using nested_call [OF nested_Nil nested_Nil, of "(30, ''g'')" "(30, ''g'')" 1] by simp
  from nested_call [OF this nested_Nil, of "(10, ''main'')" "(10, ''main'')" 1]
  show "nested (filter (\<lambda>e. caller e = 1) [Enter 1 (10, ''main''), Enter 2 (20, ''f''),
      Enter 1 (30, ''g''), Leave 1 (30, ''g''), Leave 1 (10, ''main'')])"
    by simp
qed

text \<open>
  C20: Every report either adds one race to the set and prints exactly its message, with the call
  stack of the reporting thread, or adds and prints nothing; no message is printed again.
\<close>

theorem report_prints_new_race:
  assumes "all_printed s"
  shows "let r = new_race accessType self lineNo objName fileName s;
      s' = reportRace accessType pos self lineNo objName fileName s
    in all_printed s' \<and> frames s' = frames s \<and>
      (if report_inserts pos r (races s)
       then cout s' = cout s @ race_text r \<and> length (races s') = Suc (length (races s))
       else cout s' = cout s \<and> races s' = races s)"
proof -
  note R = reportRace_cases [OF assms refl refl, where accessType = accessType and self = self
    and lineNo = lineNo and objName = objName and fileName = fileName and pos = pos]
  have "min m n + (m - n) = m" for m n :: nat by arith
  then show ?thesis using R by (simp add: Let_def)
qed

theorem report_prints_new_race_witness:
  "let r = new_race ''read'' 11 42 (1, ''x'') (2, ''a.c'') reports_init;
      s' = reportRace ''read'' first_gap 11 42 (1, ''x'') (2, ''a.c'') reports_init
    in all_printed s' \<and> frames s' = frames reports_init \<and>
      (if report_inserts first_gap r (races reports_init)
       then cout s' = cout reports_init @ race_text r \<and> length (races s') = Suc (length (races reports_init))
       else cout s' = cout reports_init \<and> races s' = races reports_init)"
  by (rule report_prints_new_race) (simp add: all_printed_def reports_init_def)

text \<open>
  \<open>race_compare\<close> is not a strict weak order: within one file it holds both ways between any two
  races that differ in line or access type, because \<open>-1\<close> and \<open>1\<close> are both true. Races of different
  files are ordered by the file name, and no two races with the same file, line and access type
  are ordered.
\<close>

lemma race_compare_within_file:
  "(if r_fileName a = r_fileName b
    then race_compare a b = (race_key a \<noteq> race_key b) \<and> race_compare b a = (race_key a \<noteq> race_key b)
    else race_compare a b \<noteq> race_compare b a \<and> race_compare a b = str_less (r_fileName a) (r_fileName b))"
  using str_less_total [of "r_fileName a" "r_fileName b"] str_less_asym
  by (auto simp: race_compare_iff)

text \<open>
  C22: While no file has two races, the set behaves: a race in a new file is inserted and the
  order by file name kept, and a race that is already there is not inserted again, wherever the
  search of the tree ends.
\<close>

theorem one_race_per_file:
  assumes "tree_search pos" and "file_order xs"
    and "(\<forall>x \<in> set xs. r_fileName x \<noteq> r_fileName r) \<or> (\<exists>x \<in> set xs. race_key x = race_key r)"
  shows "file_order (races_insert pos r xs) \<and>
    race_key ` set (races_insert pos r xs) = insert (race_key r) (race_key ` set xs)"
  using assms(3)
proof
  assume "\<forall>x \<in> set xs. r_fileName x \<noteq> r_fileName r"
  from insert_new_file [OF assms(1,2) this] show ?thesis by simp
next
  assume "\<exists>x \<in> set xs. race_key x = race_key r"
  then obtain x where "x \<in> set xs" "race_key x = race_key r" by blast
  with insert_known_key [OF assms(1,2) this] assms(2) show ?thesis by (auto simp: rev_image_eqI)
qed

theorem one_race_per_file_witness:
  "let r = Race_new 11 7 ''read'' (1, ''x'') (2, ''b.c''); xs = [Race_new 11 7 ''read'' (1, ''x'') (2, ''a.c'')]
   in file_order (races_insert first_gap r xs) \<and>
    race_key ` set (races_insert first_gap r xs) = insert (race_key r) (race_key ` set xs)"
  unfolding Let_def
  by (rule one_race_per_file [OF first_gap_search]) (simp_all add: file_order_def Race_new_def)

text \<open>
  The races of one file and what a search among them does. \<open>bisect\<close> descends the search tree whose root is the
  element in the middle of the list; a red-black tree with at most three elements, each inserted before the
  others, has this shape.
\<close>

function bisect :: "Race list \<Rightarrow> Race \<Rightarrow> nat" where
  "bisect xs r =
     (if xs = [] then 0
      else let m = length xs div 2
        in if race_compare r (xs ! m) then bisect (take m xs) r else Suc m + bisect (drop (Suc m) xs) r)"
  by pat_completeness auto

termination by (relation "measure (\<lambda>(xs, r). length xs)") (auto simp: length_greater_0_conv [symmetric] simp del: length_greater_0_conv)

declare bisect.simps [simp del]

lemma bisect_gap:
  "bisect xs r \<le> length xs \<and> (0 < bisect xs r \<longrightarrow> \<not> race_compare r (xs ! (bisect xs r - 1))) \<and>
    (bisect xs r < length xs \<longrightarrow> race_compare r (xs ! bisect xs r))"
proof (induction xs r rule: bisect.induct)
  case (1 xs r)
  let ?m = "length xs div 2"
  show ?case
  proof (cases "xs = []")
    case True
    then show ?thesis by (simp add: bisect.simps)
  next
    case False
    then have m: "?m < length xs" by (simp add: length_greater_0_conv [symmetric] del: length_greater_0_conv)
    show ?thesis
    proof (cases "race_compare r (xs ! ?m)")
      case True
      then have eq: "bisect xs r = bisect (take ?m xs) r" using False by (subst bisect.simps) (simp add: Let_def)
      have "bisect (take ?m xs) r \<le> ?m \<and>
          (0 < bisect (take ?m xs) r \<longrightarrow> \<not> race_compare r (take ?m xs ! (bisect (take ?m xs) r - 1))) \<and>
          (bisect (take ?m xs) r < ?m \<longrightarrow> race_compare r (take ?m xs ! bisect (take ?m xs) r))"
        using "1.IH"(1) [OF False refl True] m by simp
      then show ?thesis using True m unfolding eq by (cases "bisect (take ?m xs) r = ?m") auto
    next
      case nle: False
      let ?k = "bisect (drop (Suc ?m) xs) r"
      have eq: "bisect xs r = Suc ?m + ?k" using False nle by (subst bisect.simps) (simp add: Let_def)
      have IH: "?k \<le> length xs - Suc ?m \<and>
          (0 < ?k \<longrightarrow> \<not> race_compare r (drop (Suc ?m) xs ! (?k - 1))) \<and>
          (?k < length xs - Suc ?m \<longrightarrow> race_compare r (drop (Suc ?m) xs ! ?k))"
        using "1.IH"(2) [OF False refl nle] by simp
      show ?thesis
      proof (cases "?k = 0")
        case True
        then show ?thesis using IH nle m unfolding eq by auto
      next
        case False
        then show ?thesis using IH m unfolding eq by auto
      qed
    qed
  qed
qed

lemma bisect_search: "tree_search bisect"
  using bisect_gap by (simp add: tree_search_def)

lemma bisect_front:
  assumes "\<forall>x \<in> set xs. race_compare r x"
  shows "bisect xs r = 0"
proof -
  have "bisect xs r \<le> length xs" "0 < bisect xs r \<Longrightarrow> \<not> race_compare r (xs ! (bisect xs r - 1))"
    using bisect_gap [of xs r] by auto
  with assms show ?thesis by (cases "bisect xs r") auto
qed

lemma bisect_front_half:
  assumes "\<forall>x \<in> set (take (Suc (length xs div 2)) xs). race_compare r x"
  shows "bisect xs r = 0"
proof (cases "xs = []")
  case False
  then have m: "length xs div 2 < length xs" by (simp add: length_greater_0_conv [symmetric] del: length_greater_0_conv)
  with assms have "race_compare r (xs ! (length xs div 2))" "\<forall>x \<in> set (take (length xs div 2) xs). race_compare r x"
    by (auto simp: take_Suc_conv_app_nth)
  with False bisect_front show ?thesis by (subst bisect.simps) (simp add: Let_def)
qed (simp add: bisect.simps)

text \<open>A report whose search ends at the left end.\<close>

lemma report_in_front:
  assumes "all_printed s" and "bisect (races s) (new_race a self n obj file s) = 0"
  defines "s' \<equiv> reportRace a bisect self n obj file s"
  shows "all_printed s'" "frames s' = frames s" "cout s' = cout s @ race_text (new_race a self n obj file s)"
    "races s' = (new_race a self n obj file s)\<lparr>r_isMessageCreated := True\<rparr> # races s"
  using reportRace_cases [OF assms(1) refl s'_def [THEN meta_eq_to_obj_eq]] assms(2) by (simp_all add: report_inserts_def)

text \<open>
  C23: Three races of one file, no two with the same line and access type, and then the first of them again,
  reported to an empty set: the search tree inserts the race that is already there, and its message is printed a
  second time. After the reports the set has four elements, of which the first and the last have the same key.
\<close>

theorem race_reported_twice:
  assumes "races s = []" and "distinct [(n1, a1), (n2, a2), (n3, a3)]"
  shows "tree_search bisect \<and>
    (let report = (\<lambda>(n, a). reportRace a bisect self n obj file);
         s' = fold report [(n1, a1), (n2, a2), (n3, a3), (n1, a1)] s
     in map (\<lambda>r. (r_lineNo r, r_accessType r)) (races s') = [(n1, a1), (n3, a3), (n2, a2), (n1, a1)] \<and>
        (\<forall>r \<in> set (races s'). r_fileName r = snd file) \<and>
        cout s' = cout s @ concat (map (\<lambda>(n, a). race_text (new_race a self n obj file s))
          [(n1, a1), (n2, a2), (n3, a3), (n1, a1)]))"
proof -
  define rep where "rep = (\<lambda>(n, a). reportRace a bisect self n obj file)"
  define R where "R = (\<lambda>(n, a). (new_race a self n obj file s)\<lparr>r_isMessageCreated := True\<rparr>)"
  have new: "new_race a self n obj file t = new_race a self n obj file s" if "frames t = frames s" for n a t
    using that by (simp add: new_race_def)
  have cmp: "race_compare (new_race a self n obj file s) (R k)" if "(n, a) \<noteq> k" for n a k
    using that by (cases k) (auto simp: race_compare_iff race_key_def R_def new_race_def)
  have step: "all_printed (rep (n, a) t) \<and> frames (rep (n, a) t) = frames s \<and>
      cout (rep (n, a) t) = cout t @ race_text (new_race a self n obj file s) \<and> races (rep (n, a) t) = R (n, a) # map R ks"
    if t: "all_printed t" "frames t = frames s" "races t = map R ks"
      and ks: "\<forall>k \<in> set (take (Suc (length ks div 2)) ks). (n, a) \<noteq> k" for n a t ks
  proof -
    have "bisect (races t) (new_race a self n obj file t) = 0"
      using ks by (intro bisect_front_half) (auto simp: t(3) new [OF t(2)] take_map intro!: cmp)
    from report_in_front [OF t(1) this] show ?thesis by (simp add: rep_def R_def new [OF t(2)] t(2,3))
  qed
  have s0: "all_printed s" "races s = map R []" using assms(1) by (simp_all add: all_printed_def)
  note s1 = step [OF s0(1) refl s0(2), of n1 a1]
  note s2 = step [of "rep (n1, a1) s" "[(n1, a1)]" n2 a2]
  note s3 = step [of "rep (n2, a2) (rep (n1, a1) s)" "[(n2, a2), (n1, a1)]" n3 a3]
  note s4 = step [of "rep (n3, a3) (rep (n2, a2) (rep (n1, a1) s))" "[(n3, a3), (n2, a2), (n1, a1)]" n1 a1]
  have e: "races (rep (n1, a1) (rep (n3, a3) (rep (n2, a2) (rep (n1, a1) s)))) =
      [R (n1, a1), R (n3, a3), R (n2, a2), R (n1, a1)]"
    "cout (rep (n1, a1) (rep (n3, a3) (rep (n2, a2) (rep (n1, a1) s)))) = cout s @
      concat (map (\<lambda>(n, a). race_text (new_race a self n obj file s)) [(n1, a1), (n2, a2), (n3, a3), (n1, a1)])"
    using s1 s2 s3 s4 assms(2) by auto
  have "r_lineNo (R k) = fst k" "r_accessType (R k) = snd k" "r_fileName (R k) = snd file" for k
    by (cases k; simp add: R_def new_race_def)+
  with e show ?thesis by (simp add: bisect_search rep_def [symmetric] Let_def)
qed

theorem race_reported_twice_witness:
  "let s' = fold (\<lambda>(n, a). reportRace a bisect 11 n (1, ''x'') (2, ''a.c''))
      [(1, ''read''), (2, ''read''), (2, ''write''), (1, ''read'')] reports_init
   in map (\<lambda>r. (r_lineNo r, r_accessType r)) (races s') = [(1, ''read''), (2, ''write''), (2, ''read''), (1, ''read'')]"
  using race_reported_twice [of reports_init 1 "''read''" 2 "''read''" 2 "''write''" 11 "(1, ''x'')" "(2, ''a.c'')"]
  by (simp add: reports_init_def Let_def del: fold_simps)

end
