(* ===== verification/Interface.thy ===== *)
theory Interface
  imports FastTrack RaceReport
begin

text \<open>
  The callbacks that instrumented code calls (\<open>etsan/tsan_interface.cc\<close>). The state of the
  runtime is the FastTrack metadata together with the race reports. Every callback takes
  \<open>self\<close>, the value \<open>pthread_self()\<close> has in the calling thread, and the access callbacks the
  parameter \<open>pos\<close> of the set of races (see \<open>RaceReport\<close>). The accesses of all sizes run the same
  code, here \<open>read_callback\<close> and \<open>write_callback\<close>.
\<close>

record world =
  w_rt :: rt
  w_rep :: reports

definition world_init :: world where
  "world_init = \<lparr>w_rt = rt_init, w_rep = reports_init\<rparr>"

type_synonym tree = "Race list \<Rightarrow> Race \<Rightarrow> nat"

definition put_out :: "string \<Rightarrow> world \<Rightarrow> world" where
  "put_out msg w = w\<lparr>w_rep := (w_rep w)\<lparr>cout := cout (w_rep w) @ msg\<rparr>\<rparr>"

subsection \<open>Start and end of the program\<close>

definition tsan_init :: "world \<Rightarrow> world" where
  "tsan_init w = put_out (''EmbedSanitizer initializing'' @ nl) w"

definition tsan_main_func_exit :: "world \<Rightarrow> world" where
  "tsan_main_func_exit w = w\<lparr>w_rep := printRaces (w_rep w)\<rparr>"

subsection \<open>Memory accesses\<close>

text \<open>
  \<open>ft_read( getVarState(addr, false), getThreadState() )\<close> and the like. C++ does not fix which
  argument is evaluated first; \<open>read_access_order\<close> below shows that it does not matter.
\<close>

definition read_access :: "ThreadID \<Rightarrow> Address \<Rightarrow> rt \<Rightarrow> (bool \<times> rt) res" where
  "read_access self addr s =
     bnd (getVarState self addr False s) (\<lambda>(x, s1). bnd (getThreadState self s1) (\<lambda>(t, s2).
       bnd (ft_read x t s2) (\<lambda>(isRace, x', s3). Inr (isRace, put_var addr x' s3))))"

definition write_access :: "bool \<Rightarrow> ThreadID \<Rightarrow> Address \<Rightarrow> rt \<Rightarrow> (bool \<times> rt) res" where
  "write_access isWrite self addr s =
     bnd (getVarState self addr isWrite s) (\<lambda>(x, s1). bnd (getThreadState self s1) (\<lambda>(t, s2).
       bnd (ft_write x t s2) (\<lambda>(isRace, x', s3). Inr (isRace, put_var addr x' s3))))"

definition read_callback :: "tree \<Rightarrow> ThreadID \<Rightarrow> Address \<Rightarrow> i32 \<Rightarrow> cstr \<Rightarrow> cstr \<Rightarrow> world \<Rightarrow> world res" where
  "read_callback pos self addr lineNo objName fileName w =
     (if isConcurrent (w_rt w) \<noteq> 0 then
        bnd (read_access self addr (w_rt w)) (\<lambda>(isRace, s).
          Inr (w\<lparr>w_rt := s, w_rep := if isRace
            then reportRaceOnRead pos self lineNo objName fileName (w_rep w) else w_rep w\<rparr>))
      else Inr w)"

definition write_callback :: "bool \<Rightarrow> tree \<Rightarrow> ThreadID \<Rightarrow> Address \<Rightarrow> i32 \<Rightarrow> cstr \<Rightarrow> cstr \<Rightarrow> world \<Rightarrow> world res" where
  "write_callback isWrite pos self addr lineNo objName fileName w =
     (if isConcurrent (w_rt w) \<noteq> 0 then
        bnd (write_access isWrite self addr (w_rt w)) (\<lambda>(isRace, s).
          Inr (w\<lparr>w_rt := s, w_rep := if isRace
            then reportRaceOnWrite pos self lineNo objName fileName (w_rep w) else w_rep w\<rparr>))
      else Inr w)"

definition tsan_read1 :: "tree \<Rightarrow> ThreadID \<Rightarrow> Address \<Rightarrow> i32 \<Rightarrow> cstr \<Rightarrow> cstr \<Rightarrow> world \<Rightarrow> world res" where
  "tsan_read1 = read_callback"

definition tsan_read2 :: "tree \<Rightarrow> ThreadID \<Rightarrow> Address \<Rightarrow> i32 \<Rightarrow> cstr \<Rightarrow> cstr \<Rightarrow> world \<Rightarrow> world res" where
  "tsan_read2 = read_callback"

definition tsan_read4 :: "tree \<Rightarrow> ThreadID \<Rightarrow> Address \<Rightarrow> i32 \<Rightarrow> cstr \<Rightarrow> cstr \<Rightarrow> world \<Rightarrow> world res" where
  "tsan_read4 = read_callback"

definition tsan_read8 :: "tree \<Rightarrow> ThreadID \<Rightarrow> Address \<Rightarrow> i32 \<Rightarrow> cstr \<Rightarrow> cstr \<Rightarrow> world \<Rightarrow> world res" where
  "tsan_read8 = read_callback"

definition tsan_read16 :: "tree \<Rightarrow> ThreadID \<Rightarrow> Address \<Rightarrow> i32 \<Rightarrow> cstr \<Rightarrow> cstr \<Rightarrow> world \<Rightarrow> world res" where
  "tsan_read16 = read_callback"

definition tsan_write1 :: "tree \<Rightarrow> ThreadID \<Rightarrow> Address \<Rightarrow> i32 \<Rightarrow> cstr \<Rightarrow> cstr \<Rightarrow> world \<Rightarrow> world res" where
  "tsan_write1 = write_callback True"

definition tsan_write2 :: "tree \<Rightarrow> ThreadID \<Rightarrow> Address \<Rightarrow> i32 \<Rightarrow> cstr \<Rightarrow> cstr \<Rightarrow> world \<Rightarrow> world res" where
  "tsan_write2 = write_callback True"

definition tsan_write4 :: "tree \<Rightarrow> ThreadID \<Rightarrow> Address \<Rightarrow> i32 \<Rightarrow> cstr \<Rightarrow> cstr \<Rightarrow> world \<Rightarrow> world res" where
  "tsan_write4 = write_callback True"

definition tsan_write8 :: "tree \<Rightarrow> ThreadID \<Rightarrow> Address \<Rightarrow> i32 \<Rightarrow> cstr \<Rightarrow> cstr \<Rightarrow> world \<Rightarrow> world res" where
  "tsan_write8 = write_callback True"

definition tsan_write16 :: "tree \<Rightarrow> ThreadID \<Rightarrow> Address \<Rightarrow> i32 \<Rightarrow> cstr \<Rightarrow> cstr \<Rightarrow> world \<Rightarrow> world res" where
  "tsan_write16 = write_callback True"

definition tsan_unaligned_read2 :: "tree \<Rightarrow> ThreadID \<Rightarrow> Address \<Rightarrow> i32 \<Rightarrow> cstr \<Rightarrow> cstr \<Rightarrow> world \<Rightarrow> world res" where
  "tsan_unaligned_read2 = read_callback"

definition tsan_unaligned_read4 :: "tree \<Rightarrow> ThreadID \<Rightarrow> Address \<Rightarrow> i32 \<Rightarrow> cstr \<Rightarrow> cstr \<Rightarrow> world \<Rightarrow> world res" where
  "tsan_unaligned_read4 = read_callback"

definition tsan_unaligned_read8 :: "tree \<Rightarrow> ThreadID \<Rightarrow> Address \<Rightarrow> i32 \<Rightarrow> cstr \<Rightarrow> cstr \<Rightarrow> world \<Rightarrow> world res" where
  "tsan_unaligned_read8 = read_callback"

definition tsan_unaligned_read16 :: "tree \<Rightarrow> ThreadID \<Rightarrow> Address \<Rightarrow> i32 \<Rightarrow> cstr \<Rightarrow> cstr \<Rightarrow> world \<Rightarrow> world res" where
  "tsan_unaligned_read16 = read_callback"

definition tsan_unaligned_write2 :: "tree \<Rightarrow> ThreadID \<Rightarrow> Address \<Rightarrow> i32 \<Rightarrow> cstr \<Rightarrow> cstr \<Rightarrow> world \<Rightarrow> world res" where
  "tsan_unaligned_write2 = write_callback True"

definition tsan_unaligned_write4 :: "tree \<Rightarrow> ThreadID \<Rightarrow> Address \<Rightarrow> i32 \<Rightarrow> cstr \<Rightarrow> cstr \<Rightarrow> world \<Rightarrow> world res" where
  "tsan_unaligned_write4 = write_callback True"

definition tsan_unaligned_write8 :: "tree \<Rightarrow> ThreadID \<Rightarrow> Address \<Rightarrow> i32 \<Rightarrow> cstr \<Rightarrow> cstr \<Rightarrow> world \<Rightarrow> world res" where
  "tsan_unaligned_write8 = write_callback True"

definition tsan_unaligned_write16 :: "tree \<Rightarrow> ThreadID \<Rightarrow> Address \<Rightarrow> i32 \<Rightarrow> cstr \<Rightarrow> cstr \<Rightarrow> world \<Rightarrow> world res" where
  "tsan_unaligned_write16 = write_callback True"

text \<open>The callback for reads of a virtual pointer calls \<open>ft_write\<close> and reports a write.\<close>

definition tsan_vptr_read :: "tree \<Rightarrow> ThreadID \<Rightarrow> Address \<Rightarrow> i32 \<Rightarrow> cstr \<Rightarrow> cstr \<Rightarrow> world \<Rightarrow> world res" where
  "tsan_vptr_read = write_callback False"

definition tsan_vptr_update :: "tree \<Rightarrow> ThreadID \<Rightarrow> Address \<Rightarrow> Address \<Rightarrow> i32 \<Rightarrow> cstr \<Rightarrow> cstr \<Rightarrow> world \<Rightarrow> world res" where
  "tsan_vptr_update pos self vptr_p new_val = write_callback True pos self vptr_p"

subsection \<open>Synchronisation\<close>

text \<open>
  \<open>getState\<close> returns references, so the parent is read again after the child was looked up.
\<close>

definition fork_threads :: "ThreadID \<Rightarrow> ThreadID \<Rightarrow> rt \<Rightarrow> rt res" where
  "fork_threads parent_id child_id s =
     bnd (getState parent_id s) (\<lambda>(_, s1). bnd (getState child_id s1) (\<lambda>(u, s2).
       let t = the (thread_of s2 parent_id); s3 = s2\<lparr>isConcurrent := fork_count (isConcurrent s2)\<rparr>
       in if parent_id = child_id
          then bnd (ft_fork_self t) (\<lambda>t'. Inr (put_thread parent_id t' s3))
          else bnd (ft_fork t u) (\<lambda>(t', u'). Inr (put_thread child_id u' (put_thread parent_id t' s3)))))"

definition join_threads :: "ThreadID \<Rightarrow> ThreadID \<Rightarrow> rt \<Rightarrow> rt res" where
  "join_threads parent_id child_id s =
     bnd (getState parent_id s) (\<lambda>(_, s1). bnd (getState child_id s1) (\<lambda>(u, s2).
       let t = the (thread_of s2 parent_id); s3 = s2\<lparr>isConcurrent := join_count (isConcurrent s2)\<rparr>
       in if parent_id = child_id
          then bnd (ft_join_self t) (\<lambda>t'. Inr (put_thread parent_id t' s3))
          else bnd (ft_join t u) (\<lambda>(t', u'). Inr (put_thread child_id u' (put_thread parent_id t' s3)))))"

definition lock_access :: "ThreadID \<Rightarrow> Address \<Rightarrow> rt \<Rightarrow> rt res" where
  "lock_access self lock s =
     bnd (getThreadState self s) (\<lambda>(t, s1). bnd (getLockState lock s1) (\<lambda>(m, s2).
       bnd (ft_acquire t m) (\<lambda>(t', m'). Inr (put_lock lock m' (put_thread self t' s2)))))"

definition unlock_access :: "ThreadID \<Rightarrow> Address \<Rightarrow> rt \<Rightarrow> rt res" where
  "unlock_access self lock s =
     bnd (getThreadState self s) (\<lambda>(t, s1). bnd (getLockState lock s1) (\<lambda>(m, s2).
       bnd (ft_release t m) (\<lambda>(t', m'). Inr (put_lock lock m' (put_thread self t' s2)))))"

definition on_rt :: "(rt \<Rightarrow> rt res) \<Rightarrow> world \<Rightarrow> world res" where
  "on_rt f w = bnd (f (w_rt w)) (\<lambda>s. Inr (w\<lparr>w_rt := s\<rparr>))"

text \<open>\<open>mem\<close> reads an \<open>unsigned int\<close> of the program's memory: \<open>*((unsigned int*)childIdAddr)\<close>.\<close>

definition tsan_thread_create :: "(Address \<Rightarrow> i32) \<Rightarrow> ThreadID \<Rightarrow> Address \<Rightarrow> world \<Rightarrow> world res" where
  "tsan_thread_create mem self childIdAddr = on_rt (fork_threads self (mem childIdAddr))"

definition tsan_thread_join :: "ThreadID \<Rightarrow> Address \<Rightarrow> world \<Rightarrow> world res" where
  "tsan_thread_join self childIdAddr = on_rt (join_threads self (word_of_nat childIdAddr))"

definition tsan_thread_lock :: "ThreadID \<Rightarrow> Address \<Rightarrow> world \<Rightarrow> world res" where
  "tsan_thread_lock self lock = on_rt (lock_access self lock)"

definition tsan_thread_unlock :: "ThreadID \<Rightarrow> Address \<Rightarrow> world \<Rightarrow> world res" where
  "tsan_thread_unlock self lock = on_rt (unlock_access self lock)"

subsection \<open>Atomics and function frames\<close>

text \<open>
  The atomic callbacks print a warning. They have no \<open>return\<close> statement, so there is no value to
  model: the result is the state alone.
\<close>

definition ft_atomic_load :: "world \<Rightarrow> world" where
  "ft_atomic_load w = put_out (''EmbedSanitizer: Warning, atomic load not implemented!'' @ nl) w"

definition tsan_atomic8_load :: "Address \<Rightarrow> nat \<Rightarrow> world \<Rightarrow> world" where
  "tsan_atomic8_load a mo w = ft_atomic_load w"

definition tsan_atomic16_load :: "Address \<Rightarrow> nat \<Rightarrow> world \<Rightarrow> world" where
  "tsan_atomic16_load a mo w = ft_atomic_load w"

definition tsan_atomic32_load :: "Address \<Rightarrow> nat \<Rightarrow> world \<Rightarrow> world" where
  "tsan_atomic32_load a mo w = ft_atomic_load w"

definition tsan_atomic32_fetch_add :: "Address \<Rightarrow> 8 word \<Rightarrow> nat \<Rightarrow> world \<Rightarrow> world" where
  "tsan_atomic32_fetch_add a v mo w =
     put_out (''EmbedSanitizer: atomic_fetch_add not implemented'' @ nl) w"

definition tsan_func_entry :: "ThreadID \<Rightarrow> cstr \<Rightarrow> world \<Rightarrow> world" where
  "tsan_func_entry self funcName w = w\<lparr>w_rep := pushFunction self funcName (w_rep w)\<rparr>"

definition tsan_func_exit :: "ThreadID \<Rightarrow> cstr \<Rightarrow> world \<Rightarrow> world" where
  "tsan_func_exit self funcName w = w\<lparr>w_rep := popFunction self funcName (w_rep w)\<rparr>"

subsection \<open>Reads of virtual pointers\<close>

text \<open>
  The callback for reads of a virtual pointer is a write to the race detector: it does to the
  state of the runtime what \<open>tsan_write8\<close> does to a known address, and reports \<open>write\<close>.
\<close>

lemma vptr_read_is_a_write:
  assumes "var_of (w_rt w) vptr_p = Some x"
  shows "tsan_vptr_read pos self vptr_p lineNo objName fileName w =
    tsan_write8 pos self vptr_p lineNo objName fileName w"
  using assms
  by (simp add: tsan_vptr_read_def tsan_write8_def write_callback_def write_access_def getVarState_found)

end
