(* ===== verification/HappensBefore.thy ===== *)
theory HappensBefore
  imports Main
begin

text \<open>
  The specification of race detection, independent of the code. A trace is a list of
  synchronisation events and memory accesses; \<open>hb\<close> is the happens-before relation between its
  positions, and a race is a pair of conflicting accesses it does not order. The theory also holds
  the vector-clock detector (one clock per thread and lock, a clock of last reads and last writes
  per address), and shows that it reports exactly the accesses that end a race. FastTrack is
  shown to refine this detector in \<open>Refinement\<close>.
\<close>

subsection \<open>Traces and happens-before\<close>

datatype ('k, 'l, 'a) event =
    Read 'k 'a
  | Write 'k 'a
  | Acquire 'k 'l
  | Release 'k 'l
  | Fork 'k 'k
  | Join 'k 'k

fun actor :: "('k, 'l, 'a) event \<Rightarrow> 'k" where
  "actor (Read t x) = t"
| "actor (Write t x) = t"
| "actor (Acquire t l) = t"
| "actor (Release t l) = t"
| "actor (Fork t u) = t"
| "actor (Join t u) = t"

fun is_release :: "'l \<Rightarrow> ('k, 'l, 'a) event \<Rightarrow> bool" where
  "is_release l (Release t m) = (m = l)"
| "is_release l _ = False"

fun acquires :: "'l \<Rightarrow> ('k, 'l, 'a) event \<Rightarrow> bool" where
  "acquires l (Acquire t m) = (m = l)"
| "acquires l _ = False"

fun forks :: "'k \<Rightarrow> ('k, 'l, 'a) event \<Rightarrow> bool" where
  "forks u (Fork t v) = (v = u)"
| "forks u _ = False"

fun joins :: "'k \<Rightarrow> ('k, 'l, 'a) event \<Rightarrow> bool" where
  "joins u (Join t v) = (v = u)"
| "joins u _ = False"

definition last_release :: "('k, 'l, 'a) event list \<Rightarrow> 'l \<Rightarrow> nat \<Rightarrow> bool" where
  "last_release tr l i \<longleftrightarrow> i < length tr \<and> is_release l (tr ! i) \<and>
     (\<forall>k. i < k \<and> k < length tr \<longrightarrow> \<not> is_release l (tr ! k))"

text \<open>
  The direct edges: program order, the last release of a lock to the next acquire, a fork to the
  events of the child, the events of a child to its join, and the fork of a child to its join (the
  child may have run without an event of its own).
\<close>

definition edge :: "('k, 'l, 'a) event list \<Rightarrow> nat \<Rightarrow> nat \<Rightarrow> bool" where
  "edge tr i j \<longleftrightarrow> i < j \<and> j < length tr \<and>
     (actor (tr ! i) = actor (tr ! j) \<or>
      (\<exists>l. acquires l (tr ! j) \<and> last_release (take j tr) l i) \<or>
      forks (actor (tr ! j)) (tr ! i) \<or>
      joins (actor (tr ! i)) (tr ! j) \<or>
      (\<exists>u. forks u (tr ! i) \<and> joins u (tr ! j)))"

definition hb :: "('k, 'l, 'a) event list \<Rightarrow> nat \<Rightarrow> nat \<Rightarrow> bool" where
  "hb tr = (edge tr)\<^sup>+\<^sup>+"

fun conflict :: "('k, 'l, 'a) event \<Rightarrow> ('k, 'l, 'a) event \<Rightarrow> bool" where
  "conflict (Read t x) (Write u y) = (t \<noteq> u \<and> x = y)"
| "conflict (Write t x) (Read u y) = (t \<noteq> u \<and> x = y)"
| "conflict (Write t x) (Write u y) = (t \<noteq> u \<and> x = y)"
| "conflict _ _ = False"

definition race :: "('k, 'l, 'a) event list \<Rightarrow> nat \<Rightarrow> nat \<Rightarrow> bool" where
  "race tr i j \<longleftrightarrow> i < j \<and> j < length tr \<and> conflict (tr ! i) (tr ! j) \<and> \<not> hb tr i j"

lemma edge_less: "edge tr i j \<Longrightarrow> i < j \<and> j < length tr"
  by (simp add: edge_def)

lemma hb_less: "hb tr i j \<Longrightarrow> i < j \<and> j < length tr"
  unfolding hb_def by (induction rule: tranclp_induct) (auto dest: edge_less)

lemma edge_append: "j < length tr \<Longrightarrow> edge (tr @ tr') i j \<longleftrightarrow> edge tr i j"
  by (auto simp: edge_def nth_append)

lemma hb_append_imp: "hb (tr @ tr') i j \<Longrightarrow> j < length tr \<Longrightarrow> hb tr i j"
  unfolding hb_def
proof (induction rule: tranclp_induct)
  case (base y)
  then show ?case by (simp add: edge_append tranclp.r_into_trancl)
next
  case (step y z)
  then have "edge tr y z" by (simp add: edge_append)
  with step edge_less [of tr y z] show ?case by (auto intro: tranclp.trancl_into_trancl)
qed

lemma hb_imp_append: "hb tr i j \<Longrightarrow> hb (tr @ tr') i j"
  unfolding hb_def
proof (induction rule: tranclp_induct)
  case (base y)
  then have "edge (tr @ tr') i y" using edge_append [of y tr tr' i] edge_less by blast
  then show ?case by (rule tranclp.r_into_trancl)
next
  case (step y z)
  then have "edge (tr @ tr') y z" using edge_append [of z tr tr' y] edge_less by blast
  with step show ?case by (auto intro: tranclp.trancl_into_trancl)
qed

lemma hb_append: "j < length tr \<Longrightarrow> hb (tr @ tr') i j \<longleftrightarrow> hb tr i j"
  using hb_append_imp hb_imp_append by blast

lemma hb_snoc:
  "hb (tr @ [e]) i (length tr) \<longleftrightarrow>
    (\<exists>j. (i = j \<or> hb tr i j) \<and> edge (tr @ [e]) j (length tr))"
proof
  assume "hb (tr @ [e]) i (length tr)"
  then consider "edge (tr @ [e]) i (length tr)"
    | b where "hb (tr @ [e]) i b" "edge (tr @ [e]) b (length tr)"
    unfolding hb_def by (auto elim: tranclp.cases)
  then show "\<exists>j. (i = j \<or> hb tr i j) \<and> edge (tr @ [e]) j (length tr)"
  proof cases
    case 1
    then show ?thesis by blast
  next
    case (2 b)
    then have "b < length tr" using edge_less by blast
    with 2 show ?thesis using hb_append [of b tr "[e]" i] by blast
  qed
next
  assume "\<exists>j. (i = j \<or> hb tr i j) \<and> edge (tr @ [e]) j (length tr)"
  then obtain j where j: "i = j \<or> hb tr i j" "edge (tr @ [e]) j (length tr)" by blast
  then have "j < length tr" using edge_less by blast
  with j show "hb (tr @ [e]) i (length tr)"
    using hb_append [of j tr "[e]" i] by (auto simp: hb_def intro: tranclp.intros)
qed

subsection \<open>Causal pasts\<close>

text \<open>
  The causal past of a thread: the positions that happen before its next event, computed along
  the trace.
\<close>

record ('k, 'l) past =
  pn :: nat
  pK :: "'k \<Rightarrow> nat set"
  pL :: "'l \<Rightarrow> nat set"

definition past_init :: "('k, 'l) past" where
  "past_init = \<lparr>pn = 0, pK = (\<lambda>_. {}), pL = (\<lambda>_. {})\<rparr>"

fun before :: "('k, 'l, 'a) event \<Rightarrow> ('k, 'l) past \<Rightarrow> nat set" where
  "before (Acquire t l) p = pK p t \<union> pL p l"
| "before (Join t u) p = pK p t \<union> pK p u"
| "before e p = pK p (actor e)"

fun past_step :: "('k, 'l, 'a) event \<Rightarrow> ('k, 'l) past \<Rightarrow> ('k, 'l) past" where
  "past_step (Release t l) p = (let now = insert (pn p) (pK p t)
     in p\<lparr>pn := Suc (pn p), pK := (pK p)(t := now), pL := (pL p)(l := now)\<rparr>)"
| "past_step (Fork t u) p = (let now = insert (pn p) (pK p t); K1 = (pK p)(t := now)
     in p\<lparr>pn := Suc (pn p), pK := K1(u := K1 u \<union> now)\<rparr>)"
| "past_step e p =
     p\<lparr>pn := Suc (pn p), pK := (pK p)(actor e := insert (pn p) (before e p))\<rparr>"

definition past_run :: "('k, 'l, 'a) event list \<Rightarrow> ('k, 'l) past" where
  "past_run tr = fold past_step tr past_init"

lemma past_run_Nil [simp]: "past_run [] = past_init"
  by (simp add: past_run_def)

lemma past_run_snoc: "past_run (tr @ [e]) = past_step e (past_run tr)"
  by (simp add: past_run_def)

lemma pn_past_step [simp]: "pn (past_step e p) = Suc (pn p)"
  by (cases e) (simp_all add: Let_def)

lemma pn_past_run [simp]: "pn (past_run tr) = length tr"
  by (induction tr rule: rev_induct) (simp_all add: past_run_snoc past_init_def)

text \<open>\<open>hb_upto tr i j\<close>: position \<open>i\<close> is \<open>j\<close> or happens before it.\<close>

definition hb_upto :: "('k, 'l, 'a) event list \<Rightarrow> nat \<Rightarrow> nat \<Rightarrow> bool" where
  "hb_upto tr i j \<longleftrightarrow> j < length tr \<and> (i = j \<or> hb tr i j)"

definition past_inv :: "('k, 'l, 'a) event list \<Rightarrow> ('k, 'l) past \<Rightarrow> bool" where
  "past_inv tr p \<longleftrightarrow>
     (\<forall>t i. i \<in> pK p t \<longleftrightarrow> (\<exists>j. hb_upto tr i j \<and> (actor (tr ! j) = t \<or> forks t (tr ! j)))) \<and>
     (\<forall>l i. i \<in> pL p l \<longleftrightarrow> (\<exists>j. hb_upto tr i j \<and> last_release tr l j))"

lemma edge_snoc:
  "edge (tr @ [e]) j (length tr) \<longleftrightarrow> j < length tr \<and>
    (actor (tr ! j) = actor e \<or> (\<exists>l. acquires l e \<and> last_release tr l j) \<or>
     forks (actor e) (tr ! j) \<or> joins (actor (tr ! j)) e \<or>
     (\<exists>u. forks u (tr ! j) \<and> joins u e))"
  by (auto simp: edge_def nth_append)

lemma hb_before:
  assumes "past_inv tr p"
  shows "hb (tr @ [e]) i (length tr) \<longleftrightarrow> i \<in> before e p"
proof -
  have K: "i \<in> pK p t \<longleftrightarrow> (\<exists>j. hb_upto tr i j \<and> (actor (tr ! j) = t \<or> forks t (tr ! j)))"
    and L: "i \<in> pL p l \<longleftrightarrow> (\<exists>j. hb_upto tr i j \<and> last_release tr l j)" for t l
    using assms by (simp_all add: past_inv_def)
  have up: "hb (tr @ [e]) i (length tr) \<longleftrightarrow>
      (\<exists>j. hb_upto tr i j \<and> (actor (tr ! j) = actor e \<or> (\<exists>l. acquires l e \<and> last_release tr l j) \<or>
         forks (actor e) (tr ! j) \<or> joins (actor (tr ! j)) e \<or>
         (\<exists>u. forks u (tr ! j) \<and> joins u e)))"
    by (auto simp: hb_snoc edge_snoc hb_upto_def)
  show ?thesis
    unfolding up by (cases e) (auto simp: K L)
qed

lemma hb_upto_snoc:
  assumes "past_inv tr p"
  shows "hb_upto (tr @ [e]) i j \<longleftrightarrow>
    (if j = length tr then i = length tr \<or> i \<in> before e p else hb_upto tr i j)"
  using hb_before [OF assms, of e i] hb_append [of j tr "[e]" i]
  by (auto simp: hb_upto_def)

lemma last_release_snoc:
  "last_release (tr @ [e]) l j \<longleftrightarrow>
    (if is_release l e then j = length tr else last_release tr l j)"
proof -
  have all: "(\<forall>k. j < k \<and> k < Suc (length tr) \<longrightarrow> \<not> is_release l ((tr @ [e]) ! k)) \<longleftrightarrow>
      (j < length tr \<longrightarrow> \<not> is_release l e) \<and>
      (\<forall>k. j < k \<and> k < length tr \<longrightarrow> \<not> is_release l (tr ! k))"
    by (auto simp: less_Suc_eq nth_append)
  show ?thesis
    unfolding last_release_def length_append_singleton all
    by (cases "j = length tr") (auto simp: nth_append less_Suc_eq)
qed

lemma past_inv_step:
  assumes inv: "past_inv tr p" and n: "pn p = length tr"
  shows "past_inv (tr @ [e]) (past_step e p)"
proof -
  have K: "i \<in> pK p t \<longleftrightarrow> (\<exists>j. hb_upto tr i j \<and> (actor (tr ! j) = t \<or> forks t (tr ! j)))"
    and L: "i \<in> pL p l \<longleftrightarrow> (\<exists>j. hb_upto tr i j \<and> last_release tr l j)" for t l i
    using inv by (simp_all add: past_inv_def)
  have less: "hb_upto tr i j \<Longrightarrow> j < length tr" for i j by (simp add: hb_upto_def)
  have less': "last_release tr l j \<Longrightarrow> j < length tr" for l j by (simp add: last_release_def)
  have newK: "(\<exists>j. hb_upto (tr @ [e]) i j \<and> (actor ((tr @ [e]) ! j) = t \<or> forks t ((tr @ [e]) ! j))) \<longleftrightarrow>
      i \<in> pK p t \<or> (actor e = t \<or> forks t e) \<and> (i = length tr \<or> i \<in> before e p)" for i t
    unfolding K hb_upto_snoc [OF inv] by (auto simp: nth_append dest: less)
  have newL: "(\<exists>j. hb_upto (tr @ [e]) i j \<and> last_release (tr @ [e]) l j) \<longleftrightarrow>
      (if is_release l e then i = length tr \<or> i \<in> before e p else i \<in> pL p l)" for i l
  proof (cases "is_release l e")
    case True
    then show ?thesis by (simp add: hb_upto_snoc [OF inv] last_release_snoc)
  next
    case False
    then have "hb_upto (tr @ [e]) i j \<and> last_release (tr @ [e]) l j \<longleftrightarrow>
        hb_upto tr i j \<and> last_release tr l j" for j
      using less' [of l j] by (auto simp: hb_upto_snoc [OF inv] last_release_snoc)
    with False show ?thesis by (simp add: L)
  qed
  show ?thesis
    unfolding past_inv_def newK newL by (cases e) (auto simp: Let_def n)
qed

lemma past_inv_run: "past_inv tr (past_run tr)"
proof (induction tr rule: rev_induct)
  case Nil
  show ?case by (simp add: past_inv_def past_init_def hb_upto_def)
next
  case (snoc e tr)
  then show ?case by (simp add: past_run_snoc past_inv_step)
qed

text \<open>The causal past of an event, computed along the trace, is its happens-before past.\<close>

lemma hb_iff_before: "hb (tr @ [e]) i (length tr) \<longleftrightarrow> i \<in> before e (past_run tr)"
  by (rule hb_before) (rule past_inv_run)

subsection \<open>The vector-clock detector\<close>

text \<open>
  One clock per thread and lock, and per address the clock of each thread's last read and last
  write. A read races with a write its thread's clock does not cover; a write races with a read or
  write it does not cover.
\<close>

record ('k, 'l, 'a) detector =
  dC :: "'k \<Rightarrow> 'k \<Rightarrow> nat"
  dL :: "'l \<Rightarrow> 'k \<Rightarrow> nat"
  dR :: "'a \<Rightarrow> 'k \<Rightarrow> nat"
  dW :: "'a \<Rightarrow> 'k \<Rightarrow> nat"

definition detector_init :: "('k, 'l, 'a) detector" where
  "detector_init = \<lparr>dC = (\<lambda>t u. if u = t then 1 else 0), dL = (\<lambda>_ _. 0), dR = (\<lambda>_ _. 0),
     dW = (\<lambda>_ _. 0)\<rparr>"

definition cjoin :: "('k \<Rightarrow> nat) \<Rightarrow> ('k \<Rightarrow> nat) \<Rightarrow> 'k \<Rightarrow> nat" where
  "cjoin f g = (\<lambda>u. max (f u) (g u))"

definition ctick :: "'k \<Rightarrow> ('k \<Rightarrow> nat) \<Rightarrow> 'k \<Rightarrow> nat" where
  "ctick t f = f(t := Suc (f t))"

fun det_step :: "('k, 'l, 'a) event \<Rightarrow> ('k, 'l, 'a) detector \<Rightarrow> ('k, 'l, 'a) detector" where
  "det_step (Read t x) d = d\<lparr>dR := (dR d)(x := (dR d x)(t := dC d t t))\<rparr>"
| "det_step (Write t x) d = d\<lparr>dW := (dW d)(x := (dW d x)(t := dC d t t))\<rparr>"
| "det_step (Acquire t l) d = d\<lparr>dC := (dC d)(t := cjoin (dC d t) (dL d l))\<rparr>"
| "det_step (Release t l) d =
     d\<lparr>dL := (dL d)(l := dC d t), dC := (dC d)(t := ctick t (dC d t))\<rparr>"
| "det_step (Fork t u) d =
     d\<lparr>dC := (dC d)(u := cjoin (dC d u) (dC d t), t := ctick t (dC d t))\<rparr>"
| "det_step (Join t u) d =
     d\<lparr>dC := (dC d)(t := cjoin (dC d t) (dC d u), u := ctick u (dC d u))\<rparr>"

definition covers :: "('k \<Rightarrow> nat) \<Rightarrow> ('k \<Rightarrow> nat) \<Rightarrow> bool" where
  "covers V f \<longleftrightarrow> (\<forall>u. f u \<le> V u)"

fun det_race :: "('k, 'l, 'a) event \<Rightarrow> ('k, 'l, 'a) detector \<Rightarrow> bool" where
  "det_race (Read t x) d = (\<not> covers (dC d t) (dW d x))"
| "det_race (Write t x) d = (\<not> covers (dC d t) (dW d x) \<or> \<not> covers (dC d t) (dR d x))"
| "det_race e d = False"

definition det_run :: "('k, 'l, 'a) event list \<Rightarrow> ('k, 'l, 'a) detector" where
  "det_run tr = fold det_step tr detector_init"

lemma det_run_Nil [simp]: "det_run [] = detector_init"
  by (simp add: det_run_def)

lemma det_run_snoc: "det_run (tr @ [e]) = det_step e (det_run tr)"
  by (simp add: det_run_def)

text \<open>A thread neither forks nor joins itself.\<close>

fun proper :: "('k, 'l, 'a) event \<Rightarrow> bool" where
  "proper (Fork t u) = (t \<noteq> u)"
| "proper (Join t u) = (t \<noteq> u)"
| "proper e = True"

text \<open>
  Others always know less of a thread than the thread itself: the invariant that lets an epoch
  stand for a whole clock.
\<close>

definition det_inv :: "('k, 'l, 'a) detector \<Rightarrow> bool" where
  "det_inv d \<longleftrightarrow> (\<forall>t u. u \<noteq> t \<longrightarrow> dC d u t < dC d t t) \<and> (\<forall>l t. dL d l t < dC d t t)"

lemma det_inv_init: "det_inv detector_init"
  by (simp add: det_inv_def detector_init_def)

lemma det_inv_step: "det_inv d \<Longrightarrow> proper e \<Longrightarrow> det_inv (det_step e d)"
  by (cases e) (auto simp: det_inv_def cjoin_def ctick_def less_Suc_eq)

lemma det_inv_run: "\<forall>e \<in> set tr. proper e \<Longrightarrow> det_inv (det_run tr)"
  by (induction tr rule: rev_induct) (auto simp: det_run_snoc det_inv_init det_inv_step)

subsection \<open>Clocks measure causal pasts\<close>

text \<open>The stamp of a position is its thread's own clock at that time.\<close>

definition stamp :: "('k, 'l, 'a) event list \<Rightarrow> nat \<Rightarrow> nat" where
  "stamp tr i = dC (det_run (take i tr)) (actor (tr ! i)) (actor (tr ! i))"

lemma stamp_snoc:
  "i < length tr \<Longrightarrow> stamp (tr @ [e]) i = stamp tr i"
  "stamp (tr @ [e]) (length tr) = dC (det_run tr) (actor e) (actor e)"
  by (simp_all add: stamp_def nth_append)

lemma pK_less: "i \<in> pK (past_run tr) t \<Longrightarrow> i < length tr"
  using past_inv_run [of tr] by (auto simp: past_inv_def hb_upto_def dest: hb_less)

lemma pL_less: "i \<in> pL (past_run tr) l \<Longrightarrow> i < length tr"
  using past_inv_run [of tr] by (auto simp: past_inv_def hb_upto_def dest: hb_less)

definition measures_past :: "('k, 'l, 'a) event list \<Rightarrow> ('k, 'l, 'a) detector \<Rightarrow> ('k, 'l) past \<Rightarrow> bool" where
  "measures_past tr d p \<longleftrightarrow> (\<forall>i < length tr.
     (\<forall>t. i \<in> pK p t \<longleftrightarrow> stamp tr i \<le> dC d t (actor (tr ! i))) \<and>
     (\<forall>l. i \<in> pL p l \<longleftrightarrow> stamp tr i \<le> dL d l (actor (tr ! i))))"

lemma measures_past_step:
  assumes m: "measures_past tr d p" and d: "det_inv d" and e: "proper e"
    and dr: "d = det_run tr" and pr: "p = past_run tr"
  shows "measures_past (tr @ [e]) (det_step e d) (past_step e p)"
proof -
  have n: "pn p = length tr" by (simp add: pr)
  have fresh: "length tr \<notin> pK p t" "length tr \<notin> pL p l" for t l
    by (auto simp: pr dest: pK_less pL_less)
  have old: "i \<in> pK p t \<longleftrightarrow> stamp tr i \<le> dC d t (actor (tr ! i))"
    "i \<in> pL p l \<longleftrightarrow> stamp tr i \<le> dL d l (actor (tr ! i))" if "i < length tr" for i t l
    using m that by (simp_all add: measures_past_def)
  have own: "stamp tr i \<le> dC d (actor (tr ! i)) (actor (tr ! i))" if "i < length tr" for i
  proof -
    have "i \<in> pK p (actor (tr ! i))"
      using past_inv_run [of tr] that by (auto simp: past_inv_def hb_upto_def pr)
    with old that show ?thesis by simp
  qed
  have less: "u \<noteq> t \<Longrightarrow> \<not> dC d t t \<le> dC d u t" "\<not> dC d t t \<le> dL d l t" for t u l
    using d by (auto simp: det_inv_def not_le)
  have "(\<forall>t. i \<in> pK (past_step e p) t \<longleftrightarrow>
        stamp (tr @ [e]) i \<le> dC (det_step e d) t (actor ((tr @ [e]) ! i))) \<and>
      (\<forall>l. i \<in> pL (past_step e p) l \<longleftrightarrow>
        stamp (tr @ [e]) i \<le> dL (det_step e d) l (actor ((tr @ [e]) ! i)))"
    if "i < length (tr @ [e])" for i
  proof (cases "i = length tr")
    case True
    show ?thesis
      using e less fresh
      by (cases e)
        (auto simp: True stamp_snoc dr [symmetric] n Let_def cjoin_def ctick_def le_max_iff_disj le_Suc_eq)
  next
    case False
    with that have i: "i < length tr" by simp
    show ?thesis
      using e own [OF i] False
      by (cases e)
        (auto simp: i stamp_snoc nth_append n Let_def cjoin_def ctick_def le_max_iff_disj old [OF i]
          intro: le_SucI)
  qed
  then show ?thesis by (simp add: measures_past_def)
qed

lemma measures_past_run:
  "\<forall>e \<in> set tr. proper e \<Longrightarrow> measures_past tr (det_run tr) (past_run tr)"
proof (induction tr rule: rev_induct)
  case Nil
  show ?case by (simp add: measures_past_def)
next
  case (snoc e tr)
  then show ?case
    using measures_past_step [of tr "det_run tr" "past_run tr" e] det_inv_run [of tr]
    by (simp add: det_run_snoc past_run_snoc)
qed

subsection \<open>The detector reports exactly the races\<close>

text \<open>\<open>last_clock tr P f\<close>: \<open>f u\<close> is the greatest stamp of the positions of \<open>u\<close> that satisfy \<open>P\<close>, and
  0 when there is none.\<close>

definition last_clock :: "('k, 'l, 'a) event list \<Rightarrow> ('k \<Rightarrow> ('k, 'l, 'a) event) \<Rightarrow> ('k \<Rightarrow> nat) \<Rightarrow> bool" where
  "last_clock tr ev f \<longleftrightarrow> (\<forall>u.
     (\<forall>i < length tr. tr ! i = ev u \<longrightarrow> stamp tr i \<le> f u) \<and>
     (f u = 0 \<or> (\<exists>i < length tr. tr ! i = ev u \<and> stamp tr i = f u)))"

lemma last_clock_le: "last_clock tr ev f \<Longrightarrow> i < length tr \<Longrightarrow> tr ! i = ev u \<Longrightarrow> stamp tr i \<le> f u"
  unfolding last_clock_def by blast

lemma last_clock_ex:
  assumes "last_clock tr ev f"
  shows "f u = 0 \<or> (\<exists>i < length tr. tr ! i = ev u \<and> stamp tr i = f u)"
  using assms unfolding last_clock_def by blast

lemma last_clockI:
  assumes "\<And>u i. i < length tr \<Longrightarrow> tr ! i = ev u \<Longrightarrow> stamp tr i \<le> f u"
    and "\<And>u. f u = 0 \<or> (\<exists>i < length tr. tr ! i = ev u \<and> stamp tr i = f u)"
  shows "last_clock tr ev f"
  using assms unfolding last_clock_def by blast

lemma stamp_le_own:
  assumes "\<forall>e \<in> set tr. proper e" and "i < length tr"
  shows "stamp tr i \<le> dC (det_run tr) (actor (tr ! i)) (actor (tr ! i))"
proof -
  have "i \<in> pK (past_run tr) (actor (tr ! i))"
    using past_inv_run [of tr] assms(2) by (auto simp: past_inv_def hb_upto_def)
  with measures_past_run [OF assms(1)] assms(2) show ?thesis by (simp add: measures_past_def)
qed

lemma last_clock_other:
  assumes lc: "last_clock tr ev f" and ne: "\<And>u. e \<noteq> ev u"
  shows "last_clock (tr @ [e]) ev f"
proof (rule last_clockI)
  fix u i assume len: "i < length (tr @ [e])" and i: "(tr @ [e]) ! i = ev u"
  have "i \<noteq> length tr"
  proof
    assume "i = length tr"
    with i have "e = ev u" by simp
    with ne [of u] show False ..
  qed
  with len i have old: "i < length tr" "tr ! i = ev u" by (simp_all add: nth_append)
  then show "stamp (tr @ [e]) i \<le> f u"
    using last_clock_le [OF lc old] by (simp add: stamp_snoc)
next
  fix u
  show "f u = 0 \<or> (\<exists>i < length (tr @ [e]). (tr @ [e]) ! i = ev u \<and> stamp (tr @ [e]) i = f u)"
  proof (cases "f u = 0")
    case False
    then obtain i where 2: "i < length tr" "tr ! i = ev u" "stamp tr i = f u"
      using last_clock_ex [OF lc, of u] by auto
    have "i < length (tr @ [e])" "(tr @ [e]) ! i = ev u" using 2 by (simp_all add: nth_append)
    moreover have "stamp (tr @ [e]) i = f u" using stamp_snoc(1) [OF 2(1)] 2(3) by (rule trans)
    ultimately show ?thesis by blast
  qed simp
qed

lemma last_clock_same:
  assumes lc: "last_clock tr ev f" and e: "e = ev t" and ev: "\<And>u. actor (ev u) = u"
    and pr: "\<forall>e \<in> set tr. proper e"
  shows "last_clock (tr @ [e]) ev (f(t := dC (det_run tr) t t))"
proof -
  have inj: "ev u = ev w \<longleftrightarrow> u = w" for u w by (metis ev)
  have new: "stamp (tr @ [e]) (length tr) = dC (det_run tr) t t"
    by (simp add: stamp_snoc e ev)
  show ?thesis
  proof (rule last_clockI)
    fix u i assume len: "i < length (tr @ [e])" and i: "(tr @ [e]) ! i = ev u"
    show "stamp (tr @ [e]) i \<le> (f(t := dC (det_run tr) t t)) u"
    proof (cases "i = length tr")
      case True
      with i have "u = t" by (simp add: e inj)
      with True new show ?thesis by simp
    next
      case False
      with len i have old: "i < length tr" "tr ! i = ev u" by (simp_all add: nth_append)
      then show ?thesis
        using last_clock_le [OF lc old] stamp_le_own [OF pr old(1)] by (auto simp: stamp_snoc ev)
    qed
  next
    fix u
    consider "u = t" | "u \<noteq> t" "f u = 0" | "u \<noteq> t" "f u \<noteq> 0" by argo
    then show "(f(t := dC (det_run tr) t t)) u = 0 \<or> (\<exists>i < length (tr @ [e]).
        (tr @ [e]) ! i = ev u \<and> stamp (tr @ [e]) i = (f(t := dC (det_run tr) t t)) u)"
    proof cases
      case 1
      with new have "length tr < length (tr @ [e])" "(tr @ [e]) ! length tr = ev u"
        "stamp (tr @ [e]) (length tr) = (f(t := dC (det_run tr) t t)) u" by (simp_all add: e)
      then show ?thesis by blast
    next
      case ne: 3
      then obtain i where 3: "u \<noteq> t" "i < length tr" "tr ! i = ev u" "stamp tr i = f u"
        using last_clock_ex [OF lc, of u] by auto
      have "i < length (tr @ [e])" "(tr @ [e]) ! i = ev u" using 3 by (simp_all add: nth_append)
      moreover have "stamp (tr @ [e]) i = f u" using stamp_snoc(1) [OF 3(2)] 3(4) by (rule trans)
      then have "stamp (tr @ [e]) i = (f(t := dC (det_run tr) t t)) u" using 3(1) by simp
      ultimately show ?thesis by blast
    qed simp
  qed
qed

lemma last_clock_run:
  assumes "\<forall>e \<in> set tr. proper e"
  shows "last_clock tr (\<lambda>u. Read u x) (dR (det_run tr) x)"
    and "last_clock tr (\<lambda>u. Write u x) (dW (det_run tr) x)"
proof -
  have "last_clock tr (\<lambda>u. Read u x) (dR (det_run tr) x) \<and>
      last_clock tr (\<lambda>u. Write u x) (dW (det_run tr) x)"
    using assms
  proof (induction tr rule: rev_induct)
    case Nil
    show ?case by (simp add: last_clock_def detector_init_def)
  next
    case (snoc e tr)
    then have R: "last_clock tr (\<lambda>u. Read u x) (dR (det_run tr) x)"
      and W: "last_clock tr (\<lambda>u. Write u x) (dW (det_run tr) x)"
      and pr: "\<forall>e \<in> set tr. proper e" by simp_all
    note other = last_clock_other [OF R, of e] last_clock_other [OF W, of e]
    show ?case
    proof (cases e)
      case (Read t y)
      then show ?thesis
        using other last_clock_same [OF R _ _ pr, of e t] by (cases "y = x") (simp_all add: det_run_snoc fun_upd_def)
    next
      case (Write t y)
      then show ?thesis
        using other last_clock_same [OF W _ _ pr, of e t] by (cases "y = x") (simp_all add: det_run_snoc fun_upd_def)
    qed (use other in \<open>simp_all add: det_run_snoc\<close>)
  qed
  then show "last_clock tr (\<lambda>u. Read u x) (dR (det_run tr) x)"
    "last_clock tr (\<lambda>u. Write u x) (dW (det_run tr) x)" by simp_all
qed

lemma uncovered_iff:
  assumes lc: "last_clock tr ev f" and ev: "\<And>u. actor (ev u) = u"
    and pr: "\<forall>e \<in> set tr. proper e" and e: "before e (past_run tr) = pK (past_run tr) t"
  shows "\<not> covers (dC (det_run tr) t) f \<longleftrightarrow>
    (\<exists>i < length tr. \<exists>u. u \<noteq> t \<and> tr ! i = ev u \<and> \<not> hb (tr @ [e]) i (length tr))"
proof -
  have known: "hb (tr @ [e]) i (length tr) \<longleftrightarrow> stamp tr i \<le> dC (det_run tr) t u"
    if "i < length tr" "tr ! i = ev u" for i u
    using measures_past_run [OF pr] that ev by (simp add: hb_iff_before e measures_past_def)
  show ?thesis
  proof
    assume "\<not> covers (dC (det_run tr) t) f"
    then obtain u where u: "dC (det_run tr) t u < f u" by (auto simp: covers_def not_le)
    then obtain i where i: "i < length tr" "tr ! i = ev u" "stamp tr i = f u"
      using last_clock_ex [OF lc, of u] by auto
    then have "u \<noteq> t" using stamp_le_own [OF pr i(1)] u ev by auto
    with i u known show "\<exists>i < length tr. \<exists>u. u \<noteq> t \<and> tr ! i = ev u \<and> \<not> hb (tr @ [e]) i (length tr)"
      by (metis not_le)
  next
    assume "\<exists>i < length tr. \<exists>u. u \<noteq> t \<and> tr ! i = ev u \<and> \<not> hb (tr @ [e]) i (length tr)"
    then obtain i u where i: "i < length tr" "tr ! i = ev u" "\<not> hb (tr @ [e]) i (length tr)" by blast
    with known have "dC (det_run tr) t u < stamp tr i" by (simp add: not_le)
    also have "stamp tr i \<le> f u" by (rule last_clock_le [OF lc i(1,2)])
    finally show "\<not> covers (dC (det_run tr) t) f" by (auto simp: covers_def not_le)
  qed
qed

text \<open>The detector reports an access exactly when the access ends a race of the trace.\<close>

lemma det_race_iff:
  assumes pr: "\<forall>e \<in> set tr. proper e"
  shows "det_race e (det_run tr) \<longleftrightarrow> (\<exists>i. race (tr @ [e]) i (length tr))"
proof -
  have race: "(\<exists>i. race (tr @ [e]) i (length tr)) \<longleftrightarrow>
      (\<exists>i < length tr. conflict (tr ! i) e \<and> \<not> hb (tr @ [e]) i (length tr))"
    by (auto simp: race_def nth_append)
  have conf: "conflict ev (Read t x) \<longleftrightarrow> (\<exists>u. u \<noteq> t \<and> ev = Write u x)"
    "conflict ev (Write t x) \<longleftrightarrow> (\<exists>u. u \<noteq> t \<and> (ev = Write u x \<or> ev = Read u x))" for ev t x
    by (cases ev; auto)+
  have R: "\<not> covers (dC (det_run tr) t) (dR (det_run tr) x) \<longleftrightarrow>
      (\<exists>i < length tr. \<exists>u. u \<noteq> t \<and> tr ! i = Read u x \<and> \<not> hb (tr @ [e]) i (length tr))"
    and W: "\<not> covers (dC (det_run tr) t) (dW (det_run tr) x) \<longleftrightarrow>
      (\<exists>i < length tr. \<exists>u. u \<noteq> t \<and> tr ! i = Write u x \<and> \<not> hb (tr @ [e]) i (length tr))"
    if "before e (past_run tr) = pK (past_run tr) t" for t x
    using uncovered_iff [OF last_clock_run(1) [OF pr] _ pr that]
      uncovered_iff [OF last_clock_run(2) [OF pr] _ pr that] by simp_all
  show ?thesis
    unfolding race
  proof (cases e)
    case (Read t x)
    then show "det_race e (det_run tr) \<longleftrightarrow>
        (\<exists>i < length tr. conflict (tr ! i) e \<and> \<not> hb (tr @ [e]) i (length tr))"
      using W [of t x] by (auto simp: conf)
  next
    case (Write t x)
    then show "det_race e (det_run tr) \<longleftrightarrow>
        (\<exists>i < length tr. conflict (tr ! i) e \<and> \<not> hb (tr @ [e]) i (length tr))"
      using W [of t x] R [of t x] by (auto simp: conf)
  qed (auto elim: conflict.elims)
qed

end
