(* ===== verification/EpochDetector.thy ===== *)
theory EpochDetector
  imports HappensBefore
begin

text \<open>
  FastTrack on numbers: the last write and the last read of an address are single epochs, a pair
  of a thread and a clock, and the clock of all last reads is kept only while reads are shared. The
  theory shows that, as long as no race was reported on an address, these epochs carry enough of
  the vector-clock detector's read and write clocks to report exactly what it reports. The
  packed words of the code come in with \<open>Refinement\<close>.
\<close>

record 'k avar =
  aw :: "'k \<times> nat"
  ar :: "('k \<times> nat) option" \<comment> \<open>\<open>None\<close> is \<open>READ_SHARED\<close>\<close>
  av :: "'k \<Rightarrow> nat"

definition avar_new :: "'k \<Rightarrow> nat \<Rightarrow> bool \<Rightarrow> 'k avar" where
  "avar_new t c isWrite = \<lparr>aw = (t, if isWrite then c else 0),
     ar = Some (t, if isWrite then 0 else c), av = (\<lambda>_. 0)\<rparr>"

definition beyond :: "'k \<Rightarrow> ('k \<Rightarrow> nat) \<Rightarrow> 'k \<times> nat \<Rightarrow> bool" where
  "beyond t V e \<longleftrightarrow> fst e \<noteq> t \<and> V (fst e) < snd e"

definition avar_read :: "'k \<Rightarrow> ('k \<Rightarrow> nat) \<Rightarrow> 'k avar \<Rightarrow> bool \<times> 'k avar" where
  "avar_read t V y =
     (if ar y = Some (t, V t) then (False, y)
      else (beyond t V (aw y),
        case ar y of
          None \<Rightarrow> y\<lparr>av := (av y)(t := V t)\<rparr>
        | Some (k, b) \<Rightarrow>
            if b \<le> V k then y\<lparr>ar := Some (t, V t)\<rparr>
            else y\<lparr>av := (av y)(k := b, t := V t), ar := None\<rparr>))"

definition avar_write :: "'k \<Rightarrow> ('k \<Rightarrow> nat) \<Rightarrow> 'k avar \<Rightarrow> bool \<times> 'k avar" where
  "avar_write t V y =
     (if aw y = (t, V t) then (False, y)
      else (beyond t V (aw y) \<or>
            (case ar y of None \<Rightarrow> \<not> covers V (av y) | Some e \<Rightarrow> beyond t V e),
        y\<lparr>aw := (t, V t), ar := (case ar y of None \<Rightarrow> Some (t, 0) | Some e \<Rightarrow> Some e)\<rparr>))"

subsection \<open>Dominance\<close>

text \<open>
  \<open>dom_epoch d e f\<close>: every clock of the system that has seen epoch \<open>e\<close> has seen epoch \<open>f\<close>.
  Joins and ticks keep it.
\<close>

definition clocks :: "('k, 'l, 'a) detector \<Rightarrow> ('k \<Rightarrow> nat) set" where
  "clocks d = range (dC d) \<union> range (dL d)"

definition dom_epoch :: "('k, 'l, 'a) detector \<Rightarrow> 'k \<times> nat \<Rightarrow> 'k \<times> nat \<Rightarrow> bool" where
  "dom_epoch d e f \<longleftrightarrow> (\<forall>V \<in> clocks d. snd e \<le> V (fst e) \<longrightarrow> snd f \<le> V (fst f))"

lemma dom_epochD: "dom_epoch d e f \<Longrightarrow> snd e \<le> dC d t (fst e) \<Longrightarrow> snd f \<le> dC d t (fst f)"
  by (auto simp: dom_epoch_def clocks_def)

lemma dom_epoch_le: "dom_epoch d e (u, n) \<Longrightarrow> snd e \<le> dC d t (fst e) \<Longrightarrow> n \<le> dC d t u"
  using dom_epochD [of d e "(u, n)" t] by simp

lemma clocks_step:
  assumes "V \<in> clocks (det_step e d)" and "proper e"
  shows "V \<in> clocks d \<or> (\<exists>V1 \<in> clocks d. \<exists>V2 \<in> clocks d. V = cjoin V1 V2) \<or>
    (\<exists>t. V = ctick t (dC d t))"
proof (cases e)
  case (Acquire t l)
  with assms show ?thesis
    using bexI [of "\<lambda>V1. \<exists>V2 \<in> clocks d. V = cjoin V1 V2" "dC d t" "clocks d"]
      bexI [of "\<lambda>V2. V = cjoin (dC d t) V2" "dL d l" "clocks d"]
    by (auto simp: clocks_def split: if_splits)
next
  case (Fork t u)
  with assms show ?thesis
    using bexI [of "\<lambda>V1. \<exists>V2 \<in> clocks d. V = cjoin V1 V2" "dC d u" "clocks d"]
      bexI [of "\<lambda>V2. V = cjoin (dC d u) V2" "dC d t" "clocks d"]
    by (auto simp: clocks_def split: if_splits)
next
  case (Join t u)
  with assms show ?thesis
    using bexI [of "\<lambda>V1. \<exists>V2 \<in> clocks d. V = cjoin V1 V2" "dC d t" "clocks d"]
      bexI [of "\<lambda>V2. V = cjoin (dC d t) V2" "dC d u" "clocks d"]
    by (auto simp: clocks_def split: if_splits)
qed (use assms in \<open>auto simp: clocks_def split: if_splits\<close>)

lemma dom_epoch_step:
  assumes D: "dom_epoch d e f" and e: "snd e \<le> dC d (fst e) (fst e)" and ev: "proper ev"
  shows "dom_epoch (det_step ev d) e f"
  unfolding dom_epoch_def
proof (intro ballI impI)
  fix V assume V: "V \<in> clocks (det_step ev d)" and le: "snd e \<le> V (fst e)"
  from clocks_step [OF V ev] show "snd f \<le> V (fst f)"
  proof (elim disjE bexE exE)
    assume "V \<in> clocks d"
    with D le show ?thesis by (auto simp: dom_epoch_def)
  next
    fix V1 V2 assume "V1 \<in> clocks d" "V2 \<in> clocks d" "V = cjoin V1 V2"
    with D le show ?thesis by (auto simp: dom_epoch_def cjoin_def le_max_iff_disj)
  next
    fix t assume V: "V = ctick t (dC d t)"
    with le e have "snd e \<le> dC d t (fst e)" by (auto simp: ctick_def split: if_splits)
    with D have "snd f \<le> dC d t (fst f)" by (rule dom_epochD)
    with V show ?thesis by (auto simp: ctick_def)
  qed
qed

text \<open>A thread's current epoch is seen by nobody else, so it dominates what the thread covers.\<close>

lemma dom_epoch_current:
  assumes "det_inv d" and "snd f \<le> dC d t (fst f)"
  shows "dom_epoch d (t, dC d t t) f"
  unfolding dom_epoch_def
proof (intro ballI impI)
  fix V assume "V \<in> clocks d" and le: "snd (t, dC d t t) \<le> V (fst (t, dC d t t))"
  then consider u where "V = dC d u" | l where "V = dL d l" by (auto simp: clocks_def)
  then show "snd f \<le> V (fst f)"
  proof cases
    case (1 u)
    then have "u = t" using assms(1) le by (auto simp: det_inv_def not_less [symmetric])
    with 1 assms(2) show ?thesis by simp
  next
    case (2 l)
    with assms(1) le show ?thesis by (auto simp: det_inv_def not_less [symmetric])
  qed
qed

lemma dom_epoch_mono: "dom_epoch d (k, p) f \<Longrightarrow> p \<le> q \<Longrightarrow> dom_epoch d (k, q) f"
  by (auto simp: dom_epoch_def)

lemma dom_epoch_zero [simp]: "dom_epoch d e (u, 0)"
  by (simp add: dom_epoch_def)

lemma dom_epoch_self: "p \<le> q \<Longrightarrow> dom_epoch d (k, q) (k, p)"
  by (auto simp: dom_epoch_def)

subsection \<open>The invariant of an address\<close>

definition read_inv :: "('k, 'l, 'a) detector \<Rightarrow> 'k avar \<Rightarrow> ('k \<Rightarrow> nat) \<Rightarrow> bool" where
  "read_inv d y Ra = (case ar y of
      None \<Rightarrow> (\<forall>u. dom_epoch d (aw y) (u, Ra u) \<or> (\<exists>k. dom_epoch d (k, av y k) (u, Ra u)))
    | Some (k, b) \<Rightarrow> b \<le> Ra k \<and>
        (\<forall>u. dom_epoch d (aw y) (u, Ra u) \<or> dom_epoch d (k, b) (u, Ra u)) \<and>
        (b = dC d k k \<longrightarrow> snd (aw y) \<le> dC d k (fst (aw y))))"

definition avar_inv :: "('k, 'l, 'a) detector \<Rightarrow> 'k avar \<Rightarrow> ('k \<Rightarrow> nat) \<Rightarrow> ('k \<Rightarrow> nat) \<Rightarrow> bool" where
  "avar_inv d y Ra Wa \<longleftrightarrow>
     snd (aw y) \<le> Wa (fst (aw y)) \<and>
     (\<forall>u. dom_epoch d (aw y) (u, Wa u)) \<and>
     (\<forall>u. av y u \<le> Ra u) \<and>
     (snd (aw y) = dC d (fst (aw y)) (fst (aw y)) \<longrightarrow> covers (dC d (fst (aw y))) Ra) \<and>
     (\<forall>u. Ra u \<le> dC d u u \<and> Wa u \<le> dC d u u) \<and>
     read_inv d y Ra"

lemma det_step_mono: "proper e \<Longrightarrow> dC d t u \<le> dC (det_step e d) t u"
  by (cases e) (auto simp: cjoin_def ctick_def)

text \<open>A thread's own clock grows only when it ticks, and then past every epoch it has.\<close>

lemma det_step_own:
  assumes "det_inv d" and "proper e" and "b \<le> dC d k k" and "b = dC (det_step e d) k k"
  shows "b = dC d k k"
  using assms det_step_mono [of e d k k] by simp

lemma avar_inv_step:
  assumes inv: "avar_inv d y Ra Wa" and d: "det_inv d" and e: "proper e"
  shows "avar_inv (det_step e d) y Ra Wa"
proof -
  obtain k a where aw: "aw y = (k, a)" by fastforce
  have own: "Ra u \<le> dC d u u" "Wa u \<le> dC d u u" "av y u \<le> dC d u u" for u
    using inv by (auto simp: avar_inv_def intro: order_trans)
  have a: "a \<le> dC d k k"
    using inv order_trans [OF _ own(2) [of k], of a] by (simp add: avar_inv_def aw)
  note step = dom_epoch_step [OF _ _ e]
  have w: "dom_epoch d (k, a) f \<Longrightarrow> dom_epoch (det_step e d) (k, a) f" for f
    using a by (intro step) simp_all
  have mono: "p \<le> dC d t u \<Longrightarrow> p \<le> dC (det_step e d) t u" for p t u
    using det_step_mono [OF e] order_trans by blast
  have "read_inv (det_step e d) y Ra"
  proof (cases "ar y")
    case None
    have "dom_epoch d (j, av y j) f \<Longrightarrow> dom_epoch (det_step e d) (j, av y j) f" for j f
      using own(3) by (intro step) simp_all
    moreover have "dom_epoch d (k, a) (u, Ra u) \<or> (\<exists>j. dom_epoch d (j, av y j) (u, Ra u))" for u
      using inv by (simp add: avar_inv_def read_inv_def None aw)
    ultimately show ?thesis using w by (simp add: read_inv_def None aw) blast
  next
    case (Some r)
    obtain j b where r: "r = (j, b)" by fastforce
    have b: "b \<le> Ra j" and dom: "\<And>u. dom_epoch d (k, a) (u, Ra u) \<or> dom_epoch d (j, b) (u, Ra u)"
      and cur: "b = dC d j j \<Longrightarrow> a \<le> dC d j k"
      using inv by (auto simp: avar_inv_def read_inv_def Some r aw)
    have bj: "b \<le> dC d j j" using b own(1) order_trans by blast
    have "dom_epoch d (j, b) f \<Longrightarrow> dom_epoch (det_step e d) (j, b) f" for f
      using bj by (intro step) simp_all
    moreover have "b = dC (det_step e d) j j \<Longrightarrow> a \<le> dC (det_step e d) j k"
      using det_step_own [OF d e bj] cur mono by blast
    moreover have "dom_epoch (det_step e d) (k, a) (u, Ra u) \<or>
        dom_epoch (det_step e d) (j, b) (u, Ra u)" for u
      using dom [of u] w calculation(1) by blast
    ultimately show ?thesis using b by (simp add: read_inv_def Some r aw)
  qed
  moreover have "covers (dC (det_step e d) k) Ra" if "a = dC (det_step e d) k k"
  proof -
    have "a = dC d k k" by (rule det_step_own [OF d e a that])
    with inv have "covers (dC d k) Ra" by (simp add: avar_inv_def aw)
    then show ?thesis using mono by (auto simp: covers_def)
  qed
  ultimately show ?thesis
    using inv w mono by (auto simp: avar_inv_def aw)
qed

subsection \<open>Accesses\<close>

text \<open>What the invariant says of a clock \<open>V = dC d t\<close>: the epochs are covered exactly if all reads
  or all writes are.\<close>

lemma det_inv_pos: "det_inv d \<Longrightarrow> 0 < dC d t t"
  unfolding det_inv_def by (metis gr_zeroI not_less_zero)

lemma det_inv_current: "det_inv d \<Longrightarrow> dC d k k \<le> dC d t k \<Longrightarrow> t = k"
  unfolding det_inv_def by (metis not_less)

lemma not_beyond_iff:
  "snd e \<le> dC d t t \<or> fst e \<noteq> t \<Longrightarrow> \<not> beyond t (dC d t) e \<longleftrightarrow> snd e \<le> dC d t (fst e)"
  by (auto simp: beyond_def)

lemma avar_inv_bounds:
  assumes "avar_inv d y Ra Wa"
  shows "snd (aw y) \<le> dC d (fst (aw y)) (fst (aw y))" "ar y = Some e \<Longrightarrow> snd e \<le> dC d (fst e) (fst e)"
    "av y u \<le> dC d u u"
  using assms
  by (auto simp: avar_inv_def read_inv_def split: prod.splits intro: order_trans)

lemma writes_covered_iff:
  assumes "avar_inv d y Ra Wa"
  shows "covers (dC d t) Wa \<longleftrightarrow> snd (aw y) \<le> dC d t (fst (aw y))"
proof
  have le: "snd (aw y) \<le> Wa (fst (aw y))" and dom: "\<And>u. dom_epoch d (aw y) (u, Wa u)"
    using assms by (simp_all add: avar_inv_def)
  show "covers (dC d t) Wa \<Longrightarrow> snd (aw y) \<le> dC d t (fst (aw y))"
    using le order_trans by (fastforce simp: covers_def)
  show "snd (aw y) \<le> dC d t (fst (aw y)) \<Longrightarrow> covers (dC d t) Wa"
    unfolding covers_def using dom by (blast intro: dom_epoch_le)
qed

lemma not_beyond_write:
  assumes "avar_inv d y Ra Wa"
  shows "\<not> beyond t (dC d t) (aw y) \<longleftrightarrow> covers (dC d t) Wa"
  using avar_inv_bounds(1) [OF assms] writes_covered_iff [OF assms, of t]
  by (subst not_beyond_iff) auto

lemma reads_covered_iff:
  assumes inv: "avar_inv d y Ra Wa" and w: "covers (dC d t) Wa"
  shows "covers (dC d t) Ra \<longleftrightarrow>
    (case ar y of None \<Rightarrow> covers (dC d t) (av y) | Some e \<Rightarrow> \<not> beyond t (dC d t) e)"
proof -
  have aw: "snd (aw y) \<le> dC d t (fst (aw y))" using w writes_covered_iff [OF inv] by simp
  have rinv: "read_inv d y Ra" and av: "\<And>u. av y u \<le> Ra u" using inv by (auto simp: avar_inv_def)
  show ?thesis
  proof (cases "ar y")
    case None
    have "covers (dC d t) Ra" if "covers (dC d t) (av y)"
      unfolding covers_def
    proof
      fix u
      from rinv None consider "dom_epoch d (aw y) (u, Ra u)"
        | k where "dom_epoch d (k, av y k) (u, Ra u)" by (auto simp: read_inv_def)
      then show "Ra u \<le> dC d t u"
        using dom_epoch_le aw that by cases (fastforce simp: covers_def)+
    qed
    moreover have "covers (dC d t) (av y)" if "covers (dC d t) Ra"
      unfolding covers_def
    proof
      fix u show "av y u \<le> dC d t u" using that av [of u] by (auto simp: covers_def intro: order_trans)
    qed
    ultimately show ?thesis using None by auto
  next
    case (Some e)
    obtain k b where e: "e = (k, b)" by fastforce
    have b: "b \<le> Ra k" and dom: "\<And>u. dom_epoch d (aw y) (u, Ra u) \<or> dom_epoch d (k, b) (u, Ra u)"
      using rinv by (auto simp: read_inv_def Some e)
    have iff: "\<not> beyond t (dC d t) e \<longleftrightarrow> b \<le> dC d t k"
      using avar_inv_bounds(2) [OF inv Some] by (subst not_beyond_iff) (auto simp: e)
    have "covers (dC d t) Ra \<longleftrightarrow> b \<le> dC d t k"
    proof
      assume "covers (dC d t) Ra"
      then have "Ra k \<le> dC d t k" by (simp add: covers_def)
      with b show "b \<le> dC d t k" by simp
    next
      assume "b \<le> dC d t k"
      then have "Ra u \<le> dC d t u" for u
        using dom [of u] dom_epoch_le [of d "aw y" u "Ra u" t] dom_epoch_le [of d "(k, b)" u "Ra u" t] aw
        by auto
      then show "covers (dC d t) Ra" by (simp add: covers_def)
    qed
    with iff Some show ?thesis by simp
  qed
qed

text \<open>An access changes no clock, so dominance stays.\<close>

lemma avar_inv_cong:
  assumes "dC d' = dC d" and "dL d' = dL d"
  shows "avar_inv d' = avar_inv d"
proof -
  have "clocks d' = clocks d" using assms by (simp add: clocks_def)
  then have dom: "dom_epoch d' = dom_epoch d" by (simp add: dom_epoch_def [abs_def])
  have "read_inv d' = read_inv d"
    unfolding read_inv_def [abs_def] dom assms(1) ..
  then show ?thesis by (simp add: avar_inv_def [abs_def] assms dom)
qed

lemma avar_inv_access [simp]:
  "avar_inv (det_step (Read t x) d) = avar_inv d"
  "avar_inv (det_step (Write t x) d) = avar_inv d"
  by (rule avar_inv_cong; simp)+

lemma fun_upd_same_le:
  fixes Ra :: "'k \<Rightarrow> nat"
  shows "Ra t \<le> c \<Longrightarrow> c \<le> Ra t \<Longrightarrow> Ra(t := c) = Ra"
  by (auto simp: fun_eq_iff)

lemma avar_read_report:
  assumes inv: "avar_inv d y Ra Wa"
  shows "fst (avar_read t (dC d t) y) \<longleftrightarrow> \<not> covers (dC d t) Wa"
proof (cases "ar y = Some (t, dC d t t)")
  case True
  with inv have "snd (aw y) \<le> dC d t (fst (aw y))"
    by (simp add: avar_inv_def read_inv_def)
  with True show ?thesis by (simp add: avar_read_def writes_covered_iff [OF inv])
next
  case False
  then show ?thesis using not_beyond_write [OF inv, of t] by (auto simp: avar_read_def)
qed

lemma avar_write_report:
  assumes inv: "avar_inv d y Ra Wa"
  shows "fst (avar_write t (dC d t) y) \<longleftrightarrow> \<not> (covers (dC d t) Wa \<and> covers (dC d t) Ra)"
proof (cases "aw y = (t, dC d t t)")
  case True
  with inv have "covers (dC d t) Ra" by (simp add: avar_inv_def)
  with True show ?thesis by (simp add: avar_write_def writes_covered_iff [OF inv])
next
  case False
  then show ?thesis
    using not_beyond_write [OF inv, of t] reads_covered_iff [OF inv, of t]
    by (auto simp: avar_write_def split: option.splits)
qed

lemma avar_write_inv:
  assumes inv: "avar_inv d y Ra Wa" and d: "det_inv d"
    and Wa: "covers (dC d t) Wa" and Ra: "covers (dC d t) Ra"
  shows "avar_inv d (snd (avar_write t (dC d t) y)) Ra (Wa(t := dC d t t))"
proof (cases "aw y = (t, dC d t t)")
  case True
  have "Wa(t := dC d t t) = Wa"
    using inv True by (intro fun_upd_same_le) (auto simp: avar_inv_def)
  with True inv show ?thesis by (simp add: avar_write_def)
next
  case False
  let ?y = "snd (avar_write t (dC d t) y)"
  have dom: "dom_epoch d (t, dC d t t) (u, n)" if "n \<le> dC d t u" for u n
    using dom_epoch_current [OF d, of "(u, n)" t] that by simp
  have aw: "aw ?y = (t, dC d t t)" "av ?y = av y"
    using False by (simp_all add: avar_write_def)
  have "read_inv d ?y Ra"
  proof (cases "ar y")
    case None
    then have "ar ?y = Some (t, 0)" using False by (simp add: avar_write_def)
    then show ?thesis
      using Ra dom det_inv_pos [OF d, of t] by (simp add: read_inv_def aw covers_def)
  next
    case (Some e)
    obtain k b where e: "e = (k, b)" by fastforce
    have b: "b \<le> Ra k" using inv by (simp add: avar_inv_def read_inv_def Some e)
    have "b = dC d k k \<Longrightarrow> k = t"
      using det_inv_current [OF d, of k t] b Ra by (auto simp: covers_def intro: order_trans)
    moreover have "ar ?y = Some (k, b)" using False Some e by (simp add: avar_write_def)
    ultimately show ?thesis using b Ra dom by (auto simp: read_inv_def aw covers_def)
  qed
  with inv Wa Ra dom show ?thesis
    by (auto simp: avar_inv_def aw covers_def)
qed

lemma avar_read_inv:
  assumes inv: "avar_inv d y Ra Wa" and d: "det_inv d" and Wa: "covers (dC d t) Wa"
  shows "avar_inv d (snd (avar_read t (dC d t) y)) (Ra(t := dC d t t)) Wa"
proof (cases "ar y = Some (t, dC d t t)")
  case True
  have "Ra(t := dC d t t) = Ra"
    using inv True by (intro fun_upd_same_le) (auto simp: avar_inv_def read_inv_def)
  with True inv show ?thesis by (simp add: avar_read_def)
next
  case False
  let ?y = "snd (avar_read t (dC d t) y)" and ?R = "Ra(t := dC d t t)"
  have Rt: "Ra u \<le> ?R u" for u using inv by (simp add: avar_inv_def)
  have aw: "aw ?y = aw y" by (simp add: avar_read_def split: option.splits prod.splits)
  have awle: "snd (aw y) \<le> dC d t (fst (aw y))" using Wa writes_covered_iff [OF inv] by simp
  have av: "av y u \<le> Ra u" and own: "Ra u \<le> dC d u u" for u using inv by (simp_all add: avar_inv_def)
  have self: "dom_epoch d (t, dC d t t) (t, dC d t t)" by (rule dom_epoch_self) simp
  have "read_inv d ?y ?R \<and> (\<forall>u. av ?y u \<le> ?R u)"
  proof (cases "ar y")
    case None
    then have y: "ar ?y = None" "av ?y = (av y)(t := dC d t t)"
      using False by (simp_all add: avar_read_def)
    have "dom_epoch d (aw y) (u, ?R u) \<or> (\<exists>k. dom_epoch d (k, av ?y k) (u, ?R u))" for u
    proof (cases "u = t")
      case True
      then show ?thesis using self y by auto
    next
      case False
      have "dom_epoch d (aw y) (u, Ra u) \<or> (\<exists>k. dom_epoch d (k, av y k) (u, Ra u))"
        using inv by (simp add: avar_inv_def read_inv_def None)
      moreover have "dom_epoch d (k, av ?y k) f" if "dom_epoch d (k, av y k) f" for k f
        using that av [of k] own [of k] y dom_epoch_mono [OF that, of "av ?y k"] by auto
      ultimately show ?thesis using False by auto
    qed
    then show ?thesis using y av order_trans [OF _ Rt] by (simp add: read_inv_def aw)
  next
    case (Some e)
    obtain k b where e: "e = (k, b)" by fastforce
    have b: "b \<le> Ra k" and dom: "\<And>u. dom_epoch d (aw y) (u, Ra u) \<or> dom_epoch d (k, b) (u, Ra u)"
      using inv by (auto simp: avar_inv_def read_inv_def Some e)
    show ?thesis
    proof (cases "b \<le> dC d t k")
      case True
      then have y: "ar ?y = Some (t, dC d t t)" "av ?y = av y"
        using False Some e by (simp_all add: avar_read_def)
      have "Ra u \<le> dC d t u" for u
        using dom [of u] dom_epoch_le [of d "aw y" u "Ra u" t] dom_epoch_le [of d "(k, b)" u "Ra u" t]
          awle True by auto
      then have "dom_epoch d (t, dC d t t) (u, ?R u)" for u
        using dom_epoch_current [OF d, of "(u, ?R u)" t] by simp
      then show ?thesis using y awle av order_trans [OF _ Rt] by (simp add: read_inv_def aw)
    next
      case shared: False
      then have "k \<noteq> t" using b own [of t] by auto
      then have y: "ar ?y = None" "av ?y = (av y)(k := b, t := dC d t t)"
        using False Some e shared by (simp_all add: avar_read_def)
      have "dom_epoch d (aw y) (u, ?R u) \<or> (\<exists>k. dom_epoch d (k, av ?y k) (u, ?R u))" for u
      proof (cases "u = t")
        case True
        then show ?thesis using self y by auto
      next
        case False
        have "dom_epoch d (k, av ?y k) (u, ?R u)" if "dom_epoch d (k, b) (u, Ra u)"
          using that y \<open>k \<noteq> t\<close> False by simp
        with dom [of u] show ?thesis using False by auto
      qed
      then show ?thesis
        using y b av \<open>k \<noteq> t\<close> order_trans [OF _ Rt] by (simp add: read_inv_def aw)
    qed
  qed
  moreover have "covers (dC d (fst (aw y))) ?R" if cur: "snd (aw y) = dC d (fst (aw y)) (fst (aw y))"
  proof -
    have "t = fst (aw y)" using det_inv_current [OF d, of "fst (aw y)" t] cur awle by simp
    with inv cur show ?thesis by (auto simp: avar_inv_def covers_def)
  qed
  ultimately show ?thesis using inv by (auto simp: avar_inv_def aw)
qed

text \<open>The first access of an address.\<close>

lemma avar_new_inv:
  assumes d: "det_inv d"
  shows "avar_inv d (avar_new t (dC d t t) False) ((\<lambda>_. 0)(t := dC d t t)) (\<lambda>_. 0)"
    "avar_inv d (avar_new t (dC d t t) True) (\<lambda>_. 0) ((\<lambda>_. 0)(t := dC d t t))"
  using det_inv_pos [OF d] dom_epoch_current [OF d]
  by (auto simp: avar_new_def avar_inv_def read_inv_def covers_def dom_epoch_self)

lemma avar_new_access:
  "avar_read t V (avar_new t (V t) False) = (False, avar_new t (V t) False)"
  "avar_write t V (avar_new t (V t) True) = (False, avar_new t (V t) True)"
  by (simp_all add: avar_read_def avar_write_def avar_new_def)

end
