(* ===== verification/Refinement.thy ===== *)
theory Refinement
  imports Interface EpochDetector
begin

text \<open>
  The code refines the epoch detector: packed words stand for pairs of a thread and a clock,
  vectors indexed by thread id for functions from threads to clocks. \<open>P\<close> is the set of registered
  threads, \<open>idx\<close> their thread ids, \<open>N\<close> the length of the clocks, which is \<open>NumThreads\<close>.
\<close>

subsection \<open>Words for clocks\<close>

definition layout :: "(ThreadID \<Rightarrow> nat) \<Rightarrow> ThreadID set \<Rightarrow> nat \<Rightarrow> bool" where
  "layout idx P N \<longleftrightarrow> inj_on idx P \<and> (\<forall>u \<in> P. idx u < N) \<and> N \<le> 239"

definition views :: "(ThreadID \<Rightarrow> nat) \<Rightarrow> ThreadID set \<Rightarrow> nat \<Rightarrow> VectorClock \<Rightarrow> (ThreadID \<Rightarrow> nat) \<Rightarrow> bool" where
  "views idx P N C V \<longleftrightarrow> wf_clock C \<and> length C = N \<and> (\<forall>u \<in> P. clk C (idx u) = V u) \<and>
     (\<forall>u. u \<notin> P \<longrightarrow> V u = 0) \<and> (\<forall>i. i \<notin> idx ` P \<longrightarrow> clk C i = 0)"

definition thread_rel :: "(ThreadID \<Rightarrow> nat) \<Rightarrow> ThreadID set \<Rightarrow> nat \<Rightarrow> ThreadID \<Rightarrow> ThreadState \<Rightarrow> (ThreadID \<Rightarrow> nat) \<Rightarrow> bool" where
  "thread_rel idx P N k t V \<longleftrightarrow> k \<in> P \<and> wf_thread N t \<and> unat (ts_tid t) = idx k \<and>
     views idx P N (ts_C t) V"

definition epoch_rel :: "(ThreadID \<Rightarrow> nat) \<Rightarrow> ThreadID set \<Rightarrow> i32 \<Rightarrow> ThreadID \<times> nat \<Rightarrow> bool" where
  "epoch_rel idx P w e \<longleftrightarrow> fst e \<in> P \<and> snd e < 16777216 \<and> w = mk_epoch (idx (fst e)) (snd e)"

definition var_rel :: "(ThreadID \<Rightarrow> nat) \<Rightarrow> ThreadID set \<Rightarrow> nat \<Rightarrow> VarState \<Rightarrow> ThreadID avar \<Rightarrow> bool" where
  "var_rel idx P N x y \<longleftrightarrow> \<not> vs_Racy x \<and> epoch_rel idx P (vs_W x) (aw y) \<and>
     (case ar y of None \<Rightarrow> vs_R x = READ_SHARED \<and> length (vs_Rvc x) = N
      | Some e \<Rightarrow> epoch_rel idx P (vs_R x) e) \<and>
     (vs_Rvc x = [] \<and> av y = (\<lambda>_. 0) \<or> views idx P N (vs_Rvc x) (av y))"

lemma layoutD:
  assumes "layout idx P N" and "k \<in> P"
  shows "idx k < N" "idx k < 239" "idx k < 256" "N \<le> 239"
    "j \<in> P \<Longrightarrow> idx k = idx j \<longleftrightarrow> k = j"
  using assms by (auto simp: layout_def inj_on_def)

lemma viewsD:
  assumes "views idx P N C V"
  shows "wf_clock C" "length C = N" "u \<in> P \<Longrightarrow> clk C (idx u) = V u" "u \<notin> P \<Longrightarrow> V u = 0"
    "i \<notin> idx ` P \<Longrightarrow> clk C i = 0"
  using assms by (auto simp: views_def)

lemma thread_relD:
  assumes "thread_rel idx P N k t V"
  shows "k \<in> P" "wf_thread N t" "unat (ts_tid t) = idx k" "views idx P N (ts_C t) V"
    "own_clock t = V k" "ts_epoch t = mk_epoch (idx k) (V k)" "V k < 16777216"
proof -
  show *: "k \<in> P" "wf_thread N t" "unat (ts_tid t) = idx k" "views idx P N (ts_C t) V"
    using assms by (simp_all add: thread_rel_def)
  then show own: "own_clock t = V k" by (simp add: views_def)
  then show "ts_epoch t = mk_epoch (idx k) (V k)" using wf_thread_epoch(4) [OF *(2)] *(3) by simp
  show "V k < 16777216" using clk_less [of "ts_C t" "unat (ts_tid t)"] own by simp
qed

lemma epoch_relD:
  assumes "layout idx P N" and "epoch_rel idx P w e"
  shows "fst e \<in> P" "tid_of w = idx (fst e)" "clock_of w = snd e" "w \<noteq> READ_SHARED"
proof -
  have e: "fst e \<in> P" "snd e < 16777216" "w = mk_epoch (idx (fst e)) (snd e)"
    using assms(2) by (simp_all add: epoch_rel_def)
  then show "fst e \<in> P" "tid_of w = idx (fst e)" "clock_of w = snd e" "w \<noteq> READ_SHARED"
    using layoutD [OF assms(1) e(1)]
    by (simp_all add: epoch_simps mk_epoch_not_READ_SHARED)
qed

lemma epoch_rel_thread: "thread_rel idx P N k t V \<Longrightarrow> epoch_rel idx P (ts_epoch t) (k, V k)"
  using thread_relD [of idx P N k t V] by (simp add: epoch_rel_def)

lemma epoch_rel_eq_iff:
  assumes L: "layout idx P N" and "epoch_rel idx P v e" and "epoch_rel idx P w f"
  shows "v = w \<longleftrightarrow> e = f"
proof
  assume "v = w"
  with assms epoch_relD [OF L assms(2)] epoch_relD [OF L assms(3)] layoutD(5) [OF L, of "fst e" "fst f"]
  show "e = f" by (simp add: prod_eq_iff)
next
  assume "e = f"
  with assms show "v = w" by (simp add: epoch_rel_def)
qed

lemma views_nth:
  assumes L: "layout idx P N" and C: "views idx P N C V" and k: "k \<in> P"
  shows "idx k < length C" "tid_of (C ! idx k) = idx k" "clock_of (C ! idx k) = V k"
  using viewsD(1,2) [OF C] viewsD(3) [OF C k] layoutD(1) [OF L k] by (auto simp: wf_clockD clk_def)

text \<open>\<open>C[TID(e)]\<close> is in range, and the comparisons compare clocks.\<close>

lemma epoch_races_eq:
  assumes L: "layout idx P N" and t: "thread_rel idx P N k t V" and e: "epoch_rel idx P w e"
  shows "epoch_races w t = Inr (beyond k V e)"
proof -
  note E = epoch_relD [OF L e] and T = thread_relD [OF t]
  have "TID w = ts_tid t \<longleftrightarrow> fst e = k"
    using E(2) T(3) layoutD(5) [OF L E(1) T(1)] by (simp add: word_unat_eq_iff)
  moreover note N = views_nth [OF L T(4) E(1)]
  ultimately show ?thesis
    using N E by (auto simp: epoch_races_def beyond_def vec_simps CLOCK_sless)
qed

lemma read_ordered_iff:
  assumes L: "layout idx P N" and C: "views idx P N C V" and e: "epoch_rel idx P w e"
  shows "w \<le>s C ! idx (fst e) \<longleftrightarrow> snd e \<le> V (fst e)"
proof -
  note E = epoch_relD [OF L e] and N = views_nth [OF L C epoch_relD(1) [OF L e]]
  have "TID w = TID (C ! idx (fst e))" using E N by (simp add: word_unat_eq_iff)
  then show ?thesis using E N by (simp add: sle_same_tid)
qed

lemma views_update:
  assumes L: "layout idx P N" and C: "views idx P N C V" and e: "epoch_rel idx P w (k, b)"
  shows "views idx P N (C[idx k := w]) (V(k := b))"
proof -
  have k: "k \<in> P" and w: "tid_of w = idx k" "clock_of w = b" using epoch_relD [OF L e] by simp_all
  note D = viewsD [OF C] and I = layoutD [OF L k]
  have "clk (C[idx k := w]) (idx u) = (V(k := b)) u" if "u \<in> P" for u
    using that D(2) D(3) [OF that] I(1) w I(5) [OF that] by (auto simp: clk_list_update)
  moreover have "clk (C[idx k := w]) i = 0" if "i \<notin> idx ` P" for i
    using that D(2) D(5) [OF that] I(1) k by (auto simp: clk_list_update)
  ultimately show ?thesis
    using D k w by (auto simp: views_def wf_list_update)
qed

lemma views_new: "layout idx P N \<Longrightarrow> views idx P N (newVectorClock C N) (\<lambda>_. 0)"
  by (simp add: views_def layout_def wf_newVectorClock clk_newVectorClock)

lemma views_all_le:
  assumes L: "layout idx P N" and C: "views idx P N C V" and D: "views idx P N D W"
  shows "(\<exists>i < N. C ! i <s D ! i) \<longleftrightarrow> \<not> covers V W"
proof -
  note C' = viewsD [OF C] and D' = viewsD [OF D]
  have lt: "C ! i <s D ! i \<longleftrightarrow> clk C i < clk D i" if "i < N" for i
  proof -
    have "TID (C ! i) = TID (D ! i)"
      using that C'(1,2) D'(1,2) by (simp add: word_unat_eq_iff wf_clockD)
    then show ?thesis using that C'(2) D'(2) by (simp add: sless_same_tid clk_def)
  qed
  have "(\<exists>i < N. clk C i < clk D i) \<longleftrightarrow> (\<exists>u. V u < W u)"
  proof
    assume "\<exists>i < N. clk C i < clk D i"
    then obtain i where i: "clk C i < clk D i" by blast
    then obtain u where "u \<in> P" "i = idx u" using D'(5) [of i] by auto
    with i show "\<exists>u. V u < W u" using C'(3) D'(3) by auto
  next
    assume "\<exists>u. V u < W u"
    then obtain u where u: "V u < W u" by blast
    then have P: "u \<in> P" using D'(4) [of u] by auto
    with u have "clk C (idx u) < clk D (idx u)" using C'(3) D'(3) by simp
    then show "\<exists>i < N. clk C i < clk D i" using layoutD(1) [OF L P] by blast
  qed
  with lt show ?thesis by (auto simp: covers_def not_le)
qed

subsection \<open>\<open>ft_read\<close> and \<open>ft_write\<close>\<close>

lemma shared_loop_total:
  assumes "\<forall>i \<in> set is. i < length R \<and> i < length C"
  shows "shared_loop is R C b = Inr (b \<or> (\<exists>i \<in> set is. C ! i <s R ! i))"
  using assms by (induction "is" arbitrary: b) (auto simp: vec_simps)

lemma ft_read_update_refines:
  assumes L: "layout idx P N" and t: "thread_rel idx P N k t V" and x: "var_rel idx P N x y"
    and ne: "ar y \<noteq> Some (k, V k)"
  obtains x' where "ft_read_update x t N = Inr x'" "var_rel idx P N x' (snd (avar_read k V y))"
proof -
  note T = thread_relD [OF t] and E = epoch_rel_thread [OF t]
  have N: "0 < N" using layoutD(1) [OF L T(1)] by simp
  show ?thesis
  proof (cases "ar y")
    case None
    then have R: "vs_R x = READ_SHARED" and len: "length (vs_Rvc x) = N"
      using x by (simp_all add: var_rel_def)
    then have "views idx P N (vs_Rvc x) (av y)" using x N by (auto simp: var_rel_def)
    from views_update [OF L this E]
    have "var_rel idx P N (x\<lparr>vs_Rvc := (vs_Rvc x)[idx k := ts_epoch t]\<rparr>) (snd (avar_read k V y))"
      using x None ne len by (simp add: var_rel_def avar_read_def)
    moreover have "ft_read_update x t N = Inr (x\<lparr>vs_Rvc := (vs_Rvc x)[idx k := ts_epoch t]\<rparr>)"
      using R len T(3) layoutD(1) [OF L T(1)] by (simp add: ft_read_update_def vec_simps)
    ultimately show ?thesis by (rule that [rotated])
  next
    case (Some e)
    obtain j b where e: "e = (j, b)" by fastforce
    have R: "epoch_rel idx P (vs_R x) (j, b)" using x by (simp add: var_rel_def Some e)
    note RD = epoch_relD [OF L R, simplified]
    have nth: "vget (ts_C t) (unat (TID (vs_R x))) = Inr (ts_C t ! idx j)"
      using views_nth [OF L T(4) RD(1)] RD(2) by (simp add: vec_simps)
    have le: "vs_R x \<le>s ts_C t ! idx j \<longleftrightarrow> b \<le> V j"
      using read_ordered_iff [OF L T(4) R] by simp
    show ?thesis
    proof (cases "b \<le> V j")
      case True
      then have "ft_read_update x t N = Inr (x\<lparr>vs_R := ts_epoch t\<rparr>)"
        using RD(4) nth le by (simp add: ft_read_update_def)
      moreover have "var_rel idx P N (x\<lparr>vs_R := ts_epoch t\<rparr>) (snd (avar_read k V y))"
        using x Some e ne True E by (simp add: var_rel_def avar_read_def)
      ultimately show ?thesis by (rule that)
    next
      case False
      define v where "v = (if length (vs_Rvc x) = 0 then newVectorClock (vs_Rvc x) N else vs_Rvc x)"
      have v: "views idx P N v (av y)"
        using x views_new [OF L] N by (auto simp: v_def var_rel_def views_def)
      then have len: "length v = N" by (rule viewsD)
      have "ft_read_update x t N =
          Inr (x\<lparr>vs_Rvc := v[idx j := vs_R x, idx k := ts_epoch t], vs_R := READ_SHARED\<rparr>)"
        unfolding ft_read_update_def Let_def v_def [symmetric]
        using RD(2,4) nth le False T(3) layoutD(1) [OF L T(1)] layoutD(1) [OF L RD(1)] len
        by (simp add: vec_simps)
      moreover have "views idx P N (v[idx j := vs_R x, idx k := ts_epoch t]) ((av y)(j := b, k := V k))"
        using L R E v by (blast intro: views_update)
      then have "var_rel idx P N (x\<lparr>vs_Rvc := v[idx j := vs_R x, idx k := ts_epoch t], vs_R := READ_SHARED\<rparr>)
          (snd (avar_read k V y))"
        using x Some e ne False len by (auto simp: var_rel_def avar_read_def)
      ultimately show ?thesis by (rule that)
    qed
  qed
qed

lemma ft_read_refines:
  assumes L: "layout idx P N" and t: "thread_rel idx P N k t V" and x: "var_rel idx P N x y"
    and N: "unat (NumThreads s) = N"
  obtains x' where
    "ft_read x t s = Inr (fst (avar_read k V y), x', s\<lparr>VS_reads := VS_reads s + 1\<rparr>)"
    "var_rel idx P N x' (snd (avar_read k V y))"
proof -
  note E = epoch_rel_thread [OF t]
  have racy: "\<not> vs_Racy x" and W: "epoch_rel idx P (vs_W x) (aw y)" using x by (simp_all add: var_rel_def)
  have same: "vs_R x = ts_epoch t \<longleftrightarrow> ar y = Some (k, V k)"
  proof (cases "ar y")
    case None
    then show ?thesis using x epoch_relD(4) [OF L E] by (auto simp: var_rel_def)
  next
    case (Some e)
    then have "epoch_rel idx P (vs_R x) e" using x by (simp add: var_rel_def)
    from epoch_rel_eq_iff [OF L this E] Some show ?thesis by simp
  qed
  show ?thesis
  proof (cases "ar y = Some (k, V k)")
    case True
    then have "ft_read x t s = Inr (False, x, s\<lparr>VS_reads := VS_reads s + 1\<rparr>)"
      using racy same by (simp add: ft_read_def)
    with True x show ?thesis by (intro that) (simp_all add: avar_read_def)
  next
    case False
    obtain x' where x': "ft_read_update x t N = Inr x'" "var_rel idx P N x' (snd (avar_read k V y))"
      using ft_read_update_refines [OF L t x False] .
    have "fst (avar_read k V y) = beyond k V (aw y)" using False by (simp add: avar_read_def)
    then have "ft_read x t s = Inr (fst (avar_read k V y), x', s\<lparr>VS_reads := VS_reads s + 1\<rparr>)"
      using racy same False x'(1) N epoch_races_eq [OF L t W] by (simp add: ft_read_def)
    with x'(2) show ?thesis by (intro that)
  qed
qed

lemma own_zero_epoch:
  assumes L: "layout idx P N" and t: "thread_rel idx P N k t V"
  shows "epoch_rel idx P (push_bit 24 (TID (ts_epoch t))) (k, 0)"
proof -
  have "push_bit 24 (TID (ts_epoch t)) = epoch0 (idx k)"
    using epoch_relD(2) [OF L epoch_rel_thread [OF t], symmetric]
    by (simp add: epoch0_def of_nat_unat)
  then show ?thesis using thread_relD(1) [OF t] by (simp add: epoch_rel_def epoch0_mk)
qed

lemma ft_write_refines:
  assumes L: "layout idx P N" and t: "thread_rel idx P N k t V" and x: "var_rel idx P N x y"
  obtains x' where
    "ft_write x t s = Inr (fst (avar_write k V y), x', s\<lparr>VS_writes := VS_writes s + 1\<rparr>)"
    "var_rel idx P N x' (snd (avar_write k V y))"
proof -
  note T = thread_relD [OF t] and E = epoch_rel_thread [OF t]
  have racy: "\<not> vs_Racy x" and W: "epoch_rel idx P (vs_W x) (aw y)" using x by (simp_all add: var_rel_def)
  note same = epoch_rel_eq_iff [OF L W E]
  show ?thesis
  proof (cases "aw y = (k, V k)")
    case True
    then have "ft_write x t s = Inr (False, x, s\<lparr>VS_writes := VS_writes s + 1\<rparr>)"
      using racy same by (simp add: ft_write_def)
    with True x show ?thesis by (intro that) (simp_all add: avar_write_def)
  next
    case ne: False
    show ?thesis
    proof (cases "ar y")
      case (Some e)
      then have R: "epoch_rel idx P (vs_R x) e" using x by (simp add: var_rel_def)
      have "ft_write x t s = Inr (fst (avar_write k V y), x\<lparr>vs_W := ts_epoch t\<rparr>,
          s\<lparr>VS_writes := VS_writes s + 1\<rparr>)"
        using racy same ne Some epoch_relD(4) [OF L R] epoch_races_eq [OF L t W] epoch_races_eq [OF L t R]
        by (simp add: ft_write_def avar_write_def)
      moreover have "var_rel idx P N (x\<lparr>vs_W := ts_epoch t\<rparr>) (snd (avar_write k V y))"
        using x ne Some E by (simp add: var_rel_def avar_write_def)
      ultimately show ?thesis by (rule that)
    next
      case None
      let ?x = "x\<lparr>vs_R := push_bit 24 (TID (ts_epoch t)), vs_W := ts_epoch t\<rparr>"
      have R: "vs_R x = READ_SHARED" and len: "length (vs_Rvc x) = N"
        using None x by (simp_all add: var_rel_def)
      have "0 < N" using layoutD(1) [OF L T(1)] by simp
      then have Rvc: "views idx P N (vs_Rvc x) (av y)" using x len by (auto simp: var_rel_def)
      have C: "length (ts_C t) = N" using T(4) by (rule viewsD)
      have "shared_loop [0..<N] (vs_Rvc x) (ts_C t) b = Inr (b \<or> \<not> covers V (av y))" for b
        using views_all_le [OF L T(4) Rvc] len C by (subst shared_loop_total) (auto simp: Bex_def)
      then have "ft_write x t s = Inr (fst (avar_write k V y), ?x, s\<lparr>VS_writes := VS_writes s + 1\<rparr>)"
        using racy same ne None R len C epoch_races_eq [OF L t W]
        by (simp add: ft_write_def avar_write_def)
      moreover have "var_rel idx P N ?x (snd (avar_write k V y))"
        using x ne None E own_zero_epoch [OF L t] by (simp add: var_rel_def avar_write_def)
      ultimately show ?thesis by (rule that)
    qed
  qed
qed

lemma VarState_new_refines:
  assumes L: "layout idx P N" and t: "thread_rel idx P N k t V"
  shows "var_rel idx P N (VarState_new t w) (avar_new k (V k) w)"
proof -
  note E = epoch_rel_thread [OF t]
  have "ts_tid t = TID (ts_epoch t)"
    using wf_thread_epoch(3) [OF thread_relD(2) [OF t]] by simp
  then have "epoch_rel idx P (push_bit 24 (ts_tid t)) (k, 0)" using own_zero_epoch [OF L t] by simp
  with E show ?thesis by (simp add: var_rel_def VarState_new_def avar_new_def Let_def)
qed

subsection \<open>Runs of the callbacks\<close>

text \<open>
  One event is one callback, here without its test of \<open>isConcurrent\<close> and without the printing; the
  result says whether the callback reports a race. \<open>rt_run\<close> collects the answers along a trace.
\<close>

definition quiet :: "rt res \<Rightarrow> (bool \<times> rt) res" where
  "quiet m = bnd m (\<lambda>s. Inr (False, s))"

fun rt_step :: "(ThreadID, Address, Address) event \<Rightarrow> rt \<Rightarrow> (bool \<times> rt) res" where
  "rt_step (Read t x) s = read_access t x s"
| "rt_step (Write t x) s = write_access True t x s"
| "rt_step (Acquire t l) s = quiet (lock_access t l s)"
| "rt_step (Release t l) s = quiet (unlock_access t l s)"
| "rt_step (Fork t u) s = quiet (fork_threads t u s)"
| "rt_step (Join t u) s = quiet (join_threads t u s)"

fun rt_run :: "(ThreadID, Address, Address) event list \<Rightarrow> rt \<Rightarrow> (bool list \<times> rt) res" where
  "rt_run [] s = Inr ([], s)"
| "rt_run (e # es) s =
     bnd (rt_step e s) (\<lambda>(b, s'). bnd (rt_run es s') (\<lambda>(bs, s''). Inr (b # bs, s'')))"

subsection \<open>The simulation relation\<close>

text \<open>\<open>D\<close> is the set of addresses on which a race was reported: there only the shape is kept.\<close>

definition lock_rel :: "(ThreadID \<Rightarrow> nat) \<Rightarrow> ThreadID set \<Rightarrow> nat \<Rightarrow> LockState option \<Rightarrow> (ThreadID \<Rightarrow> nat) \<Rightarrow> bool" where
  "lock_rel idx P N m V \<longleftrightarrow>
     (case m of None \<Rightarrow> V = (\<lambda>_. 0) | Some m \<Rightarrow> views idx P N (ls_L m) V)"

definition addr_rel :: "(ThreadID \<Rightarrow> nat) \<Rightarrow> ThreadID set \<Rightarrow> nat \<Rightarrow> (ThreadID, 'l, 'a) detector \<Rightarrow>
    VarState option \<Rightarrow> (ThreadID \<Rightarrow> nat) \<Rightarrow> (ThreadID \<Rightarrow> nat) \<Rightarrow> bool" where
  "addr_rel idx P N d x Ra Wa \<longleftrightarrow>
     (case x of None \<Rightarrow> Ra = (\<lambda>_. 0) \<and> Wa = (\<lambda>_. 0)
      | Some x \<Rightarrow> \<exists>y. var_rel idx P N x y \<and> avar_inv d y Ra Wa)"

definition state_rel :: "(ThreadID \<Rightarrow> nat) \<Rightarrow> ThreadID set \<Rightarrow> nat \<Rightarrow> Address set \<Rightarrow> rt \<Rightarrow>
    (ThreadID, Address, Address) detector \<Rightarrow> bool" where
  "state_rel idx P N D s d \<longleftrightarrow>
     layout idx P N \<and> unat (NumThreads s) = N \<and> det_inv d \<and>
     (\<forall>k \<in> P. \<exists>t. thread_of s k = Some t \<and> thread_rel idx P N k t (dC d k)) \<and>
     (\<forall>l. lock_rel idx P N (lock_of s l) (dL d l)) \<and>
     (\<forall>a x. var_of s a = Some x \<longrightarrow> wf_var N x) \<and>
     (\<forall>a. a \<notin> D \<longrightarrow> addr_rel idx P N d (var_of s a) (dR d a) (dW d a))"

lemma state_relD:
  assumes "state_rel idx P N D s d"
  shows "layout idx P N" "unat (NumThreads s) = N" "det_inv d" "lock_rel idx P N (lock_of s l) (dL d l)"
    "var_of s a = Some x \<Longrightarrow> wf_var N x" "a \<notin> D \<Longrightarrow> addr_rel idx P N d (var_of s a) (dR d a) (dW d a)"
  using assms by (simp_all add: state_rel_def)

lemma state_rel_thread:
  assumes "state_rel idx P N D s d" and "k \<in> P"
  obtains t where "thread_of s k = Some t" "thread_rel idx P N k t (dC d k)"
  using assms by (auto simp: state_rel_def)

text \<open>An access changes the entry of one address.\<close>

lemma state_rel_access:
  assumes rel: "state_rel idx P N D s d" and x: "wf_var N x"
    and s': "thread_of s' = thread_of s" "lock_of s' = lock_of s" "NumThreads s' = NumThreads s"
      "var_of s' = (var_of s)(a \<mapsto> x)"
    and d': "dC d' = dC d" "dL d' = dL d" "\<And>b. b \<noteq> a \<Longrightarrow> dR d' b = dR d b \<and> dW d' b = dW d b"
    and a: "a \<notin> D' \<Longrightarrow> \<exists>y. var_rel idx P N x y \<and> avar_inv d y (dR d' a) (dW d' a)"
    and D: "D \<subseteq> insert a D'"
  shows "state_rel idx P N D' s' d'"
proof -
  have inv: "avar_inv d' = avar_inv d" using d' by (intro avar_inv_cong)
  have "det_inv d'" using rel d' by (simp add: state_rel_def det_inv_def)
  moreover have "addr_rel idx P N d' (var_of s' b) (dR d' b) (dW d' b)" if "b \<notin> D'" for b
  proof (cases "b = a")
    case True
    with a that s' inv show ?thesis by (auto simp: addr_rel_def)
  next
    case False
    with that D have "b \<notin> D" by auto
    with state_relD(6) [OF rel this] False s' d' inv show ?thesis
      by (simp add: addr_rel_def split: option.splits)
  qed
  ultimately show ?thesis
    using rel x s' d' by (auto simp: state_rel_def)
qed

text \<open>A synchronisation leaves all addresses alone.\<close>

lemma state_rel_sync:
  assumes rel: "state_rel idx P N D s d" and e: "proper e"
    and vars: "var_of s' = var_of s" "NumThreads s' = NumThreads s"
    and d': "d' = det_step e d" "dR d' = dR d" "dW d' = dW d"
    and threads: "\<And>k. k \<in> P \<Longrightarrow> \<exists>t. thread_of s' k = Some t \<and> thread_rel idx P N k t (dC d' k)"
    and locks: "\<And>l. lock_rel idx P N (lock_of s' l) (dL d' l)"
  shows "state_rel idx P N D s' d'"
proof -
  have d: "det_inv d" using rel by (simp add: state_rel_def)
  have "addr_rel idx P N d' (var_of s' a) (dR d' a) (dW d' a)" if "a \<notin> D" for a
    using state_relD(6) [OF rel that] avar_inv_step [OF _ d e] vars d'
    by (auto simp: addr_rel_def split: option.splits)
  then show ?thesis
    using rel vars threads locks det_inv_step [OF d e] by (simp add: state_rel_def d'(1))
qed

subsection \<open>One step\<close>

text \<open>The lookups of an access: the variable and the thread the rule runs on.\<close>

lemma access_lookup:
  assumes "thread_of s k = Some t"
  shows "bnd (getVarState k a w s) (\<lambda>(x, s1). bnd (getThreadState k s1) (\<lambda>(t, s2). f x t s2)) =
    (case var_of s a of Some x \<Rightarrow> f x t s
     | None \<Rightarrow> f (VarState_new t w) t (put_var a (VarState_new t w) s))"
  using assms
  by (auto simp: getVarState_found getVarState_new getThreadState_def getState_found split: option.splits)

lemma NumThreads_put [simp]: "NumThreads (s\<lparr>VS_reads := r\<rparr>) = NumThreads s"
  "NumThreads (s\<lparr>VS_writes := r\<rparr>) = NumThreads s"
  by simp_all

text \<open>
  Reads and writes share their proof. \<open>f\<close> is \<open>ft_read\<close> or \<open>ft_write\<close>, \<open>af\<close> its abstract counterpart,
  \<open>g\<close> the count of the access, \<open>r\<close> the detector's answer.
\<close>

lemma access_step:
  assumes rel: "state_rel idx P N D s d" and t: "thread_of s k = Some t"
    and g: "\<And>s. thread_of (g s) = thread_of s" "\<And>s. lock_of (g s) = lock_of s"
      "\<And>s. var_of (g s) = var_of s" "\<And>s. NumThreads (g s) = NumThreads s"
    and wfT: "wf_thread N t"
    and f_wf: "\<And>x s. wf_var N x \<Longrightarrow> unat (NumThreads s) = N \<Longrightarrow>
      \<exists>b x'. f x t s = Inr (b, x', g s) \<and> wf_var N x'"
    and f_rel: "\<And>x y s. var_rel idx P N x y \<Longrightarrow> unat (NumThreads s) = N \<Longrightarrow>
      \<exists>x'. f x t s = Inr (fst (af y), x', g s) \<and> var_rel idx P N x' (snd (af y))"
    and af: "\<And>y. avar_inv d y (dR d a) (dW d a) \<Longrightarrow> fst (af y) = r \<and>
      (\<not> r \<longrightarrow> avar_inv d (snd (af y)) (dR d' a) (dW d' a))"
    and new: "dR d a = (\<lambda>_. 0) \<Longrightarrow> dW d a = (\<lambda>_. 0) \<Longrightarrow>
      \<exists>y. var_rel idx P N (VarState_new t w) y \<and> fst (af y) = r \<and>
        (\<not> r \<longrightarrow> avar_inv d (snd (af y)) (dR d' a) (dW d' a))"
    and d': "dC d' = dC d" "dL d' = dL d" "\<And>b. b \<noteq> a \<Longrightarrow> dR d' b = dR d b \<and> dW d' b = dW d b"
  shows "\<exists>b s'. bnd (getVarState k a w s) (\<lambda>(x, s1). bnd (getThreadState k s1) (\<lambda>(t, s2).
       bnd (f x t s2) (\<lambda>(isRace, x', s3). Inr (isRace, put_var a x' s3)))) = Inr (b, s') \<and>
    state_rel idx P N (if b then insert a D else D) s' d' \<and> (a \<notin> D \<longrightarrow> b = r)"
proof -
  note L = state_relD(1) [OF rel]
  have few: "N \<le> 239" using L by (simp add: layout_def)
  define x where "x = (case var_of s a of Some x \<Rightarrow> x | None \<Rightarrow> VarState_new t w)"
  define s1 where "s1 = (case var_of s a of Some x \<Rightarrow> s | None \<Rightarrow> put_var a x s)"
  have s1: "thread_of s1 = thread_of s" "lock_of s1 = lock_of s" "NumThreads s1 = NumThreads s"
    "(var_of s1)(a \<mapsto> z) = (var_of s)(a \<mapsto> z)" for z
    by (auto simp: s1_def split: option.splits)
  have N: "unat (NumThreads s1) = N" using state_relD(2) [OF rel] s1 by simp
  have wf: "wf_var N x"
    using state_relD(5) [OF rel] VarState_new_wf [OF wfT few] by (auto simp: x_def split: option.splits)
  obtain b x' where f: "f x t s1 = Inr (b, x', g s1)" "wf_var N x'" using f_wf [OF wf N] by blast
  have step: "bnd (getVarState k a w s) (\<lambda>(x, s1). bnd (getThreadState k s1) (\<lambda>(t, s2).
       bnd (f x t s2) (\<lambda>(isRace, x', s3). Inr (isRace, put_var a x' s3)))) =
      Inr (b, put_var a x' (g s1))"
    using f(1) by (auto simp: access_lookup [OF t] x_def s1_def split: option.splits)
  have clean: "b = r \<and> (\<not> r \<longrightarrow> (\<exists>y. var_rel idx P N x' y \<and> avar_inv d y (dR d' a) (dW d' a)))"
    if nd: "a \<notin> D"
  proof -
    obtain y where y: "var_rel idx P N x y" "fst (af y) = r"
      "\<not> r \<longrightarrow> avar_inv d (snd (af y)) (dR d' a) (dW d' a)"
      using state_relD(6) [OF rel nd] new af by (auto simp: addr_rel_def x_def split: option.splits)
    then show ?thesis using f_rel [OF y(1) N] f(1) by auto
  qed
  have "state_rel idx P N (if b then insert a D else D) (put_var a x' (g s1)) d'"
    using rel f(2)
  proof (rule state_rel_access [where a = a])
    show "D \<subseteq> insert a (if b then insert a D else D)" by auto
    show "\<exists>y. var_rel idx P N x' y \<and> avar_inv d y (dR d' a) (dW d' a)"
      if "a \<notin> (if b then insert a D else D)"
      using that clean by (auto split: if_splits)
  qed (use g s1 d' in \<open>simp_all\<close>)
  with step clean show ?thesis by auto
qed

lemma read_step:
  assumes rel: "state_rel idx P N D s d" and k: "k \<in> P"
  shows "\<exists>b s'. rt_step (Read k a) s = Inr (b, s') \<and>
    state_rel idx P N (if b then insert a D else D) s' (det_step (Read k a) d) \<and>
    (a \<notin> D \<longrightarrow> b = det_race (Read k a) d)"
proof -
  obtain t where t: "thread_of s k = Some t" "thread_rel idx P N k t (dC d k)"
    using state_rel_thread [OF rel k] .
  note L = state_relD(1) [OF rel] and T = thread_relD [OF t(2)] and d = state_relD(3) [OF rel]
  have few: "N \<le> 239" using L by (simp add: layout_def)
  show ?thesis
    unfolding rt_step.simps read_access_def
  proof (rule access_step [OF rel t(1), where g = "\<lambda>s. s\<lparr>VS_reads := VS_reads s + 1\<rparr>" and f = ft_read
        and af = "avar_read k (dC d k)" and r = "det_race (Read k a) d" and a = a and w = False
        and d' = "det_step (Read k a) d"])
    show "\<exists>b x'. ft_read x t s = Inr (b, x', s\<lparr>VS_reads := VS_reads s + 1\<rparr>) \<and> wf_var N x'"
      if "wf_var N x" "unat (NumThreads s) = N" for x s
      using ft_read_wf [OF T(2) that(1) few that(2)] by metis
    show "\<exists>x'. ft_read x t s = Inr (fst (avar_read k (dC d k) y), x', s\<lparr>VS_reads := VS_reads s + 1\<rparr>) \<and>
        var_rel idx P N x' (snd (avar_read k (dC d k) y))"
      if "var_rel idx P N x y" "unat (NumThreads s) = N" for x y s
      using ft_read_refines [OF L t(2) that] by metis
    show "\<exists>y. var_rel idx P N (VarState_new t False) y \<and> fst (avar_read k (dC d k) y) = det_race (Read k a) d \<and>
        (\<not> det_race (Read k a) d \<longrightarrow> avar_inv d (snd (avar_read k (dC d k) y))
          (dR (det_step (Read k a) d) a) (dW (det_step (Read k a) d) a))"
      if "dR d a = (\<lambda>_. 0)" "dW d a = (\<lambda>_. 0)"
      using that VarState_new_refines [OF L t(2), of False] avar_new_inv(1) [OF d, of k]
      by (intro exI [of _ "avar_new k (dC d k k) False"]) (simp add: avar_new_access covers_def)
    show "fst (avar_read k (dC d k) y) = det_race (Read k a) d \<and>
        (\<not> det_race (Read k a) d \<longrightarrow> avar_inv d (snd (avar_read k (dC d k) y))
          (dR (det_step (Read k a) d) a) (dW (det_step (Read k a) d) a))"
      if "avar_inv d y (dR d a) (dW d a)" for y
      using avar_read_report [OF that, of k] avar_read_inv [OF that d, of k] by auto
  qed (use T(2) in simp_all)
qed

lemma write_step:
  assumes rel: "state_rel idx P N D s d" and k: "k \<in> P"
  shows "\<exists>b s'. rt_step (Write k a) s = Inr (b, s') \<and>
    state_rel idx P N (if b then insert a D else D) s' (det_step (Write k a) d) \<and>
    (a \<notin> D \<longrightarrow> b = det_race (Write k a) d)"
proof -
  obtain t where t: "thread_of s k = Some t" "thread_rel idx P N k t (dC d k)"
    using state_rel_thread [OF rel k] .
  note L = state_relD(1) [OF rel] and T = thread_relD [OF t(2)] and d = state_relD(3) [OF rel]
  have few: "N \<le> 239" using L by (simp add: layout_def)
  show ?thesis
    unfolding rt_step.simps write_access_def
  proof (rule access_step [OF rel t(1), where g = "\<lambda>s. s\<lparr>VS_writes := VS_writes s + 1\<rparr>" and f = ft_write
        and af = "avar_write k (dC d k)" and r = "det_race (Write k a) d" and a = a and w = True
        and d' = "det_step (Write k a) d"])
    show "\<exists>b x'. ft_write x t s = Inr (b, x', s\<lparr>VS_writes := VS_writes s + 1\<rparr>) \<and> wf_var N x'"
      if "wf_var N x" "unat (NumThreads s) = N" for x s
      using ft_write_wf [OF T(2) that(1) few, of s] by metis
    show "\<exists>x'. ft_write x t s = Inr (fst (avar_write k (dC d k) y), x', s\<lparr>VS_writes := VS_writes s + 1\<rparr>) \<and>
        var_rel idx P N x' (snd (avar_write k (dC d k) y))"
      if "var_rel idx P N x y" "unat (NumThreads s) = N" for x y s
      using ft_write_refines [OF L t(2) that(1), of s] by metis
    show "\<exists>y. var_rel idx P N (VarState_new t True) y \<and> fst (avar_write k (dC d k) y) = det_race (Write k a) d \<and>
        (\<not> det_race (Write k a) d \<longrightarrow> avar_inv d (snd (avar_write k (dC d k) y))
          (dR (det_step (Write k a) d) a) (dW (det_step (Write k a) d) a))"
      if "dR d a = (\<lambda>_. 0)" "dW d a = (\<lambda>_. 0)"
      using that VarState_new_refines [OF L t(2), of True] avar_new_inv(2) [OF d, of k]
      by (intro exI [of _ "avar_new k (dC d k k) True"]) (simp add: avar_new_access covers_def)
    show "fst (avar_write k (dC d k) y) = det_race (Write k a) d \<and>
        (\<not> det_race (Write k a) d \<longrightarrow> avar_inv d (snd (avar_write k (dC d k) y))
          (dR (det_step (Write k a) d) a) (dW (det_step (Write k a) d) a))"
      if "avar_inv d y (dR d a) (dW d a)" for y
      using avar_write_report [OF that, of k] avar_write_inv [OF that d, of k] by auto
  qed (use T(2) in simp_all)
qed

text \<open>Joins and ticks of clocks.\<close>

lemma views_vmax:
  assumes "views idx P N C V" and "views idx P N D W"
    and "wf_clock E" and "length E = N" and "clk E = vmax (clk C) (clk D)"
  shows "views idx P N E (cjoin V W)"
  using assms by (auto simp: views_def vmax_def cjoin_def)

lemma views_tick:
  assumes L: "layout idx P N" and "views idx P N C V" and k: "k \<in> P"
    and "wf_clock E" and "length E = N" and "clk E = tick (clk C) (idx k)"
  shows "views idx P N E (ctick k V)"
proof -
  have "idx u = idx k \<longleftrightarrow> u = k" if "u \<in> P" for u using layoutD(5) [OF L k that] by auto
  with assms show ?thesis by (auto simp: views_def tick_def ctick_def)
qed

lemma thread_relI:
  assumes "k \<in> P" "wf_thread N t" "unat (ts_tid t) = idx k" "views idx P N (ts_C t) V"
  shows "thread_rel idx P N k t V"
  using assms by (simp add: thread_rel_def)

lemma lock_lookup:
  assumes rel: "state_rel idx P N D s d"
  obtains m s1 where "getLockState l s = Inr (m, s1)" "views idx P N (ls_L m) (dL d l)" "wf_lock N m"
    "thread_of s1 = thread_of s" "var_of s1 = var_of s" "NumThreads s1 = NumThreads s"
    "\<And>z. (lock_of s1)(l \<mapsto> z) = (lock_of s)(l \<mapsto> z)"
proof (cases "lock_of s l")
  case None
  let ?m = "\<lparr>ls_L = newVectorClock [] (unat (NumThreads s))\<rparr>"
  have "dL d l = (\<lambda>_. 0)" using state_relD(4) [OF rel, of l] None by (simp add: lock_rel_def)
  then have V: "views idx P N (ls_L ?m) (dL d l)"
    using state_relD(2) [OF rel] views_new [OF state_relD(1) [OF rel], of "[]"] by simp
  then show ?thesis
    using None by (intro that [of ?m "put_lock l ?m s"])
      (auto simp: getLockState_new wf_lock_def dest: viewsD(1,2))
next
  case (Some m)
  then have "views idx P N (ls_L m) (dL d l)"
    using state_relD(4) [OF rel, of l] by (simp add: lock_rel_def)
  with Some show ?thesis
    by (intro that [of m s]) (auto simp: getLockState_found wf_lock_def dest: viewsD(1,2))
qed

lemma acquire_step:
  assumes rel: "state_rel idx P N D s d" and k: "k \<in> P"
  shows "\<exists>s'. rt_step (Acquire k l) s = Inr (False, s') \<and> state_rel idx P N D s' (det_step (Acquire k l) d)"
proof -
  obtain t where t: "thread_of s k = Some t" "thread_rel idx P N k t (dC d k)"
    using state_rel_thread [OF rel k] .
  obtain m s1 where m: "getLockState l s = Inr (m, s1)" "views idx P N (ls_L m) (dL d l)" "wf_lock N m"
    "thread_of s1 = thread_of s" "var_of s1 = var_of s" "NumThreads s1 = NumThreads s"
    "\<And>z. (lock_of s1)(l \<mapsto> z) = (lock_of s)(l \<mapsto> z)"
    using lock_lookup [OF rel] by metis
  note T = thread_relD [OF t(2)]
  obtain t' where t': "ft_acquire t m = Inr (t', m)" "wf_thread N t'" "ts_tid t' = ts_tid t"
    "clk (ts_C t') = vmax (clk (ts_C t)) (clk (ls_L m))"
    using ft_acquire_wf [OF T(2) m(3)] .
  have t'_rel: "thread_rel idx P N k t' (cjoin (dC d k) (dL d l))"
    using T t' m(2) by (intro thread_relI views_vmax [OF T(4) m(2)]) (auto dest: wf_threadD)
  let ?s' = "put_lock l m (put_thread k t' s1)"
  have "rt_step (Acquire k l) s = Inr (False, ?s')"
    using t(1) m(1) t'(1) by (simp add: lock_access_def getThreadState_def getState_found quiet_def)
  moreover have "state_rel idx P N D ?s' (det_step (Acquire k l) d)"
  proof (rule state_rel_sync [OF rel, where e = "Acquire k l"])
    show "\<exists>t. thread_of ?s' j = Some t \<and> thread_rel idx P N j t (dC (det_step (Acquire k l) d) j)"
      if "j \<in> P" for j
      using state_rel_thread [OF rel that] t'_rel m(4) by auto
    show "lock_rel idx P N (lock_of ?s' j) (dL (det_step (Acquire k l) d) j)" for j
      using state_relD(4) [OF rel, of j] m(2,7) by (simp add: lock_rel_def)
  qed (use m in simp_all)
  ultimately show ?thesis by blast
qed

lemma release_step:
  assumes rel: "state_rel idx P N D s d" and k: "k \<in> P" and small: "dC d k k < 16777215"
  shows "\<exists>s'. rt_step (Release k l) s = Inr (False, s') \<and> state_rel idx P N D s' (det_step (Release k l) d)"
proof -
  obtain t where t: "thread_of s k = Some t" "thread_rel idx P N k t (dC d k)"
    using state_rel_thread [OF rel k] .
  obtain m s1 where m: "getLockState l s = Inr (m, s1)" "views idx P N (ls_L m) (dL d l)" "wf_lock N m"
    "thread_of s1 = thread_of s" "var_of s1 = var_of s" "NumThreads s1 = NumThreads s"
    "\<And>z. (lock_of s1)(l \<mapsto> z) = (lock_of s)(l \<mapsto> z)"
    using lock_lookup [OF rel] by metis
  note T = thread_relD [OF t(2)] and L = state_relD(1) [OF rel]
  have "own_clock t < 16777215" using T(5) small by simp
  from ft_release_wf [OF T(2) m(3) this]
  obtain t' m' where t': "ft_release t m = Inr (t', m')" "wf_thread N t'" "ts_tid t' = ts_tid t"
    "wf_lock N m'" "clk (ts_C t') = tick (clk (ts_C t)) (unat (ts_tid t))" "clk (ls_L m') = clk (ts_C t)" .
  have t'_rel: "thread_rel idx P N k t' (ctick k (dC d k))"
    using T t' by (intro thread_relI views_tick [OF L T(4)]) (auto dest: wf_threadD)
  have m'_rel: "views idx P N (ls_L m') (dC d k)"
    using T(4) t'(4,6) by (auto simp: views_def wf_lock_def)
  let ?s' = "put_lock l m' (put_thread k t' s1)"
  have "rt_step (Release k l) s = Inr (False, ?s')"
    using t(1) m(1) t'(1) by (simp add: unlock_access_def getThreadState_def getState_found quiet_def)
  moreover have "state_rel idx P N D ?s' (det_step (Release k l) d)"
  proof (rule state_rel_sync [OF rel, where e = "Release k l"])
    show "\<exists>t. thread_of ?s' j = Some t \<and> thread_rel idx P N j t (dC (det_step (Release k l) d) j)"
      if "j \<in> P" for j
      using state_rel_thread [OF rel that] t'_rel m(4) by auto
    show "lock_rel idx P N (lock_of ?s' j) (dL (det_step (Release k l) d) j)" for j
      using state_relD(4) [OF rel, of j] m(2,7) m'_rel by (simp add: lock_rel_def)
  qed (use m in simp_all)
  ultimately show ?thesis by blast
qed

lemma fork_step:
  assumes rel: "state_rel idx P N D s d" and k: "k \<in> P" and j: "j \<in> P" and ne: "k \<noteq> j"
    and small: "dC d k k < 16777215"
  shows "\<exists>s'. rt_step (Fork k j) s = Inr (False, s') \<and> state_rel idx P N D s' (det_step (Fork k j) d)"
proof -
  obtain t where t: "thread_of s k = Some t" "thread_rel idx P N k t (dC d k)"
    using state_rel_thread [OF rel k] .
  obtain u where u: "thread_of s j = Some u" "thread_rel idx P N j u (dC d j)"
    using state_rel_thread [OF rel j] .
  note T = thread_relD [OF t(2)] and U = thread_relD [OF u(2)] and L = state_relD(1) [OF rel]
  have "own_clock t < 16777215" using T(5) small by simp
  from ft_fork_wf [OF T(2) U(2) this]
  obtain t' u' where f: "ft_fork t u = Inr (t', u')" "wf_thread N t'" "wf_thread N u'"
    "ts_tid t' = ts_tid t" "ts_tid u' = ts_tid u"
    "clk (ts_C t') = tick (clk (ts_C t)) (unat (ts_tid t))"
    "clk (ts_C u') = vmax (clk (ts_C u)) (clk (ts_C t))" .
  have t'_rel: "thread_rel idx P N k t' (ctick k (dC d k))"
    using T f by (intro thread_relI views_tick [OF L T(4)]) (auto dest: wf_threadD)
  have u'_rel: "thread_rel idx P N j u' (cjoin (dC d j) (dC d k))"
    using U f by (intro thread_relI views_vmax [OF U(4) T(4)]) (auto dest: wf_threadD)
  let ?s' = "put_thread j u' (put_thread k t' (s\<lparr>isConcurrent := fork_count (isConcurrent s)\<rparr>))"
  have "rt_step (Fork k j) s = Inr (False, ?s')"
    using t(1) u(1) f(1) ne by (simp add: fork_threads_def getState_found quiet_def)
  moreover have "state_rel idx P N D ?s' (det_step (Fork k j) d)"
  proof (rule state_rel_sync [OF rel, where e = "Fork k j"])
    show "\<exists>t. thread_of ?s' i = Some t \<and> thread_rel idx P N i t (dC (det_step (Fork k j) d) i)"
      if "i \<in> P" for i
      using state_rel_thread [OF rel that] t'_rel u'_rel ne by auto
    show "lock_rel idx P N (lock_of ?s' i) (dL (det_step (Fork k j) d) i)" for i
      using state_relD(4) [OF rel, of i] by simp
  qed (use ne in simp_all)
  ultimately show ?thesis by blast
qed

lemma join_step:
  assumes rel: "state_rel idx P N D s d" and k: "k \<in> P" and j: "j \<in> P" and ne: "k \<noteq> j"
    and small: "dC d j j < 16777215"
  shows "\<exists>s'. rt_step (Join k j) s = Inr (False, s') \<and> state_rel idx P N D s' (det_step (Join k j) d)"
proof -
  obtain t where t: "thread_of s k = Some t" "thread_rel idx P N k t (dC d k)"
    using state_rel_thread [OF rel k] .
  obtain u where u: "thread_of s j = Some u" "thread_rel idx P N j u (dC d j)"
    using state_rel_thread [OF rel j] .
  note T = thread_relD [OF t(2)] and U = thread_relD [OF u(2)] and L = state_relD(1) [OF rel]
  have "own_clock u < 16777215" using U(5) small by simp
  from ft_join_wf [OF T(2) U(2) this]
  obtain t' u' where f: "ft_join t u = Inr (t', u')" "wf_thread N t'" "wf_thread N u'"
    "ts_tid t' = ts_tid t" "ts_tid u' = ts_tid u"
    "clk (ts_C t') = vmax (clk (ts_C t)) (clk (ts_C u))"
    "clk (ts_C u') = tick (clk (ts_C u)) (unat (ts_tid u))" .
  have t'_rel: "thread_rel idx P N k t' (cjoin (dC d k) (dC d j))"
    using T f by (intro thread_relI views_vmax [OF T(4) U(4)]) (auto dest: wf_threadD)
  have u'_rel: "thread_rel idx P N j u' (ctick j (dC d j))"
    using U f by (intro thread_relI views_tick [OF L U(4)]) (auto dest: wf_threadD)
  let ?s' = "put_thread j u' (put_thread k t' (s\<lparr>isConcurrent := join_count (isConcurrent s)\<rparr>))"
  have "rt_step (Join k j) s = Inr (False, ?s')"
    using t(1) u(1) f(1) ne by (simp add: join_threads_def getState_found quiet_def)
  moreover have "state_rel idx P N D ?s' (det_step (Join k j) d)"
  proof (rule state_rel_sync [OF rel, where e = "Join k j"])
    show "\<exists>t. thread_of ?s' i = Some t \<and> thread_rel idx P N i t (dC (det_step (Join k j) d) i)"
      if "i \<in> P" for i
      using state_rel_thread [OF rel that] t'_rel u'_rel ne by auto
    show "lock_rel idx P N (lock_of ?s' i) (dL (det_step (Join k j) d) i)" for i
      using state_relD(4) [OF rel, of i] by simp
  qed (use ne in simp_all)
  ultimately show ?thesis by blast
qed

subsection \<open>Whole traces\<close>

fun accessed :: "('k, 'l, 'a) event \<Rightarrow> 'a set" where
  "accessed (Read t x) = {x}"
| "accessed (Write t x) = {x}"
| "accessed e = {}"

fun event_threads :: "('k, 'l, 'a) event \<Rightarrow> 'k set" where
  "event_threads (Fork t u) = {t, u}"
| "event_threads (Join t u) = {t, u}"
| "event_threads e = {actor e}"

text \<open>The addresses on which the answers \<open>bs\<close> along the trace \<open>tr\<close> report a race.\<close>

definition reported :: "('k, 'l, 'a) event list \<Rightarrow> bool list \<Rightarrow> 'a set" where
  "reported tr bs = {a. \<exists>j < length tr. bs ! j \<and> a \<in> accessed (tr ! j)}"

lemma rt_step_refines:
  assumes rel: "state_rel idx P N D s d" and e: "event_threads e \<subseteq> P" "proper e"
    and small: "\<And>k. dC d k k < 16777215"
  shows "\<exists>b s'. rt_step e s = Inr (b, s') \<and>
    state_rel idx P N (if b then D \<union> accessed e else D) s' (det_step e d) \<and>
    (accessed e \<inter> D = {} \<longrightarrow> b = det_race e d) \<and> (b \<longrightarrow> accessed e \<noteq> {})"
proof (cases e)
  case (Read k a)
  then obtain b s' where "rt_step e s = Inr (b, s')" "a \<notin> D \<longrightarrow> b = det_race e d"
    "state_rel idx P N (if b then insert a D else D) s' (det_step e d)"
    using read_step [OF rel, of k a] e by auto
  then show ?thesis unfolding Read accessed.simps by (intro exI [of _ b] exI [of _ s']) auto
next
  case (Write k a)
  then obtain b s' where "rt_step e s = Inr (b, s')" "a \<notin> D \<longrightarrow> b = det_race e d"
    "state_rel idx P N (if b then insert a D else D) s' (det_step e d)"
    using write_step [OF rel, of k a] e by auto
  then show ?thesis unfolding Write accessed.simps by (intro exI [of _ b] exI [of _ s']) auto
next
  case (Acquire k l)
  then obtain s' where "rt_step e s = Inr (False, s')" "state_rel idx P N D s' (det_step e d)"
    using acquire_step [OF rel, of k l] e by auto
  with Acquire show ?thesis by (intro exI [of _ False] exI [of _ s']) simp
next
  case (Release k l)
  then obtain s' where "rt_step e s = Inr (False, s')" "state_rel idx P N D s' (det_step e d)"
    using release_step [OF rel, of k l] e small by auto
  with Release show ?thesis by (intro exI [of _ False] exI [of _ s']) simp
next
  case (Fork k j)
  then obtain s' where "rt_step e s = Inr (False, s')" "state_rel idx P N D s' (det_step e d)"
    using fork_step [OF rel, of k j] e small by auto
  with Fork show ?thesis by (intro exI [of _ False] exI [of _ s']) simp
next
  case (Join k j)
  then obtain s' where "rt_step e s = Inr (False, s')" "state_rel idx P N D s' (det_step e d)"
    using join_step [OF rel, of k j] e small by auto
  with Join show ?thesis by (intro exI [of _ False] exI [of _ s']) simp
qed

text \<open>Clocks grow by at most one with each event.\<close>

lemma det_step_bound:
  "\<forall>t u. dC d t u \<le> n \<Longrightarrow> \<forall>l u. dL d l u \<le> n \<Longrightarrow>
    (\<forall>t u. dC (det_step e d) t u \<le> Suc n) \<and> (\<forall>l u. dL (det_step e d) l u \<le> Suc n)"
  by (cases e) (auto simp: cjoin_def ctick_def le_SucI)

lemma det_run_bound:
  "(\<forall>t u. dC (det_run tr) t u \<le> Suc (length tr)) \<and> (\<forall>l u. dL (det_run tr) l u \<le> Suc (length tr))"
proof (induction tr rule: rev_induct)
  case Nil
  show ?case by (simp add: detector_init_def)
next
  case (snoc e tr)
  then show ?case using det_step_bound [of "det_run tr" "Suc (length tr)" e] by (simp add: det_run_snoc)
qed

lemma rt_run_snoc:
  "rt_run (es @ [e]) s =
    bnd (rt_run es s) (\<lambda>(bs, s'). bnd (rt_step e s') (\<lambda>(b, s''). Inr (bs @ [b], s'')))"
proof (induction es arbitrary: s)
  case (Cons a es)
  show ?case by (simp add: Cons bnd_assoc split_def)
qed (simp add: split_def)

lemma reported_snoc:
  assumes "length bs = length tr"
  shows "reported (tr @ [e]) (bs @ [b]) = (if b then reported tr bs \<union> accessed e else reported tr bs)"
proof -
  have "(\<exists>j < length (tr @ [e]). (bs @ [b]) ! j \<and> a \<in> accessed ((tr @ [e]) ! j)) \<longleftrightarrow>
      (\<exists>j < length tr. bs ! j \<and> a \<in> accessed (tr ! j)) \<or> b \<and> a \<in> accessed e" for a
    using assms by (simp add: Ex_less_Suc nth_append cong: conj_cong) blast
  then show ?thesis by (auto simp: reported_def)
qed

lemma reported_take:
  assumes "j \<le> length tr" and "length bs = length tr"
  shows "reported (take j (tr @ [e])) (take j (bs @ [b])) = reported (take j tr) (take j bs)"
  using assms by simp

lemma race_append:
  assumes "j < length tr"
  shows "race (tr @ tr') i j \<longleftrightarrow> race tr i j"
proof -
  have "(tr @ tr') ! j = tr ! j" "i < j \<Longrightarrow> (tr @ tr') ! i = tr ! i"
    using assms by (simp_all add: nth_append)
  moreover have "j < length (tr @ tr')" using assms by simp
  ultimately show ?thesis using assms unfolding race_def hb_append [OF assms] by auto
qed

lemma rt_run_refines:
  assumes start: "state_rel idx P N {} s detector_init"
    and "\<forall>e \<in> set tr. event_threads e \<subseteq> P \<and> proper e" and "length tr < 16777214"
  shows "\<exists>bs s'. rt_run tr s = Inr (bs, s') \<and> length bs = length tr \<and>
    state_rel idx P N (reported tr bs) s' (det_run tr) \<and>
    (\<forall>j < length tr. bs ! j \<longrightarrow> accessed (tr ! j) \<noteq> {}) \<and>
    (\<forall>j < length tr. accessed (tr ! j) \<inter> reported (take j tr) (take j bs) = {} \<longrightarrow>
      bs ! j = (\<exists>i. race tr i j))"
  using assms(2,3)
proof (induction tr rule: rev_induct)
  case Nil
  show ?case using start by (simp add: reported_def)
next
  case (snoc e tr)
  then obtain bs s' where IH: "rt_run tr s = Inr (bs, s')" "length bs = length tr"
    "state_rel idx P N (reported tr bs) s' (det_run tr)"
    "\<forall>j < length tr. bs ! j \<longrightarrow> accessed (tr ! j) \<noteq> {}"
    "\<forall>j < length tr. accessed (tr ! j) \<inter> reported (take j tr) (take j bs) = {} \<longrightarrow>
      bs ! j = (\<exists>i. race tr i j)"
    by auto
  have small: "dC (det_run tr) k k < 16777215" for k
  proof (rule le_less_trans)
    show "dC (det_run tr) k k \<le> Suc (length tr)" using det_run_bound [of tr] by blast
    show "Suc (length tr) < 16777215" using snoc.prems(2) by simp
  qed
  obtain b s'' where step: "rt_step e s' = Inr (b, s'')"
    "state_rel idx P N (if b then reported tr bs \<union> accessed e else reported tr bs) s'' (det_step e (det_run tr))"
    "accessed e \<inter> reported tr bs = {} \<longrightarrow> b = det_race e (det_run tr)" "b \<longrightarrow> accessed e \<noteq> {}"
    using rt_step_refines [OF IH(3), of e] snoc.prems(1) small by auto
  have "det_race e (det_run tr) \<longleftrightarrow> (\<exists>i. race (tr @ [e]) i (length tr))"
    using snoc.prems(1) by (intro det_race_iff) auto
  with step(3) have b: "accessed e \<inter> reported tr bs = {} \<Longrightarrow> b = (\<exists>i. race (tr @ [e]) i (length tr))"
    by simp
  show ?case
  proof (intro exI conjI allI impI)
    show "rt_run (tr @ [e]) s = Inr (bs @ [b], s'')"
      using IH(1) step(1) by (simp add: rt_run_snoc)
    show "length (bs @ [b]) = length (tr @ [e])" using IH(2) by simp
    show "state_rel idx P N (reported (tr @ [e]) (bs @ [b])) s'' (det_run (tr @ [e]))"
      using step(2) IH(2) by (simp only: reported_snoc det_run_snoc)
    fix j assume j: "j < length (tr @ [e])"
    show "accessed ((tr @ [e]) ! j) \<noteq> {}" if "(bs @ [b]) ! j"
      using that j IH(2,4) step(4) by (cases "j = length tr") (auto simp: nth_append)
    show "(bs @ [b]) ! j = (\<exists>i. race (tr @ [e]) i j)"
      if "accessed ((tr @ [e]) ! j) \<inter> reported (take j (tr @ [e])) (take j (bs @ [b])) = {}"
    proof (cases "j = length tr")
      case True
      with that b IH(2) show ?thesis by (simp add: nth_append)
    next
      case False
      with j have "j < length tr" by simp
      with that IH(2,5) show ?thesis by (simp add: nth_append race_append)
    qed
  qed
qed

end
