(* ===== verification/Execution.thy ===== *)
theory Execution
  imports Refinement
begin

text \<open>
  Executions of an instrumented program: a list of callback invocations, one per event of the
  trace, with the source position the instrumentation passes along. The theory relates them to
  \<open>rt_run\<close>: accesses made while \<open>isConcurrent\<close> is 0 are skipped, and every answer that a race
  was found becomes one call of \<open>reportRaceOnRead\<close> or \<open>reportRaceOnWrite\<close>.
\<close>

type_synonym location = "i32 \<times> cstr \<times> cstr"
type_synonym mt_event = "(ThreadID, Address, Address) event"

subsection \<open>A freshly registered program\<close>

text \<open>
  All threads are known, each with its own clock at 1 and no knowledge of the others, and no
  address or lock was touched yet: the state the comments of \<open>defs.h\<close> describe.
\<close>

definition registered :: "(ThreadID \<Rightarrow> nat) \<Rightarrow> ThreadID set \<Rightarrow> nat \<Rightarrow> rt \<Rightarrow> bool" where
  "registered idx P N s \<longleftrightarrow> layout idx P N \<and> unat (NumThreads s) = N \<and>
     (\<forall>k \<in> P. \<exists>t. thread_of s k = Some t \<and> wf_thread N t \<and> unat (ts_tid t) = idx k \<and>
        clk (ts_C t) = (\<lambda>i. if i = idx k then 1 else 0)) \<and>
     Vstates s = [] \<and> LS_L s = []"

lemma registered_state_rel:
  assumes "registered idx P N s"
  shows "state_rel idx P N {} s detector_init"
proof -
  have L: "layout idx P N" using assms by (simp add: registered_def)
  have "\<exists>t. thread_of s k = Some t \<and> thread_rel idx P N k t (dC detector_init k)" if k: "k \<in> P" for k
  proof -
    from assms k obtain t where t: "thread_of s k = Some t" "wf_thread N t" "unat (ts_tid t) = idx k"
      "clk (ts_C t) = (\<lambda>i. if i = idx k then 1 else 0)" by (auto simp: registered_def)
    have "views idx P N (ts_C t) (dC detector_init k)"
      using t k layoutD(5) [OF L] wf_threadD [OF t(2)] by (auto simp: views_def detector_init_def)
    with t k show ?thesis by (auto simp: thread_rel_def)
  qed
  with assms L show ?thesis
    by (simp add: state_rel_def registered_def det_inv_init lock_rel_def addr_rel_def var_of_def
        lock_of_def) (simp add: detector_init_def)
qed

text \<open>
  Such a state is what \<open>UpdateThreadClocks\<close> makes of threads with fresh ids and empty clocks.
\<close>

lemma pushed_epoch_parts:
  "i < 256 \<Longrightarrow> tid_of (pushed_epoch t i) = i"
  "i < 256 \<Longrightarrow> clock_of (pushed_epoch t i) = (if unat (ts_tid t) = i then 1 else 0)"
  by (auto simp: pushed_epoch_def Let_def epoch0_mk mk_epoch_Suc epoch_simps)

lemma UpdateThreadClocks_one_fresh:
  assumes "ts_C t = []" "unat (ts_tid t) < n" "n \<le> 256" "ts_epoch t = mk_epoch (unat (ts_tid t)) 1"
  shows "wf_thread n (UpdateThreadClocks_one n t)"
    "clk (ts_C (UpdateThreadClocks_one n t)) = (\<lambda>i. if i = unat (ts_tid t) then 1 else 0)"
proof -
  have C: "ts_C (UpdateThreadClocks_one n t) = map (pushed_epoch t) [0..<n]"
    using assms by (simp add: UpdateThreadClocks_one_def fold_push_back)
  have "pushed_epoch t (unat (ts_tid t)) = mk_epoch (unat (ts_tid t)) 1"
    by (simp add: pushed_epoch_def epoch0_mk mk_epoch_Suc)
  then show "wf_thread n (UpdateThreadClocks_one n t)"
    using assms C by (auto simp: wf_thread_def wf_clock_def pushed_epoch_parts)
  show "clk (ts_C (UpdateThreadClocks_one n t)) = (\<lambda>i. if i = unat (ts_tid t) then 1 else 0)"
    using assms C by (auto simp: clk_def pushed_epoch_parts fun_eq_iff)
qed

subsection \<open>The test of \<open>isConcurrent\<close>\<close>

definition gated_step :: "mt_event \<Rightarrow> rt \<Rightarrow> (bool \<times> rt) res" where
  "gated_step e s =
     (if accessed e \<noteq> {} \<and> isConcurrent s = 0 then Inr (False, s) else rt_step e s)"

fun gated_run :: "mt_event list \<Rightarrow> rt \<Rightarrow> (bool list \<times> rt) res" where
  "gated_run [] s = Inr ([], s)"
| "gated_run (e # es) s =
     bnd (gated_step e s) (\<lambda>(b, s'). bnd (gated_run es s') (\<lambda>(bs, s''). Inr (b # bs, s'')))"

text \<open>The number of running children, and the events the runtime records.\<close>

fun running :: "('k, 'l, 'a) event \<Rightarrow> nat \<Rightarrow> nat" where
  "running (Fork t u) n = Suc n"
| "running (Join t u) n = n - 1"
| "running e n = n"

fun recorded :: "nat \<Rightarrow> ('k, 'l, 'a) event list \<Rightarrow> ('k, 'l, 'a) event list" where
  "recorded n [] = []"
| "recorded n (e # es) =
     (if accessed e \<noteq> {} \<and> n = 0 then recorded n es else e # recorded (running e n) es)"

text \<open>The answers for all events from the answers for the recorded ones.\<close>

fun answers :: "nat \<Rightarrow> ('k, 'l, 'a) event list \<Rightarrow> bool list \<Rightarrow> bool list" where
  "answers n [] bs = []"
| "answers n (e # es) bs =
     (if accessed e \<noteq> {} \<and> n = 0 then False # answers n es bs
      else hd bs # answers (running e n) es (tl bs))"

lemma getState_isConcurrent: "getState k s = Inr (t, s') \<Longrightarrow> isConcurrent s' = isConcurrent s"
  by (auto simp: getState_def getState_new_def Let_def bnd_eq_Inr_iff UpdateThreadClocks_def
      split: option.splits)

lemma getVarState_isConcurrent:
  "getVarState k a w s = Inr (x, s') \<Longrightarrow> isConcurrent s' = isConcurrent s"
  by (auto simp: getVarState_def Let_def bnd_eq_Inr_iff getThreadState_def getState_isConcurrent
      split: option.splits)

lemma getLockState_isConcurrent:
  "getLockState l s = Inr (m, s') \<Longrightarrow> isConcurrent s' = isConcurrent s"
  by (auto simp: getLockState_def Let_def split: option.splits)

lemma ft_isConcurrent:
  "ft_read x t s = Inr (b, x', s') \<Longrightarrow> isConcurrent s' = isConcurrent s"
  "ft_write x t s = Inr (b, x', s') \<Longrightarrow> isConcurrent s' = isConcurrent s"
  by (auto simp: ft_read_def ft_write_def Let_def bnd_eq_Inr_iff split: if_splits)

lemmas isConcurrent_frame = getState_isConcurrent getVarState_isConcurrent getLockState_isConcurrent
  ft_isConcurrent

fun count_word :: "mt_event \<Rightarrow> i32 \<Rightarrow> i32" where
  "count_word (Fork t u) n = fork_count n"
| "count_word (Join t u) n = join_count n"
| "count_word e n = n"

lemma rt_step_isConcurrent:
  assumes "rt_step e s = Inr (b, s')"
  shows "isConcurrent s' = count_word e (isConcurrent s)"
  using assms
  by (cases e)
    (auto simp: read_access_def write_access_def lock_access_def unlock_access_def fork_threads_def
      join_threads_def quiet_def bnd_eq_Inr_iff getThreadState_def Let_def put_lock_def
      dest!: isConcurrent_frame split: if_splits)

lemma word_of_nat_0_iff: "n < 4294967296 \<Longrightarrow> (word_of_nat n :: i32) = 0 \<longleftrightarrow> n = 0"
  by (auto simp: word_of_nat_eq_0_iff dest: nat_dvd_not_less [rotated])

lemma count_word_running:
  assumes "n + 1 < 4294967296"
  shows "count_word e (word_of_nat n) = word_of_nat (running e n)"
proof -
  have "(word_of_nat n :: i32) = 0 \<longleftrightarrow> n = 0"
    using assms by (intro word_of_nat_0_iff) simp
  then show ?thesis
    by (cases e) (auto simp: fork_count_def join_count_def of_nat_diff)
qed

lemma gated_run_eq:
  assumes "isConcurrent s = word_of_nat n" and "n + length tr < 4294967296"
  shows "gated_run tr s = bnd (rt_run (recorded n tr) s) (\<lambda>(bs, s'). Inr (answers n tr bs, s'))"
  using assms
proof (induction tr arbitrary: s n)
  case (Cons e es)
  have zero: "isConcurrent s = 0 \<longleftrightarrow> n = 0"
    using Cons.prems by (simp add: word_of_nat_0_iff)
  show ?case
  proof (cases "accessed e \<noteq> {} \<and> n = 0")
    case True
    moreover have "gated_run es s = bnd (rt_run (recorded 0 es) s) (\<lambda>(bs, s'). Inr (answers 0 es bs, s'))"
      using Cons.prems True by (intro Cons.IH) auto
    ultimately show ?thesis using zero by (simp add: gated_step_def bnd_assoc split_def)
  next
    case False
    have le: "running e n \<le> Suc n" by (cases e) auto
    have next_run: "gated_run es s' = bnd (rt_run (recorded (running e n) es) s')
        (\<lambda>(bs, s''). Inr (answers (running e n) es bs, s''))" if "rt_step e s = Inr (b, s')" for b s'
      using Cons.prems rt_step_isConcurrent [OF that] count_word_running [of n e] le
      by (intro Cons.IH) auto
    show ?thesis
    proof (cases "rt_step e s")
      case (Inl f)
      with False zero show ?thesis by (auto simp: gated_step_def)
    next
      case (Inr r)
      obtain b s' where r: "r = (b, s')" by fastforce
      from False zero have "gated_step e s = rt_step e s" by (auto simp: gated_step_def)
      with False Inr r next_run [of b s'] show ?thesis by (auto simp: bnd_assoc split_def)
    qed
  qed
qed simp

subsection \<open>The callbacks\<close>

fun world_step :: "tree \<Rightarrow> mt_event \<times> location \<Rightarrow> world \<Rightarrow> world res" where
  "world_step pos (Read t x, (line, obj, file_name)) w = tsan_read8 pos t x line obj file_name w"
| "world_step pos (Write t x, (line, obj, file_name)) w = tsan_write8 pos t x line obj file_name w"
| "world_step pos (Acquire t l, loc) w = tsan_thread_lock t l w"
| "world_step pos (Release t l, loc) w = tsan_thread_unlock t l w"
| "world_step pos (Fork t u, loc) w = tsan_thread_create (\<lambda>_. u) t 0 w"
| "world_step pos (Join t u, loc) w = tsan_thread_join t (unat u) w"

fun world_run :: "tree \<Rightarrow> (mt_event \<times> location) list \<Rightarrow> world \<Rightarrow> world res" where
  "world_run pos [] w = Inr w"
| "world_run pos (a # as) w = bnd (world_step pos a w) (world_run pos as)"

text \<open>The report of an event: its access type, its thread and its source position.\<close>

fun report_of :: "tree \<Rightarrow> mt_event \<times> location \<Rightarrow> reports \<Rightarrow> reports" where
  "report_of pos (Read t x, (line, obj, file_name)) = reportRaceOnRead pos t line obj file_name"
| "report_of pos (Write t x, (line, obj, file_name)) = reportRaceOnWrite pos t line obj file_name"
| "report_of pos a = id"

definition make_reports :: "tree \<Rightarrow> (mt_event \<times> location) list \<Rightarrow> bool list \<Rightarrow> reports \<Rightarrow> reports" where
  "make_reports pos as bs = fold (\<lambda>(a, b). if b then report_of pos a else id) (zip as bs)"

lemma world_step_eq:
  "world_step pos a w = bnd (gated_step (fst a) (w_rt w)) (\<lambda>(b, s).
     Inr (w\<lparr>w_rt := s, w_rep := (if b then report_of pos a else id) (w_rep w)\<rparr>))"
proof -
  obtain e line obj file_name where a: "a = (e, line, obj, file_name)" by (cases a) auto
  show ?thesis
    by (cases e)
      (auto simp: a gated_step_def tsan_read8_def tsan_write8_def read_callback_def write_callback_def
        tsan_thread_lock_def tsan_thread_unlock_def tsan_thread_create_def tsan_thread_join_def
        on_rt_def quiet_def bnd_assoc split_def of_nat_unat intro!: arg_cong2 [where f = bnd])
qed

lemma world_run_eq:
  "world_run pos as w = bnd (gated_run (map fst as) (w_rt w)) (\<lambda>(bs, s).
     Inr (w\<lparr>w_rt := s, w_rep := make_reports pos as bs (w_rep w)\<rparr>))"
proof (induction as arbitrary: w)
  case Nil
  show ?case by (simp add: make_reports_def)
next
  case (Cons a as)
  show ?case
    by (simp add: world_step_eq Cons bnd_assoc split_def make_reports_def cong: if_cong)
qed

subsection \<open>Reports and races\<close>

lemma accessed_singleton: "a \<in> accessed e \<Longrightarrow> accessed e = {a}"
  by (cases e) auto

lemma race_accessed: "race tr i j \<Longrightarrow> accessed (tr ! j) \<noteq> {}"
  unfolding race_def by (cases "tr ! i"; cases "tr ! j") auto

lemma reported_take_subset: "j \<le> length tr \<Longrightarrow> reported (take j tr) (take j bs) \<subseteq> reported tr bs"
  by (auto simp: reported_def intro: less_le_trans)

text \<open>Exact first answers make the reported addresses exactly those with a race.\<close>

lemma reported_iff_race:
  assumes len: "length bs = length tr"
    and first: "\<forall>j < length tr. accessed (tr ! j) \<inter> reported (take j tr) (take j bs) = {} \<longrightarrow>
      bs ! j = (\<exists>i. race tr i j)"
  shows "a \<in> reported tr bs \<longleftrightarrow> (\<exists>i j. race tr i j \<and> a \<in> accessed (tr ! j))"
proof
  let ?Q = "\<lambda>j. j < length tr \<and> bs ! j \<and> a \<in> accessed (tr ! j)"
  assume "a \<in> reported tr bs"
  then have "\<exists>j. ?Q j" by (auto simp: reported_def)
  then obtain j where j: "?Q j" "\<forall>i < j. \<not> ?Q i" using exists_least_iff [of ?Q] by blast
  then have "a \<notin> reported (take j tr) (take j bs)" by (auto simp: reported_def)
  with j(1) accessed_singleton [of a "tr ! j"]
  have "accessed (tr ! j) \<inter> reported (take j tr) (take j bs) = {}" by auto
  with first j(1) show "\<exists>i j. race tr i j \<and> a \<in> accessed (tr ! j)" by blast
next
  assume "\<exists>i j. race tr i j \<and> a \<in> accessed (tr ! j)"
  then obtain i j where r: "race tr i j" and a: "a \<in> accessed (tr ! j)" by blast
  have j: "j < length tr" using r by (simp add: race_def)
  show "a \<in> reported tr bs"
  proof (cases "a \<in> reported (take j tr) (take j bs)")
    case True
    then show ?thesis using reported_take_subset [of j tr bs] j by auto
  next
    case False
    then have "bs ! j" using first j r accessed_singleton [OF a] by auto
    with j a show ?thesis by (auto simp: reported_def)
  qed
qed

lemma registered_run:
  assumes "registered idx P N s" and "\<forall>e \<in> set tr. event_threads e \<subseteq> P \<and> proper e"
    and "length tr < 16777214"
  obtains bs s' where "rt_run tr s = Inr (bs, s')" "length bs = length tr"
    "\<forall>j < length tr. bs ! j \<longrightarrow> accessed (tr ! j) \<noteq> {}"
    "\<forall>j < length tr. accessed (tr ! j) \<inter> reported (take j tr) (take j bs) = {} \<longrightarrow>
      bs ! j = (\<exists>i. race tr i j)"
  using rt_run_refines [OF registered_state_rel [OF assms(1)] assms(2,3)] by blast

lemma recorded_subset: "set (recorded n tr) \<subseteq> set tr"
  by (induction n tr rule: recorded.induct) auto

lemma length_recorded: "length (recorded n tr) \<le> length tr"
  by (induction n tr rule: recorded.induct) (auto intro: le_SucI)

subsection \<open>A program of two threads\<close>

definition two_threads :: rt where
  "two_threads = \<lparr>TS_C = [(11, \<lparr>ts_tid = 0, ts_C = [1, 0x01000000], ts_epoch = 1\<rparr>),
       (12, \<lparr>ts_tid = 1, ts_C = [0, 0x01000001], ts_epoch = 0x01000001\<rparr>)],
     NumThreads = 2, isConcurrent = 1, Vstates = [], VS_reads = 0, VS_writes = 0, LS_L = []\<rparr>"

definition two_ids :: "ThreadID \<Rightarrow> nat" where
  "two_ids k = (if k = 11 then 0 else 1)"

lemma two_threads_registered: "registered two_ids {11, 12} 2 two_threads"
  unfolding registered_def
  by (auto simp: two_threads_def two_ids_def layout_def inj_on_def thread_of_def wf_thread_def
      wf_clock_def clk_def unat_TID unat_CLOCK fun_eq_iff less_Suc_eq)

text \<open>Its threads hand an address over with a lock, and then both access another one.\<close>

definition demo_trace :: "mt_event list" where
  "demo_trace = [Acquire 11 7, Write 11 100, Release 11 7, Acquire 12 7, Read 12 100, Release 12 7,
     Write 11 200, Write 12 200]"

lemma demo_trace_ok:
  "\<forall>e \<in> set demo_trace. event_threads e \<subseteq> {11, 12} \<and> proper e" "length demo_trace = 8"
  by (simp_all add: demo_trace_def)

subsection \<open>Properties\<close>

text \<open>
  What the comments of \<open>defs.h\<close> ask for is a state that \<open>UpdateThreadClocks\<close> makes from a table of threads
  with distinct ids, empty clocks and own clock 1: every clock has one entry per thread id, \<open>epoch == C[tid]\<close>,
  and nobody knows anything of the others. No sequence of calls of \<open>getState\<close> produces such a table.
\<close>

lemma registration_establishes_invariant:
  assumes "layout idx P N" and "length (TS_C s) = N" and "unat (NumThreads s) = N"
    and "\<forall>k \<in> P. \<exists>t. thread_of s k = Some t \<and> ts_C t = [] \<and> unat (ts_tid t) = idx k \<and>
      ts_epoch t = mk_epoch (idx k) 1"
    and "Vstates s = []" and "LS_L s = []"
  shows "registered idx P N (UpdateThreadClocks s)"
proof -
  have "\<exists>t. thread_of (UpdateThreadClocks s) k = Some t \<and> wf_thread N t \<and> unat (ts_tid t) = idx k \<and>
      clk (ts_C t) = (\<lambda>i. if i = idx k then 1 else 0)" if k: "k \<in> P" for k
  proof -
    obtain t where t: "thread_of s k = Some t" "ts_C t = []" "unat (ts_tid t) = idx k"
      "ts_epoch t = mk_epoch (idx k) 1" using assms(4) k by blast
    have "N \<le> 256" "idx k < N" using layoutD [OF assms(1) k] by simp_all
    with UpdateThreadClocks_one_fresh [of t N] t show ?thesis
      by (simp add: thread_of_UpdateThreadClocks assms(2))
  qed
  moreover have "NumThreads (UpdateThreadClocks s) = NumThreads s"
    by (simp add: UpdateThreadClocks_def Let_def)
  ultimately show ?thesis using assms by (simp add: registered_def)
qed

end
