(* ===== verification/EarlyAccess.thy ===== *)
theory EarlyAccess
  imports Execution
begin

text \<open>
  A runtime whose callbacks interleave may see an access twice: \<open>getVarState\<close> creates the record of an
  address as if the access had taken place, and the rule runs later, after callbacks of other threads. This
  theory shows, for the detector with vector clocks, that this does not change the addresses that have a race.
\<close>

subsection \<open>Racy addresses\<close>

definition racy :: "('k, 'l, 'a) event list \<Rightarrow> 'a set" where
  "racy tr = {a. \<exists>i j. race tr i j \<and> a \<in> accessed (tr ! j)}"

lemma racy_Nil [simp]: "racy [] = {}"
  by (simp add: racy_def race_def)

lemma racy_snoc:
  assumes "\<forall>e \<in> set tr. proper e"
  shows "racy (tr @ [e]) = racy tr \<union> (if det_race e (det_run tr) then accessed e else {})"
proof -
  have "(\<exists>i j. race (tr @ [e]) i j \<and> a \<in> accessed ((tr @ [e]) ! j)) \<longleftrightarrow>
      (\<exists>i j. race tr i j \<and> a \<in> accessed (tr ! j)) \<or> det_race e (det_run tr) \<and> a \<in> accessed e" for a
  proof
    assume "\<exists>i j. race (tr @ [e]) i j \<and> a \<in> accessed ((tr @ [e]) ! j)"
    then obtain i j where r: "race (tr @ [e]) i j" "a \<in> accessed ((tr @ [e]) ! j)" by blast
    then consider "j < length tr" | "j = length tr" by (fastforce simp: race_def)
    then show "(\<exists>i j. race tr i j \<and> a \<in> accessed (tr ! j)) \<or> det_race e (det_run tr) \<and> a \<in> accessed e"
    proof cases
      case 1
      with r show ?thesis by (metis nth_append race_append)
    next
      case 2
      with r show ?thesis using det_race_iff [OF assms, of e] by auto
    qed
  next
    assume "(\<exists>i j. race tr i j \<and> a \<in> accessed (tr ! j)) \<or> det_race e (det_run tr) \<and> a \<in> accessed e"
    then show "\<exists>i j. race (tr @ [e]) i j \<and> a \<in> accessed ((tr @ [e]) ! j)"
    proof
      assume "\<exists>i j. race tr i j \<and> a \<in> accessed (tr ! j)"
      then obtain i j where "race tr i j" "a \<in> accessed (tr ! j)" by blast
      moreover from this have "j < length tr" by (simp add: race_def)
      ultimately show ?thesis by (metis nth_append race_append)
    next
      assume "det_race e (det_run tr) \<and> a \<in> accessed e"
      with det_race_iff [OF assms, of e] obtain i where "race (tr @ [e]) i (length tr)" "a \<in> accessed e" by blast
      then show ?thesis by (intro exI [of _ i] exI [of _ "length tr"]) simp
    qed
  qed
  then show ?thesis by (auto simp: racy_def)
qed

subsection \<open>Accesses recorded early\<close>

text \<open>
  \<open>G u\<close> is the access of thread \<open>u\<close> that was recorded and is not finished. The detector that saw it early
  has the current clock of \<open>u\<close> in its entry.
\<close>

type_synonym ('k, 'l, 'a) pending = "'k \<Rightarrow> ('k, 'l, 'a) event option"

definition pending_ok :: "('k, 'l, 'a) pending \<Rightarrow> bool" where
  "pending_ok G \<longleftrightarrow> (\<forall>u g. G u = Some g \<longrightarrow> actor g = u \<and> accessed g \<noteq> {})"

definition early :: "('k, 'l, 'a) pending \<Rightarrow> ('k, 'l, 'a) detector \<Rightarrow> ('k, 'l, 'a) detector" where
  "early G d = d\<lparr>dR := (\<lambda>a u. if G u = Some (Read u a) then dC d u u else dR d a u),
     dW := (\<lambda>a u. if G u = Some (Write u a) then dC d u u else dW d a u)\<rparr>"

text \<open>No thread is forked or joined while it is inside a callback.\<close>

fun undisturbed :: "('k \<Rightarrow> 'p option) \<Rightarrow> ('k, 'l, 'a) event \<Rightarrow> bool" where
  "undisturbed G (Fork t u) = (G u = None)"
| "undisturbed G (Join t u) = (G u = None)"
| "undisturbed G e = True"

lemma early_simps [simp]: "dC (early G d) = dC d" "dL (early G d) = dL d"
  by (simp_all add: early_def)

lemma early_none [simp]: "early (\<lambda>_. None) d = d"
  by (simp add: early_def)

lemma early_record:
  assumes "accessed g \<noteq> {}" and "G (actor g) = None"
  shows "det_step g (early G d) = early (G(actor g := Some g)) d"
  using assms by (cases g) (auto simp: early_def fun_eq_iff)

lemma early_event:
  assumes ok: "pending_ok G" and e: "G (actor e) = None \<or> G (actor e) = Some e" and u: "undisturbed G e"
  shows "det_step e (early G d) = early (G(actor e := None)) (det_step e d)"
proof -
  have none: "G (actor e) = None" if "accessed e = {}"
    using ok e that by (auto simp: pending_ok_def)
  show ?thesis
  proof (cases e)
    case (Read t x)
    with e show ?thesis by (auto simp: early_def fun_eq_iff)
  next
    case (Write t x)
    with e show ?thesis by (auto simp: early_def fun_eq_iff)
  next
    case (Fork t v)
    with none u show ?thesis by (auto simp: early_def fun_eq_iff)
  next
    case (Join t v)
    with none u show ?thesis by (auto simp: early_def fun_eq_iff)
  qed (use none in \<open>auto simp: early_def fun_eq_iff\<close>)
qed

text \<open>Entries of accesses never exceed the clock of their thread.\<close>

definition entries_ok :: "('k, 'l, 'a) detector \<Rightarrow> bool" where
  "entries_ok d \<longleftrightarrow> (\<forall>a u. dR d a u \<le> dC d u u \<and> dW d a u \<le> dC d u u)"

lemma entries_ok_init: "entries_ok detector_init"
  by (simp add: entries_ok_def detector_init_def)

lemma entries_ok_step: "entries_ok d \<Longrightarrow> entries_ok (det_step e d)"
  by (cases e) (auto simp: entries_ok_def cjoin_def ctick_def le_SucI le_max_iff_disj)

subsection \<open>Races of pending accesses\<close>

text \<open>The threads of whose last accesses \<open>e\<close> does not know.\<close>

fun missed :: "('k, 'l, 'a) event \<Rightarrow> ('k, 'l, 'a) detector \<Rightarrow> 'k \<Rightarrow> bool" where
  "missed (Read t x) d u \<longleftrightarrow> dC d t u < dW d x u"
| "missed (Write t x) d u \<longleftrightarrow> dC d t u < dW d x u \<or> dC d t u < dR d x u"
| "missed e d u \<longleftrightarrow> False"

lemma det_race_missed: "det_race e d \<longleftrightarrow> (\<exists>u. missed e d u)"
  by (cases e) (auto simp: covers_def not_le)

lemma conflict_sym: "conflict e f \<longleftrightarrow> conflict f e"
  by (cases e; cases f) auto

lemma conflict_accessed: "conflict e f \<Longrightarrow> accessed e = accessed f"
  by (cases e; cases f) auto

text \<open>The early record shows a conflicting access its race with the pending one.\<close>

lemma missed_early:
  assumes "entries_ok d" and "det_inv d" and "pending_ok G"
  shows "missed e (early G d) u \<longleftrightarrow> missed e d u \<or> (\<exists>g. G u = Some g \<and> conflict g e)"
proof -
  have late: "dC d t u < dC d u u \<longleftrightarrow> t \<noteq> u" for t
    using assms(2) by (auto simp: det_inv_def)
  have less: "dC d t u < dC d u u" if "dC d t u < dR d x u \<or> dC d t u < dW d x u" for t x
    using that assms(1) by (auto simp: entries_ok_def intro: order_less_le_trans)
  have own: "actor g = u" "accessed g \<noteq> {}" if "G u = Some g" for g
    using that assms(3) by (auto simp: pending_ok_def)
  show ?thesis
  proof (cases "G u")
    case None
    then show ?thesis by (cases e) (simp_all add: early_def)
  next
    case (Some g)
    then show ?thesis
      using own [OF Some] late less by (cases e; cases g) (auto simp: early_def)
  qed
qed

text \<open>A pending access keeps its races, and gets a new one from a conflicting access.\<close>

lemma missed_step:
  assumes "det_inv d" and "actor e \<noteq> actor g" and "undisturbed G e" and "G (actor g) = Some g"
  shows "missed g (det_step e d) v \<longleftrightarrow> missed g d v \<or> (v = actor e \<and> conflict e g)"
proof -
  have late: "dC d (actor g) (actor e) < dC d (actor e) (actor e)"
    using assms(1,2) by (auto simp: det_inv_def)
  show ?thesis
    using assms(2-4) late by (cases e; cases g) auto
qed

lemma det_race_early:
  assumes "entries_ok d" and "det_inv d" and "pending_ok G"
  shows "det_race e (early G d) \<longleftrightarrow> det_race e d \<or> (\<exists>u g. G u = Some g \<and> conflict g e)"
  using missed_early [OF assms] by (auto simp: det_race_missed)

lemma det_race_step:
  assumes "det_inv d" and "actor e \<noteq> actor g" and "undisturbed G e" and "G (actor g) = Some g"
  shows "det_race g (det_step e d) \<longleftrightarrow> det_race g d \<or> conflict e g"
  using missed_step [OF assms] by (auto simp: det_race_missed)

text \<open>The addresses of pending accesses that will have a race when they finish.\<close>

definition owed :: "('k, 'l, 'a) pending \<Rightarrow> ('k, 'l, 'a) detector \<Rightarrow> 'a set" where
  "owed G d = {a. \<exists>u g. G u = Some g \<and> a \<in> accessed g \<and> det_race g d}"

lemma owed_none [simp]: "owed (\<lambda>_. None) d = {}"
  by (simp add: owed_def)

lemma owed_record:
  assumes "\<not> det_race g d" and "G (actor g) = None"
  shows "owed (G(actor g := Some g)) d = owed G d"
proof -
  have "(G(actor g := Some g)) u = Some h \<and> det_race h d \<longleftrightarrow> G u = Some h \<and> det_race h d" for u h
    using assms by (cases "u = actor g") auto
  then show ?thesis unfolding owed_def by blast
qed

lemma owed_step:
  assumes d: "entries_ok d" "det_inv d" and G: "pending_ok G" "undisturbed G e"
    and e: "G (actor e) = None \<or> G (actor e) = Some e"
  shows "owed G d \<union> (if det_race e (early G d) then accessed e else {}) =
    (if det_race e d then accessed e else {}) \<union> owed (G(actor e := None)) (det_step e d)"
proof -
  let ?others = "\<lambda>u g. G u = Some g \<and> u \<noteq> actor e"
  have own: "actor g = u" if "G u = Some g" for u g
    using that G(1) by (auto simp: pending_ok_def)
  have pending: "owed G d = {a. \<exists>u g. ?others u g \<and> a \<in> accessed g \<and> det_race g d} \<union>
      (if G (actor e) = Some e \<and> det_race e d then accessed e else {})"
  proof (cases "G (actor e)")
    case None
    then have "?others u g \<longleftrightarrow> G u = Some g" for u g by (cases "u = actor e") auto
    then have "owed G d = {a. \<exists>u g. ?others u g \<and> a \<in> accessed g \<and> det_race g d}"
      unfolding owed_def by blast
    with None show ?thesis by simp
  next
    case (Some g)
    with e have "G u = Some h \<longleftrightarrow> ?others u h \<or> u = actor e \<and> h = e" for u h
      by (cases "u = actor e") auto
    then have "owed G d = {a. \<exists>u g. (?others u g \<or> u = actor e \<and> g = e) \<and> a \<in> accessed g \<and> det_race g d}"
      unfolding owed_def by blast
    also have "\<dots> = {a. \<exists>u g. ?others u g \<and> a \<in> accessed g \<and> det_race g d} \<union>
        (if det_race e d then accessed e else {})" by auto
    finally show ?thesis using Some e by simp
  qed
  have after: "owed (G(actor e := None)) (det_step e d) =
      {a. \<exists>u g. ?others u g \<and> a \<in> accessed g \<and> (det_race g d \<or> conflict e g)}"
  proof -
    have "(G(actor e := None)) u = Some g \<longleftrightarrow> ?others u g" for u g by simp
    moreover have "det_race g (det_step e d) \<longleftrightarrow> det_race g d \<or> conflict e g" if "?others u g" for u g
      using that own [of u g] det_race_step [OF d(2) _ G(2), of g] by auto
    ultimately show ?thesis unfolding owed_def by blast
  qed
  have now: "(if det_race e (early G d) then accessed e else {}) =
      (if det_race e d then accessed e else {}) \<union> {a. \<exists>u g. ?others u g \<and> a \<in> accessed g \<and> conflict e g}"
  proof -
    have "det_race e (early G d) \<longleftrightarrow> det_race e d \<or> (\<exists>u g. ?others u g \<and> conflict e g)"
    proof -
      have "u \<noteq> actor e" if "G u = Some g" "conflict g e" for u g
        using that own [OF that(1)] by (cases g; cases e) auto
      then show ?thesis unfolding det_race_early [OF d G(1)] using conflict_sym by blast
    qed
    moreover have "accessed g = accessed e" if "conflict e g" for g
      using conflict_accessed [OF that] by simp
    ultimately show ?thesis by auto
  qed
  show ?thesis unfolding pending after now by auto
qed

subsection \<open>Runs with early records\<close>

text \<open>\<open>tr\<close> is the trace of the finished events, \<open>tr'\<close> has the early records as well.\<close>

inductive early_run :: "('k, 'l, 'a) event list \<Rightarrow> ('k, 'l, 'a) event list \<Rightarrow> ('k, 'l, 'a) pending \<Rightarrow> bool" where
  Start: "early_run [] [] (\<lambda>_. None)"
| Record: "early_run tr' tr G \<Longrightarrow> accessed g \<noteq> {} \<Longrightarrow> G (actor g) = None \<Longrightarrow> \<not> det_race g (det_run tr') \<Longrightarrow>
    early_run (tr' @ [g]) tr (G(actor g := Some g))"
| Event: "early_run tr' tr G \<Longrightarrow> proper e \<Longrightarrow> undisturbed G e \<Longrightarrow> G (actor e) = None \<or> G (actor e) = Some e \<Longrightarrow>
    early_run (tr' @ [e]) (tr @ [e]) (G(actor e := None))"

lemma early_run_inv:
  assumes "early_run tr' tr G"
  shows "pending_ok G \<and> (\<forall>e \<in> set tr' \<union> set tr. proper e) \<and> entries_ok (det_run tr) \<and>
    det_run tr' = early G (det_run tr) \<and> racy tr' = racy tr \<union> owed G (det_run tr)"
  using assms
proof induction
  case Start
  show ?case by (simp add: pending_ok_def entries_ok_init)
next
  case (Record tr' tr G g)
  let ?d = "det_run tr"
  have IH: "pending_ok G" "\<forall>e \<in> set tr' \<union> set tr. proper e" "entries_ok ?d" "det_run tr' = early G ?d"
    "racy tr' = racy tr \<union> owed G ?d" using Record.IH by simp_all
  have inv: "det_inv ?d" using IH(2) by (simp add: det_inv_run)
  have "\<not> det_race g ?d" using Record.hyps(4) det_race_early [OF IH(3) inv IH(1), of g] IH(4) by simp
  moreover have "proper g" using Record.hyps(2) by (cases g) auto
  moreover have "racy (tr' @ [g]) = racy tr'" using Record.hyps(4) IH(2) by (simp add: racy_snoc)
  moreover have "pending_ok (G(actor g := Some g))"
    using IH(1) Record.hyps(2) by (auto simp: pending_ok_def)
  ultimately show ?case
    using IH early_record [of g G ?d] owed_record [of g ?d G] Record.hyps(2,3)
    by (simp add: det_run_snoc del: fun_upd_apply)
next
  case (Event tr' tr G e)
  let ?d = "det_run tr"
  have IH: "pending_ok G" "\<forall>e \<in> set tr' \<union> set tr. proper e" "entries_ok ?d" "det_run tr' = early G ?d"
    "racy tr' = racy tr \<union> owed G ?d" using Event.IH by simp_all
  have inv: "det_inv ?d" using IH(2) by (simp add: det_inv_run)
  have "racy (tr' @ [e]) = racy tr \<union> owed G ?d \<union> (if det_race e (early G ?d) then accessed e else {})"
    using IH(2,4,5) by (simp add: racy_snoc)
  also have "\<dots> = racy tr \<union> (if det_race e ?d then accessed e else {}) \<union>
      owed (G(actor e := None)) (det_step e ?d)"
    unfolding Un_assoc owed_step [OF IH(3) inv IH(1) Event.hyps(3,4)] ..
  also have "\<dots> = racy (tr @ [e]) \<union> owed (G(actor e := None)) (det_run (tr @ [e]))"
    using IH(2) by (simp add: racy_snoc det_run_snoc)
  finally have "racy (tr' @ [e]) = racy (tr @ [e]) \<union> owed (G(actor e := None)) (det_run (tr @ [e]))" .
  moreover have "pending_ok (G(actor e := None))" using IH(1) by (auto simp: pending_ok_def)
  moreover have "det_run (tr' @ [e]) = early (G(actor e := None)) (det_run (tr @ [e]))"
    using early_event [OF IH(1) Event.hyps(4,3)] IH(4) by (simp add: det_run_snoc)
  ultimately show ?case
    using IH(2,3) Event.hyps(2) by (simp add: det_run_snoc entries_ok_step ball_Un del: fun_upd_apply)
qed

lemma early_run_finished: "early_run tr' tr (\<lambda>_. None) \<Longrightarrow> racy tr' = racy tr"
  using early_run_inv [of tr' tr "\<lambda>_. None"] by simp

end
