(* ===== verification/Interleavings.thy ===== *)
theory Interleavings
  imports EarlyAccess
begin

text \<open>
  Callbacks of several threads at once. A callback is a sequence of sections: the test of \<open>isConcurrent\<close>,
  the lookup of its two arguments, the count of running children, and the rule. Each lookup and each rule holds
  one mutex (\<open>TS\<close>, \<open>VS\<close> or \<open>LS\<close>, \<open>getVarState\<close> takes \<open>TS\<close> inside \<open>VS\<close>) from its first to its last access, so
  a section is one step; between two sections other threads run theirs. What \<open>ft_acquire\<close> and \<open>ft_release\<close> do
  to the thread's own record after the unlock belongs to the rule.
\<close>

subsection \<open>Sections\<close>

datatype critical = Test | First | Second | Count | Rule

fun sections :: "mt_event \<Rightarrow> critical list" where
  "sections (Read t x) = [Test, First, Second, Rule]"
| "sections (Write t x) = [Test, First, Second, Rule]"
| "sections (Acquire t l) = [First, Second, Rule]"
| "sections (Release t l) = [First, Second, Rule]"
| "sections (Fork t u) = [First, Second, Count, Rule]"
| "sections (Join t u) = [First, Second, Test, Count, Rule]"

text \<open>
  \<open>m_pend\<close> has the callback a thread is in, with its remaining sections, and \<open>m_passed\<close> the outcome of its
  test. \<open>m_log\<close> and \<open>m_overlap\<close> are observations: the events whose rules ran, with their answers, and whether
  a thread was forked or joined inside a callback.
\<close>

record mstate =
  m_rt :: rt
  m_pend :: "ThreadID \<Rightarrow> (mt_event \<times> critical list) option"
  m_passed :: "ThreadID \<Rightarrow> bool"
  m_log :: "(mt_event \<times> bool) list"
  m_overlap :: bool

definition m_start :: "rt \<Rightarrow> mstate" where
  "m_start s = \<lparr>m_rt = s, m_pend = (\<lambda>_. None), m_passed = (\<lambda>_. False), m_log = [], m_overlap = False\<rparr>"

definition on_shared :: "(rt \<Rightarrow> ('a \<times> rt) res) \<Rightarrow> mstate \<Rightarrow> mstate res" where
  "on_shared f m = bnd (f (m_rt m)) (\<lambda>(_, s). Inr (m\<lparr>m_rt := s\<rparr>))"

definition when_passed :: "ThreadID \<Rightarrow> (mstate \<Rightarrow> mstate res) \<Rightarrow> mstate \<Rightarrow> mstate res" where
  "when_passed k f m = (if m_passed m k then f m else Inr m)"

definition test_section :: "mt_event \<Rightarrow> mstate \<Rightarrow> mstate res" where
  "test_section e m = Inr (m\<lparr>m_passed := (m_passed m)(actor e := isConcurrent (m_rt m) \<noteq> 0)\<rparr>)"

fun first_section :: "mt_event \<Rightarrow> mstate \<Rightarrow> mstate res" where
  "first_section (Read t x) m = when_passed t (on_shared (getVarState t x False)) m"
| "first_section (Write t x) m = when_passed t (on_shared (getVarState t x True)) m"
| "first_section (Acquire t l) m = on_shared (getThreadState t) m"
| "first_section (Release t l) m = on_shared (getThreadState t) m"
| "first_section (Fork t u) m = on_shared (getState t) m"
| "first_section (Join t u) m = on_shared (getState t) m"

fun second_section :: "mt_event \<Rightarrow> mstate \<Rightarrow> mstate res" where
  "second_section (Read t x) m = when_passed t (on_shared (getThreadState t)) m"
| "second_section (Write t x) m = when_passed t (on_shared (getThreadState t)) m"
| "second_section (Acquire t l) m = on_shared (getLockState l) m"
| "second_section (Release t l) m = on_shared (getLockState l) m"
| "second_section (Fork t u) m = on_shared (getState u) m"
| "second_section (Join t u) m = on_shared (getState u) m"

text \<open>\<open>isConcurrent++\<close>, and the decrement of \<open>ft_join\<close> after its test.\<close>

fun count_section :: "mt_event \<Rightarrow> mstate \<Rightarrow> mstate res" where
  "count_section (Fork t u) m = Inr (m\<lparr>m_rt := (m_rt m)\<lparr>isConcurrent := isConcurrent (m_rt m) + 1\<rparr>\<rparr>)"
| "count_section (Join t u) m =
     when_passed t (\<lambda>m. Inr (m\<lparr>m_rt := (m_rt m)\<lparr>isConcurrent := isConcurrent (m_rt m) - 1\<rparr>\<rparr>)) m"
| "count_section e m = Inr m"

text \<open>The rules run on references, so they see what other threads did since the lookups.\<close>

fun rule_rt :: "mt_event \<Rightarrow> rt \<Rightarrow> (bool \<times> rt) res" where
  "rule_rt (Read t x) s = bnd (ft_read (the (var_of s x)) (the (thread_of s t)) s) (\<lambda>(b, v, s'). Inr (b, put_var x v s'))"
| "rule_rt (Write t x) s = bnd (ft_write (the (var_of s x)) (the (thread_of s t)) s) (\<lambda>(b, v, s'). Inr (b, put_var x v s'))"
| "rule_rt (Acquire t l) s = bnd (ft_acquire (the (thread_of s t)) (the (lock_of s l))) (\<lambda>(t', m').
     Inr (False, put_lock l m' (put_thread t t' s)))"
| "rule_rt (Release t l) s = bnd (ft_release (the (thread_of s t)) (the (lock_of s l))) (\<lambda>(t', m').
     Inr (False, put_lock l m' (put_thread t t' s)))"
| "rule_rt (Fork t u) s =
     (if t = u then bnd (ft_fork_self (the (thread_of s t))) (\<lambda>t'. Inr (False, put_thread t t' s))
      else bnd (ft_fork (the (thread_of s t)) (the (thread_of s u))) (\<lambda>(t', u').
        Inr (False, put_thread u u' (put_thread t t' s))))"
| "rule_rt (Join t u) s =
     (if t = u then bnd (ft_join_self (the (thread_of s t))) (\<lambda>t'. Inr (False, put_thread t t' s))
      else bnd (ft_join (the (thread_of s t)) (the (thread_of s u))) (\<lambda>(t', u').
        Inr (False, put_thread u u' (put_thread t t' s))))"

definition rule_section :: "mt_event \<Rightarrow> mstate \<Rightarrow> mstate res" where
  "rule_section e m =
     (if accessed e \<noteq> {} \<and> \<not> m_passed m (actor e) then Inr m
      else bnd (rule_rt e (m_rt m)) (\<lambda>(b, s). Inr (m\<lparr>m_rt := s, m_log := m_log m @ [(e, b)],
        m_overlap := m_overlap m \<or> \<not> undisturbed (m_pend m) e\<rparr>)))"

fun exec_section :: "critical \<Rightarrow> mt_event \<Rightarrow> mstate \<Rightarrow> mstate res" where
  "exec_section Test = test_section"
| "exec_section First = first_section"
| "exec_section Second = second_section"
| "exec_section Count = count_section"
| "exec_section Rule = rule_section"

subsection \<open>Schedules\<close>

text \<open>A thread enters a callback, or runs the next section of the one it is in.\<close>

datatype choice = Call mt_event | Turn ThreadID

fun make_choice :: "choice \<Rightarrow> mstate \<Rightarrow> mstate res" where
  "make_choice (Call e) m =
     Inr (if m_pend m (actor e) = None then m\<lparr>m_pend := (m_pend m)(actor e := Some (e, sections e))\<rparr> else m)"
| "make_choice (Turn k) m =
     (case m_pend m k of
        Some (e, sec # rest) \<Rightarrow>
          bnd (exec_section sec e m) (\<lambda>m'.
            Inr (m'\<lparr>m_pend := (m_pend m')(k := if rest = [] then None else Some (e, rest))\<rparr>))
      | _ \<Rightarrow> Inr m)"

fun run_schedule :: "choice list \<Rightarrow> mstate \<Rightarrow> mstate res" where
  "run_schedule [] m = Inr m"
| "run_schedule (c # cs) m = bnd (make_choice c m) (run_schedule cs)"

lemma run_schedule_snoc: "run_schedule (cs @ [c]) m = bnd (run_schedule cs m) (make_choice c)"
  by (induction cs arbitrary: m) (simp_all add: bnd_assoc bnd_def split: sum.splits)

lemma isConcurrent_simps [simp]:
  "thread_of (s\<lparr>isConcurrent := c\<rparr>) = thread_of s" "lock_of (s\<lparr>isConcurrent := c\<rparr>) = lock_of s"
  "var_of (s\<lparr>isConcurrent := c\<rparr>) = var_of s"
  by (simp_all add: thread_of_def lock_of_def var_of_def fun_eq_iff)

lemma isConcurrent_zero: "isConcurrent s = 0 \<Longrightarrow> s\<lparr>isConcurrent := 0, TS_C := c\<rparr> = s\<lparr>TS_C := c\<rparr>"
  by (cases s) simp

lemmas sequential = when_passed_def on_shared_def test_section_def rule_section_def getThreadState_def getState_found
  quiet_def bnd_assoc split_def

text \<open>Undisturbed, the sections of a callback do what the callback does.\<close>

lemma sections_in_a_row:
  assumes "m_pend m (actor e) = None" and "\<forall>k \<in> event_threads e. thread_of (m_rt m) k \<noteq> None"
  shows "bnd (run_schedule (Call e # map (\<lambda>_. Turn (actor e)) (sections e)) m) (\<lambda>m'. Inr (m_rt m')) =
    bnd (gated_step e (m_rt m)) (\<lambda>(_, s). Inr s)"
proof (cases e)
  case (Read t x)
  with assms obtain u where "thread_of (m_rt m) t = Some u" by auto
  with Read assms(1) show ?thesis
    by (cases "var_of (m_rt m) x") (simp_all add: gated_step_def read_access_def getVarState_found getVarState_new sequential)
next
  case (Write t x)
  with assms obtain u where "thread_of (m_rt m) t = Some u" by auto
  with Write assms(1) show ?thesis
    by (cases "var_of (m_rt m) x") (simp_all add: gated_step_def write_access_def getVarState_found getVarState_new sequential)
next
  case (Acquire t l)
  with assms obtain u where "thread_of (m_rt m) t = Some u" by auto
  with Acquire assms(1) show ?thesis
    by (cases "lock_of (m_rt m) l") (simp_all add: gated_step_def lock_access_def getLockState_found getLockState_new sequential)
next
  case (Release t l)
  with assms obtain u where "thread_of (m_rt m) t = Some u" by auto
  with Release assms(1) show ?thesis
    by (cases "lock_of (m_rt m) l") (simp_all add: gated_step_def unlock_access_def getLockState_found getLockState_new sequential)
next
  case (Fork t u)
  with assms obtain v w where "thread_of (m_rt m) t = Some v" "thread_of (m_rt m) u = Some w" by auto
  with Fork assms(1) show ?thesis
    by (simp add: gated_step_def fork_threads_def fork_count_def put_thread_def Let_def sequential)
next
  case (Join t u)
  with assms obtain v w where "thread_of (m_rt m) t = Some v" "thread_of (m_rt m) u = Some w" by auto
  with Join assms(1) show ?thesis
    by (simp add: gated_step_def join_threads_def join_count_def put_thread_def Let_def sequential isConcurrent_zero)
qed

subsection \<open>One step\<close>

lemma state_rel_cong:
  assumes "state_rel idx P N D s d" and "thread_of s' = thread_of s" and "lock_of s' = lock_of s"
    and "var_of s' = var_of s" and "NumThreads s' = NumThreads s"
  shows "state_rel idx P N D s' d"
  using assms by (simp add: state_rel_def)

text \<open>The objects a rule runs on, threads apart.\<close>

fun present :: "mt_event \<Rightarrow> rt \<Rightarrow> bool" where
  "present (Read t x) s \<longleftrightarrow> var_of s x \<noteq> None"
| "present (Write t x) s \<longleftrightarrow> var_of s x \<noteq> None"
| "present (Acquire t l) s \<longleftrightarrow> lock_of s l \<noteq> None"
| "present (Release t l) s \<longleftrightarrow> lock_of s l \<noteq> None"
| "present e s \<longleftrightarrow> True"

lemma rule_rt_step:
  assumes step: "rt_step e s = Inr (b, s')" and "present e s"
    and threads: "\<forall>k \<in> event_threads e. thread_of s k \<noteq> None"
  shows "\<exists>s'' c. rule_rt e s = Inr (b, s'') \<and> s' = s''\<lparr>isConcurrent := c\<rparr>"
proof (cases e)
  case (Read t x)
  with assms obtain v u where "var_of s x = Some v" "thread_of s t = Some u" by auto
  with Read step show ?thesis
    by (intro exI [of _ s'] exI [of _ "isConcurrent s'"])
      (simp add: read_access_def getVarState_found getThreadState_def getState_found)
next
  case (Write t x)
  with assms obtain v u where "var_of s x = Some v" "thread_of s t = Some u" by auto
  with Write step show ?thesis
    by (intro exI [of _ s'] exI [of _ "isConcurrent s'"])
      (simp add: write_access_def getVarState_found getThreadState_def getState_found)
next
  case (Acquire t l)
  with assms obtain v u where "lock_of s l = Some v" "thread_of s t = Some u" by auto
  with Acquire step show ?thesis
    by (intro exI [of _ s'] exI [of _ "isConcurrent s'"])
      (auto simp: lock_access_def getLockState_found getThreadState_def getState_found quiet_def bnd_eq_Inr_iff)
next
  case (Release t l)
  with assms obtain v u where "lock_of s l = Some v" "thread_of s t = Some u" by auto
  with Release step show ?thesis
    by (intro exI [of _ s'] exI [of _ "isConcurrent s'"])
      (auto simp: unlock_access_def getLockState_found getThreadState_def getState_found quiet_def bnd_eq_Inr_iff)
next
  case (Fork t u)
  with assms obtain v w where "thread_of s t = Some v" "thread_of s u = Some w" by auto
  with Fork step show ?thesis
    by (auto simp: fork_threads_def getState_found quiet_def bnd_eq_Inr_iff put_thread_def Let_def
        intro!: exI [of _ "fork_count (isConcurrent s)"] split: if_splits)
next
  case (Join t u)
  with assms obtain v w where "thread_of s t = Some v" "thread_of s u = Some w" by auto
  with Join step show ?thesis
    by (auto simp: join_threads_def getState_found quiet_def bnd_eq_Inr_iff put_thread_def Let_def
        intro!: exI [of _ "join_count (isConcurrent s)"] split: if_splits)
qed

lemma new_access:
  assumes "thread_of s k = Some t" and "var_of s a = None"
  shows "\<exists>r. rt_step (Read k a) s = Inr (False, put_var a (VarState_new t False) ((put_var a (VarState_new t False) s)\<lparr>VS_reads := r\<rparr>))"
    "\<exists>r. rt_step (Write k a) s = Inr (False, put_var a (VarState_new t True) ((put_var a (VarState_new t True) s)\<lparr>VS_writes := r\<rparr>))"
  using assms
  by (auto simp: read_access_def write_access_def getVarState_new getThreadState_def getState_found
      ft_read_def ft_write_def VarState_new_def Let_def)

text \<open>\<open>getVarState\<close> alone does what the whole access does to a new address.\<close>

fun is_write :: "mt_event \<Rightarrow> bool" where
  "is_write (Write t x) = True"
| "is_write e = False"

lemma create_var:
  assumes rel: "state_rel idx P N D s d" and e: "event_threads e \<subseteq> P" "accessed e = {a}"
    and new: "var_of s a = None" "a \<notin> D" and small: "\<And>k. dC d k k < 16777215"
  shows "\<exists>x s'. getVarState (actor e) a (is_write e) s = Inr (x, s') \<and>
    state_rel idx P N D s' (det_step e d) \<and> \<not> det_race e d \<and>
    dom (var_of s') = insert a (dom (var_of s)) \<and> lock_of s' = lock_of s"
proof -
  have k: "actor e \<in> P" "proper e" using e by (cases e; auto)+
  obtain t where t: "thread_of s (actor e) = Some t" using state_rel_thread [OF rel k(1)] .
  let ?x = "VarState_new t (is_write e)"
  let ?s = "put_var a ?x s"
  have none: "dR d a = (\<lambda>_. 0) \<and> dW d a = (\<lambda>_. 0)"
    using state_relD(6) [OF rel new(2)] new(1) by (simp add: addr_rel_def)
  then have quiet: "\<not> det_race e d" using e(2) by (cases e) (auto simp: covers_def)
  obtain s1 where s1: "rt_step e s = Inr (False, s1)" "thread_of s1 = thread_of ?s" "lock_of s1 = lock_of ?s"
    "var_of s1 = var_of ?s" "NumThreads s1 = NumThreads ?s"
  proof (cases "is_write e")
    case True
    then have "e = Write (actor e) a" using e(2) by (cases e) auto
    then obtain r where "rt_step e s = Inr (False, put_var a ?x (?s\<lparr>VS_writes := r\<rparr>))"
      using new_access(2) [OF t new(1)] True by metis
    then show ?thesis by (rule that) simp_all
  next
    case False
    then have "e = Read (actor e) a" using e(2) by (cases e) auto
    then obtain r where "rt_step e s = Inr (False, put_var a ?x (?s\<lparr>VS_reads := r\<rparr>))"
      using new_access(1) [OF t new(1)] False by metis
    then show ?thesis by (rule that) simp_all
  qed
  have "state_rel idx P N D s1 (det_step e d)"
    using rt_step_refines [OF rel e(1) k(2) small] s1(1) by auto
  then have "state_rel idx P N D ?s (det_step e d)"
    by (rule state_rel_cong) (simp_all only: s1(2-5))
  moreover have "getVarState (actor e) a (is_write e) s = Inr (?x, ?s)"
    using new(1) t by (rule getVarState_new)
  moreover have "dom (var_of ?s) = insert a (dom (var_of s))" "lock_of ?s = lock_of s" by simp_all
  ultimately show ?thesis using quiet by blast
qed

lemma find_lock:
  assumes rel: "state_rel idx P N D s d"
  shows "\<exists>m s'. getLockState l s = Inr (m, s') \<and> state_rel idx P N D s' d \<and>
    dom (lock_of s') = insert l (dom (lock_of s)) \<and> var_of s' = var_of s"
proof (cases "lock_of s l")
  case None
  let ?m = "\<lparr>ls_L = newVectorClock [] (unat (NumThreads s))\<rparr>"
  have "lock_rel idx P N (Some ?m) (dL d l)"
    using state_relD(4) [OF rel, of l] None views_new [OF state_relD(1) [OF rel], of "[]"] state_relD(2) [OF rel]
    by (simp add: lock_rel_def)
  then have "state_rel idx P N D (put_lock l ?m s) d" using rel by (simp add: state_rel_def)
  with None show ?thesis by (simp add: getLockState_new)
next
  case (Some m)
  with rel show ?thesis by (auto simp: getLockState_found)
qed

subsection \<open>The invariant\<close>

definition logged :: "mstate \<Rightarrow> Address set" where
  "logged m = {a. \<exists>e. (e, True) \<in> set (m_log m) \<and> a \<in> accessed e}"

text \<open>The lookup that creates the object of a rule is over.\<close>

definition looked_up :: "mstate \<Rightarrow> mt_event \<Rightarrow> critical list \<Rightarrow> bool" where
  "looked_up m e secs \<longleftrightarrow>
     (if accessed e = {} then Second \<notin> set secs else First \<notin> set secs \<and> m_passed m (actor e))"

definition callback_ok :: "ThreadID set \<Rightarrow> (ThreadID, Address, Address) pending \<Rightarrow> mstate \<Rightarrow> ThreadID \<Rightarrow> bool" where
  "callback_ok P G m k \<longleftrightarrow>
     (case m_pend m k of
        None \<Rightarrow> G k = None
      | Some (e, secs) \<Rightarrow> actor e = k \<and> event_threads e \<subseteq> P \<and> proper e \<and> secs \<noteq> [] \<and>
          (\<exists>pre. sections e = pre @ secs) \<and> (looked_up m e secs \<longrightarrow> present e (m_rt m)) \<and>
          (G k = None \<or> G k = Some e \<and> accessed e \<noteq> {} \<and> looked_up m e secs))"

definition mstate_rel :: "(ThreadID \<Rightarrow> nat) \<Rightarrow> ThreadID set \<Rightarrow> nat \<Rightarrow> mt_event list \<Rightarrow>
    (ThreadID, Address, Address) pending \<Rightarrow> mstate \<Rightarrow> bool" where
  "mstate_rel idx P N tr' G m \<longleftrightarrow>
     state_rel idx P N (logged m) (m_rt m) (det_run tr') \<and> logged m \<subseteq> dom (var_of (m_rt m)) \<and>
     logged m = racy tr' \<and> (\<forall>e \<in> set tr'. proper e) \<and> (\<forall>k. callback_ok P G m k) \<and>
     (m_overlap m \<or> early_run tr' (map fst (m_log m)) G)"

definition grows :: "rt \<Rightarrow> rt \<Rightarrow> bool" where
  "grows s s' \<longleftrightarrow> dom (var_of s) \<subseteq> dom (var_of s') \<and> dom (lock_of s) \<subseteq> dom (lock_of s')"

lemma present_grows: "present e s \<Longrightarrow> grows s s' \<Longrightarrow> present e s'"
  by (cases e) (auto simp: grows_def subset_iff domIff)

lemma callback_ok_other:
  assumes "callback_ok P G m j" and "m_pend m' j = m_pend m j" and "m_passed m' j = m_passed m j"
    and "grows (m_rt m) (m_rt m')" and "G' j = G j"
  shows "callback_ok P G' m' j"
proof (cases "m_pend m j")
  case (Some p)
  obtain e secs where p: "p = (e, secs)" by fastforce
  then have "actor e = j" using assms(1) Some by (simp add: callback_ok_def)
  then have "looked_up m' e secs = looked_up m e secs" using assms(3) by (simp add: looked_up_def)
  with assms Some p present_grows show ?thesis by (auto simp: callback_ok_def)
qed (use assms in \<open>simp add: callback_ok_def\<close>)

text \<open>What is left of a callback.\<close>

lemma sections_suffix:
  assumes "sections e = pre @ sec # rest"
  shows "rest = [] \<longleftrightarrow> sec = Rule"
    "sec = Rule \<Longrightarrow> sec \<notin> set pre"
    "sec = Test \<Longrightarrow> accessed e \<noteq> {} \<Longrightarrow> First \<in> set rest"
    "sec = First \<Longrightarrow> First \<notin> set rest \<and> Second \<in> set rest"
    "sec = Second \<Longrightarrow> First \<notin> set rest \<and> Second \<notin> set rest"
  using assms by (cases e; auto simp: Cons_eq_append_conv append_eq_Cons_conv)+

lemma mstate_relD:
  assumes "mstate_rel idx P N tr' G m"
  shows "state_rel idx P N (logged m) (m_rt m) (det_run tr')" "logged m \<subseteq> dom (var_of (m_rt m))"
    "logged m = racy tr'" "\<forall>e \<in> set tr'. proper e" "callback_ok P G m k"
    "m_overlap m \<or> early_run tr' (map fst (m_log m)) G"
  using assms unfolding mstate_rel_def by blast+

lemma callback_okD:
  assumes "callback_ok P G m k" and "m_pend m k = Some (e, sec # rest)"
  shows "actor e = k" "event_threads e \<subseteq> P" "proper e" "\<exists>pre. sections e = pre @ sec # rest"
    "looked_up m e (sec # rest) \<Longrightarrow> present e (m_rt m)"
    "G k = None \<or> G k = Some e \<and> accessed e \<noteq> {} \<and> looked_up m e (sec # rest)"
  using assms by (simp_all add: callback_ok_def)

lemma mstate_rel_step:
  assumes rel: "mstate_rel idx P N tr' G m" and pend: "m_pend m k = Some (e, sec # rest)"
    and m': "m_pend m' = m_pend m" "\<forall>j. j \<noteq> k \<longrightarrow> m_passed m' j = m_passed m j" "grows (m_rt m) (m_rt m')"
    and G': "\<forall>j. j \<noteq> k \<longrightarrow> G' j = G j"
    and new: "state_rel idx P N (logged m') (m_rt m') (det_run tr'')" "logged m' \<subseteq> dom (var_of (m_rt m'))"
      "logged m' = racy tr''" "\<forall>e \<in> set tr''. proper e" "m_overlap m' \<or> early_run tr'' (map fst (m_log m')) G'"
    and own: "rest \<noteq> [] \<Longrightarrow> looked_up m' e rest \<Longrightarrow> present e (m_rt m')"
      "G' k = None \<or> G' k = Some e \<and> accessed e \<noteq> {} \<and> rest \<noteq> [] \<and> looked_up m' e rest"
  shows "mstate_rel idx P N tr'' G' (m'\<lparr>m_pend := (m_pend m')(k := if rest = [] then None else Some (e, rest))\<rparr>)"
proof -
  let ?m = "m'\<lparr>m_pend := (m_pend m')(k := if rest = [] then None else Some (e, rest))\<rparr>"
  note K = callback_okD [OF mstate_relD(5) [OF rel] pend]
  have "callback_ok P G' ?m j" for j
  proof (cases "j = k")
    case True
    have "\<exists>pre. sections e = pre @ rest" using K(4) by (metis append_Cons append_Nil append_assoc)
    moreover have "looked_up ?m e rest = looked_up m' e rest" by (simp add: looked_up_def)
    ultimately show ?thesis
      using True K(1-3) own by (cases "rest = []") (simp_all add: callback_ok_def)
  next
    case False
    with m' G' show ?thesis
      by (intro callback_ok_other [OF mstate_relD(5) [OF rel, of j]]) simp_all
  qed
  with new show ?thesis by (simp add: mstate_rel_def logged_def)
qed

text \<open>A section that leaves the log alone, and every object where it was.\<close>

lemma quiet_section:
  assumes rel: "mstate_rel idx P N tr' G m" and pend: "m_pend m k = Some (e, sec # rest)" and sec: "sec \<noteq> Rule"
    and s: "state_rel idx P N (logged m) s (det_run tr')" "grows (m_rt m) s"
    and first: "sec = First \<Longrightarrow> accessed e \<noteq> {} \<Longrightarrow> m_passed m k \<Longrightarrow> present e s"
    and second: "sec = Second \<Longrightarrow> accessed e = {} \<Longrightarrow> present e s"
    and passed: "sec \<noteq> Test \<Longrightarrow> p = m_passed m k"
  shows "mstate_rel idx P N tr' G (m\<lparr>m_rt := s, m_passed := (m_passed m)(k := p),
    m_pend := (m_pend m)(k := if rest = [] then None else Some (e, rest))\<rparr>)"
proof -
  let ?m = "m\<lparr>m_rt := s, m_passed := (m_passed m)(k := p)\<rparr>"
  note K = callback_okD [OF mstate_relD(5) [OF rel] pend] and M = mstate_relD [OF rel]
  obtain pre where pre: "sections e = pre @ sec # rest" using K(4) by blast
  note suffix = sections_suffix [OF pre]
  have rest: "rest \<noteq> []" using suffix(1) sec by simp
  have still: "looked_up ?m e rest" if "looked_up m e (sec # rest)"
    using that suffix(3) passed K(1)
    by (cases "sec = Test"; cases "accessed e = {}") (simp_all add: looked_up_def)
  have "present e s" if l: "looked_up ?m e rest"
  proof (cases "looked_up m e (sec # rest)")
    case True
    with K(5) present_grows [OF _ s(2)] show ?thesis by blast
  next
    case False
    with l K(1) suffix(3) passed have "sec = First \<and> accessed e \<noteq> {} \<and> m_passed m k \<or> sec = Second \<and> accessed e = {}"
      by (cases "sec = Test"; cases "accessed e = {}") (auto simp: looked_up_def)
    with first second show ?thesis by blast
  qed
  moreover have "G k = None \<or> G k = Some e \<and> accessed e \<noteq> {} \<and> rest \<noteq> [] \<and> looked_up ?m e rest"
    using K(6) still rest by blast
  moreover have "logged ?m = logged m" by (simp add: logged_def)
  moreover have "logged m \<subseteq> dom (var_of s)" using M(2) s(2) unfolding grows_def by (rule order_trans [OF _ conjunct1])
  ultimately have "mstate_rel idx P N tr' G (?m\<lparr>m_pend := (m_pend ?m)(k := if rest = [] then None else Some (e, rest))\<rparr>)"
    using M s by (intro mstate_rel_step [OF rel pend]) simp_all
  then show ?thesis by simp
qed

text \<open>The lookups.\<close>

lemma accessed_cases:
  assumes "accessed e \<noteq> {}"
  obtains a where "accessed e = {a}"
  using assms by (cases e) auto

lemma first_section_access:
  "accessed e = {a} \<Longrightarrow>
    first_section e m = when_passed (actor e) (on_shared (getVarState (actor e) a (is_write e))) m"
  "accessed e = {a} \<Longrightarrow> second_section e m = when_passed (actor e) (on_shared (getThreadState (actor e))) m"
  "accessed e = {a} \<Longrightarrow> present e s \<longleftrightarrow> a \<in> dom (var_of s)"
  by (cases e; auto)+

lemma threads_found:
  assumes "state_rel idx P N D s d" and "k \<in> P"
  shows "\<exists>t. getState k s = Inr (t, s) \<and> thread_of s k = Some t"
  using state_rel_thread [OF assms] getState_found by metis

definition advances :: "(ThreadID \<Rightarrow> nat) \<Rightarrow> ThreadID set \<Rightarrow> nat \<Rightarrow> nat \<Rightarrow> mstate res \<Rightarrow> ThreadID \<Rightarrow>
    mt_event \<Rightarrow> critical list \<Rightarrow> bool" where
  "advances idx P N n r k e rest \<longleftrightarrow> (\<exists>m' tr'' G'. r = Inr m' \<and> length tr'' \<le> n \<and>
     mstate_rel idx P N tr'' G' (m'\<lparr>m_pend := (m_pend m')(k := if rest = [] then None else Some (e, rest))\<rparr>))"

lemma advancesI:
  assumes "r = Inr m'" and "length tr'' \<le> n"
    and "mstate_rel idx P N tr'' G' (m'\<lparr>m_pend := (m_pend m')(k := if rest = [] then None else Some (e, rest))\<rparr>)"
  shows "advances idx P N n r k e rest"
  using assms unfolding advances_def by blast

lemma advances_quiet:
  assumes rel: "mstate_rel idx P N tr' G m" and pend: "m_pend m k = Some (e, sec # rest)" and sec: "sec \<noteq> Rule" "sec \<noteq> Test"
    and s: "state_rel idx P N (logged m) s (det_run tr')" "grows (m_rt m) s"
    and first: "sec = First \<Longrightarrow> accessed e \<noteq> {} \<Longrightarrow> m_passed m k \<Longrightarrow> present e s"
    and second: "sec = Second \<Longrightarrow> accessed e = {} \<Longrightarrow> present e s"
    and r: "r = Inr (m\<lparr>m_rt := s\<rparr>)"
  shows "advances idx P N (Suc (length tr')) r k e rest"
proof (rule advancesI)
  have "mstate_rel idx P N tr' G (m\<lparr>m_rt := s, m_passed := (m_passed m)(k := m_passed m k),
      m_pend := (m_pend m)(k := if rest = [] then None else Some (e, rest))\<rparr>)"
    using first second by (intro quiet_section [OF rel pend sec(1) s]) simp_all
  then show "mstate_rel idx P N tr' G ((m\<lparr>m_rt := s\<rparr>)\<lparr>m_pend := (m_pend (m\<lparr>m_rt := s\<rparr>))(k :=
      if rest = [] then None else Some (e, rest))\<rparr>)"
    by simp
qed (use r in simp_all)

lemma grows_refl [simp]: "grows s s"
  by (simp add: grows_def)

lemma test_advances:
  assumes rel: "mstate_rel idx P N tr' G m" and pend: "m_pend m k = Some (e, Test # rest)"
  shows "advances idx P N (Suc (length tr')) (test_section e m) k e rest"
proof (rule advancesI)
  have k: "actor e = k" using callback_okD(1) [OF mstate_relD(5) [OF rel] pend] .
  let ?p = "isConcurrent (m_rt m) \<noteq> 0"
  show "test_section e m = Inr (m\<lparr>m_passed := (m_passed m)(k := ?p)\<rparr>)"
    by (simp add: test_section_def k)
  have "mstate_rel idx P N tr' G (m\<lparr>m_rt := m_rt m, m_passed := (m_passed m)(k := ?p),
      m_pend := (m_pend m)(k := if rest = [] then None else Some (e, rest))\<rparr>)"
    using mstate_relD(1) [OF rel] by (intro quiet_section [OF rel pend]) simp_all
  then show "mstate_rel idx P N tr' G (m\<lparr>m_passed := (m_passed m)(k := ?p)\<rparr>\<lparr>m_pend :=
      (m_pend (m\<lparr>m_passed := (m_passed m)(k := ?p)\<rparr>))(k := if rest = [] then None else Some (e, rest))\<rparr>)"
    by simp
qed simp

lemma second_advances:
  assumes rel: "mstate_rel idx P N tr' G m" and pend: "m_pend m k = Some (e, Second # rest)"
  shows "advances idx P N (Suc (length tr')) (second_section e m) k e rest"
proof -
  note K = callback_okD [OF mstate_relD(5) [OF rel] pend] and S = mstate_relD(1) [OF rel]
  note quiet = advances_quiet [OF rel pend]
  have found: "\<exists>t. getState j (m_rt m) = Inr (t, m_rt m)" if "j \<in> event_threads e" for j
    using threads_found [OF S, of j] K(2) that by blast
  have locks: "advances idx P N (Suc (length tr')) (on_shared (getLockState l) m) k e rest"
    if "e = Acquire t l \<or> e = Release t l" for t l
  proof -
    obtain x s where s: "getLockState l (m_rt m) = Inr (x, s)" "state_rel idx P N (logged m) s (det_run tr')"
      "dom (lock_of s) = insert l (dom (lock_of (m_rt m)))" "var_of s = var_of (m_rt m)"
      using find_lock [OF S, of l] by metis
    have "l \<in> dom (lock_of s)" unfolding s(3) by simp
    then have "present e s" using that by auto
    moreover have "grows (m_rt m) s" using s(3,4) by (auto simp: grows_def)
    ultimately show ?thesis using s(1,2) by (intro quiet [of s]) (simp_all add: on_shared_def)
  qed
  have same: "advances idx P N (Suc (length tr')) (Inr m) k e rest" if "accessed e = {} \<Longrightarrow> present e (m_rt m)"
    using that S by (intro quiet [of "m_rt m"]) simp_all
  show ?thesis
  proof (cases e)
    case (Read t x)
    with found [of t] same show ?thesis by (auto simp: when_passed_def on_shared_def getThreadState_def)
  next
    case (Write t x)
    with found [of t] same show ?thesis by (auto simp: when_passed_def on_shared_def getThreadState_def)
  next
    case (Fork t u)
    with found [of u] same show ?thesis by (auto simp: on_shared_def)
  next
    case (Join t u)
    with found [of u] same show ?thesis by (auto simp: on_shared_def)
  qed (use locks in auto)
qed

lemma count_advances:
  assumes rel: "mstate_rel idx P N tr' G m" and pend: "m_pend m k = Some (e, Count # rest)"
  shows "advances idx P N (Suc (length tr')) (count_section e m) k e rest"
proof -
  note K = callback_okD [OF mstate_relD(5) [OF rel] pend] and S = mstate_relD(1) [OF rel]
  have "advances idx P N (Suc (length tr')) (Inr (m\<lparr>m_rt := (m_rt m)\<lparr>isConcurrent := c\<rparr>\<rparr>)) k e rest" for c
    using state_rel_cong [OF S, of "(m_rt m)\<lparr>isConcurrent := c\<rparr>"]
    by (intro advances_quiet [OF rel pend, of "(m_rt m)\<lparr>isConcurrent := c\<rparr>"]) (simp_all add: grows_def)
  moreover have "advances idx P N (Suc (length tr')) (Inr m) k e rest"
    using S by (intro advances_quiet [OF rel pend, of "m_rt m"]) simp_all
  ultimately show ?thesis by (cases e) (simp_all add: when_passed_def)
qed

lemma det_run_small:
  assumes "length tr < 16777214"
  shows "dC (det_run tr) k k < 16777215"
proof (rule le_less_trans)
  show "dC (det_run tr) k k \<le> Suc (length tr)" using det_run_bound [of tr] by blast
  show "Suc (length tr) < 16777215" using assms by simp
qed

lemma first_advances:
  assumes rel: "mstate_rel idx P N tr' G m" and pend: "m_pend m k = Some (e, First # rest)"
    and few: "length tr' < 16777214"
  shows "advances idx P N (Suc (length tr')) (first_section e m) k e rest"
proof -
  note M = mstate_relD [OF rel] and K = callback_okD [OF mstate_relD(5) [OF rel] pend]
  note S = M(1) and quiet = advances_quiet [OF rel pend]
  obtain pre where pre: "sections e = pre @ First # rest" using K(4) by blast
  note suffix = sections_suffix [OF pre]
  have same: "advances idx P N (Suc (length tr')) (Inr m) k e rest"
    if "accessed e \<noteq> {} \<Longrightarrow> m_passed m k \<Longrightarrow> present e (m_rt m)"
    using that S by (intro quiet [of "m_rt m"]) simp_all
  show ?thesis
  proof (cases "accessed e = {}")
    case True
    have "actor e \<in> P" using K(2) by (cases e) auto
    from threads_found [OF S this] True same show ?thesis
      by (cases e) (auto simp: on_shared_def getThreadState_def)
  next
    case False
    then obtain a where a: "accessed e = {a}" by (rule accessed_cases)
    note sec = first_section_access [OF a]
    show ?thesis
    proof (cases "m_passed m k")
      case False
      with same sec(1) K(1) show ?thesis by (simp add: when_passed_def)
    next
      case passed: True
      show ?thesis
      proof (cases "var_of (m_rt m) a")
        case (Some x)
        then have "present e (m_rt m)" using sec(3) by auto
        with same sec(1) K(1) passed getVarState_found [OF Some]
        show ?thesis by (simp add: when_passed_def on_shared_def)
      next
        case None
        note small = det_run_small [OF few]
        have "a \<notin> logged m" using M(2) None by auto
        from create_var [OF S K(2) a None this small] K(1)
        obtain x s where s: "getVarState k a (is_write e) (m_rt m) = Inr (x, s)"
          "state_rel idx P N (logged m) s (det_step e (det_run tr'))" "\<not> det_race e (det_run tr')"
          "dom (var_of s) = insert a (dom (var_of (m_rt m)))" "lock_of s = lock_of (m_rt m)"
          by auto
        let ?G = "G(k := Some e)" and ?m = "m\<lparr>m_rt := s\<rparr>"
        have G: "G k = None" using K(6) False by (auto simp: looked_up_def)
        have "a \<in> dom (var_of s)" unfolding s(4) by simp
        then have present: "present e s" using sec(3) by simp
        have logged: "logged ?m = logged m" by (simp add: logged_def)
        show ?thesis
        proof (rule advancesI)
          show "first_section e m = Inr ?m" using sec(1) K(1) passed s(1) by (simp add: when_passed_def on_shared_def)
          show "mstate_rel idx P N (tr' @ [e]) ?G (?m\<lparr>m_pend := (m_pend ?m)(k := if rest = [] then None else Some (e, rest))\<rparr>)"
          proof (rule mstate_rel_step [OF rel pend])
            show "grows (m_rt m) (m_rt ?m)" using s(4,5) by (auto simp: grows_def)
            show "state_rel idx P N (logged ?m) (m_rt ?m) (det_run (tr' @ [e]))"
              using s(2) logged by (simp add: det_run_snoc)
            show "logged ?m \<subseteq> dom (var_of (m_rt ?m))" using M(2) s(4) logged by auto
            show "logged ?m = racy (tr' @ [e])" using M(3,4) s(3) logged by (simp add: racy_snoc)
            show "\<forall>e \<in> set (tr' @ [e]). proper e" using M(4) K(3) by simp
            show "m_overlap ?m \<or> early_run (tr' @ [e]) (map fst (m_log ?m)) ?G"
              using M(6) Record [of tr' "map fst (m_log m)" G e] False G s(3) K(1) by auto
            show "?G k = None \<or> ?G k = Some e \<and> accessed e \<noteq> {} \<and> rest \<noteq> [] \<and> looked_up ?m e rest"
              using False suffix(1,4) passed K(1) by (simp add: looked_up_def)
          qed (use present in simp_all)
        qed simp
      qed
    qed
  qed
qed

text \<open>The rule.\<close>

lemma ft_frame:
  "ft_read x t s = Inr (b, x', s') \<Longrightarrow> var_of s' = var_of s \<and> lock_of s' = lock_of s"
  "ft_write x t s = Inr (b, x', s') \<Longrightarrow> var_of s' = var_of s \<and> lock_of s' = lock_of s"
  by (auto simp: ft_read_def ft_write_def Let_def bnd_eq_Inr_iff split: if_splits)

lemma rule_rt_grows:
  assumes "rule_rt e s = Inr (b, s')"
  shows "grows s s' \<and> accessed e \<subseteq> dom (var_of s')"
  using assms
  by (cases e) (auto simp: grows_def bnd_eq_Inr_iff dest!: ft_frame split: if_splits)

lemma rule_advances:
  assumes rel: "mstate_rel idx P N tr' G m" and pend: "m_pend m k = Some (e, Rule # rest)"
    and few: "length tr' < 16777214"
  shows "advances idx P N (Suc (length tr')) (rule_section e m) k e rest"
proof -
  note M = mstate_relD [OF rel] and K = callback_okD [OF mstate_relD(5) [OF rel] pend]
  obtain pre where pre: "sections e = pre @ Rule # rest" using K(4) by blast
  have rest: "rest = []" using sections_suffix(1) [OF pre] by simp
  show ?thesis
  proof (cases "accessed e \<noteq> {} \<and> \<not> m_passed m k")
    case True
    then have "G k = None" using K(1,6) by (auto simp: looked_up_def)
    then have "mstate_rel idx P N tr' G (m\<lparr>m_pend := (m_pend m)(k := if rest = [] then None else Some (e, rest))\<rparr>)"
      using M rest by (intro mstate_rel_step [OF rel pend]) simp_all
    then show ?thesis using True K(1) by (intro advancesI [where m' = m and tr'' = tr' and G' = G]) (simp_all add: rule_section_def)
  next
    case False
    note small = det_run_small [OF few]
    have "looked_up m e (Rule # rest)"
      using False K(1) rest by (cases "accessed e = {}") (simp_all add: looked_up_def)
    then have present: "present e (m_rt m)" by (rule K(5))
    have threads: "\<forall>j \<in> event_threads e. thread_of (m_rt m) j \<noteq> None"
      using K(2) threads_found [OF M(1)] by blast
    obtain b s where step: "rt_step e (m_rt m) = Inr (b, s)"
      "state_rel idx P N (if b then logged m \<union> accessed e else logged m) s (det_step e (det_run tr'))"
      "accessed e \<inter> logged m = {} \<longrightarrow> b = det_race e (det_run tr')" "b \<longrightarrow> accessed e \<noteq> {}"
      using rt_step_refines [OF M(1) K(2,3) small] by blast
    obtain s1 c where s1: "rule_rt e (m_rt m) = Inr (b, s1)" "s = s1\<lparr>isConcurrent := c\<rparr>"
      using rule_rt_step [OF step(1) present threads] by blast
    let ?m = "m\<lparr>m_rt := s1, m_log := m_log m @ [(e, b)], m_overlap := m_overlap m \<or> \<not> undisturbed (m_pend m) e\<rparr>"
    let ?G = "G(k := None)"
    have s1_rel: "state_rel idx P N (if b then logged m \<union> accessed e else logged m) s1 (det_run (tr' @ [e]))"
      using state_rel_cong [OF step(2), of s1] s1(2) by (simp add: det_run_snoc)
    have logged: "logged ?m = (if b then logged m \<union> accessed e else logged m)"
      by (auto simp: logged_def)
    have racy: "logged ?m = racy (tr' @ [e])"
    proof (cases "accessed e \<inter> logged m = {}")
      case True
      with step(3) M(3,4) logged show ?thesis by (simp add: racy_snoc)
    next
      case False
      then have "accessed e \<subseteq> logged m" by (cases e) auto
      with logged M(3,4) show ?thesis by (auto simp: racy_snoc)
    qed
    show ?thesis
    proof (rule advancesI)
      show "rule_section e m = Inr ?m" using False K(1) s1(1) by (auto simp: rule_section_def)
      show "mstate_rel idx P N (tr' @ [e]) ?G (?m\<lparr>m_pend := (m_pend ?m)(k := if rest = [] then None else Some (e, rest))\<rparr>)"
      proof (rule mstate_rel_step [OF rel pend])
        show "grows (m_rt m) (m_rt ?m)" using rule_rt_grows [OF s1(1)] by simp
        show "state_rel idx P N (logged ?m) (m_rt ?m) (det_run (tr' @ [e]))" using s1_rel logged by simp
        show "logged ?m \<subseteq> dom (var_of (m_rt ?m))"
          using M(2) rule_rt_grows [OF s1(1)] unfolding logged by (auto simp: grows_def)
        show "\<forall>e \<in> set (tr' @ [e]). proper e" using M(4) K(3) by simp
        have "undisturbed G e" if "undisturbed (m_pend m) e"
        proof -
          have "G j = None" if "m_pend m j = None" for j using M(5) [of j] that by (simp add: callback_ok_def)
          with that show ?thesis by (cases e) auto
        qed
        moreover have "G (actor e) = None \<or> G (actor e) = Some e" using K(1,6) by blast
        ultimately show "m_overlap ?m \<or> early_run (tr' @ [e]) (map fst (m_log ?m)) ?G"
          using M(6) Event [of tr' "map fst (m_log m)" G e] K(1,3) by auto
      qed (use rest racy in simp_all)
    qed simp
  qed
qed

text \<open>Every choice.\<close>

lemma make_choice_rel:
  assumes rel: "mstate_rel idx P N tr' G m" and few: "length tr' < 16777214"
    and call: "\<And>e. c = Call e \<Longrightarrow> event_threads e \<subseteq> P \<and> proper e"
  shows "\<exists>m' tr'' G'. make_choice c m = Inr m' \<and> length tr'' \<le> Suc (length tr') \<and> mstate_rel idx P N tr'' G' m'"
proof (cases c)
  case (Call e)
  show ?thesis
  proof (cases "m_pend m (actor e)")
    case None
    let ?m = "m\<lparr>m_pend := (m_pend m)(actor e := Some (e, sections e))\<rparr>"
    note M = mstate_relD [OF rel]
    have own: "\<not> looked_up ?m e (sections e)" "sections e \<noteq> []" by (cases e; simp add: looked_up_def)+
    have "callback_ok P G ?m j" for j
    proof (cases "j = actor e")
      case True
      with M(5) [of j] None call [OF Call] own show ?thesis by (simp add: callback_ok_def)
    next
      case False
      then show ?thesis by (intro callback_ok_other [OF M(5) [of j]]) simp_all
    qed
    moreover have "logged ?m = logged m" by (simp add: logged_def)
    ultimately have "mstate_rel idx P N tr' G ?m" using M by (simp add: mstate_rel_def)
    with Call None show ?thesis by (intro exI [of _ ?m] exI [of _ tr'] exI [of _ G]) simp
  next
    case (Some p)
    with Call rel show ?thesis by (intro exI [of _ m] exI [of _ tr'] exI [of _ G]) simp
  qed
next
  case (Turn k)
  show ?thesis
  proof (cases "\<exists>e sec rest. m_pend m k = Some (e, sec # rest)")
    case True
    then obtain e sec rest where pend: "m_pend m k = Some (e, sec # rest)" by blast
    have "advances idx P N (Suc (length tr')) (exec_section sec e m) k e rest"
      using test_advances [OF rel] first_advances [OF rel _ few] second_advances [OF rel] count_advances [OF rel]
        rule_advances [OF rel _ few] pend
      by (cases sec) simp_all
    then obtain m' tr'' G' where "exec_section sec e m = Inr m'" "length tr'' \<le> Suc (length tr')"
      "mstate_rel idx P N tr'' G' (m'\<lparr>m_pend := (m_pend m')(k := if rest = [] then None else Some (e, rest))\<rparr>)"
      unfolding advances_def by blast
    moreover from this(1) have "make_choice c m =
        Inr (m'\<lparr>m_pend := (m_pend m')(k := if rest = [] then None else Some (e, rest))\<rparr>)"
      using Turn pend by simp
    ultimately show ?thesis by blast
  next
    case False
    then have "make_choice c m = Inr m" using Turn by (auto split: option.split list.split)
    with rel show ?thesis by (intro exI [of _ m] exI [of _ tr'] exI [of _ G]) simp
  qed
qed

lemma run_schedule_rel:
  assumes reg: "registered idx P N s" and calls: "\<forall>e. Call e \<in> set cs \<longrightarrow> event_threads e \<subseteq> P \<and> proper e"
    and few: "length cs < 16777214"
  shows "\<exists>m' tr' G. run_schedule cs (m_start s) = Inr m' \<and> length tr' \<le> length cs \<and> mstate_rel idx P N tr' G m'"
  using calls few
proof (induction cs rule: rev_induct)
  case Nil
  have "mstate_rel idx P N [] (\<lambda>_. None) (m_start s)"
    using registered_state_rel [OF reg] Start by (simp add: mstate_rel_def m_start_def logged_def callback_ok_def)
  then show ?case by (intro exI [of _ "m_start s"] exI [of _ "[]"] exI [of _ "\<lambda>_. None"]) simp
next
  case (snoc c cs)
  then obtain m' tr' G where m': "run_schedule cs (m_start s) = Inr m'" "length tr' \<le> length cs"
    "mstate_rel idx P N tr' G m'" by auto
  have few: "length tr' < 16777214" using m'(2) snoc.prems(2) by simp
  obtain m'' tr'' G' where "make_choice c m' = Inr m''" "length tr'' \<le> Suc (length tr')"
    "mstate_rel idx P N tr'' G' m''"
    using make_choice_rel [OF m'(3) few, of c] snoc.prems(1) by auto
  moreover from this(1) have "run_schedule (cs @ [c]) (m_start s) = Inr m''"
    using m'(1) by (simp add: run_schedule_snoc)
  ultimately show ?case using m'(2)
    by (intro exI [of _ m''] exI [of _ tr''] exI [of _ G']) simp
qed

text \<open>Threads that are not scheduled stay outside callbacks.\<close>

lemma exec_section_pend: "exec_section sec e m = Inr m' \<Longrightarrow> m_pend m' = m_pend m"
  by (cases sec; cases e)
    (auto simp: test_section_def rule_section_def when_passed_def bnd_eq_Inr_iff on_shared_def split: if_splits)

lemma idle_threads:
  assumes "run_schedule cs m = Inr m'" and "m_pend m k = None" and "\<forall>e. Call e \<in> set cs \<longrightarrow> actor e \<noteq> k"
  shows "m_pend m' k = None"
  using assms
proof (induction cs arbitrary: m)
  case (Cons c cs)
  then obtain m1 where m1: "make_choice c m = Inr m1" "run_schedule cs m1 = Inr m'" by (auto simp: bnd_eq_Inr_iff)
  have "m_pend m1 k = None"
    using Cons.prems(2,3) m1(1) exec_section_pend
    by (cases c) (auto simp: bnd_eq_Inr_iff split: option.splits list.splits if_splits)
  with Cons.IH [OF m1(2)] Cons.prems(3) show ?case by simp
qed simp

subsection \<open>Two writes of one address\<close>

text \<open>
  In every interleaving of two callbacks for writes of one new address the thread that looks the address up
  first is \<open>t\<close>, the other \<open>u\<close>. \<open>before k c l d cs\<close>: the \<open>k\<close>-th \<open>c\<close> of \<open>cs\<close> comes before the \<open>l\<close>-th \<open>d\<close>.
\<close>

definition before :: "nat \<Rightarrow> choice \<Rightarrow> nat \<Rightarrow> choice \<Rightarrow> choice list \<Rightarrow> bool" where
  "before k c l d cs \<longleftrightarrow> (\<exists>n. k \<le> count_list (take n cs) c \<and> count_list (take n cs) d < l)"

text \<open>What the rules compute for \<open>t\<close> and \<open>u\<close> with records \<open>T\<close> and \<open>U\<close>.\<close>

definition writers :: "ThreadState \<Rightarrow> ThreadState \<Rightarrow> bool" where
  "writers T U \<longleftrightarrow> (let v = VarState_new T True; v' = v\<lparr>vs_W := ts_epoch U\<rparr>
     in (\<forall>s. \<exists>s'. ft_write v T s = Inr (False, v, s') \<and> s' = s\<lparr>VS_writes := VS_writes s + 1\<rparr>) \<and>
        (\<forall>s. \<exists>s'. ft_write v U s = Inr (True, v', s') \<and> s' = s\<lparr>VS_writes := VS_writes s + 1\<rparr>) \<and>
        (\<forall>s. \<exists>v'' s'. ft_write v' T s = Inr (True, v'', s') \<and> s' = s\<lparr>VS_writes := VS_writes s + 1\<rparr>))"

lemma registered_writers:
  assumes s: "registered idx P N s" and k: "t \<in> P" "u \<in> P" "t \<noteq> u"
    and T: "thread_of s t = Some T" "thread_of s u = Some U"
  shows "writers T U"
proof -
  have L: "layout idx P N" using s by (simp add: registered_def)
  have rel: "thread_rel idx P N k V (\<lambda>j. if j = k then 1 else 0)" if "k \<in> P" "thread_of s k = Some V" for k V
  proof -
    have V: "wf_thread N V" "unat (ts_tid V) = idx k" "clk (ts_C V) = (\<lambda>i. if i = idx k then 1 else 0)"
      using s that by (auto simp: registered_def)
    have "views idx P N (ts_C V) (\<lambda>j. if j = k then 1 else 0)"
      using V that layoutD(5) [OF L] wf_threadD [OF V(1)] by (auto simp: views_def)
    with V that(1) show ?thesis by (auto simp: thread_rel_def)
  qed
  note t = rel [OF k(1) T(1)] and u = rel [OF k(2) T(2)]
  have eT: "epoch_rel idx P (ts_epoch T) (t, 1)" and eU: "epoch_rel idx P (ts_epoch U) (u, 1)"
    using epoch_rel_thread [OF t] epoch_rel_thread [OF u] by simp_all
  have "push_bit 24 (ts_tid T) = mk_epoch (idx t) 0"
    using thread_relD(3) [OF t] by (simp add: mk_epoch_def epoch0_def of_nat_unat flip: thread_relD(3) [OF t])
  then have e0: "epoch_rel idx P (push_bit 24 (ts_tid T)) (t, 0)" using k(1) by (simp add: epoch_rel_def)
  have r0: "push_bit 24 (ts_tid T) \<noteq> READ_SHARED" using epoch_relD [OF L e0] by simp
  have ne: "ts_epoch T \<noteq> ts_epoch U" using epoch_rel_eq_iff [OF L eT eU] k(3) by simp
  note race = epoch_races_eq [OF L t eT] epoch_races_eq [OF L u eT] epoch_races_eq [OF L t eU]
    epoch_races_eq [OF L t e0] epoch_races_eq [OF L u e0]
  show ?thesis
    unfolding writers_def Let_def ft_write_def VarState_new_def using race r0 ne k(3) by (simp add: beyond_def)
qed

text \<open>Where the two callbacks are after \<open>i\<close> sections of \<open>t\<close> and \<open>j\<close> sections of \<open>u\<close>; \<open>uf\<close>: the rule of \<open>u\<close> is first.\<close>

definition left_of :: "ThreadID \<Rightarrow> Address \<Rightarrow> nat \<Rightarrow> (mt_event \<times> critical list) option" where
  "left_of k a i = (if i = 4 then None else Some (Write k a, drop i [Test, First, Second, Rule]))"

definition two_writes :: "rt \<Rightarrow> ThreadID \<Rightarrow> ThreadID \<Rightarrow> Address \<Rightarrow> ThreadState \<Rightarrow> ThreadState \<Rightarrow> bool \<Rightarrow> nat \<Rightarrow> nat \<Rightarrow> mstate \<Rightarrow> bool" where
  "two_writes s t u a T U uf i j m \<longleftrightarrow>
     thread_of (m_rt m) = thread_of s \<and> isConcurrent (m_rt m) = isConcurrent s \<and>
     m_pend m t = left_of t a i \<and> m_pend m u = left_of u a j \<and>
     (1 \<le> i \<longrightarrow> m_passed m t) \<and> (1 \<le> j \<longrightarrow> m_passed m u) \<and>
     (i < 2 \<longrightarrow> var_of (m_rt m) a = None) \<and>
     (2 \<le> i \<and> j < 4 \<longrightarrow> var_of (m_rt m) a = Some (VarState_new T True)) \<and>
     (2 \<le> i \<and> i < 4 \<and> j = 4 \<longrightarrow> var_of (m_rt m) a = Some ((VarState_new T True)\<lparr>vs_W := ts_epoch U\<rparr>)) \<and>
     m_log m = (if i < 4 then if j < 4 then [] else [(Write u a, True)]
       else if j < 4 then [(Write t a, False)]
       else if uf then [(Write u a, True), (Write t a, True)] else [(Write t a, False), (Write u a, True)])"

lemma isConcurrent_put_var [simp]: "isConcurrent (put_var a v s) = isConcurrent s"
  by (simp add: put_var_def)

lemmas one_section = left_of_def test_section_def rule_section_def when_passed_def on_shared_def getThreadState_def
  getState_found getVarState_found getVarState_new

lemma two_writes_t:
  assumes m: "two_writes s t u a T U uf i j m" and i: "i < 4" and order: "j \<le> 1 \<or> 2 \<le> i" "uf \<longrightarrow> i = 3 \<longrightarrow> j = 4"
      "\<not> uf \<longrightarrow> j < 4 \<or> i = 4" "j \<le> 4"
    and T: "thread_of s t = Some T" "thread_of s u = Some U" "t \<noteq> u" "isConcurrent s \<noteq> 0" "writers T U"
  shows "\<exists>m'. make_choice (Turn t) m = Inr m' \<and> two_writes s t u a T U uf (Suc i) j m'"
proof -
  have w: "\<exists>s'. ft_write (VarState_new T True) T r = Inr (False, VarState_new T True, s') \<and> s' = r\<lparr>VS_writes := VS_writes r + 1\<rparr>"
    "\<exists>v'' s'. ft_write ((VarState_new T True)\<lparr>vs_W := ts_epoch U\<rparr>) T r = Inr (True, v'', s') \<and> s' = r\<lparr>VS_writes := VS_writes r + 1\<rparr>"
    for r using T(5) by (simp_all add: writers_def Let_def)
  consider "i = 0" | "i = 1" | "i = 2" | "i = 3" "j < 4" | "i = 3" "j = 4" using i order(4) by linarith
  then show ?thesis
  proof cases
    case 4
    then show ?thesis using m order T w(1) [of "m_rt m"] by (auto simp: two_writes_def one_section)
  next
    case 5
    then show ?thesis using m order T w(2) [of "m_rt m"] by (auto simp: two_writes_def one_section)
  qed (use m order T in \<open>auto simp: two_writes_def one_section\<close>)
qed

lemma two_writes_u:
  assumes m: "two_writes s t u a T U uf i j m" and j: "j < 4" and order: "Suc j \<le> 1 \<or> 2 \<le> i" "uf \<longrightarrow> i < 4"
      "\<not> uf \<longrightarrow> j = 3 \<longrightarrow> i = 4" "i \<le> 4"
    and T: "thread_of s t = Some T" "thread_of s u = Some U" "t \<noteq> u" "isConcurrent s \<noteq> 0" "writers T U"
  shows "\<exists>m'. make_choice (Turn u) m = Inr m' \<and> two_writes s t u a T U uf i (Suc j) m'"
proof -
  have w: "\<exists>s'. ft_write (VarState_new T True) U r = Inr (True, (VarState_new T True)\<lparr>vs_W := ts_epoch U\<rparr>, s') \<and>
      s' = r\<lparr>VS_writes := VS_writes r + 1\<rparr>"
    for r using T(5) by (simp add: writers_def Let_def)
  consider "j = 0" | "j = 1" | "j = 2" | "j = 3" using j by linarith
  then show ?thesis
  proof cases
    case 4
    then show ?thesis using m order T w [of "m_rt m"] by (auto simp: two_writes_def one_section)
  qed (use m order T in \<open>auto simp: two_writes_def one_section\<close>)
qed

lemma count_take_mono: "m \<le> n \<Longrightarrow> count_list (take m cs) c \<le> count_list (take n cs) c"
proof -
  assume "m \<le> n"
  then have "take n cs = take m cs @ take (n - m) (drop m cs)" by (metis le_add_diff_inverse take_add)
  then show ?thesis by simp
qed

lemma count_take_le: "count_list (take n cs) c \<le> count_list cs c"
  using count_take_mono [of "min n (length cs)" "length cs" cs c] by (cases "n \<le> length cs") auto

lemma two_writes_run:
  assumes T: "thread_of s t = Some T" "thread_of s u = Some U" "t \<noteq> u" "isConcurrent s \<noteq> 0" "writers T U"
    and m: "two_writes s t u a T U uf 0 0 m"
  shows "set cs \<subseteq> {Turn t, Turn u} \<Longrightarrow>
    \<forall>n. count_list (take n cs) (Turn t) \<le> 4 \<and> count_list (take n cs) (Turn u) \<le> 4 \<and>
      (2 \<le> count_list (take n cs) (Turn u) \<longrightarrow> 2 \<le> count_list (take n cs) (Turn t)) \<and>
      (uf \<longrightarrow> count_list (take n cs) (Turn t) = 4 \<longrightarrow> count_list (take n cs) (Turn u) = 4) \<and>
      (\<not> uf \<longrightarrow> count_list (take n cs) (Turn u) = 4 \<longrightarrow> count_list (take n cs) (Turn t) = 4) \<Longrightarrow>
    \<exists>m'. run_schedule cs m = Inr m' \<and>
      two_writes s t u a T U uf (count_list cs (Turn t)) (count_list cs (Turn u)) m'"
proof (induction cs rule: rev_induct)
  case Nil
  with m show ?case by simp
next
  case (snoc c cs)
  let ?i = "count_list cs (Turn t)" and ?j = "count_list cs (Turn u)"
  have prefix: "take n cs = take (min n (length cs)) (cs @ [c])" for n
    by (cases "n \<le> length cs") simp_all
  have pre: "\<forall>n. count_list (take n cs) (Turn t) \<le> 4 \<and> count_list (take n cs) (Turn u) \<le> 4 \<and>
      (2 \<le> count_list (take n cs) (Turn u) \<longrightarrow> 2 \<le> count_list (take n cs) (Turn t)) \<and>
      (uf \<longrightarrow> count_list (take n cs) (Turn t) = 4 \<longrightarrow> count_list (take n cs) (Turn u) = 4) \<and>
      (\<not> uf \<longrightarrow> count_list (take n cs) (Turn u) = 4 \<longrightarrow> count_list (take n cs) (Turn t) = 4)"
    unfolding prefix using snoc.prems(2) by blast
  with snoc.IH snoc.prems(1) obtain m1 where m1: "run_schedule cs m = Inr m1" "two_writes s t u a T U uf ?i ?j m1"
    by auto
  note here = spec [OF pre, of "length cs", simplified]
    and after = spec [OF snoc.prems(2), of "Suc (length cs)", simplified]
  show ?case
  proof (cases "c = Turn t")
    case True
    with here after T(3) have "\<exists>m'. make_choice (Turn t) m1 = Inr m' \<and> two_writes s t u a T U uf (Suc ?i) ?j m'"
      by (intro two_writes_t [OF m1(2) _ _ _ _ _ T]) auto
    with True T(3) m1(1) show ?thesis by (auto simp: run_schedule_snoc)
  next
    case False
    with snoc.prems(1) have c: "c = Turn u" by simp
    with here after T(3) have "\<exists>m'. make_choice (Turn u) m1 = Inr m' \<and> two_writes s t u a T U uf ?i (Suc ?j) m'"
      by (intro two_writes_u [OF m1(2) _ _ _ _ _ T]) auto
    with c T(3) m1(1) show ?thesis by (auto simp: run_schedule_snoc)
  qed
qed

subsection \<open>Properties\<close>

text \<open>Two threads write the same new address, and both look it up before either rule runs.\<close>

definition both_writes :: "choice list" where
  "both_writes = [Call (Write 11 200), Call (Write 12 200), Turn 11, Turn 11, Turn 12, Turn 12, Turn 12, Turn 12,
     Turn 11, Turn 11]"

lemma both_writes_result:
  "case run_schedule both_writes (m_start two_threads) of Inl _ \<Rightarrow> False
   | Inr m \<Rightarrow> m_log m = [(Write 12 200, True), (Write 11 200, True)] \<and>
      m_pend m 11 = None \<and> m_pend m 12 = None \<and> \<not> m_overlap m"
  by code_simp

text \<open>
  C17: However the callbacks of registered threads interleave, section by section, no section leaves a vector,
  and when all callbacks have returned the addresses on which some callback reported a race are exactly those
  with a race in the trace of the rules, in the order in which they ran, provided that no thread was forked
  or joined inside a callback.
\<close>

theorem interleaved_callbacks_report_races:
  assumes "registered idx P N s" and "\<forall>e. Call e \<in> set cs \<longrightarrow> event_threads e \<subseteq> P \<and> proper e"
    and "length cs < 16777214"
  shows "\<exists>m. run_schedule cs (m_start s) = Inr m \<and>
    ((\<forall>k. m_pend m k = None) \<and> \<not> m_overlap m \<longrightarrow>
      (\<forall>a. (\<exists>e. (e, True) \<in> set (m_log m) \<and> a \<in> accessed e) \<longleftrightarrow>
        (let tr = map fst (m_log m) in \<exists>i j. race tr i j \<and> a \<in> accessed (tr ! j))))"
proof -
  obtain m tr' G where m: "run_schedule cs (m_start s) = Inr m" "mstate_rel idx P N tr' G m"
    using run_schedule_rel [OF assms] by blast
  have "logged m = racy (map fst (m_log m))" if idle: "\<forall>k. m_pend m k = None" "\<not> m_overlap m"
  proof -
    have "G = (\<lambda>_. None)" using mstate_relD(5) [OF m(2)] idle(1) by (auto simp: callback_ok_def)
    then show ?thesis
      using mstate_relD(3,6) [OF m(2)] idle(2) early_run_finished [of tr' "map fst (m_log m)"] by simp
  qed
  with m(1) show ?thesis unfolding logged_def racy_def Let_def by blast
qed

theorem interleaved_callbacks_report_races_witness:
  "\<exists>m. run_schedule both_writes (m_start two_threads) = Inr m \<and> m_log m = [(Write 12 200, True), (Write 11 200, True)] \<and>
    (\<forall>a. (\<exists>e. (e, True) \<in> set (m_log m) \<and> a \<in> accessed e) \<longleftrightarrow>
      (let tr = map fst (m_log m) in \<exists>i j. race tr i j \<and> a \<in> accessed (tr ! j)))"
proof -
  have calls: "\<forall>e. Call e \<in> set both_writes \<longrightarrow> event_threads e \<subseteq> {11, 12} \<and> proper e"
    "\<forall>e. Call e \<in> set both_writes \<longrightarrow> actor e \<in> {11, 12}" "length both_writes < 16777214"
    by (simp_all add: both_writes_def)
  obtain m where m: "run_schedule both_writes (m_start two_threads) = Inr m"
    "m_log m = [(Write 12 200, True), (Write 11 200, True)]" "m_pend m 11 = None" "m_pend m 12 = None" "\<not> m_overlap m"
    using both_writes_result by (auto split: sum.splits)
  have "m_pend m k = None" for k
    using idle_threads [OF m(1), of k] calls(2) m(3,4) by (cases "k = 11 \<or> k = 12") (auto simp: m_start_def)
  with m interleaved_callbacks_report_races [OF two_threads_registered calls(1,3)] show ?thesis by auto
qed

text \<open>
  C21: The runtime can report one race twice, because \<open>getVarState\<close> and the rule are two critical sections.
  Two registered threads write a new address, and \<open>t\<close> looks it up first. However their eight sections interleave,
  \<open>u\<close> reports the race; and \<open>t\<close> reports it too exactly when the rule of \<open>u\<close> runs before that of \<open>t\<close>. When the
  callbacks run one after the other, only the second thread reports.
\<close>

theorem both_writers_report:
  assumes "registered idx P N s" and "t \<in> P" and "u \<in> P" and "t \<noteq> u" and "isConcurrent s \<noteq> 0"
    and "set cs \<subseteq> {Turn t, Turn u}" and "count_list cs (Turn t) = 4" and "count_list cs (Turn u) = 4"
    and "before 2 (Turn t) 2 (Turn u) cs"
  shows "\<exists>m. run_schedule (Call (Write t a) # Call (Write u a) # cs) (m_start s) = Inr m \<and>
    m_pend m t = None \<and> m_pend m u = None \<and>
    m_log m = (if before 4 (Turn u) 4 (Turn t) cs then [(Write u a, True), (Write t a, True)]
      else [(Write t a, False), (Write u a, True)])"
proof -
  let ?t = "\<lambda>n. count_list (take n cs) (Turn t)" and ?u = "\<lambda>n. count_list (take n cs) (Turn u)"
  let ?uf = "before 4 (Turn u) 4 (Turn t) cs"
  obtain T U where T: "thread_of s t = Some T" "thread_of s u = Some U"
    using assms(1-3) unfolding registered_def by blast
  note W = registered_writers [OF assms(1-4) T]
  let ?m = "(m_start s)\<lparr>m_pend := (\<lambda>_. None)(t := left_of t a 0, u := left_of u a 0)\<rparr>"
  have start: "run_schedule (Call (Write t a) # Call (Write u a) # cs) (m_start s) = run_schedule cs ?m"
    using assms(4) by (simp add: m_start_def left_of_def)
  have m0: "two_writes s t u a T U ?uf 0 0 ?m"
    using assms(1,4) by (simp add: two_writes_def m_start_def registered_def var_of_def)
  have le: "?t n \<le> 4" "?u n \<le> 4" for n using count_take_le [of n cs] assms(7,8) by metis+
  obtain k where k: "2 \<le> ?t k" "?u k < 2" using assms(9) by (auto simp: before_def)
  have "2 \<le> ?t n" if "2 \<le> ?u n" for n
    using k that count_take_mono [of n k cs "Turn u"] count_take_mono [of k n cs "Turn t"] by (cases "n \<le> k") auto
  moreover have "?u n = 4" if uf: "?uf" and "?t n = 4" for n
  proof -
    obtain l where "4 \<le> ?u l" "?t l < 4" using uf by (auto simp: before_def)
    with that(2) count_take_mono [of n l cs "Turn t"] count_take_mono [of l n cs "Turn u"] le(2) [of n]
    show ?thesis by (cases "n \<le> l") auto
  qed
  moreover have "?t n = 4" if "\<not> ?uf" "?u n = 4" for n
    using that le(1) [of n] unfolding before_def by (metis le_neq_implies_less order_refl)
  ultimately obtain m where "run_schedule cs ?m = Inr m" "two_writes s t u a T U ?uf 4 4 m"
    using two_writes_run [OF T assms(4,5) W m0 assms(6)] le assms(7,8) by auto
  then show ?thesis unfolding start by (auto simp: two_writes_def left_of_def)
qed

text \<open>Thread 11 looks up first; the rule of 12 comes first, or that of 11.\<close>

definition twice :: "choice list" where
  "twice = [Turn 11, Turn 11, Turn 12, Turn 12, Turn 12, Turn 12, Turn 11, Turn 11]"

definition once :: "choice list" where
  "once = [Turn 11, Turn 11, Turn 12, Turn 12, Turn 11, Turn 11, Turn 12, Turn 12]"

theorem both_writers_report_witness:
  "(\<exists>m. run_schedule (Call (Write 11 200) # Call (Write 12 200) # twice) (m_start two_threads) = Inr m \<and>
      m_log m = [(Write 12 200, True), (Write 11 200, True)]) \<and>
   (\<exists>m. run_schedule (Call (Write 11 200) # Call (Write 12 200) # once) (m_start two_threads) = Inr m \<and>
      m_log m = [(Write 11 200, False), (Write 12 200, True)])"
proof (intro conjI)
  have first: "before 2 (Turn 11) 2 (Turn 12) twice" "before 2 (Turn 11) 2 (Turn 12) once"
    by (auto simp: before_def twice_def once_def intro!: exI [of _ 2])
  have uf: "before 4 (Turn 12) 4 (Turn 11) twice"
    by (auto simp: before_def twice_def intro!: exI [of _ 6])
  have "take n once = once \<or> n \<in> {0, 1, 2, 3, 4, 5, 6, 7}" for n
  proof (cases "n < 8")
    case True
    then have "n \<in> {0, 1, 2, 3, 4, 5, 6, 7}" by (simp only: insert_iff empty_iff) arith
    then show ?thesis by blast
  qed (simp add: once_def)
  then have nf: "\<not> before 4 (Turn 12) 4 (Turn 11) once"
    unfolding before_def by (auto simp: once_def take_Cons' split: if_splits)
  have twice: "set twice \<subseteq> {Turn 11, Turn 12}" "count_list twice (Turn 11) = 4" "count_list twice (Turn 12) = 4"
    and once: "set once \<subseteq> {Turn 11, Turn 12}" "count_list once (Turn 11) = 4" "count_list once (Turn 12) = 4"
    by (simp_all add: twice_def once_def)
  have ids: "(11 :: ThreadID) \<in> {11, 12}" "(12 :: ThreadID) \<in> {11, 12}" "(11 :: ThreadID) \<noteq> 12"
    "isConcurrent two_threads \<noteq> 0" by (simp_all add: two_threads_def)
  note reports = both_writers_report [OF two_threads_registered ids, where a = 200]
  show "\<exists>m. run_schedule (Call (Write 11 200) # Call (Write 12 200) # twice) (m_start two_threads) = Inr m \<and>
      m_log m = [(Write 12 200, True), (Write 11 200, True)]"
    using reports [OF twice first(1)] unfolding if_P [OF uf] by blast
  show "\<exists>m. run_schedule (Call (Write 11 200) # Call (Write 12 200) # once) (m_start two_threads) = Inr m \<and>
      m_log m = [(Write 11 200, False), (Write 12 200, True)]"
    using reports [OF once first(2)] unfolding if_not_P [OF nf] by blast
qed

end
