(* ===== verification/DebugInfo.thy ===== *)
theory DebugInfo
  imports Prelude
begin

text \<open>
  The debugging information the instrumentation hands to the runtime
  (\<open>EmbedSanitizerDebugInfo.h\<close>): names of files, functions, objects, and line numbers. Strings are
  lists of characters. The demangler \<open>abi::__cxa_demangle\<close> is a parameter: \<open>Some d\<close> when it
  succeeds.
\<close>

subsection \<open>Strings\<close>

text \<open>\<open>s[i]\<close> of a \<open>std::string\<close>, which at the end is the terminating null character.\<close>

definition char_at :: "string \<Rightarrow> nat \<Rightarrow> char" where
  "char_at s i = (if i < length s then s ! i else CHR 0x00)"

text \<open>\<open>s.find(pat)\<close>: the first position of \<open>pat\<close>, \<open>None\<close> for \<open>npos\<close>.\<close>

fun is_prefix :: "string \<Rightarrow> string \<Rightarrow> bool" where
  "is_prefix [] s = True"
| "is_prefix (p # ps) [] = False"
| "is_prefix (p # ps) (c # cs) = (p = c \<and> is_prefix ps cs)"

fun find_from :: "nat \<Rightarrow> string \<Rightarrow> string \<Rightarrow> nat option" where
  "find_from i pat [] = (if pat = [] then Some i else None)"
| "find_from i pat (c # cs) =
     (if is_prefix pat (c # cs) then Some i else find_from (Suc i) pat cs)"

definition str_find :: "string \<Rightarrow> string \<Rightarrow> nat option" where
  "str_find s pat = find_from 0 pat s"

lemma is_prefix_iff: "is_prefix p s \<longleftrightarrow> (\<exists>t. s = p @ t)"
  by (induction p s rule: is_prefix.induct) auto

lemma find_from_None: "find_from i pat s = None \<longleftrightarrow> (\<nexists>a b. s = a @ pat @ b)"
proof (induction i pat s rule: find_from.induct)
  case (1 i pat)
  then show ?case by auto
next
  case (2 i pat c cs)
  have "(\<exists>a b. c # cs = a @ pat @ b) \<longleftrightarrow> is_prefix pat (c # cs) \<or> (\<exists>a b. cs = a @ pat @ b)"
    by (auto simp: is_prefix_iff Cons_eq_append_conv)
  with 2 show ?case by auto
qed

lemma str_find_None: "str_find s pat = None \<longleftrightarrow> (\<nexists>a b. s = a @ pat @ b)"
  by (simp add: str_find_def find_from_None)

subsection \<open>Names\<close>

type_synonym demangler = "string \<Rightarrow> string option"

definition demangleName :: "demangler \<Rightarrow> string \<Rightarrow> string" where
  "demangleName cxa_demangle name = (case cxa_demangle name of Some d \<Rightarrow> d | None \<Rightarrow> name)"

text \<open>The name up to the first parenthesis.\<close>

definition cut_args :: "string \<Rightarrow> string" where
  "cut_args name = (case str_find name ''('' of None \<Rightarrow> name | Some idx \<Rightarrow> take idx name)"

definition getFuncName :: "demangler \<Rightarrow> string \<Rightarrow> string" where
  "getFuncName cxa_demangle F = cut_args (demangleName cxa_demangle F)"

definition getFuncNameStr :: "demangler \<Rightarrow> string \<Rightarrow> string" where
  "getFuncNameStr cxa_demangle F = cut_args (demangleName cxa_demangle F)"

subsection \<open>Files\<close>

definition createAbsoluteFileName :: "string \<Rightarrow> string \<Rightarrow> string" where
  "createAbsoluteFileName dir_name file_name =
     (if length dir_name \<le> 0 \<or> length file_name \<le> 0 then file_name
      else if char_at file_name 0 = CHR ''/'' then file_name
      else if char_at file_name 0 = CHR ''.'' \<and> char_at file_name 1 = CHR ''/'' then
        if char_at dir_name (length dir_name - 1) = CHR ''/'' then dir_name @ drop 2 file_name
        else dir_name @ drop 1 file_name
      else if str_find file_name dir_name \<noteq> None then file_name
      else if char_at dir_name (length dir_name - 1) \<noteq> CHR ''/'' then dir_name @ ''/'' @ file_name
      else dir_name @ file_name)"

text \<open>The debug location of an instruction: its line and, of its scope, the file and directory.\<close>

record DebugLoc =
  dl_line :: i32
  dl_scope :: "(string \<times> string) option"

definition getFileName :: "DebugLoc option \<Rightarrow> string" where
  "getFileName location =
     (case location of None \<Rightarrow> ''Unknown''
      | Some l \<Rightarrow> (case dl_scope l of None \<Rightarrow> ''Unknown''
          | Some (filename, directory) \<Rightarrow> createAbsoluteFileName directory filename))"

definition getLineNumber :: "DebugLoc option \<Rightarrow> i32" where
  "getLineNumber Loc = (case Loc of Some l \<Rightarrow> dl_line l | None \<Rightarrow> 0)"

text \<open>\<open>obj\<close> is the name of the underlying object of the address, \<open>None\<close> when there is none.\<close>

definition getObjectName :: "string option \<Rightarrow> string" where
  "getObjectName obj = (case obj of None \<Rightarrow> ''unknown'' | Some name \<Rightarrow> name)"

subsection \<open>Lemmas\<close>

lemma find_from_paren:
  "(case find_from i ''('' s of None \<Rightarrow> s | Some j \<Rightarrow> take (j - i) s) = takeWhile (\<lambda>c. c \<noteq> CHR ''('') s \<and>
   (\<forall>j. find_from i ''('' s = Some j \<longrightarrow> i \<le> j)"
proof (induction s arbitrary: i)
  case (Cons c s)
  show ?case
  proof (cases "c = CHR ''(''")
    case True
    then show ?thesis by simp
  next
    case False
    with Cons [of "Suc i"] show ?thesis
      by (auto simp: Suc_diff_le Suc_le_eq split: option.splits)
        (metis Suc_diff_Suc Suc_le_eq less_imp_le take_Suc_Cons)+
  qed
qed simp

lemma cut_args_eq: "cut_args name = takeWhile (\<lambda>c. c \<noteq> CHR ''('') name"
  using find_from_paren [where i = 0 and s = name] by (simp add: cut_args_def str_find_def split: option.splits)

lemma char_at_0: "s \<noteq> [] \<Longrightarrow> char_at s 0 = hd s"
  by (simp add: char_at_def hd_conv_nth)

lemma char_at_last: "s \<noteq> [] \<Longrightarrow> char_at s (length s - 1) = last s"
  by (simp add: char_at_def last_conv_nth)

text \<open>What is appended to the directory: the file name without a leading \<open>./\<close>.\<close>

definition relative_part :: "string \<Rightarrow> string" where
  "relative_part f =
     (if char_at f 0 = CHR ''.'' \<and> char_at f 1 = CHR ''/'' then drop 2 f else f)"

definition with_slash :: "string \<Rightarrow> string" where
  "with_slash d = (if last d = CHR ''/'' then d else d @ ''/'')"

lemma drop_1_dot_slash:
  assumes "char_at f 0 = CHR ''.''" and "char_at f 1 = CHR ''/''"
  shows "drop 1 f = CHR ''/'' # drop 2 f"
proof -
  have "Suc 0 < length f" "f ! Suc 0 = CHR ''/''"
    using assms by (auto simp: char_at_def split: if_splits)
  then show ?thesis using Cons_nth_drop_Suc [of 1 f] by (simp add: numeral_2_eq_2)
qed

lemma createAbsoluteFileName_relative:
  assumes "d \<noteq> []" "f \<noteq> []" "hd f \<noteq> CHR ''/''"
    and "str_find f d = None \<or> char_at f 0 = CHR ''.'' \<and> char_at f 1 = CHR ''/''"
  shows "createAbsoluteFileName d f = with_slash d @ relative_part f"
  using assms drop_1_dot_slash [of f] char_at_last [of d] char_at_0 [of f]
  by (auto simp: createAbsoluteFileName_def with_slash_def relative_part_def)

lemma createAbsoluteFileName_kept:
  assumes "d = [] \<or> f = [] \<or> hd f = CHR ''/'' \<or>
    str_find f d \<noteq> None \<and> \<not> (char_at f 0 = CHR ''.'' \<and> char_at f 1 = CHR ''/'')"
  shows "createAbsoluteFileName d f = f"
  using assms char_at_0 [of f] by (auto simp: createAbsoluteFileName_def)

subsection \<open>Properties\<close>

text \<open>
  A relative file name that does not contain the directory becomes the directory, exactly one
  separator, and the name without a leading \<open>./\<close>; every other name is passed on as it is. For an
  absolute directory the function is idempotent.
\<close>

theorem absolute_file_name:
  "createAbsoluteFileName d f =
    (if d \<noteq> [] \<and> f \<noteq> [] \<and> hd f \<noteq> CHR ''/'' \<and>
        (str_find f d = None \<or> char_at f 0 = CHR ''.'' \<and> char_at f 1 = CHR ''/'')
     then with_slash d @ relative_part f else f) \<and>
   (hd d = CHR ''/'' \<longrightarrow>
     createAbsoluteFileName d (createAbsoluteFileName d f) = createAbsoluteFileName d f)"
proof (cases "d \<noteq> [] \<and> f \<noteq> [] \<and> hd f \<noteq> CHR ''/'' \<and>
    (str_find f d = None \<or> char_at f 0 = CHR ''.'' \<and> char_at f 1 = CHR ''/'')")
  case True
  then have eq: "createAbsoluteFileName d f = with_slash d @ relative_part f"
    using createAbsoluteFileName_relative by blast
  have "hd (with_slash d @ relative_part f) = hd d" using True by (simp add: with_slash_def)
  then have "hd d = CHR ''/'' \<Longrightarrow> createAbsoluteFileName d (with_slash d @ relative_part f) =
      with_slash d @ relative_part f"
    by (intro createAbsoluteFileName_kept) simp
  with True eq show ?thesis by simp
next
  case False
  then have "createAbsoluteFileName d f = f" by (intro createAbsoluteFileName_kept) auto
  with False show ?thesis by auto
qed

theorem absolute_file_name_witness:
  "createAbsoluteFileName ''/home/u'' ''./a.c'' = ''/home/u/a.c'' \<and>
    createAbsoluteFileName ''/home/u'' (createAbsoluteFileName ''/home/u'' ''./a.c'') =
      createAbsoluteFileName ''/home/u'' ''./a.c''"
proof -
  note a = absolute_file_name [of "''/home/u''" "''./a.c''"]
  have "createAbsoluteFileName ''/home/u'' ''./a.c'' = ''/home/u/a.c''"
    using conjunct1 [OF a] by (simp add: char_at_def with_slash_def relative_part_def)
  moreover have "createAbsoluteFileName ''/home/u'' (createAbsoluteFileName ''/home/u'' ''./a.c'') =
      createAbsoluteFileName ''/home/u'' ''./a.c''"
    using conjunct2 [OF a] by (rule mp) simp
  ultimately show ?thesis by blast
qed

text \<open>
  A relative name that contains the directory anywhere, not only in front, is taken to be
  complete: the result is not absolute although the directory is.
\<close>

lemma directory_inside_name:
  assumes "f = a @ d @ b" and "a \<noteq> []" and "hd a \<noteq> CHR ''/''" and "hd a \<noteq> CHR ''.''"
  shows "createAbsoluteFileName d f = f \<and> hd (createAbsoluteFileName d f) \<noteq> CHR ''/''"
proof -
  have "str_find f d \<noteq> None" using assms(1) str_find_None [of f d] by blast
  moreover have "char_at f 0 = hd a" using assms(1,2) by (cases a) (simp_all add: char_at_def)
  ultimately have "createAbsoluteFileName d f = f"
    using assms by (intro createAbsoluteFileName_kept) auto
  with assms show ?thesis by simp
qed

end
