(* ===== verification/TsanPass.thy ===== *)
theory TsanPass
  imports DebugInfo
begin

text \<open>
  The instrumentation pass (\<open>ThreadSanitizer.cpp\<close>, \<open>EmbedSanitizerExtension.h\<close>). Instructions are
  data with the fields the pass reads; a value of the program is an opaque \<open>'v\<close>, and what LLVM
  answers about it is the record \<open>queries\<close>, a parameter of the definitions. The pass does not
  change values, so the queries are constant. A call the pass inserts is the name of the callee
  and its argument expressions.
\<close>

subsection \<open>Instructions\<close>

datatype AtomicOrdering = AO_NotAtomic | AO_Unordered | AO_Monotonic | AO_Acquire | AO_Release
  | AO_AcquireRelease | AO_SequentiallyConsistent

datatype SynchronizationScope = SingleThread | CrossThread

datatype BinOp = RMW_Xchg | RMW_Add | RMW_Sub | RMW_And | RMW_Nand | RMW_Or | RMW_Xor | RMW_Max
  | RMW_Min | RMW_UMax | RMW_UMin

text \<open>
  The kinds of instructions the pass tells apart. \<open>MemSetInst\<close>, \<open>MemCpyInst\<close> and \<open>MemMoveInst\<close> are the
  calls that are memory intrinsics; \<open>CallInst\<close> is any other call, with the name of the called
  function unless it is indirect. Loads and stores have their alignment, ordering and scope.
\<close>

datatype 'v kind =
    LoadInst 'v nat AtomicOrdering SynchronizationScope
  | StoreInst 'v 'v nat AtomicOrdering SynchronizationScope
  | AtomicRMWInst BinOp 'v 'v AtomicOrdering
  | AtomicCmpXchgInst 'v 'v 'v AtomicOrdering AtomicOrdering
  | FenceInst AtomicOrdering SynchronizationScope
  | CallInst "string option" "'v list"
  | MemSetInst "'v list"
  | MemCpyInst "'v list"
  | MemMoveInst "'v list"
  | InvokeInst
  | PHINode
  | ReturnInst
  | OtherInst

record 'v instr =
  i_id :: nat
  i_kind :: "'v kind"
  i_tbaaVtable :: bool
  i_loc :: "DebugLoc option"

fun pointer_of :: "'v kind \<Rightarrow> 'v option" where
  "pointer_of (LoadInst p _ _ _) = Some p"
| "pointer_of (StoreInst p _ _ _ _) = Some p"
| "pointer_of (AtomicRMWInst _ p _ _) = Some p"
| "pointer_of (AtomicCmpXchgInst p _ _ _ _) = Some p"
| "pointer_of _ = None"

fun is_load :: "'v kind \<Rightarrow> bool" where
  "is_load (LoadInst _ _ _ _) = True"
| "is_load _ = False"

fun is_store :: "'v kind \<Rightarrow> bool" where
  "is_store (StoreInst _ _ _ _ _) = True"
| "is_store _ = False"

fun is_mem_intrinsic :: "'v kind \<Rightarrow> bool" where
  "is_mem_intrinsic (MemSetInst _) = True"
| "is_mem_intrinsic (MemCpyInst _) = True"
| "is_mem_intrinsic (MemMoveInst _) = True"
| "is_mem_intrinsic _ = False"

fun is_call :: "'v kind \<Rightarrow> bool" where
  "is_call (CallInst _ _) = True"
| "is_call k = is_mem_intrinsic k"

subsection \<open>What LLVM answers about values\<close>

record global_var =
  gv_name :: string
  gv_section :: "string option"
  gv_isConstant :: bool

text \<open>
  \<open>q_load\<close> is \<open>dyn_cast<LoadInst>\<close> on the instruction that computes the value,
  \<open>q_typeStoreSizeInBits\<close> the size of the type a pointer points to, \<open>q_vectorOfIntegers\<close> is \<open>Some b\<close>
  for a value of vector type, with \<open>b\<close> if its elements are integers, and \<open>q_intWidth\<close> is \<open>Some w\<close>
  for a value of type \<open>iw\<close>.
\<close>

record 'v queries =
  q_stripInBoundsOffsets :: "'v \<Rightarrow> 'v"
  q_GetUnderlyingObject :: "'v \<Rightarrow> 'v option"
  q_PointerMayBeCaptured :: "'v \<Rightarrow> bool"
  q_AllocaInst :: "'v \<Rightarrow> bool"
  q_GlobalVariable :: "'v \<Rightarrow> global_var option"
  q_GEPPointerOperand :: "'v \<Rightarrow> 'v option"
  q_load :: "'v \<Rightarrow> 'v instr option"
  q_addressSpace :: "'v \<Rightarrow> nat"
  q_typeStoreSizeInBits :: "'v \<Rightarrow> nat"
  q_isSwiftError :: "'v \<Rightarrow> bool"
  q_vectorOfIntegers :: "'v \<Rightarrow> bool option"
  q_intWidth :: "'v \<Rightarrow> nat option"
  q_getName :: "'v \<Rightarrow> string"
  q_profSection :: string

subsection \<open>Statistics\<close>

record stats =
  NumInstrumentedReads :: i32
  NumInstrumentedWrites :: i32
  NumOmittedReadsBeforeWrite :: i32
  NumAccessesWithBadSize :: i32
  NumInstrumentedVtableWrites :: i32
  NumInstrumentedVtableReads :: i32
  NumOmittedReadsFromConstantGlobals :: i32
  NumOmittedReadsFromVtable :: i32
  NumOmittedNonCaptured :: i32

definition stats_init :: stats where
  "stats_init = \<lparr>NumInstrumentedReads = 0, NumInstrumentedWrites = 0,
     NumOmittedReadsBeforeWrite = 0, NumAccessesWithBadSize = 0, NumInstrumentedVtableWrites = 0,
     NumInstrumentedVtableReads = 0, NumOmittedReadsFromConstantGlobals = 0,
     NumOmittedReadsFromVtable = 0, NumOmittedNonCaptured = 0\<rparr>"

subsection \<open>Choosing the accesses\<close>

definition startswith :: "string \<Rightarrow> string \<Rightarrow> bool" where
  "startswith s p = is_prefix p s"

definition endswith :: "string \<Rightarrow> string \<Rightarrow> bool" where
  "endswith s p \<longleftrightarrow> length p \<le> length s \<and> drop (length s - length p) s = p"

definition isVtableAccess :: "'v instr \<Rightarrow> bool" where
  "isVtableAccess I = i_tbaaVtable I"

definition shouldInstrumentReadWriteFromAddress :: "'v queries \<Rightarrow> 'v \<Rightarrow> bool" where
  "shouldInstrumentReadWriteFromAddress q Addr0 =
     (let Addr = q_stripInBoundsOffsets q Addr0;
          skip_global = (case q_GlobalVariable q Addr of
              None \<Rightarrow> False
            | Some GV \<Rightarrow>
                (case gv_section GV of None \<Rightarrow> False
                 | Some SectionName \<Rightarrow> endswith SectionName (q_profSection q)) \<or>
                startswith (gv_name GV) ''__llvm_gcov'' \<or> startswith (gv_name GV) ''__llvm_gcda'')
      in if skip_global then False else q_addressSpace q Addr = 0)"

definition addrPointsToConstantData :: "'v queries \<Rightarrow> 'v \<Rightarrow> stats \<Rightarrow> bool \<times> stats" where
  "addrPointsToConstantData q Addr0 st =
     (let Addr = (case q_GEPPointerOperand q Addr0 of Some base \<Rightarrow> base | None \<Rightarrow> Addr0)
      in case q_GlobalVariable q Addr of
           Some GV \<Rightarrow>
             if gv_isConstant GV
             then (True, st\<lparr>NumOmittedReadsFromConstantGlobals := NumOmittedReadsFromConstantGlobals st + 1\<rparr>)
             else (False, st)
         | None \<Rightarrow>
             (case q_load q Addr of
                Some L \<Rightarrow>
                  if isVtableAccess L
                  then (True, st\<lparr>NumOmittedReadsFromVtable := NumOmittedReadsFromVtable st + 1\<rparr>)
                  else (False, st)
              | None \<Rightarrow> (False, st)))"

text \<open>
  The loop of \<open>chooseInstructionsToInstrument\<close>, over \<open>reverse(Local)\<close>. \<open>WriteTargets\<close> is the set of
  addresses stored to later in the block; the result is what is appended to \<open>All\<close>.
\<close>

definition not_captured :: "'v queries \<Rightarrow> 'v \<Rightarrow> bool" where
  "not_captured q Addr \<longleftrightarrow>
     (case q_GetUnderlyingObject q Addr of Some obj \<Rightarrow> q_AllocaInst q obj | None \<Rightarrow> False) \<and>
     \<not> q_PointerMayBeCaptured q Addr"

fun choose_loop :: "'v queries \<Rightarrow> 'v instr list \<Rightarrow> 'v list \<Rightarrow> stats \<Rightarrow> 'v instr list \<times> stats" where
  "choose_loop q [] WriteTargets st = ([], st)"
| "choose_loop q (I # Is) WriteTargets st =
     (case pointer_of (i_kind I) of
        None \<Rightarrow> choose_loop q Is WriteTargets st
      | Some Addr \<Rightarrow>
          if \<not> shouldInstrumentReadWriteFromAddress q Addr then choose_loop q Is WriteTargets st
          else if is_store (i_kind I) then
            let WT = List.insert Addr WriteTargets
            in if not_captured q Addr
               then choose_loop q Is WT (st\<lparr>NumOmittedNonCaptured := NumOmittedNonCaptured st + 1\<rparr>)
               else let (Insts, st') = choose_loop q Is WT st in (I # Insts, st')
          else if Addr \<in> set WriteTargets then
            choose_loop q Is WriteTargets
              (st\<lparr>NumOmittedReadsBeforeWrite := NumOmittedReadsBeforeWrite st + 1\<rparr>)
          else
            let (const, st1) = addrPointsToConstantData q Addr st
            in if const then choose_loop q Is WriteTargets st1
               else if not_captured q Addr
               then choose_loop q Is WriteTargets (st1\<lparr>NumOmittedNonCaptured := NumOmittedNonCaptured st1 + 1\<rparr>)
               else let (Insts, st') = choose_loop q Is WriteTargets st1 in (I # Insts, st'))"

definition chooseInstructionsToInstrument ::
    "'v queries \<Rightarrow> 'v instr list \<Rightarrow> 'v instr list \<Rightarrow> stats \<Rightarrow> 'v instr list \<times> stats" where
  "chooseInstructionsToInstrument q Local Insts st =
     (let (chosen, st') = choose_loop q (rev Local) [] st in (Insts @ chosen, st'))"

definition isAtomic :: "'v instr \<Rightarrow> bool" where
  "isAtomic I = (case i_kind I of
      LoadInst _ _ ord scope \<Rightarrow> ord \<noteq> AO_NotAtomic \<and> scope = CrossThread
    | StoreInst _ _ _ ord scope \<Rightarrow> ord \<noteq> AO_NotAtomic \<and> scope = CrossThread
    | AtomicRMWInst _ _ _ _ \<Rightarrow> True
    | AtomicCmpXchgInst _ _ _ _ _ \<Rightarrow> True
    | FenceInst _ _ \<Rightarrow> True
    | _ \<Rightarrow> False)"

subsection \<open>The code that is inserted\<close>

text \<open>Types and values that \<open>IRBuilder\<close> makes.\<close>

datatype 'v ty = VoidTy | IntTy nat | PtrTy "'v ty" | IntptrTy | PointeeTy 'v | TypeOf 'v

datatype 'v expr =
    Val 'v
  | ConstantInt nat nat
  | GlobalStringPtr string
  | PointerCast "'v expr" "'v ty"
  | IntCast "'v expr" "'v ty"
  | BitOrPointerCast "'v expr" "'v ty"
  | IntToPtr "'v expr" "'v ty"
  | ExtractElement "'v expr" nat
  | CallResult string "'v expr list"
  | ICmpEQ "'v expr" "'v expr"
  | InsertValue "'v expr" "'v expr" nat
  | UndefValue

type_synonym 'v emitted = "string \<times> 'v expr list"

abbreviation Int8PtrTy :: "'v ty" where
  "Int8PtrTy \<equiv> PtrTy (IntTy 8)"

text \<open>\<open>CreateIntCast\<close> folds constants: the value is truncated to the width of the type.\<close>

fun CreateIntCast :: "'v expr \<Rightarrow> 'v ty \<Rightarrow> 'v expr" where
  "CreateIntCast (ConstantInt w n) (IntTy b) = ConstantInt b (n mod 2 ^ b)"
| "CreateIntCast e t = IntCast e t"

text \<open>What happens to an instrumented instruction: calls before it, the instruction itself, and the
  value that replaces its uses.\<close>

datatype 'v self = Kept | Erased | ReplacedBy "'v emitted"

record 'v edit =
  ed_before :: "'v emitted list"
  ed_self :: "'v self"
  ed_uses :: "'v expr option"

definition no_edit :: "'v edit" where
  "no_edit = \<lparr>ed_before = [], ed_self = Kept, ed_uses = None\<rparr>"

subsection \<open>The callbacks by access size\<close>

definition kNumberOfAccessSizes :: nat where
  "kNumberOfAccessSizes = 5"

definition TsanRead :: "nat \<Rightarrow> string" where
  "TsanRead i = ''__tsan_read'' @ show_nat (2 ^ i)"

definition TsanWrite :: "nat \<Rightarrow> string" where
  "TsanWrite i = ''__tsan_write'' @ show_nat (2 ^ i)"

definition TsanUnalignedRead :: "nat \<Rightarrow> string" where
  "TsanUnalignedRead i = ''__tsan_unaligned_read'' @ show_nat (2 ^ i)"

definition TsanUnalignedWrite :: "nat \<Rightarrow> string" where
  "TsanUnalignedWrite i = ''__tsan_unaligned_write'' @ show_nat (2 ^ i)"

definition TsanAtomicLoad :: "nat \<Rightarrow> string" where
  "TsanAtomicLoad i = ''__tsan_atomic'' @ show_nat (2 ^ i * 8) @ ''_load''"

definition TsanAtomicStore :: "nat \<Rightarrow> string" where
  "TsanAtomicStore i = ''__tsan_atomic'' @ show_nat (2 ^ i * 8) @ ''_store''"

definition TsanAtomicRMW :: "BinOp \<Rightarrow> nat \<Rightarrow> string option" where
  "TsanAtomicRMW op i =
     map_option (\<lambda>NamePart. ''__tsan_atomic'' @ show_nat (2 ^ i * 8) @ NamePart)
       (case op of
          RMW_Xchg \<Rightarrow> Some ''_exchange''
        | RMW_Add \<Rightarrow> Some ''_fetch_add''
        | RMW_Sub \<Rightarrow> Some ''_fetch_sub''
        | RMW_And \<Rightarrow> Some ''_fetch_and''
        | RMW_Or \<Rightarrow> Some ''_fetch_or''
        | RMW_Xor \<Rightarrow> Some ''_fetch_xor''
        | RMW_Nand \<Rightarrow> Some ''_fetch_nand''
        | _ \<Rightarrow> None)"

definition TsanAtomicCAS :: "nat \<Rightarrow> string" where
  "TsanAtomicCAS i = ''__tsan_atomic'' @ show_nat (2 ^ i * 8) @ ''_compare_exchange_val''"

text \<open>
  \<open>initializeCallbacks\<close> declares them all: name, type of the result, types of the arguments.
\<close>

type_synonym 'v fn_decl = "string \<times> 'v ty \<times> 'v ty list"

definition access_args :: "'v ty list" where
  "access_args = [Int8PtrTy, IntTy 8, Int8PtrTy, Int8PtrTy]"

definition all_BinOps :: "BinOp list" where
  "all_BinOps = [RMW_Xchg, RMW_Add, RMW_Sub, RMW_And, RMW_Nand, RMW_Or, RMW_Xor, RMW_Max, RMW_Min,
     RMW_UMax, RMW_UMin]"

definition callbacks_of_size :: "nat \<Rightarrow> 'v fn_decl list" where
  "callbacks_of_size i =
     (let Ty = IntTy (2 ^ i * 8); PtrTy' = PtrTy Ty; OrdTy = IntTy 32
      in [(TsanRead i, VoidTy, access_args), (TsanWrite i, VoidTy, access_args),
          (TsanUnalignedRead i, VoidTy, access_args), (TsanUnalignedWrite i, VoidTy, access_args),
          (TsanAtomicLoad i, Ty, [PtrTy', OrdTy]), (TsanAtomicStore i, VoidTy, [PtrTy', Ty, OrdTy])] @
         concat (map (\<lambda>op. case TsanAtomicRMW op i of None \<Rightarrow> []
           | Some RMWName \<Rightarrow> [(RMWName, Ty, [PtrTy', Ty, OrdTy])]) all_BinOps) @
         [(TsanAtomicCAS i, Ty, [PtrTy', Ty, Ty, OrdTy, OrdTy])])"

definition initializeCallbacks :: "'v fn_decl list" where
  "initializeCallbacks =
     [(''__tsan_main_func_exit'', VoidTy, []), (''__tsan_func_entry'', VoidTy, [Int8PtrTy]),
      (''__tsan_func_exit'', VoidTy, []), (''__tsan_ignore_thread_begin'', VoidTy, []),
      (''__tsan_ignore_thread_end'', VoidTy, [])] @
     concat (map callbacks_of_size [0..<kNumberOfAccessSizes]) @
     [(''__tsan_vptr_update'', VoidTy, [Int8PtrTy, Int8PtrTy, IntTy 8, Int8PtrTy, Int8PtrTy]),
      (''__tsan_vptr_read'', VoidTy, [Int8PtrTy, IntTy 8, Int8PtrTy, Int8PtrTy]),
      (''__tsan_atomic_thread_fence'', VoidTy, [IntTy 32]),
      (''__tsan_atomic_signal_fence'', VoidTy, [IntTy 32]),
      (''memmove'', Int8PtrTy, [Int8PtrTy, Int8PtrTy, IntptrTy]),
      (''memcpy'', Int8PtrTy, [Int8PtrTy, Int8PtrTy, IntptrTy]),
      (''memset'', Int8PtrTy, [Int8PtrTy, IntTy 32, IntptrTy])]"

subsection \<open>Single instructions\<close>

text \<open>\<open>countTrailingZeros\<close> on 32 bits.\<close>

fun countTrailingZeros :: "nat \<Rightarrow> nat" where
  "countTrailingZeros n =
     (if n = 0 then 32 else if n mod 2 = 1 then 0 else Suc (countTrailingZeros (n div 2)))"

declare countTrailingZeros.simps [simp del]

text \<open>\<open>None\<close> is the result \<open>-1\<close>.\<close>

definition getMemoryAccessFuncIndex :: "'v queries \<Rightarrow> 'v \<Rightarrow> stats \<Rightarrow> nat option \<times> stats" where
  "getMemoryAccessFuncIndex q Addr st =
     (let TypeSize = (word_of_nat (q_typeStoreSizeInBits q Addr) :: i32)
      in if TypeSize \<noteq> 8 \<and> TypeSize \<noteq> 16 \<and> TypeSize \<noteq> 32 \<and> TypeSize \<noteq> 64 \<and> TypeSize \<noteq> 128
         then (None, st\<lparr>NumAccessesWithBadSize := NumAccessesWithBadSize st + 1\<rparr>)
         else (Some (countTrailingZeros (unat (TypeSize div 8))), st))"

definition object_name :: "'v queries \<Rightarrow> 'v \<Rightarrow> string" where
  "object_name q Addr = getObjectName (map_option (q_getName q) (q_GetUnderlyingObject q Addr))"

text \<open>The line, the object and the file: the last three arguments of every access callback.\<close>

definition location_args :: "'v queries \<Rightarrow> 'v \<Rightarrow> 'v instr \<Rightarrow> 'v expr list" where
  "location_args q Addr I =
     [CreateIntCast (ConstantInt 32 (unat (getLineNumber (i_loc I)))) (IntTy 8),
      GlobalStringPtr (object_name q Addr),
      GlobalStringPtr (getFileName (i_loc I))]"

definition alignment_of :: "'v kind \<Rightarrow> nat" where
  "alignment_of k = (case k of LoadInst _ a _ _ \<Rightarrow> a | StoreInst _ _ a _ _ \<Rightarrow> a | _ \<Rightarrow> 0)"

definition stored_value :: "'v queries \<Rightarrow> 'v \<Rightarrow> 'v expr" where
  "stored_value q v =
     (let (e, is_int) = (case q_vectorOfIntegers q v of
            Some b \<Rightarrow> (ExtractElement (Val v) 0, b)
          | None \<Rightarrow> (Val v, q_intWidth q v \<noteq> None))
      in if is_int then IntToPtr e Int8PtrTy else e)"

definition OnAccessFunc :: "bool \<Rightarrow> nat \<Rightarrow> nat \<Rightarrow> nat \<Rightarrow> string" where
  "OnAccessFunc IsWrite Alignment TypeSize Idx =
     (if Alignment = 0 \<or> Alignment \<ge> 8 \<or> Alignment mod (TypeSize div 8) = 0
      then if IsWrite then TsanWrite Idx else TsanRead Idx
      else if IsWrite then TsanUnalignedWrite Idx else TsanUnalignedRead Idx)"

definition instrumentLoadOrStore :: "'v queries \<Rightarrow> 'v instr \<Rightarrow> stats \<Rightarrow> bool \<times> 'v edit \<times> stats" where
  "instrumentLoadOrStore q I st =
     (case pointer_of (i_kind I) of
        None \<Rightarrow> (False, no_edit, st)
      | Some Addr \<Rightarrow>
        let IsWrite = is_store (i_kind I)
        in if q_isSwiftError q Addr then (False, no_edit, st)
           else case getMemoryAccessFuncIndex q Addr st of
             (None, st1) \<Rightarrow> (False, no_edit, st1)
           | (Some Idx, st1) \<Rightarrow>
             let ptr = PointerCast (Val Addr) Int8PtrTy; loc = location_args q Addr I
             in case i_kind I of
                 StoreInst _ v _ _ _ \<Rightarrow>
                   if isVtableAccess I then
                     (True, no_edit\<lparr>ed_before :=
                        [(''__tsan_vptr_update'', ptr # PointerCast (stored_value q v) Int8PtrTy # loc)]\<rparr>,
                      st1\<lparr>NumInstrumentedVtableWrites := NumInstrumentedVtableWrites st1 + 1\<rparr>)
                   else
                     (True, no_edit\<lparr>ed_before := [(OnAccessFunc True (alignment_of (i_kind I))
                        (unat (word_of_nat (q_typeStoreSizeInBits q Addr) :: i32)) Idx, ptr # loc)]\<rparr>,
                      st1\<lparr>NumInstrumentedWrites := NumInstrumentedWrites st1 + 1\<rparr>)
               | _ \<Rightarrow>
                   if isVtableAccess I then
                     (True, no_edit\<lparr>ed_before := [(''__tsan_vptr_read'', ptr # loc)]\<rparr>,
                      st1\<lparr>NumInstrumentedVtableReads := NumInstrumentedVtableReads st1 + 1\<rparr>)
                   else
                     (True, no_edit\<lparr>ed_before := [(OnAccessFunc IsWrite (alignment_of (i_kind I))
                        (unat (word_of_nat (q_typeStoreSizeInBits q Addr) :: i32)) Idx, ptr # loc)]\<rparr>,
                      st1\<lparr>NumInstrumentedReads := NumInstrumentedReads st1 + 1\<rparr>))"

fun createOrdering :: "AtomicOrdering \<Rightarrow> nat res" where
  "createOrdering AO_NotAtomic = Inl Unreachable"
| "createOrdering AO_Unordered = Inr 0"
| "createOrdering AO_Monotonic = Inr 0"
| "createOrdering AO_Acquire = Inr 2"
| "createOrdering AO_Release = Inr 3"
| "createOrdering AO_AcquireRelease = Inr 4"
| "createOrdering AO_SequentiallyConsistent = Inr 5"

definition ordering_arg :: "AtomicOrdering \<Rightarrow> 'v expr res" where
  "ordering_arg ord = bnd (createOrdering ord) (\<lambda>v. Inr (ConstantInt 32 v))"

fun mem_call :: "'v list \<Rightarrow> (nat \<Rightarrow> 'v \<Rightarrow> 'v expr) \<Rightarrow> 'v expr list res" where
  "mem_call args cast =
     bnd (vget args 0) (\<lambda>a. bnd (vget args 1) (\<lambda>b. bnd (vget args 2) (\<lambda>c.
       Inr [cast 0 a, cast 1 b, cast 2 c])))"

definition instrumentMemIntrinsic :: "'v instr \<Rightarrow> (bool \<times> 'v edit) res" where
  "instrumentMemIntrinsic I =
     (let pointers = (\<lambda>i a. if i = 2 then IntCast (Val a) IntptrTy else PointerCast (Val a) Int8PtrTy);
          set_args = (\<lambda>i a. if i = 0 then PointerCast (Val a) Int8PtrTy
             else if i = 1 then IntCast (Val a) (IntTy 32) else IntCast (Val a) IntptrTy);
          call = (\<lambda>f args. Inr (False, \<lparr>ed_before = [(f, args)], ed_self = Erased, ed_uses = None\<rparr>))
      in case i_kind I of
           MemSetInst args \<Rightarrow> bnd (mem_call args set_args) (call ''memset'')
         | MemCpyInst args \<Rightarrow> bnd (mem_call args pointers) (call ''memcpy'')
         | MemMoveInst args \<Rightarrow> bnd (mem_call args pointers) (call ''memmove'')
         | _ \<Rightarrow> Inr (False, no_edit))"

text \<open>The branches of \<open>instrumentAtomic\<close>; \<open>Idx\<close> is the access size.\<close>

definition atomic_load :: "'v \<Rightarrow> AtomicOrdering \<Rightarrow> nat \<Rightarrow> (bool \<times> 'v edit) res" where
  "atomic_load Addr ord Idx =
     bnd (ordering_arg ord) (\<lambda>o1.
       let Args = [PointerCast (Val Addr) (PtrTy (IntTy (2 ^ Idx * 8))), o1]; F = TsanAtomicLoad Idx
       in Inr (True, \<lparr>ed_before = [(F, Args)], ed_self = Kept,
            ed_uses = Some (BitOrPointerCast (CallResult F Args) (PointeeTy Addr))\<rparr>))"

definition atomic_store :: "'v \<Rightarrow> 'v \<Rightarrow> AtomicOrdering \<Rightarrow> nat \<Rightarrow> (bool \<times> 'v edit) res" where
  "atomic_store Addr v ord Idx =
     bnd (ordering_arg ord) (\<lambda>o1.
       let Ty = IntTy (2 ^ Idx * 8);
           Args = [PointerCast (Val Addr) (PtrTy Ty), BitOrPointerCast (Val v) Ty, o1]
       in Inr (True, no_edit\<lparr>ed_self := ReplacedBy (TsanAtomicStore Idx, Args)\<rparr>))"

definition atomic_rmw :: "BinOp \<Rightarrow> 'v \<Rightarrow> 'v \<Rightarrow> AtomicOrdering \<Rightarrow> nat \<Rightarrow> (bool \<times> 'v edit) res" where
  "atomic_rmw op Addr v ord Idx =
     (case TsanAtomicRMW op Idx of
        None \<Rightarrow> Inr (False, no_edit)
      | Some F \<Rightarrow> bnd (ordering_arg ord) (\<lambda>o1.
          let Ty = IntTy (2 ^ Idx * 8);
              Args = [PointerCast (Val Addr) (PtrTy Ty), IntCast (Val v) Ty, o1]
          in Inr (True, no_edit\<lparr>ed_self := ReplacedBy (F, Args)\<rparr>)))"

definition atomic_cas :: "'v queries \<Rightarrow> 'v \<Rightarrow> 'v \<Rightarrow> 'v \<Rightarrow> AtomicOrdering \<Rightarrow> AtomicOrdering \<Rightarrow> nat \<Rightarrow> (bool \<times> 'v edit) res" where
  "atomic_cas q Addr cmp new succ_ord fail_ord Idx =
     bnd (ordering_arg succ_ord) (\<lambda>o1. bnd (ordering_arg fail_ord) (\<lambda>o2.
       let Ty = IntTy (2 ^ Idx * 8);
           CmpOperand = BitOrPointerCast (Val cmp) Ty; NewOperand = BitOrPointerCast (Val new) Ty;
           Args = [PointerCast (Val Addr) (PtrTy Ty), CmpOperand, NewOperand, o1, o2];
           C = CallResult (TsanAtomicCAS Idx) Args;
           Success = ICmpEQ C CmpOperand;
           OldVal = (if q_intWidth q new \<noteq> Some (2 ^ Idx * 8) then IntToPtr C (TypeOf new) else C);
           Res = InsertValue (InsertValue UndefValue OldVal 0) Success 1
       in Inr (True, \<lparr>ed_before = [(TsanAtomicCAS Idx, Args)], ed_self = Erased, ed_uses = Some Res\<rparr>)))"

definition atomic_fence :: "AtomicOrdering \<Rightarrow> SynchronizationScope \<Rightarrow> (bool \<times> 'v edit) res" where
  "atomic_fence ord scope =
     bnd (ordering_arg ord) (\<lambda>o1.
       let F = (if scope = SingleThread then ''__tsan_atomic_signal_fence''
                else ''__tsan_atomic_thread_fence'')
       in Inr (True, no_edit\<lparr>ed_self := ReplacedBy (F, [o1])\<rparr>))"

definition instrumentAtomic :: "'v queries \<Rightarrow> 'v instr \<Rightarrow> stats \<Rightarrow> ((bool \<times> 'v edit) \<times> stats) res" where
  "instrumentAtomic q I st =
     (case pointer_of (i_kind I) of
        None \<Rightarrow>
          (case i_kind I of
             FenceInst ord scope \<Rightarrow> bnd (atomic_fence ord scope) (\<lambda>r. Inr (r, st))
           | _ \<Rightarrow> Inr ((True, no_edit), st))
      | Some Addr \<Rightarrow>
          (case getMemoryAccessFuncIndex q Addr st of
             (None, st1) \<Rightarrow> Inr ((False, no_edit), st1)
           | (Some Idx, st1) \<Rightarrow>
             bnd (case i_kind I of
                LoadInst _ _ ord _ \<Rightarrow> atomic_load Addr ord Idx
              | StoreInst _ v _ ord _ \<Rightarrow> atomic_store Addr v ord Idx
              | AtomicRMWInst op _ v ord \<Rightarrow> atomic_rmw op Addr v ord Idx
              | AtomicCmpXchgInst _ c n so fo \<Rightarrow> atomic_cas q Addr c n so fo Idx
              | _ \<Rightarrow> Inr (True, no_edit)) (\<lambda>r. Inr (r, st1))))"

subsection \<open>Synchronisation calls\<close>

text \<open>
  \<open>InstrIfSynchronization\<close>: the callback is inserted after the call, except for an unlock, where
  it goes before.
\<close>

datatype place = Before | After

definition InstrIfSynchronization :: "'v instr \<Rightarrow> (place \<times> 'v emitted) option res" where
  "InstrIfSynchronization Inst =
     (case i_kind Inst of
        CallInst (Some name) args \<Rightarrow>
          let callback = (\<lambda>place f. bnd (vget args 0) (\<lambda>a. Inr (Some (place, (f, [Val a])))))
          in if startswith name ''pthread_create'' then callback After ''__tsan_thread_create''
             else if startswith name ''pthread_join'' then callback After ''__tsan_thread_join''
             else if startswith name ''pthread_mutex_lock'' then callback After ''__tsan_thread_lock''
             else if startswith name ''pthread_mutex_unlock'' then callback Before ''__tsan_thread_unlock''
             else Inr None
      | _ \<Rightarrow> Inr None)"

subsection \<open>A whole function\<close>

text \<open>
  \<open>EscapeEnumerator\<close> is a parameter: the ids of the instructions before which it lets the pass
  insert code at the exits of the function. The cleanup blocks it adds for exceptions are not
  modelled.
\<close>

record 'v func =
  f_name :: string
  f_blocks :: "'v instr list list"
  f_SanitizeThread :: bool
  f_noChecking :: bool
  f_isTsanCtor :: bool

record cl_opts =
  ClInstrumentMemoryAccesses :: bool
  ClInstrumentFuncEntryExit :: bool
  ClHandleCxxExceptions :: bool
  ClInstrumentAtomics :: bool
  ClInstrumentMemIntrinsics :: bool

definition default_opts :: cl_opts where
  "default_opts = \<lparr>ClInstrumentMemoryAccesses = True, ClInstrumentFuncEntryExit = True,
     ClHandleCxxExceptions = True, ClInstrumentAtomics = True, ClInstrumentMemIntrinsics = True\<rparr>"

text \<open>The first traversal: what it collects.\<close>

record 'v found =
  AllLoadsAndStores :: "'v instr list"
  LocalLoadsAndStores :: "'v instr list"
  AtomicAccesses :: "'v instr list"
  MemIntrinCalls :: "'v instr list"
  HasCalls :: bool
  syncs :: "(nat \<times> place \<times> 'v emitted) list"
  counts :: stats

definition found_init :: "stats \<Rightarrow> 'v found" where
  "found_init st = \<lparr>AllLoadsAndStores = [], LocalLoadsAndStores = [], AtomicAccesses = [],
     MemIntrinCalls = [], HasCalls = False, syncs = [], counts = st\<rparr>"

definition flush_local :: "'v queries \<Rightarrow> 'v found \<Rightarrow> 'v found" where
  "flush_local q s =
     (let (Insts, st) = chooseInstructionsToInstrument q (LocalLoadsAndStores s) (AllLoadsAndStores s) (counts s)
      in s\<lparr>AllLoadsAndStores := Insts, LocalLoadsAndStores := [], counts := st\<rparr>)"

definition collect_inst :: "'v queries \<Rightarrow> 'v instr \<Rightarrow> 'v found \<Rightarrow> 'v found res" where
  "collect_inst q Inst s =
     (if isAtomic Inst then Inr (s\<lparr>AtomicAccesses := AtomicAccesses s @ [Inst]\<rparr>)
      else if is_load (i_kind Inst) \<or> is_store (i_kind Inst)
      then Inr (s\<lparr>LocalLoadsAndStores := LocalLoadsAndStores s @ [Inst]\<rparr>)
      else if is_call (i_kind Inst) \<or> i_kind Inst = InvokeInst then
        bnd (InstrIfSynchronization Inst) (\<lambda>sync.
          let s1 = (case sync of None \<Rightarrow> s | Some c \<Rightarrow> s\<lparr>syncs := syncs s @ [(i_id Inst, c)]\<rparr>);
              s2 = (if is_mem_intrinsic (i_kind Inst)
                    then s1\<lparr>MemIntrinCalls := MemIntrinCalls s1 @ [Inst]\<rparr> else s1)
          in Inr (flush_local q (s2\<lparr>HasCalls := True\<rparr>)))
      else Inr s)"

fun collect_insts :: "'v queries \<Rightarrow> 'v instr list \<Rightarrow> 'v found \<Rightarrow> 'v found res" where
  "collect_insts q [] s = Inr (flush_local q s)"
| "collect_insts q (I # Is) s = bnd (collect_inst q I s) (collect_insts q Is)"

fun collect_blocks :: "'v queries \<Rightarrow> 'v instr list list \<Rightarrow> 'v found \<Rightarrow> 'v found res" where
  "collect_blocks q [] s = Inr s"
| "collect_blocks q (BB # BBs) s = bnd (collect_insts q BB s) (collect_blocks q BBs)"

text \<open>The instrumenting loops: \<open>Res\<close>, the edits by instruction, the statistics.\<close>

type_synonym 'v edits = "(nat \<times> 'v edit) list"

fun instrument_accesses :: "'v queries \<Rightarrow> 'v instr list \<Rightarrow> bool \<times> 'v edits \<times> stats \<Rightarrow> bool \<times> 'v edits \<times> stats" where
  "instrument_accesses q [] r = r"
| "instrument_accesses q (I # Is) (Res, es, st) =
     (let (b, e, st') = instrumentLoadOrStore q I st
      in instrument_accesses q Is (Res \<or> b, es @ [(i_id I, e)], st'))"

fun instrument_atomics :: "'v queries \<Rightarrow> 'v instr list \<Rightarrow> bool \<times> 'v edits \<times> stats \<Rightarrow> (bool \<times> 'v edits \<times> stats) res" where
  "instrument_atomics q [] r = Inr r"
| "instrument_atomics q (I # Is) (Res, es, st) =
     bnd (instrumentAtomic q I st) (\<lambda>((b, e), st').
       instrument_atomics q Is (Res \<or> b, es @ [(i_id I, e)], st'))"

fun instrument_intrinsics :: "'v instr list \<Rightarrow> bool \<times> 'v edits \<times> stats \<Rightarrow> (bool \<times> 'v edits \<times> stats) res" where
  "instrument_intrinsics [] r = Inr r"
| "instrument_intrinsics (I # Is) (Res, es, st) =
     bnd (instrumentMemIntrinsic I) (\<lambda>(b, e).
       instrument_intrinsics Is (Res \<or> b, es @ [(i_id I, e)], st))"

text \<open>The function after the pass: original instructions and inserted calls.\<close>

datatype 'v item = Orig "'v instr" | Inserted "'v emitted"

definition item_of :: "'v edits \<Rightarrow> (nat \<times> place \<times> 'v emitted) list \<Rightarrow> 'v emitted list \<Rightarrow> (nat \<Rightarrow> bool) \<Rightarrow> 'v instr \<Rightarrow> 'v item list" where
  "item_of es sy exit_calls escape I =
     (let e = (case map_of es (i_id I) of None \<Rightarrow> no_edit | Some e \<Rightarrow> e);
          sync = map_of sy (i_id I)
      in (case sync of Some (Before, c) \<Rightarrow> [Inserted c] | _ \<Rightarrow> []) @
         map Inserted (ed_before e) @
         (if escape (i_id I) then map Inserted exit_calls else []) @
         (case ed_self e of Kept \<Rightarrow> [Orig I] | Erased \<Rightarrow> [] | ReplacedBy c \<Rightarrow> [Inserted c]) @
         (case sync of Some (After, c) \<Rightarrow> [Inserted c] | _ \<Rightarrow> []))"

fun is_phi :: "'v item \<Rightarrow> bool" where
  "is_phi (Orig I) = (i_kind I = PHINode)"
| "is_phi (Inserted c) = False"

definition insert_at_entry :: "'v emitted list \<Rightarrow> 'v item list list \<Rightarrow> 'v item list list" where
  "insert_at_entry calls bs =
     (case bs of [] \<Rightarrow> []
      | entry # rest \<Rightarrow> (takeWhile is_phi entry @ map Inserted calls @ dropWhile is_phi entry) # rest)"

record 'v result =
  r_Res :: bool
  r_blocks :: "'v item list list"
  r_uses :: "(nat \<times> 'v expr) list"
  r_stats :: stats

text \<open>
  The body of \<open>runOnFunction\<close> after the traversal, with the assertion that a function whose checks are off at run
  time is not one to sanitize.
\<close>

definition rewrite_function ::
    "'v queries \<Rightarrow> cl_opts \<Rightarrow> demangler \<Rightarrow> ('v func \<Rightarrow> bool \<Rightarrow> nat list) \<Rightarrow> 'v func \<Rightarrow> 'v found \<Rightarrow> 'v result res" where
  "rewrite_function q opts cxa_demangle EscapeEnumerator F s =
     (let r0 = (False, [], counts s);
          r1 = (if ClInstrumentMemoryAccesses opts \<and> f_SanitizeThread F
                then instrument_accesses q (AllLoadsAndStores s) r0 else r0)
      in bnd (if ClInstrumentAtomics opts then instrument_atomics q (AtomicAccesses s) r1 else Inr r1) (\<lambda>r2.
         bnd (if ClInstrumentMemIntrinsics opts \<and> f_SanitizeThread F
              then instrument_intrinsics (MemIntrinCalls s) r2 else Inr r2) (\<lambda>(Res, es, st).
           if f_noChecking F \<and> f_SanitizeThread F then Inl Unreachable
           else let ignores = f_noChecking F \<and> HasCalls s;
               entry_exit = (Res \<or> HasCalls s) \<and> ClInstrumentFuncEntryExit opts;
               func_name = PointerCast (GlobalStringPtr (getFuncName cxa_demangle (f_name F))) Int8PtrTy;
               is_main = (getFuncNameStr cxa_demangle (f_name F) = ''main'');
               exit_calls = (if ignores then [(''__tsan_ignore_thread_end'', [])] else []) @
                 (if entry_exit then (''__tsan_func_exit'', [func_name]) #
                    (if is_main then [(''__tsan_main_func_exit'', [func_name])] else []) else []);
               entry_calls = (if entry_exit then [(''__tsan_func_entry'', [func_name])] else []) @
                 (if ignores then [(''__tsan_ignore_thread_begin'', [])] else []);
               escapes = EscapeEnumerator F (ClHandleCxxExceptions opts)
           in Inr \<lparr>r_Res = Res \<or> entry_exit,
                r_blocks = insert_at_entry entry_calls
                  (map (\<lambda>BB. concat (map (item_of es (syncs s) exit_calls (\<lambda>i. i \<in> set escapes)) BB)) (f_blocks F)),
                r_uses = concat (map (\<lambda>(i, e). case ed_uses e of None \<Rightarrow> [] | Some u \<Rightarrow> [(i, u)]) es),
                r_stats = st\<rparr>)))"

definition runOnFunction ::
    "'v queries \<Rightarrow> cl_opts \<Rightarrow> demangler \<Rightarrow> ('v func \<Rightarrow> bool \<Rightarrow> nat list) \<Rightarrow> 'v func \<Rightarrow> stats \<Rightarrow> 'v result res" where
  "runOnFunction q opts cxa_demangle EscapeEnumerator F st =
     (if f_isTsanCtor F
      then Inr \<lparr>r_Res = False, r_blocks = map (map Orig) (f_blocks F), r_uses = [], r_stats = st\<rparr>
      else bnd (collect_blocks q (f_blocks F) (found_init st)) (rewrite_function q opts cxa_demangle EscapeEnumerator F))"

subsection \<open>The constructor\<close>

text \<open>\<open>doInitialization\<close> appends one global constructor, \<open>tsan.module_ctor\<close>, which calls
  \<open>__tsan_init\<close>, with priority 0.\<close>

definition doInitialization :: "(string \<times> string \<times> nat) list \<Rightarrow> bool \<times> (string \<times> string \<times> nat) list" where
  "doInitialization ctors = (True, ctors @ [(''tsan.module_ctor'', ''__tsan_init'', 0)])"

end
