(* ===== verification/Instrumentation.thy ===== *)
theory Instrumentation
  imports TsanPass
begin

text \<open>
  What the instrumentation pass of \<open>TsanPass\<close> guarantees: which accesses it leaves out and why, where
  it puts the callbacks, and how the calls it inserts fit the functions the runtime defines.
\<close>

subsection \<open>Lemmas on the choice of accesses\<close>

lemma addrPointsToConstantData_fst:
  "fst (addrPointsToConstantData q Addr st) = fst (addrPointsToConstantData q Addr st')"
  by (simp add: addrPointsToConstantData_def Let_def split: option.splits)

definition points_to_constant :: "'v queries \<Rightarrow> 'v \<Rightarrow> bool" where
  "points_to_constant q Addr = fst (addrPointsToConstantData q Addr stats_init)"

lemma addrPointsToConstantData_eq:
  "addrPointsToConstantData q Addr st = (c, st') \<Longrightarrow> c = points_to_constant q Addr"
  using addrPointsToConstantData_fst [of q Addr st stats_init] by (simp add: points_to_constant_def)

text \<open>
  The reasons for which an access is left out, other than a later write, in terms of what LLVM answers:
  the address is that of a counter of the profiler or of \<open>gcov\<close> or lies in another address space; the variable
  is local and its address does not escape; the access reads a constant or a virtual table.
\<close>

definition profiler_data :: "'v queries \<Rightarrow> global_var \<Rightarrow> bool" where
  "profiler_data q GV \<longleftrightarrow> (\<exists>p. gv_section GV = Some (p @ q_profSection q)) \<or>
     (\<exists>n. gv_name GV = ''__llvm_gcov'' @ n \<or> gv_name GV = ''__llvm_gcda'' @ n)"

definition off_limits :: "'v queries \<Rightarrow> 'v \<Rightarrow> bool" where
  "off_limits q Addr \<longleftrightarrow> (let A = q_stripInBoundsOffsets q Addr
     in (\<exists>GV. q_GlobalVariable q A = Some GV \<and> profiler_data q GV) \<or> q_addressSpace q A \<noteq> 0)"

definition private_local :: "'v queries \<Rightarrow> 'v \<Rightarrow> bool" where
  "private_local q Addr \<longleftrightarrow>
     (\<exists>obj. q_GetUnderlyingObject q Addr = Some obj \<and> q_AllocaInst q obj) \<and> \<not> q_PointerMayBeCaptured q Addr"

definition constant_data :: "'v queries \<Rightarrow> 'v \<Rightarrow> bool" where
  "constant_data q Addr \<longleftrightarrow> (let A = (case q_GEPPointerOperand q Addr of Some base \<Rightarrow> base | None \<Rightarrow> Addr)
     in (\<exists>GV. q_GlobalVariable q A = Some GV \<and> gv_isConstant GV) \<or>
        q_GlobalVariable q A = None \<and> (\<exists>L. q_load q A = Some L \<and> i_tbaaVtable L))"

definition omitted :: "'v queries \<Rightarrow> 'v instr \<Rightarrow> 'v \<Rightarrow> bool" where
  "omitted q I Addr \<longleftrightarrow> off_limits q Addr \<or> private_local q Addr \<or> \<not> is_store (i_kind I) \<and> constant_data q Addr"

lemma endswith_iff: "endswith s p \<longleftrightarrow> (\<exists>t. s = t @ p)"
proof
  assume "endswith s p"
  then show "\<exists>t. s = t @ p" unfolding endswith_def by (metis append_take_drop_id)
qed (auto simp: endswith_def)

lemma should_instrument_iff: "shouldInstrumentReadWriteFromAddress q Addr \<longleftrightarrow> \<not> off_limits q Addr"
  by (auto simp: shouldInstrumentReadWriteFromAddress_def off_limits_def profiler_data_def Let_def endswith_iff
      startswith_def is_prefix_iff split: option.splits)

lemma not_captured_iff: "not_captured q Addr \<longleftrightarrow> private_local q Addr"
  by (auto simp: not_captured_def private_local_def split: option.splits)

lemma points_to_constant_iff: "points_to_constant q Addr \<longleftrightarrow> constant_data q Addr"
  by (auto simp: points_to_constant_def addrPointsToConstantData_def constant_data_def isVtableAccess_def Let_def
      split: option.splits)

lemmas reasons = should_instrument_iff not_captured_iff points_to_constant_iff

text \<open>What the loop does, as a function of the instructions alone.\<close>

fun chosen :: "'v queries \<Rightarrow> 'v instr list \<Rightarrow> 'v set \<Rightarrow> 'v instr list" where
  "chosen q [] W = []"
| "chosen q (I # Is) W =
     (case pointer_of (i_kind I) of
        None \<Rightarrow> chosen q Is W
      | Some Addr \<Rightarrow>
        let W' = (if is_store (i_kind I) \<and> \<not> off_limits q Addr then insert Addr W else W)
        in if omitted q I Addr \<or> \<not> is_store (i_kind I) \<and> Addr \<in> W then chosen q Is W'
           else I # chosen q Is W')"

lemma choose_loop_chosen: "fst (choose_loop q Is WT st) = chosen q Is (set WT)"
proof (induction Is arbitrary: WT st)
  case (Cons I Is)
  show ?case
  proof (cases "pointer_of (i_kind I)")
    case None
    then show ?thesis by (simp add: Cons)
  next
    case (Some Addr)
    obtain c st1 where c: "addrPointsToConstantData q Addr st = (c, st1)" by fastforce
    note cc = addrPointsToConstantData_eq [OF c]
    show ?thesis
      using Some c cc
      by (simp add: Let_def omitted_def reasons Cons split_def cong: if_cong)
  qed
qed simp

lemma chosen_subset: "set (chosen q Is W) \<subseteq> set Is"
proof (induction Is arbitrary: W)
  case (Cons I Is)
  then show ?case by (auto simp: Let_def split: option.splits if_splits)
qed simp



subsection \<open>Lemmas on the traversal\<close>

definition sync_of :: "'v instr \<Rightarrow> (nat \<times> place \<times> 'v emitted) list" where
  "sync_of I = (case InstrIfSynchronization I of Inr (Some c) \<Rightarrow> [(i_id I, c)] | _ \<Rightarrow> [])"

definition is_plain_access :: "'v instr \<Rightarrow> bool" where
  "is_plain_access I \<longleftrightarrow> \<not> isAtomic I \<and> (is_load (i_kind I) \<or> is_store (i_kind I))"

definition makes_call :: "'v instr \<Rightarrow> bool" where
  "makes_call I \<longleftrightarrow> is_call (i_kind I) \<or> i_kind I = InvokeInst"

lemma InstrIfSynchronization_Some:
  "InstrIfSynchronization I = Inr (Some c) \<Longrightarrow> \<exists>name args. i_kind I = CallInst (Some name) args"
  by (auto simp: InstrIfSynchronization_def split: kind.splits option.splits)

lemma call_not_atomic: "makes_call I \<Longrightarrow> \<not> isAtomic I \<and> \<not> is_load (i_kind I) \<and> \<not> is_store (i_kind I)"
  by (cases "i_kind I") (auto simp: makes_call_def isAtomic_def)

lemma mem_intrinsic_call: "is_mem_intrinsic (i_kind I) \<Longrightarrow> makes_call I"
  by (cases "i_kind I") (auto simp: makes_call_def)

lemma flush_local_simps [simp]:
  "syncs (flush_local q s) = syncs s" "AtomicAccesses (flush_local q s) = AtomicAccesses s"
  "MemIntrinCalls (flush_local q s) = MemIntrinCalls s" "HasCalls (flush_local q s) = HasCalls s"
  "LocalLoadsAndStores (flush_local q s) = []"
  by (simp_all add: flush_local_def split_def Let_def)

lemma flush_local_All:
  "set (AllLoadsAndStores (flush_local q s)) \<subseteq> set (AllLoadsAndStores s) \<union> set (LocalLoadsAndStores s)"
proof -
  have "set (fst (choose_loop q (rev (LocalLoadsAndStores s)) [] (counts s))) \<subseteq> set (LocalLoadsAndStores s)"
    using chosen_subset [of q "rev (LocalLoadsAndStores s)" "{}"]
      choose_loop_chosen [of q "rev (LocalLoadsAndStores s)" "[]" "counts s"] by simp
  then show ?thesis
    by (auto simp: flush_local_def chooseInstructionsToInstrument_def split_def Let_def)
qed

text \<open>\<open>collected Is s s'\<close>: what the traversal of the instructions \<open>Is\<close> adds.\<close>

definition collected :: "'v instr list \<Rightarrow> 'v found \<Rightarrow> 'v found \<Rightarrow> bool" where
  "collected Is s s' \<longleftrightarrow>
     syncs s' = syncs s @ concat (map sync_of Is) \<and>
     AtomicAccesses s' = AtomicAccesses s @ filter isAtomic Is \<and>
     MemIntrinCalls s' = MemIntrinCalls s @ filter (\<lambda>I. is_mem_intrinsic (i_kind I)) Is \<and>
     HasCalls s' = (HasCalls s \<or> (\<exists>I \<in> set Is. makes_call I)) \<and>
     set (AllLoadsAndStores s') \<union> set (LocalLoadsAndStores s') \<subseteq>
       set (AllLoadsAndStores s) \<union> set (LocalLoadsAndStores s) \<union> {I \<in> set Is. is_plain_access I}"

lemma collected_trans: "collected Is s s' \<Longrightarrow> collected Js s' s'' \<Longrightarrow> collected (Is @ Js) s s''"
  unfolding collected_def by auto

lemma collected_flush: "collected [] s (flush_local q s)"
  using flush_local_All [of q s] by (simp add: collected_def)

lemma collect_inst_collected:
  assumes "collect_inst q I s = Inr s'"
  shows "collected [I] s s'"
proof -
  have noSync: "sync_of I = []" if "\<not> makes_call I"
    using that InstrIfSynchronization_Some [of I]
    by (auto simp: sync_of_def makes_call_def split: sum.splits option.splits)
  consider (atomic) "isAtomic I" | (access) "\<not> isAtomic I" "is_load (i_kind I) \<or> is_store (i_kind I)"
    | (call) "makes_call I" | (other) "\<not> isAtomic I" "\<not> is_load (i_kind I)" "\<not> is_store (i_kind I)" "\<not> makes_call I"
    by blast
  then show ?thesis
  proof cases
    case atomic
    then have "\<not> makes_call I" using call_not_atomic by blast
    with atomic assms noSync mem_intrinsic_call [of I] show ?thesis
      by (auto simp: collect_inst_def collected_def is_plain_access_def)
  next
    case access
    then have "\<not> makes_call I" using call_not_atomic by blast
    with access assms noSync mem_intrinsic_call [of I] show ?thesis
      by (auto simp: collect_inst_def collected_def is_plain_access_def)
  next
    case call
    note n = call_not_atomic [OF call]
    obtain sync where sync: "InstrIfSynchronization I = Inr sync"
      using assms n call by (auto simp: collect_inst_def makes_call_def bnd_eq_Inr_iff)
    define s2 where "s2 = (let s1 = (case sync of None \<Rightarrow> s | Some c \<Rightarrow> s\<lparr>syncs := syncs s @ [(i_id I, c)]\<rparr>)
      in (if is_mem_intrinsic (i_kind I) then s1\<lparr>MemIntrinCalls := MemIntrinCalls s1 @ [I]\<rparr> else s1)\<lparr>HasCalls := True\<rparr>)"
    have s': "s' = flush_local q s2"
      using assms n call sync by (auto simp: collect_inst_def makes_call_def s2_def Let_def)
    have "collected [I] s s2"
      using n call sync by (auto simp: s2_def Let_def collected_def sync_of_def split: option.splits)
    then show ?thesis
      using collected_trans [OF _ collected_flush, of "[I]" s s2 q] by (simp add: s')
  next
    case other
    with assms noSync mem_intrinsic_call [of I] show ?thesis
      by (auto simp: collect_inst_def collected_def makes_call_def)
  qed
qed

lemma collect_insts_collected: "collect_insts q Is s = Inr s' \<Longrightarrow> collected Is s s'"
proof (induction Is arbitrary: s)
  case Nil
  then show ?case using collected_flush by fastforce
next
  case (Cons I Is)
  then obtain s1 where "collect_inst q I s = Inr s1" "collect_insts q Is s1 = Inr s'"
    by (auto simp: bnd_eq_Inr_iff)
  with Cons.IH collect_inst_collected collected_trans [of "[I]" s s1 Is s'] show ?case by fastforce
qed

lemma collect_blocks_collected: "collect_blocks q BBs s = Inr s' \<Longrightarrow> collected (concat BBs) s s'"
proof (induction BBs arbitrary: s)
  case Nil
  then show ?case by (simp add: collected_def)
next
  case (Cons BB BBs)
  then obtain s1 where "collect_insts q BB s = Inr s1" "collect_blocks q BBs s1 = Inr s'"
    by (auto simp: bnd_eq_Inr_iff)
  with Cons.IH collect_insts_collected collected_trans [of BB s s1 "concat BBs" s'] show ?case by fastforce
qed

text \<open>The instructions that get an edit.\<close>

lemma instrument_accesses_keys:
  "fst ` set (fst (snd (instrument_accesses q Is r))) = fst ` set (fst (snd r)) \<union> i_id ` set Is"
proof (induction Is arbitrary: r)
  case (Cons I Is)
  obtain Res es st where r: "r = (Res, es, st)" by (cases r)
  show ?case by (auto simp: r Cons split_def Let_def)
qed simp

lemma instrument_atomics_keys:
  "instrument_atomics q Is r = Inr r' \<Longrightarrow> fst ` set (fst (snd r')) = fst ` set (fst (snd r)) \<union> i_id ` set Is"
proof (induction Is arbitrary: r)
  case (Cons I Is)
  obtain Res es st where r: "r = (Res, es, st)" by (cases r)
  from Cons.prems obtain b e st' where "instrument_atomics q Is (Res \<or> b, es @ [(i_id I, e)], st') = Inr r'"
    by (auto simp: r bnd_eq_Inr_iff split_def)
  from Cons.IH [OF this] show ?case by (auto simp: r)
qed simp

lemma instrument_intrinsics_keys:
  "instrument_intrinsics Is r = Inr r' \<Longrightarrow> fst ` set (fst (snd r')) = fst ` set (fst (snd r)) \<union> i_id ` set Is"
proof (induction Is arbitrary: r)
  case (Cons I Is)
  obtain Res es st where r: "r = (Res, es, st)" by (cases r)
  from Cons.prems obtain b e where "instrument_intrinsics Is (Res \<or> b, es @ [(i_id I, e)], st) = Inr r'"
    by (auto simp: r bnd_eq_Inr_iff split_def)
  from Cons.IH [OF this] show ?case by (auto simp: r)
qed simp

subsection \<open>Lemmas on the rewritten function\<close>

text \<open>The calls at the entry and the exits of a function.\<close>

definition entry_exit :: "cl_opts \<Rightarrow> bool \<Rightarrow> 'v found \<Rightarrow> bool" where
  "entry_exit opts Res s \<longleftrightarrow> (Res \<or> HasCalls s) \<and> ClInstrumentFuncEntryExit opts"

definition name_arg :: "demangler \<Rightarrow> 'v func \<Rightarrow> 'v expr" where
  "name_arg dm F = PointerCast (GlobalStringPtr (getFuncName dm (f_name F))) Int8PtrTy"

definition exit_calls_of :: "demangler \<Rightarrow> 'v func \<Rightarrow> 'v found \<Rightarrow> bool \<Rightarrow> 'v emitted list" where
  "exit_calls_of dm F s ee =
     (if f_noChecking F \<and> HasCalls s then [(''__tsan_ignore_thread_end'', [])] else []) @
     (if ee then (''__tsan_func_exit'', [name_arg dm F]) #
        (if getFuncNameStr dm (f_name F) = ''main'' then [(''__tsan_main_func_exit'', [name_arg dm F])] else [])
      else [])"

definition entry_calls_of :: "demangler \<Rightarrow> 'v func \<Rightarrow> 'v found \<Rightarrow> bool \<Rightarrow> 'v emitted list" where
  "entry_calls_of dm F s ee =
     (if ee then [(''__tsan_func_entry'', [name_arg dm F])] else []) @
     (if f_noChecking F \<and> HasCalls s then [(''__tsan_ignore_thread_begin'', [])] else [])"

lemma subset_chain: "A \<subseteq> X \<Longrightarrow> B \<subseteq> A \<union> Y \<Longrightarrow> C \<subseteq> B \<union> Z \<Longrightarrow> C \<subseteq> X \<union> Y \<union> Z"
  by blast

text \<open>The three loops over what was collected.\<close>

definition edits_made :: "'v queries \<Rightarrow> cl_opts \<Rightarrow> 'v func \<Rightarrow> 'v found \<Rightarrow> (bool \<times> 'v edits \<times> stats) res" where
  "edits_made q opts F s =
     (let r0 = (False, [], counts s);
          r1 = (if ClInstrumentMemoryAccesses opts \<and> f_SanitizeThread F
                then instrument_accesses q (AllLoadsAndStores s) r0 else r0)
      in bnd (if ClInstrumentAtomics opts then instrument_atomics q (AtomicAccesses s) r1 else Inr r1) (\<lambda>r2.
         if ClInstrumentMemIntrinsics opts \<and> f_SanitizeThread F
         then instrument_intrinsics (MemIntrinCalls s) r2 else Inr r2))"

lemma rewrite_function_shape:
  assumes "rewrite_function q opts dm EE F s = Inr r"
  obtains Res es st where "edits_made q opts F s = Inr (Res, es, st)"
    "fst ` set es \<subseteq> i_id ` (set (AllLoadsAndStores s) \<union> set (AtomicAccesses s) \<union> set (MemIntrinCalls s))"
    "r_Res r = (Res \<or> entry_exit opts Res s)"
    "r_blocks r = insert_at_entry (entry_calls_of dm F s (entry_exit opts Res s))
       (map (\<lambda>BB. concat (map (item_of es (syncs s) (exit_calls_of dm F s (entry_exit opts Res s))
          (\<lambda>i. i \<in> set (EE F (ClHandleCxxExceptions opts)))) BB)) (f_blocks F))"
proof -
  define r1 where "r1 = (if ClInstrumentMemoryAccesses opts \<and> f_SanitizeThread F
    then instrument_accesses q (AllLoadsAndStores s) (False, [], counts s) else (False, [], counts s))"
  obtain r2 where r2: "(if ClInstrumentAtomics opts then instrument_atomics q (AtomicAccesses s) r1 else Inr r1) = Inr r2"
    using assms unfolding rewrite_function_def Let_def r1_def [symmetric]
    by (rule bnd_InrE)
  obtain Res es st where r3: "(if ClInstrumentMemIntrinsics opts \<and> f_SanitizeThread F
      then instrument_intrinsics (MemIntrinCalls s) r2 else Inr r2) = Inr (Res, es, st)"
    using assms unfolding rewrite_function_def Let_def r1_def [symmetric] r2 bnd_Inr
    by (auto simp: bnd_eq_Inr_iff)
  have "fst ` set (fst (snd r1)) \<subseteq> i_id ` set (AllLoadsAndStores s)"
    by (auto simp: r1_def instrument_accesses_keys)
  moreover have "fst ` set (fst (snd r2)) \<subseteq> fst ` set (fst (snd r1)) \<union> i_id ` set (AtomicAccesses s)"
    using r2 instrument_atomics_keys [of q "AtomicAccesses s" r1 r2] by (auto split: if_splits)
  moreover have "fst ` set es \<subseteq> fst ` set (fst (snd r2)) \<union> i_id ` set (MemIntrinCalls s)"
    using r3 instrument_intrinsics_keys [of "MemIntrinCalls s" r2 "(Res, es, st)"] by (auto split: if_splits)
  ultimately have keys: "fst ` set es \<subseteq>
      i_id ` (set (AllLoadsAndStores s) \<union> set (AtomicAccesses s) \<union> set (MemIntrinCalls s))"
    unfolding image_Un by (rule subset_chain)
  have made: "edits_made q opts F s = Inr (Res, es, st)"
    unfolding edits_made_def Let_def r1_def [symmetric] r2 bnd_Inr by (rule r3)
  show ?thesis
    using assms unfolding rewrite_function_def Let_def r1_def [symmetric] r2 r3 bnd_Inr
    by (intro that [OF made keys])
      (auto simp: entry_exit_def exit_calls_of_def entry_calls_of_def name_arg_def split: if_splits)
qed

lemma insert_at_entry_nth:
  "b < length bs \<Longrightarrow> insert_at_entry calls bs ! b =
    (if b = 0 then takeWhile is_phi (bs ! 0) @ map Inserted calls @ dropWhile is_phi (bs ! 0) else bs ! b)"
  by (cases bs) (auto simp: insert_at_entry_def nth_Cons')

text \<open>Inserting at the entry does not separate neighbours of which the first is no PHI node.\<close>

lemma insert_at_entry_keeps:
  assumes b: "b < length bs" and xs: "bs ! b = pre @ x # ys @ post" and x: "\<not> is_phi x"
  shows "\<exists>pre'. insert_at_entry calls bs ! b = pre' @ x # ys @ post"
proof (cases "b = 0")
  case False
  with b xs show ?thesis by (auto simp: insert_at_entry_nth)
next
  case True
  have dw: "dropWhile is_phi (pre @ x # ys @ post) = dropWhile is_phi pre @ x # ys @ post"
    using x by (induction pre) auto
  have "insert_at_entry calls bs ! b =
      takeWhile is_phi (bs ! 0) @ map Inserted calls @ dropWhile is_phi (bs ! 0)"
    using b True by (simp add: insert_at_entry_nth)
  also have "\<dots> = (takeWhile is_phi (bs ! 0) @ map Inserted calls @ dropWhile is_phi pre) @ x # ys @ post"
    using xs True by (simp add: dw)
  finally show ?thesis by blast
qed

lemma concat_map_split: "I \<in> set BB \<Longrightarrow> \<exists>pre post. concat (map f BB) = pre @ f I @ post"
  by (metis concat.simps(2) concat_append list.simps(9) map_append split_list)

lemma map_of_concat_distinct:
  assumes "distinct (map i_id Is)" and "I \<in> set Is" and "\<And>J. fst ` set (f J) \<subseteq> {i_id J}"
  shows "map_of (concat (map f Is)) (i_id I) = map_of (f I) (i_id I)"
  using assms(1,2)
proof (induction Is)
  case (Cons J Is)
  show ?case
  proof (cases "J = I")
    case True
    then have "i_id I \<notin> i_id ` set Is" using Cons.prems by auto
    then have "i_id I \<notin> fst ` set (concat (map f Is))" using assms(3) by fastforce
    then have "map_of (concat (map f Is)) (i_id I) = None" by (simp add: map_of_eq_None_iff)
    with True show ?thesis by (simp add: map_add_def split: option.splits)
  next
    case False
    then have "I \<in> set Is" and ne: "i_id J \<noteq> i_id I" using Cons.prems by (auto simp: rev_image_eqI)
    moreover have "map_of (f J) (i_id I) = None" using ne assms(3) [of J] by (auto simp: map_of_eq_None_iff)
    ultimately show ?thesis using Cons by (auto simp: map_add_def split: option.splits)
  qed
qed simp

lemma sync_of_key: "fst ` set (sync_of J) \<subseteq> {i_id J}"
  by (auto simp: sync_of_def split: sum.splits option.splits)

lemma distinct_id_eq:
  "distinct (map i_id Is) \<Longrightarrow> I \<in> set Is \<Longrightarrow> J \<in> set Is \<Longrightarrow> i_id I = i_id J \<Longrightarrow> I = J"
  by (metis distinct_map inj_onD)

text \<open>What \<open>runOnFunction\<close> makes of an instruction that neither accesses memory nor is an intrinsic.\<close>

lemma run_items_of_plain:
  assumes run: "runOnFunction q opts dm EE F st = Inr r" and F: "\<not> f_isTsanCtor F"
    and dist: "distinct (map i_id (concat (f_blocks F)))"
    and b: "b < length (f_blocks F)" and I: "I \<in> set (f_blocks F ! b)"
    and plain: "\<not> isAtomic I" "\<not> is_load (i_kind I)" "\<not> is_store (i_kind I)" "\<not> is_mem_intrinsic (i_kind I)"
  obtains s Res es bs pre post where "\<exists>st. edits_made q opts F s = Inr (Res, es, st)"
    "collected (concat (f_blocks F)) (found_init st) s"
    "r_blocks r = insert_at_entry (entry_calls_of dm F s (entry_exit opts Res s)) bs"
    "length bs = length (f_blocks F)" "r_Res r = (Res \<or> entry_exit opts Res s)"
    "bs ! b = pre @ ((case map_of (sync_of I) (i_id I) of Some (Before, c) \<Rightarrow> [Inserted c] | _ \<Rightarrow> []) @
       (if i_id I \<in> set (EE F (ClHandleCxxExceptions opts))
        then map Inserted (exit_calls_of dm F s (entry_exit opts Res s)) else []) @ [Orig I] @
       (case map_of (sync_of I) (i_id I) of Some (After, c) \<Rightarrow> [Inserted c] | _ \<Rightarrow> [])) @ post"
proof -
  let ?Is = "concat (f_blocks F)"
  obtain s where s: "collect_blocks q (f_blocks F) (found_init st) = Inr s"
    "rewrite_function q opts dm EE F s = Inr r"
    using run F by (auto simp: runOnFunction_def bnd_eq_Inr_iff)
  have col: "collected ?Is (found_init st) s" using s(1) by (rule collect_blocks_collected)
  obtain Res es where R: "\<exists>st. edits_made q opts F s = Inr (Res, es, st)" "fst ` set es \<subseteq> i_id ` (set (AllLoadsAndStores s) \<union> set (AtomicAccesses s) \<union> set (MemIntrinCalls s))"
    "r_Res r = (Res \<or> entry_exit opts Res s)"
    "r_blocks r = insert_at_entry (entry_calls_of dm F s (entry_exit opts Res s))
       (map (\<lambda>BB. concat (map (item_of es (syncs s) (exit_calls_of dm F s (entry_exit opts Res s))
          (\<lambda>i. i \<in> set (EE F (ClHandleCxxExceptions opts)))) BB)) (f_blocks F))"
    using rewrite_function_shape [OF s(2)] by metis
  have II: "I \<in> set ?Is" using b I by auto
  have "i_id I \<notin> fst ` set es"
  proof
    assume "i_id I \<in> fst ` set es"
    then obtain J where J: "i_id I = i_id J"
      "J \<in> set (AllLoadsAndStores s) \<union> set (AtomicAccesses s) \<union> set (MemIntrinCalls s)"
      using R(2) by auto
    have "J \<in> set ?Is \<and> (is_plain_access J \<or> isAtomic J \<or> is_mem_intrinsic (i_kind J))"
      using J(2) col by (auto simp: collected_def found_init_def)
    moreover have "J = I" if "J \<in> set ?Is" using distinct_id_eq [OF dist that II] J(1) by simp
    ultimately show False using plain by (auto simp: is_plain_access_def)
  qed
  then have no_edit: "map_of es (i_id I) = None" by (simp add: map_of_eq_None_iff)
  have "syncs s = concat (map sync_of ?Is)" using col by (simp add: collected_def found_init_def)
  then have sync: "map_of (syncs s) (i_id I) = map_of (sync_of I) (i_id I)"
    using map_of_concat_distinct [OF dist II sync_of_key] by simp
  let ?f = "item_of es (syncs s) (exit_calls_of dm F s (entry_exit opts Res s))
          (\<lambda>i. i \<in> set (EE F (ClHandleCxxExceptions opts)))"
  obtain pre post where pp: "concat (map ?f (f_blocks F ! b)) = pre @ ?f I @ post"
    using concat_map_split [OF I, of ?f] by blast
  have item: "?f I = (case map_of (sync_of I) (i_id I) of Some (Before, c) \<Rightarrow> [Inserted c] | _ \<Rightarrow> []) @
       (if i_id I \<in> set (EE F (ClHandleCxxExceptions opts))
        then map Inserted (exit_calls_of dm F s (entry_exit opts Res s)) else []) @ [Orig I] @
       (case map_of (sync_of I) (i_id I) of Some (After, c) \<Rightarrow> [Inserted c] | _ \<Rightarrow> [])"
    by (simp add: item_of_def no_edit sync no_edit_def Let_def)
  show ?thesis
    by (rule that [OF R(1) col R(4) _ R(3), of pre post]) (use b pp item in simp_all)
qed

subsection \<open>The runtime's side of the interface\<close>

text \<open>
  The functions of \<open>tsan_interface.h\<close> that instrumented code calls, with their number of parameters.
\<close>

definition runtime_functions :: "(string \<times> nat) list" where
  "runtime_functions =
     [(''__tsan_init'', 0), (''__tsan_main_func_exit'', 0),
      (''__tsan_read1'', 4), (''__tsan_read2'', 4), (''__tsan_read4'', 4), (''__tsan_read8'', 4),
      (''__tsan_read16'', 4), (''__tsan_write1'', 4), (''__tsan_write2'', 4), (''__tsan_write4'', 4),
      (''__tsan_write8'', 4), (''__tsan_write16'', 4), (''__tsan_func_entry'', 1),
      (''__tsan_func_exit'', 1), (''__tsan_thread_create'', 1), (''__tsan_thread_join'', 1),
      (''__tsan_thread_lock'', 1), (''__tsan_thread_unlock'', 1), (''__tsan_vptr_update'', 5),
      (''__tsan_vptr_read'', 4), (''__tsan_atomic8_load'', 2), (''__tsan_atomic16_load'', 2),
      (''__tsan_atomic32_load'', 2), (''__tsan_unaligned_read2'', 4), (''__tsan_unaligned_read4'', 4),
      (''__tsan_unaligned_read8'', 4), (''__tsan_unaligned_read16'', 4),
      (''__tsan_unaligned_write2'', 4), (''__tsan_unaligned_write4'', 4),
      (''__tsan_unaligned_write8'', 4), (''__tsan_unaligned_write16'', 4),
      (''__tsan_atomic32_fetch_add'', 3)]"

lemma show_nat_sizes:
  "show_nat 1 = ''1''" "show_nat 2 = ''2''" "show_nat 4 = ''4''" "show_nat 8 = ''8''" "show_nat 16 = ''16''"
  "show_nat 32 = ''32''" "show_nat 64 = ''64''" "show_nat 128 = ''128''" "show_nat (Suc 0) = ''1''"
  by code_simp+

lemma countTrailingZeros_sizes:
  "countTrailingZeros (Suc 0) = 0" "countTrailingZeros 2 = 1" "countTrailingZeros 4 = 2"
  "countTrailingZeros 8 = 3" "countTrailingZeros 16 = 4"
  by (simp_all add: countTrailingZeros.simps)

lemma getMemoryAccessFuncIndex_Some:
  assumes "getMemoryAccessFuncIndex q Addr st = (Some Idx, st1)"
  shows "Idx < 5" "unat (word_of_nat (q_typeStoreSizeInBits q Addr) :: i32) = 2 ^ Idx * 8"
proof -
  let ?T = "word_of_nat (q_typeStoreSizeInBits q Addr) :: i32"
  have "?T = 8 \<or> ?T = 16 \<or> ?T = 32 \<or> ?T = 64 \<or> ?T = 128"
    using assms by (auto simp: getMemoryAccessFuncIndex_def Let_def split: if_splits)
  moreover have "Idx = countTrailingZeros (unat (?T div 8))"
    using assms by (auto simp: getMemoryAccessFuncIndex_def Let_def split: if_splits)
  ultimately show "Idx < 5" "unat ?T = 2 ^ Idx * 8"
    by (auto simp: countTrailingZeros_sizes)
qed

lemma less_5_cases: "(i :: nat) < 5 \<Longrightarrow> i = 0 \<or> i = 1 \<or> i = 2 \<or> i = 3 \<or> i = 4"
  by arith

lemma OnAccessFunc_defined:
  assumes "Idx < 5"
  shows "(OnAccessFunc w a (2 ^ Idx * 8) Idx, 4) \<in> set runtime_functions"
  using less_5_cases [OF assms]
  by (elim disjE; cases w)
    (simp_all add: OnAccessFunc_def TsanRead_def TsanWrite_def TsanUnalignedRead_def
      TsanUnalignedWrite_def show_nat_sizes runtime_functions_def)

subsection \<open>What the inserted calls were declared with\<close>

text \<open>
  \<open>declared f n\<close>: \<open>initializeCallbacks\<close> declares \<open>f\<close> with \<open>n\<close> parameters. The calls of an edit are those inserted
  before the instruction and the one that replaces it.
\<close>

definition declared :: "string \<Rightarrow> nat \<Rightarrow> bool" where
  "declared f n \<longleftrightarrow> (f, n) \<in> set (map (\<lambda>(g, ty, tys). (g, length tys)) (initializeCallbacks :: unit fn_decl list))"

definition calls_of :: "'v edit \<Rightarrow> 'v emitted list" where
  "calls_of e = ed_before e @ (case ed_self e of ReplacedBy c \<Rightarrow> [c] | _ \<Rightarrow> [])"

definition calls_ok :: "'v edit \<Rightarrow> bool" where
  "calls_ok e \<longleftrightarrow> (\<forall>(f, args) \<in> set (calls_of e). args \<noteq> [] \<and> declared f (length args))"

abbreviation exit_callbacks :: "string list" where
  "exit_callbacks \<equiv> [''__tsan_func_exit'', ''__tsan_main_func_exit'']"

abbreviation sync_callbacks :: "string list" where
  "sync_callbacks \<equiv> [''__tsan_thread_create'', ''__tsan_thread_join'', ''__tsan_thread_lock'', ''__tsan_thread_unlock'']"

lemma declared_exits: "declared f n \<Longrightarrow> f \<in> set exit_callbacks \<Longrightarrow> n = 0"
  and declared_syncs: "declared f n \<Longrightarrow> f \<notin> set sync_callbacks"
proof -
  have "list_all (\<lambda>(f, n). (f \<in> set exit_callbacks \<longrightarrow> n = 0) \<and> f \<notin> set sync_callbacks)
      (map (\<lambda>(g, ty, tys). (g, length tys)) (initializeCallbacks :: unit fn_decl list))" by code_simp
  then show "declared f n \<Longrightarrow> f \<in> set exit_callbacks \<Longrightarrow> n = 0" "declared f n \<Longrightarrow> f \<notin> set sync_callbacks"
    unfolding list_all_iff declared_def by blast+
qed

lemma declared_rest:
  "declared ''__tsan_func_exit'' 0" "declared ''__tsan_main_func_exit'' 0" "declared ''__tsan_func_entry'' (Suc 0)"
  "declared ''__tsan_ignore_thread_begin'' 0" "declared ''__tsan_ignore_thread_end'' 0"
  "declared ''__tsan_vptr_update'' 5" "declared ''__tsan_vptr_read'' 4"
  "declared ''__tsan_atomic_thread_fence'' (Suc 0)" "declared ''__tsan_atomic_signal_fence'' (Suc 0)"
  "declared ''memset'' 3" "declared ''memcpy'' 3" "declared ''memmove'' 3"
  by (simp_all add: declared_def initializeCallbacks_def)

lemma declared_of_size:
  assumes "Idx < 5" and "(f, ty, tys) \<in> set (callbacks_of_size Idx :: unit fn_decl list)"
  shows "declared f (length tys)"
proof -
  have "callbacks_of_size Idx \<in> set (map callbacks_of_size [0..<kNumberOfAccessSizes] :: unit fn_decl list list)"
    using assms(1) by (auto simp: kNumberOfAccessSizes_def simp del: upt_Suc)
  with assms(2) have "(f, ty, tys) \<in> set (concat (map callbacks_of_size [0..<kNumberOfAccessSizes]) :: unit fn_decl list)"
    unfolding set_concat by blast
  then have "(f, ty, tys) \<in> set (initializeCallbacks :: unit fn_decl list)"
    unfolding initializeCallbacks_def set_append by blast
  then show ?thesis unfolding declared_def by force
qed

lemma declared_sized:
  assumes "Idx < 5"
  shows "declared (OnAccessFunc w a n Idx) 4" "declared (TsanAtomicLoad Idx) 2" "declared (TsanAtomicStore Idx) 3"
    "TsanAtomicRMW op Idx = Some F \<Longrightarrow> declared F 3" "declared (TsanAtomicCAS Idx) 5"
proof -
  note d = declared_of_size [OF assms]
  have four: "length (access_args :: unit ty list) = 4" by (simp add: access_args_def)
  show "declared (OnAccessFunc w a n Idx) 4"
    using d [of "OnAccessFunc w a n Idx" VoidTy access_args] four
    by (simp add: callbacks_of_size_def Let_def OnAccessFunc_def split: if_splits)
  show "declared (TsanAtomicLoad Idx) 2"
    using d [of "TsanAtomicLoad Idx" "IntTy (2 ^ Idx * 8)" "[PtrTy (IntTy (2 ^ Idx * 8)), IntTy 32]"]
    by (simp add: callbacks_of_size_def Let_def numeral_2_eq_2)
  show "declared (TsanAtomicStore Idx) 3"
    using d [of "TsanAtomicStore Idx" VoidTy "[PtrTy (IntTy (2 ^ Idx * 8)), IntTy (2 ^ Idx * 8), IntTy 32]"]
    by (simp add: callbacks_of_size_def Let_def numeral_3_eq_3)
  show "declared F 3" if "TsanAtomicRMW op Idx = Some F"
  proof -
    have "op \<in> set all_BinOps" by (cases op) (simp_all add: all_BinOps_def)
    then have "(F, IntTy (2 ^ Idx * 8), [PtrTy (IntTy (2 ^ Idx * 8)), IntTy (2 ^ Idx * 8), IntTy 32]) \<in>
        set (callbacks_of_size Idx :: unit fn_decl list)"
      using that unfolding callbacks_of_size_def Let_def by (auto intro!: bexI [of _ op])
    from d [OF this] show ?thesis by (simp add: numeral_3_eq_3)
  qed
  show "declared (TsanAtomicCAS Idx) 5"
    using d [of "TsanAtomicCAS Idx" "IntTy (2 ^ Idx * 8)"
        "[PtrTy (IntTy (2 ^ Idx * 8)), IntTy (2 ^ Idx * 8), IntTy (2 ^ Idx * 8), IntTy 32, IntTy 32]"]
    by (simp add: callbacks_of_size_def Let_def eval_nat_numeral)
qed

lemma calls_ok_no_edit [simp]: "calls_ok no_edit"
  by (simp add: calls_ok_def calls_of_def no_edit_def)

lemma access_edit:
  assumes "instrumentLoadOrStore q I st = (b, e, st')"
  shows "calls_ok e \<and> (\<not> b \<longrightarrow> e = no_edit)"
proof (cases "(\<exists>Addr. pointer_of (i_kind I) = Some Addr \<and> \<not> q_isSwiftError q Addr \<and>
    fst (getMemoryAccessFuncIndex q Addr st) \<noteq> None)")
  case True
  then obtain Addr Idx st1 where A: "pointer_of (i_kind I) = Some Addr" "\<not> q_isSwiftError q Addr"
    "getMemoryAccessFuncIndex q Addr st = (Some Idx, st1)"
    by (metis not_None_eq prod.collapse)
  note d = declared_sized [OF getMemoryAccessFuncIndex_Some(1) [OF A(3)]]
  have loc: "length (location_args q Addr I) = 3" by (simp add: location_args_def)
  show ?thesis
    using assms A d loc declared_rest
    by (auto simp: instrumentLoadOrStore_def no_edit_def calls_ok_def calls_of_def Let_def split: kind.splits if_splits)
next
  case False
  with assms show ?thesis
    by (auto simp: instrumentLoadOrStore_def Let_def split: option.splits if_splits prod.splits)
qed

lemma atomic_edit:
  assumes "instrumentAtomic q I st = Inr ((b, e), st')"
  shows "calls_ok e \<and> (\<not> b \<longrightarrow> e = no_edit)"
proof (cases "pointer_of (i_kind I)")
  case None
  show ?thesis
  proof (cases "\<exists>ord scope. i_kind I = FenceInst ord scope")
    case True
    then show ?thesis
      using assms declared_rest
      by (auto simp: instrumentAtomic_def atomic_fence_def calls_ok_def calls_of_def no_edit_def bnd_eq_Inr_iff Let_def)
  next
    case False
    with assms None show ?thesis by (auto simp: instrumentAtomic_def split: kind.splits)
  qed
next
  case (Some Addr)
  show ?thesis
  proof (cases "getMemoryAccessFuncIndex q Addr st")
    case (Pair i st1)
    show ?thesis
    proof (cases i)
      case None
      with assms Some Pair show ?thesis by (simp add: instrumentAtomic_def)
    next
      case (Some Idx)
      note d = declared_sized [OF getMemoryAccessFuncIndex_Some(1) [OF Pair [unfolded Some]]]
      show ?thesis
      proof (cases "i_kind I")
        case (AtomicRMWInst op p v ord)
        with assms \<open>pointer_of (i_kind I) = Some Addr\<close> Pair Some d(4) [of op] show ?thesis
          by (cases "TsanAtomicRMW op Idx")
            (auto simp: instrumentAtomic_def atomic_rmw_def calls_ok_def calls_of_def no_edit_def bnd_eq_Inr_iff Let_def
              numeral_3_eq_3)
      qed (use assms \<open>pointer_of (i_kind I) = Some Addr\<close> Pair Some d in
          \<open>auto simp: instrumentAtomic_def atomic_load_def atomic_store_def atomic_cas_def calls_ok_def calls_of_def
            no_edit_def bnd_eq_Inr_iff Let_def eval_nat_numeral\<close>)
    qed
  qed
qed

lemma mem_call_length: "mem_call args cast = Inr xs \<Longrightarrow> length xs = 3"
  by (auto simp: bnd_eq_Inr_iff)

lemma intrinsic_edit:
  assumes "instrumentMemIntrinsic I = Inr (b, e)"
  shows "calls_ok e"
proof -
  have "e = no_edit \<or> (\<exists>f xs. f \<in> {''memset'', ''memcpy'', ''memmove''} \<and> length xs = 3 \<and>
      e = \<lparr>ed_before = [(f, xs)], ed_self = Erased, ed_uses = None\<rparr>)"
    using assms unfolding instrumentMemIntrinsic_def Let_def
    by (cases "i_kind I") (auto simp: bnd_eq_Inr_iff simp del: mem_call.simps dest!: mem_call_length)
  moreover have "calls_ok \<lparr>ed_before = [(f, xs)], ed_self = Erased, ed_uses = None\<rparr>"
    if "f \<in> {''memset'', ''memcpy'', ''memmove''}" "length xs = 3" for f and xs :: "'a expr list"
  proof -
    have "declared f 3" using that(1) declared_rest by blast
    moreover have "xs \<noteq> []" using that(2) by auto
    ultimately show ?thesis using that(2) by (simp add: calls_ok_def calls_of_def)
  qed
  ultimately show ?thesis by auto
qed

text \<open>All edits of a function.\<close>

definition edits_ok :: "bool \<Rightarrow> 'v edits \<Rightarrow> bool" where
  "edits_ok Res es \<longleftrightarrow> (\<forall>(i, e) \<in> set es. calls_ok e \<and> (\<not> Res \<longrightarrow> e = no_edit))"

lemma instrument_accesses_ok:
  "edits_ok Res es \<Longrightarrow> instrument_accesses q Is (Res, es, st) = (Res', es', st') \<Longrightarrow> edits_ok Res' es'"
proof (induction Is arbitrary: Res es st)
  case (Cons I Is)
  obtain b e st1 where e: "instrumentLoadOrStore q I st = (b, e, st1)" by (metis prod_cases3)
  have "edits_ok (Res \<or> b) (es @ [(i_id I, e)])"
    using Cons.prems(1) access_edit [OF e] by (auto simp: edits_ok_def)
  from Cons.IH [OF this] Cons.prems(2) e show ?case by simp
qed simp

lemma instrument_atomics_ok:
  "edits_ok Res es \<Longrightarrow> instrument_atomics q Is (Res, es, st) = Inr (Res', es', st') \<Longrightarrow> edits_ok Res' es'"
proof (induction Is arbitrary: Res es st)
  case (Cons I Is)
  from Cons.prems(2) obtain b e st1 where e: "instrumentAtomic q I st = Inr ((b, e), st1)"
    "instrument_atomics q Is (Res \<or> b, es @ [(i_id I, e)], st1) = Inr (Res', es', st')"
    by (auto simp: bnd_eq_Inr_iff split_def)
  have "edits_ok (Res \<or> b) (es @ [(i_id I, e)])"
    using Cons.prems(1) atomic_edit [OF e(1)] by (auto simp: edits_ok_def)
  from Cons.IH [OF this e(2)] show ?case .
qed simp

lemma instrument_intrinsics_ok:
  "\<forall>(i, e) \<in> set es. calls_ok e \<Longrightarrow> instrument_intrinsics Is (Res, es, st) = Inr (Res', es', st') \<Longrightarrow>
    \<forall>(i, e) \<in> set es'. calls_ok e"
proof (induction Is arbitrary: Res es st)
  case (Cons I Is)
  from Cons.prems(2) obtain b e where e: "instrumentMemIntrinsic I = Inr (b, e)"
    "instrument_intrinsics Is (Res \<or> b, es @ [(i_id I, e)], st) = Inr (Res', es', st')"
    by (auto simp: bnd_eq_Inr_iff split_def)
  have "\<forall>(i, e) \<in> set (es @ [(i_id I, e)]). calls_ok e" using Cons.prems(1) intrinsic_edit [OF e(1)] by auto
  from Cons.IH [OF this e(2)] show ?case .
qed simp

lemma edits_made_ok:
  assumes "edits_made q opts F s = Inr (Res, es, st)"
  shows "\<forall>(i, e) \<in> set es. calls_ok e" "MemIntrinCalls s = [] \<Longrightarrow> edits_ok Res es"
proof -
  define r1 where "r1 = (if ClInstrumentMemoryAccesses opts \<and> f_SanitizeThread F
    then instrument_accesses q (AllLoadsAndStores s) (False, [], counts s) else (False, [], counts s))"
  obtain R1 e1 s1 where r1: "r1 = (R1, e1, s1)" by (cases r1)
  have "edits_ok False []" by (simp add: edits_ok_def)
  then have ok1: "edits_ok R1 e1"
    using r1 instrument_accesses_ok [of False "[]" q "AllLoadsAndStores s" "counts s" R1 e1 s1]
    by (auto simp: r1_def split: if_splits)
  from assms obtain R2 e2 s2 where
    r2: "(if ClInstrumentAtomics opts then instrument_atomics q (AtomicAccesses s) r1 else Inr r1) = Inr (R2, e2, s2)"
    and r3: "(if ClInstrumentMemIntrinsics opts \<and> f_SanitizeThread F
         then instrument_intrinsics (MemIntrinCalls s) (R2, e2, s2) else Inr (R2, e2, s2)) = Inr (Res, es, st)"
    unfolding edits_made_def Let_def r1_def [symmetric] by (auto simp: bnd_eq_Inr_iff)
  have ok2: "edits_ok R2 e2"
    using r2 ok1 instrument_atomics_ok [of R1 e1 q "AtomicAccesses s" s1 R2 e2 s2] by (auto simp: r1 split: if_splits)
  then have "\<forall>(i, e) \<in> set e2. calls_ok e" by (auto simp: edits_ok_def)
  with r3 instrument_intrinsics_ok [of e2 "MemIntrinCalls s" R2 s2 Res es st]
  show "\<forall>(i, e) \<in> set es. calls_ok e" by (auto split: if_splits)
  show "edits_ok Res es" if "MemIntrinCalls s = []" using r3 ok2 that by (auto split: if_splits)
qed

text \<open>Where an inserted call of the function comes from.\<close>

lemma inserted_at_entry:
  "Inserted c \<in> set (insert_at_entry calls bs ! b) \<Longrightarrow> b < length bs \<Longrightarrow> c \<in> set calls \<or> Inserted c \<in> set (bs ! b)"
  by (auto simp: insert_at_entry_nth dest: set_takeWhileD set_dropWhileD split: if_splits)

lemma inserted_item:
  assumes "Inserted c \<in> set (item_of es sy exit_calls escape I)"
  shows "(\<exists>(i, e) \<in> set es. c \<in> set (calls_of e)) \<or> c \<in> set exit_calls \<or> (\<exists>i p. (i, p, c) \<in> set sy)"
proof -
  define e where "e = (case map_of es (i_id I) of None \<Rightarrow> no_edit | Some e \<Rightarrow> e)"
  have e: "(i_id I, e) \<in> set es \<or> e = no_edit"
    using map_of_SomeD [of es "i_id I"] by (simp add: e_def split: option.splits)
  define x where "x = map_of sy (i_id I)"
  have x: "(i_id I, p, d) \<in> set sy" if "x = Some (p, d)" for p d using that map_of_SomeD by (simp add: x_def)
  have "c \<in> set (calls_of e) \<or> c \<in> set exit_calls \<or> (\<exists>p. x = Some (p, c))"
    using assms unfolding item_of_def Let_def e_def [symmetric] x_def [symmetric] calls_of_def
    by (cases "ed_self e"; cases x) (auto split: place.splits if_splits)
  moreover have "c \<notin> set (calls_of no_edit)" by (simp add: calls_of_def no_edit_def)
  ultimately consider "(i_id I, e) \<in> set es" "c \<in> set (calls_of e)" | "c \<in> set exit_calls" | p where "x = Some (p, c)"
    using e by blast
  then show ?thesis
  proof cases
    case 1
    then have "\<exists>(i, e) \<in> set es. c \<in> set (calls_of e)" by (intro bexI [of _ "(i_id I, e)"]) simp_all
    then show ?thesis ..
  next
    case 3
    from x [OF this] show ?thesis by blast
  qed simp
qed

lemma insert_at_entry_Nil [simp]: "insert_at_entry [] bs = bs"
  by (cases bs) (simp_all add: insert_at_entry_def)

lemma item_of_untouched: "\<forall>(i, e) \<in> set es. e = no_edit \<Longrightarrow> item_of es [] [] escape I = [Orig I]"
proof -
  assume "\<forall>(i, e) \<in> set es. e = no_edit"
  then have "e = no_edit" if "map_of es (i_id I) = Some e" for e using map_of_SomeD [OF that] by blast
  then show ?thesis by (cases "map_of es (i_id I)") (simp_all add: item_of_def no_edit_def)
qed

lemma concat_singletons: "concat (map (\<lambda>x. [f x]) xs) = map f xs"
  by (induction xs) auto

text \<open>A function for which the pass reports no change.\<close>

lemma untouched_function:
  assumes run: "runOnFunction q opts dm EE F st = Inr r" and F: "\<not> f_isTsanCtor F"
    and opt: "ClInstrumentFuncEntryExit opts" and no: "\<not> r_Res r"
  shows "r_blocks r = map (map Orig) (f_blocks F)"
proof -
  obtain s where s: "collect_blocks q (f_blocks F) (found_init st) = Inr s"
    "rewrite_function q opts dm EE F s = Inr r"
    using run F by (auto simp: runOnFunction_def bnd_eq_Inr_iff)
  have col: "collected (concat (f_blocks F)) (found_init st) s" using s(1) by (rule collect_blocks_collected)
  obtain Res es st' where R: "edits_made q opts F s = Inr (Res, es, st')" "r_Res r = (Res \<or> entry_exit opts Res s)"
    "r_blocks r = insert_at_entry (entry_calls_of dm F s (entry_exit opts Res s))
       (map (\<lambda>BB. concat (map (item_of es (syncs s) (exit_calls_of dm F s (entry_exit opts Res s))
          (\<lambda>i. i \<in> set (EE F (ClHandleCxxExceptions opts)))) BB)) (f_blocks F))"
    using rewrite_function_shape [OF s(2)] by metis
  have off: "\<not> Res" "\<not> HasCalls s" "\<not> entry_exit opts Res s" using R(2) no opt by (auto simp: entry_exit_def)
  then have none: "\<forall>J \<in> set (concat (f_blocks F)). \<not> makes_call J"
    using col by (auto simp: collected_def)
  have "MemIntrinCalls s = []"
    using col none mem_intrinsic_call by (auto simp: collected_def found_init_def filter_empty_conv)
  with edits_made_ok(2) [OF R(1)] off have "\<forall>(i, e) \<in> set es. e = no_edit" by (auto simp: edits_ok_def)
  moreover have "sync_of J = []" if "J \<in> set (concat (f_blocks F))" for J
    using none that InstrIfSynchronization_Some [of J]
    by (fastforce simp: sync_of_def makes_call_def split: sum.splits option.splits)
  then have "syncs s = []" using col by (auto simp: collected_def found_init_def)
  ultimately have "item_of es (syncs s) [] escape = (\<lambda>I. [Orig I])" for escape
    by (intro ext) (simp add: item_of_untouched)
  then show ?thesis using off by (simp add: R(3) entry_calls_of_def exit_calls_of_def concat_singletons)
qed

subsection \<open>Properties\<close>


text \<open>Queries about a small program for the examples: an address is a number, 7 is a constant.\<close>

definition demo_queries :: "nat queries" where
  "demo_queries = \<lparr>q_stripInBoundsOffsets = id, q_GetUnderlyingObject = Some,
     q_PointerMayBeCaptured = (\<lambda>_. True), q_AllocaInst = (\<lambda>_. False),
     q_GlobalVariable = (\<lambda>v. Some \<lparr>gv_name = ''g'', gv_section = None, gv_isConstant = (v = 7)\<rparr>),
     q_GEPPointerOperand = (\<lambda>_. None), q_load = (\<lambda>_. None), q_addressSpace = (\<lambda>_. 0),
     q_typeStoreSizeInBits = (\<lambda>_. 32), q_isSwiftError = (\<lambda>_. False), q_vectorOfIntegers = (\<lambda>_. None),
     q_intWidth = (\<lambda>_. Some 32), q_getName = (\<lambda>_. ''x''), q_profSection = ''__llvm_prf_cnts''\<rparr>"

definition demo_instr :: "nat \<Rightarrow> nat kind \<Rightarrow> nat instr" where
  "demo_instr n k = \<lparr>i_id = n, i_kind = k, i_tbaaVtable = False, i_loc = None\<rparr>"

definition demo_access :: "nat instr list" where
  "demo_access = [demo_instr 1 (LoadInst 3 4 AO_NotAtomic CrossThread),
     demo_instr 2 (StoreInst 3 9 4 AO_NotAtomic CrossThread)]"


text \<open>
  C27: Every call the pass inserts for a load or a store calls a function the runtime has, with its
  number of arguments: the missing callbacks for unaligned accesses of one byte are never chosen.
\<close>

theorem access_callbacks_exist:
  assumes "instrumentLoadOrStore q I st = (b, e, st')" and "(f, args) \<in> set (ed_before e)"
  shows "(f, length args) \<in> set runtime_functions"
proof -
  obtain Addr where A: "pointer_of (i_kind I) = Some Addr" "\<not> q_isSwiftError q Addr"
    using assms by (auto simp: instrumentLoadOrStore_def no_edit_def Let_def split: option.splits if_splits)
  obtain Idx st1 where G: "getMemoryAccessFuncIndex q Addr st = (Some Idx, st1)"
    using assms A
    by (cases "getMemoryAccessFuncIndex q Addr st") (auto simp: instrumentLoadOrStore_def no_edit_def Let_def split: option.splits)
  note S = getMemoryAccessFuncIndex_Some [OF G]
  have loc: "length (location_args q Addr I) = 3" by (simp add: location_args_def)
  have vptr: "(''__tsan_vptr_update'', 5) \<in> set runtime_functions" "(''__tsan_vptr_read'', 4) \<in> set runtime_functions"
    by (simp_all add: runtime_functions_def)
  show ?thesis
    using assms A G OnAccessFunc_defined [OF S(1)] vptr loc
    by (auto simp: instrumentLoadOrStore_def S(2) no_edit_def Let_def split: kind.splits if_splits)
qed

theorem access_callbacks_exist_witness:
  "(''__tsan_read4'', length (PointerCast (Val 3) Int8PtrTy # location_args demo_queries 3 (demo_access ! 0)))
    \<in> set runtime_functions"
proof -
  let ?r = "instrumentLoadOrStore demo_queries (demo_access ! 0) stats_init"
  have "ed_before (fst (snd ?r)) =
      [(''__tsan_read4'', PointerCast (Val 3) Int8PtrTy # location_args demo_queries 3 (demo_access ! 0))]"
    by (simp add: instrumentLoadOrStore_def demo_access_def demo_instr_def demo_queries_def Let_def
        getMemoryAccessFuncIndex_def countTrailingZeros_sizes isVtableAccess_def alignment_of_def
        OnAccessFunc_def TsanRead_def show_nat_sizes)
  then show ?thesis
    using access_callbacks_exist [of demo_queries "demo_access ! 0" stats_init "fst ?r" "fst (snd ?r)" "snd (snd ?r)"]
    by simp
qed

definition atomic_names :: "string set" where
  "atomic_names = {''__tsan_atomic8_load'', ''__tsan_atomic16_load'', ''__tsan_atomic32_load'',
     ''__tsan_atomic32_fetch_add''}"

lemma atomic_names_arity:
  "(''__tsan_atomic8_load'', 2) \<in> set runtime_functions" "(''__tsan_atomic16_load'', 2) \<in> set runtime_functions"
  "(''__tsan_atomic32_load'', 2) \<in> set runtime_functions" "(''__tsan_atomic32_fetch_add'', 3) \<in> set runtime_functions"
  by (simp_all add: runtime_functions_def)

lemma runtime_atomic_names:
  assumes "f \<in> fst ` set runtime_functions" and "take 13 f = ''__tsan_atomic''"
  shows "f \<in> atomic_names"
proof -
  have "list_all (\<lambda>f. take 13 f = ''__tsan_atomic'' \<longrightarrow>
      f \<in> set [''__tsan_atomic8_load'', ''__tsan_atomic16_load'', ''__tsan_atomic32_load'', ''__tsan_atomic32_fetch_add''])
    (map fst runtime_functions)" by code_simp
  with assms show ?thesis unfolding list_all_iff atomic_names_def by auto
qed

lemma atomic_name_missing:
  assumes "Idx < 5" and "NamePart \<noteq> ''_load''" and "NamePart \<noteq> ''_fetch_add'' \<or> Idx \<noteq> 2"
  shows "''__tsan_atomic'' @ show_nat (2 ^ Idx * 8) @ NamePart \<notin> fst ` set runtime_functions"
proof
  assume "''__tsan_atomic'' @ show_nat (2 ^ Idx * 8) @ NamePart \<in> fst ` set runtime_functions"
  from runtime_atomic_names [OF this]
  have "''__tsan_atomic'' @ show_nat (2 ^ Idx * 8) @ NamePart \<in> atomic_names" by simp
  with assms less_5_cases [OF assms(1)] show False by (elim disjE) (simp_all add: atomic_names_def show_nat_sizes)
qed

text \<open>A name that is a function of the runtime with \<open>n\<close> parameters, or none at all.\<close>

definition settled :: "string \<Rightarrow> nat \<Rightarrow> bool" where
  "settled f n \<longleftrightarrow> f \<in> atomic_names \<and> (f, n) \<in> set runtime_functions \<or> f \<notin> fst ` set runtime_functions"

lemma settled_iff:
  assumes "settled f n"
  shows "(f, n) \<in> set runtime_functions \<longleftrightarrow> f \<in> atomic_names"
proof -
  have "g \<in> atomic_names \<Longrightarrow> g \<in> fst ` set runtime_functions" for g
    using atomic_names_arity unfolding atomic_names_def by (elim insertE emptyE; force)
  with assms show ?thesis unfolding settled_def by force
qed

lemma atomic_load_name:
  assumes "Idx < 5"
  shows "settled (TsanAtomicLoad Idx) 2"
proof (cases "TsanAtomicLoad Idx \<in> fst ` set runtime_functions")
  case True
  then have "TsanAtomicLoad Idx \<in> atomic_names" by (rule runtime_atomic_names) (simp add: TsanAtomicLoad_def)
  moreover from this have "(TsanAtomicLoad Idx, 2) \<in> set runtime_functions"
    using less_5_cases [OF assms] atomic_names_arity
    by (elim disjE) (simp_all add: TsanAtomicLoad_def show_nat_sizes atomic_names_def)
  ultimately show ?thesis by (simp add: settled_def)
qed (simp add: settled_def)

lemma atomic_rmw_name:
  assumes "Idx < 5" and "TsanAtomicRMW op Idx = Some F"
  shows "settled F 3"
proof -
  obtain NamePart where F: "F = ''__tsan_atomic'' @ show_nat (2 ^ Idx * 8) @ NamePart" "NamePart \<noteq> ''_load''"
    using assms(2) by (cases op) (auto simp: TsanAtomicRMW_def)
  show ?thesis
  proof (cases "NamePart = ''_fetch_add'' \<and> Idx = 2")
    case True
    then have "F = ''__tsan_atomic32_fetch_add''" by (simp add: F show_nat_sizes)
    then show ?thesis using atomic_names_arity(4) by (simp add: settled_def atomic_names_def)
  next
    case False
    then have "NamePart \<noteq> ''_fetch_add'' \<or> Idx \<noteq> 2" by simp
    from atomic_name_missing [OF assms(1) F(2) this] show ?thesis unfolding F(1) settled_def by (rule disjI2)
  qed
qed

lemma atomic_fence_names:
  "''__tsan_atomic_signal_fence'' \<notin> fst ` set runtime_functions"
  "''__tsan_atomic_thread_fence'' \<notin> fst ` set runtime_functions"
  using runtime_atomic_names by (fastforce simp: atomic_names_def)+

lemma atomic_fence_self:
  assumes "atomic_fence ord scope = Inr (True, e)"
  shows "\<exists>f o1. ed_self e = ReplacedBy (f, [o1]) \<and> settled f 1"
proof -
  define F where "F = (if scope = SingleThread then ''__tsan_atomic_signal_fence'' else ''__tsan_atomic_thread_fence'')"
  obtain o1 where "e = no_edit\<lparr>ed_self := ReplacedBy (F, [o1])\<rparr>"
    using assms unfolding atomic_fence_def F_def [symmetric] by (auto simp: bnd_eq_Inr_iff Let_def)
  moreover have "F \<notin> fst ` set runtime_functions" using atomic_fence_names unfolding F_def by (simp split: if_split)
  ultimately show ?thesis by (auto simp: no_edit_def settled_def)
qed

text \<open>
  C28: Of the functions the pass emits for atomic instructions the runtime has four: the loads of
  1, 2 and 4 bytes and the addition of 4 bytes. Every other atomic operation, every store, exchange,
  compare-and-exchange and fence among them, becomes a call of a function that does not exist.
\<close>

theorem atomic_callbacks_missing:
  assumes "instrumentAtomic q I st = Inr ((True, e), st')" and "isAtomic I"
  shows "\<exists>f args. (ed_before e = [(f, args)] \<or> ed_self e = ReplacedBy (f, args)) \<and>
    ((f, length args) \<in> set runtime_functions \<longleftrightarrow>
      f \<in> {''__tsan_atomic8_load'', ''__tsan_atomic16_load'', ''__tsan_atomic32_load'',
           ''__tsan_atomic32_fetch_add''})"
proof -
  have "\<exists>f args. (ed_before e = [(f, args)] \<or> ed_self e = ReplacedBy (f, args)) \<and> settled f (length args)"
  proof (cases "pointer_of (i_kind I)")
    case None
    with assms(2) obtain ord scope where "i_kind I = FenceInst ord scope"
      by (cases "i_kind I") (simp_all add: isAtomic_def)
    with assms(1) None have "atomic_fence ord scope = Inr (True, e)" by (auto simp: instrumentAtomic_def bnd_eq_Inr_iff)
    from atomic_fence_self [OF this] show ?thesis by fastforce
  next
    case (Some Addr)
    obtain Idx st1 where G: "getMemoryAccessFuncIndex q Addr st = (Some Idx, st1)"
      using assms Some
      by (cases "getMemoryAccessFuncIndex q Addr st") (auto simp: instrumentAtomic_def split: option.splits)
    note Idx = getMemoryAccessFuncIndex_Some(1) [OF G]
    show ?thesis
    proof (cases "i_kind I")
      case (LoadInst p a ord scope)
      with assms(1) Some G obtain args where "ed_before e = [(TsanAtomicLoad Idx, args)]" "length args = 2"
        by (auto simp: instrumentAtomic_def atomic_load_def bnd_eq_Inr_iff Let_def no_edit_def)
      then show ?thesis using atomic_load_name [OF Idx] by fastforce
    next
      case (StoreInst p v a ord scope)
      with assms(1) Some G obtain args where "ed_self e = ReplacedBy (TsanAtomicStore Idx, args)"
        by (auto simp: instrumentAtomic_def atomic_store_def bnd_eq_Inr_iff Let_def no_edit_def)
      moreover have "settled (TsanAtomicStore Idx) n" for n
        using atomic_name_missing [OF Idx, of "''_store''", folded TsanAtomicStore_def] by (simp add: settled_def)
      ultimately show ?thesis by blast
    next
      case (AtomicRMWInst op p v ord)
      with assms(1) Some G obtain F args where "TsanAtomicRMW op Idx = Some F" "ed_self e = ReplacedBy (F, args)"
        "length args = 3"
        by (auto simp: instrumentAtomic_def atomic_rmw_def bnd_eq_Inr_iff Let_def no_edit_def split: option.splits)
      then show ?thesis using atomic_rmw_name [OF Idx] by fastforce
    next
      case (AtomicCmpXchgInst p c n so fo)
      with assms(1) Some G obtain args where "ed_before e = [(TsanAtomicCAS Idx, args)]"
        by (auto simp: instrumentAtomic_def atomic_cas_def bnd_eq_Inr_iff Let_def)
      moreover have "settled (TsanAtomicCAS Idx) n" for n
        using atomic_name_missing [OF Idx, of "''_compare_exchange_val''", folded TsanAtomicCAS_def] by (simp add: settled_def)
      ultimately show ?thesis by blast
    qed (use assms(2) Some in \<open>auto simp: isAtomic_def\<close>)
  qed
  then show ?thesis unfolding atomic_names_def [symmetric] using settled_iff by blast
qed

text \<open>
  The callbacks get the line number modulo 256: accesses whose lines differ by a multiple of
  256 make the same call.
\<close>

theorem line_numbers_truncated:
  "hd (location_args q Addr I) = ConstantInt 8 (unat (getLineNumber (i_loc I)) mod 256) \<and>
   location_args q Addr (I\<lparr>i_loc := Some \<lparr>dl_line = n, dl_scope = sc\<rparr>\<rparr>) =
     location_args q Addr (I\<lparr>i_loc := Some \<lparr>dl_line = n + 256, dl_scope = sc\<rparr>\<rparr>)"
proof -
  have "unat (n + 256) mod 256 = unat n mod 256"
    by (simp add: unat_word_ariths mod_mod_cancel)
  then show ?thesis by (simp add: location_args_def getLineNumber_def getFileName_def)
qed

lemma sync_callbacks:
  "i_kind I = CallInst (Some (''pthread_create'' @ n)) (a # as) \<Longrightarrow>
    InstrIfSynchronization I = Inr (Some (After, (''__tsan_thread_create'', [Val a])))"
  "i_kind I = CallInst (Some (''pthread_join'' @ n)) (a # as) \<Longrightarrow>
    InstrIfSynchronization I = Inr (Some (After, (''__tsan_thread_join'', [Val a])))"
  "i_kind I = CallInst (Some (''pthread_mutex_lock'' @ n)) (a # as) \<Longrightarrow>
    InstrIfSynchronization I = Inr (Some (After, (''__tsan_thread_lock'', [Val a])))"
  "i_kind I = CallInst (Some (''pthread_mutex_unlock'' @ n)) (a # as) \<Longrightarrow>
    InstrIfSynchronization I = Inr (Some (Before, (''__tsan_thread_unlock'', [Val a])))"
  by (simp_all add: InstrIfSynchronization_def startswith_def vget_def Let_def)

text \<open>
  C30: In the instrumented function the callbacks of synchronisation calls stand directly beside the calls: those
  of \<open>pthread_create\<close>, \<open>pthread_join\<close> and \<open>pthread_mutex_lock\<close> directly after them, that of
  \<open>pthread_mutex_unlock\<close> directly before it, each with the first argument of the call. So what a lock hands over
  is released before the unlock and acquired after the lock.
\<close>

theorem sync_callback_adjacent:
  assumes "runOnFunction q opts dm EE F st = Inr r" and "\<not> f_isTsanCtor F"
    and "distinct (map i_id (concat (f_blocks F)))"
    and "b < length (f_blocks F)" and "I \<in> set (f_blocks F ! b)"
    and "i_kind I = CallInst (Some name) (a # as)" and "startswith name p"
    and "(p, place, f) \<in> {(''pthread_create'', After, ''__tsan_thread_create''),
      (''pthread_join'', After, ''__tsan_thread_join''), (''pthread_mutex_lock'', After, ''__tsan_thread_lock''),
      (''pthread_mutex_unlock'', Before, ''__tsan_thread_unlock'')}"
    and "i_id I \<notin> set (EE F (ClHandleCxxExceptions opts))"
  shows "\<exists>pre post. r_blocks r ! b =
    pre @ (case place of After \<Rightarrow> [Orig I, Inserted (f, [Val a])] | Before \<Rightarrow> [Inserted (f, [Val a]), Orig I]) @ post"
proof -
  have plain: "\<not> isAtomic I" "\<not> is_load (i_kind I)" "\<not> is_store (i_kind I)" "\<not> is_mem_intrinsic (i_kind I)"
    using assms(6) by (simp_all add: isAtomic_def)
  obtain rest where "name = p @ rest" using assms(7) by (auto simp: startswith_def is_prefix_iff)
  with assms(6) have "i_kind I = CallInst (Some (p @ rest)) (a # as)" by simp
  with assms(8) have "InstrIfSynchronization I = Inr (Some (place, (f, [Val a])))"
    by (elim insertE emptyE) (simp_all only: prod.inject sync_callbacks)
  then have sync: "map_of (sync_of I) (i_id I) = Some (place, (f, [Val a]))" by (simp add: sync_of_def)
  obtain s Res bs pre post where R:
    "r_blocks r = insert_at_entry (entry_calls_of dm F s (entry_exit opts Res s)) bs"
    "length bs = length (f_blocks F)"
    "bs ! b = pre @ ((case map_of (sync_of I) (i_id I) of Some (Before, c) \<Rightarrow> [Inserted c] | _ \<Rightarrow> []) @
       (if i_id I \<in> set (EE F (ClHandleCxxExceptions opts))
        then map Inserted (exit_calls_of dm F s (entry_exit opts Res s)) else []) @ [Orig I] @
       (case map_of (sync_of I) (i_id I) of Some (After, c) \<Rightarrow> [Inserted c] | _ \<Rightarrow> [])) @ post"
    using run_items_of_plain [OF assms(1-5) plain] by metis
  have b: "b < length bs" using R(2) assms(4) by simp
  show ?thesis
  proof (cases place)
    case After
    then have "bs ! b = pre @ Orig I # [Inserted (f, [Val a])] @ post" using R(3) sync assms(9) by simp
    from insert_at_entry_keeps [OF b this] assms(6)
    obtain pre' where "r_blocks r ! b = pre' @ Orig I # [Inserted (f, [Val a])] @ post"
      unfolding R(1) by auto
    with After show ?thesis by (intro exI [of _ pre'] exI [of _ post]) simp
  next
    case Before
    then have "bs ! b = pre @ Inserted (f, [Val a]) # [Orig I] @ post" using R(3) sync assms(9) by simp
    from insert_at_entry_keeps [OF b this]
    obtain pre' where "r_blocks r ! b = pre' @ Inserted (f, [Val a]) # [Orig I] @ post"
      unfolding R(1) by auto
    with Before show ?thesis by (intro exI [of _ pre'] exI [of _ post]) simp
  qed
qed

text \<open>
  C31: The pass leaves a function as it is and says so, or the function announces itself at its entry and, with
  the very same name, before every return, and \<open>main\<close> then also has the collected races printed. The second is
  the case for every function in which anything was instrumented, leaf functions included, and for every function
  with a call.
\<close>

theorem function_entry_and_exit:
  assumes "runOnFunction q opts dm EE F st = Inr r" and "\<not> f_isTsanCtor F"
    and "distinct (map i_id (concat (f_blocks F)))" and "ClInstrumentFuncEntryExit opts"
    and "b < length (f_blocks F)" and "I \<in> set (f_blocks F ! b)" and "i_kind I = ReturnInst"
    and "i_id I \<in> set (EE F (ClHandleCxxExceptions opts))"
  shows "(if r_Res r
      then \<exists>pre post pre' post'.
        r_blocks r ! 0 = pre @ Inserted (''__tsan_func_entry'', [name_arg dm F]) # post \<and>
        (\<forall>x \<in> set pre. is_phi x) \<and>
        r_blocks r ! b = pre' @ Inserted (''__tsan_func_exit'', [name_arg dm F]) #
          (if getFuncNameStr dm (f_name F) = ''main''
           then [Inserted (''__tsan_main_func_exit'', [name_arg dm F])] else []) @ Orig I # post'
      else r_blocks r = map (map Orig) (f_blocks F)) \<and>
    ((\<exists>J \<in> set (concat (f_blocks F)). makes_call J) \<longrightarrow> r_Res r)"
proof -
  have plain: "\<not> isAtomic I" "\<not> is_load (i_kind I)" "\<not> is_store (i_kind I)" "\<not> is_mem_intrinsic (i_kind I)"
    using assms(7) by (simp_all add: isAtomic_def)
  have sync: "sync_of I = []"
    using assms(7) by (simp add: sync_of_def InstrIfSynchronization_def)
  obtain s Res bs pre post where R: "collected (concat (f_blocks F)) (found_init st) s"
    "r_blocks r = insert_at_entry (entry_calls_of dm F s (entry_exit opts Res s)) bs"
    "length bs = length (f_blocks F)" "r_Res r = (Res \<or> entry_exit opts Res s)"
    "bs ! b = pre @ ((case map_of (sync_of I) (i_id I) of Some (Before, c) \<Rightarrow> [Inserted c] | _ \<Rightarrow> []) @
       (if i_id I \<in> set (EE F (ClHandleCxxExceptions opts))
        then map Inserted (exit_calls_of dm F s (entry_exit opts Res s)) else []) @ [Orig I] @
       (case map_of (sync_of I) (i_id I) of Some (After, c) \<Rightarrow> [Inserted c] | _ \<Rightarrow> [])) @ post"
    using run_items_of_plain [OF assms(1-3,5,6) plain] by metis
  have ee: "entry_exit opts Res s = r_Res r" using R(4) assms(4) by (auto simp: entry_exit_def)
  have calls: "HasCalls s = (\<exists>J \<in> set (concat (f_blocks F)). makes_call J)"
    using R(1) by (simp add: collected_def found_init_def)
  let ?x = "Inserted (''__tsan_func_exit'', [name_arg dm F])"
  let ?main = "if getFuncNameStr dm (f_name F) = ''main''
       then [Inserted (''__tsan_main_func_exit'', [name_arg dm F])] else []"
  have announced: "\<exists>pre post pre' post'.
        r_blocks r ! 0 = pre @ Inserted (''__tsan_func_entry'', [name_arg dm F]) # post \<and>
        (\<forall>x \<in> set pre. is_phi x) \<and> r_blocks r ! b = pre' @ ?x # ?main @ Orig I # post'" if "r_Res r"
  proof -
    have exits: "map Inserted (exit_calls_of dm F s True) =
        (if f_noChecking F \<and> HasCalls s then [Inserted (''__tsan_ignore_thread_end'', [])] else []) @ ?x # ?main"
      by (simp add: exit_calls_of_def)
    have "bs ! b = (pre @ (if f_noChecking F \<and> HasCalls s then [Inserted (''__tsan_ignore_thread_end'', [])] else [])) @
        ?x # ?main @ Orig I # post"
      using R(5) sync assms(8) ee that exits by simp
    from insert_at_entry_keeps [of b bs _ ?x "?main @ [Orig I]" post] this R(3) assms(5)
    have at_exit: "\<exists>pre'. r_blocks r ! b = pre' @ ?x # ?main @ Orig I # post"
      unfolding R(2) by simp
    have "r_blocks r ! 0 = takeWhile is_phi (bs ! 0) @ Inserted (''__tsan_func_entry'', [name_arg dm F]) #
        (map Inserted (if f_noChecking F \<and> HasCalls s then [(''__tsan_ignore_thread_begin'', [])] else []) @
         dropWhile is_phi (bs ! 0))"
      using R(3) assms(5) ee that unfolding R(2)
      by (subst insert_at_entry_nth) (auto simp: entry_calls_of_def)
    moreover have "\<forall>x \<in> set (takeWhile is_phi (bs ! 0)). is_phi x" by (auto dest: set_takeWhileD)
    ultimately show ?thesis using at_exit by blast
  qed
  have "r_blocks r = map (map Orig) (f_blocks F)" if "\<not> r_Res r"
    using untouched_function [OF assms(1,2,4) that] .
  with announced show ?thesis using ee calls assms(4) by (auto simp: entry_exit_def)
qed

text \<open>A small \<open>main\<close> that locks, stores, unlocks and returns.\<close>

definition demo_func :: "nat func" where
  "demo_func = \<lparr>f_name = ''main'',
     f_blocks = [[demo_instr 1 (CallInst (Some ''pthread_mutex_lock'') [5]),
       demo_instr 2 (StoreInst 3 9 4 AO_NotAtomic CrossThread),
       demo_instr 3 (CallInst (Some ''pthread_mutex_unlock'') [5]), demo_instr 4 ReturnInst]],
     f_SanitizeThread = True, f_noChecking = False, f_isTsanCtor = False\<rparr>"

abbreviation demo_run :: "nat result res" where
  "demo_run \<equiv> runOnFunction demo_queries default_opts (\<lambda>_. None) (\<lambda>_ _. [4]) demo_func stats_init"

lemma demo_run_returns: "\<exists>r. demo_run = Inr r"
proof -
  have "case demo_run of Inr r \<Rightarrow> True | Inl e \<Rightarrow> False" by code_simp
  then show ?thesis by (auto split: sum.splits)
qed

theorem atomic_callbacks_missing_witness:
  "\<exists>e st'. instrumentAtomic demo_queries (demo_instr 1 (StoreInst 3 9 4 AO_Release CrossThread)) stats_init = Inr ((True, e), st') \<and>
    (\<exists>f args. (ed_before e = [(f, args)] \<or> ed_self e = ReplacedBy (f, args)) \<and>
      ((f, length args) \<in> set runtime_functions \<longleftrightarrow>
        f \<in> {''__tsan_atomic8_load'', ''__tsan_atomic16_load'', ''__tsan_atomic32_load'',
             ''__tsan_atomic32_fetch_add''}))"
proof -
  let ?I = "demo_instr 1 (StoreInst 3 9 4 AO_Release CrossThread)"
  have "case instrumentAtomic demo_queries ?I stats_init of Inr ((b, e), st) \<Rightarrow> b | Inl _ \<Rightarrow> False"
    by code_simp
  then obtain e st' where r: "instrumentAtomic demo_queries ?I stats_init = Inr ((True, e), st')"
    by (cases "instrumentAtomic demo_queries ?I stats_init") auto
  have "isAtomic ?I" by (simp add: isAtomic_def demo_instr_def)
  from atomic_callbacks_missing [OF r this] show ?thesis by (intro exI [of _ e] exI [of _ st'] conjI r)
qed

theorem sync_callback_adjacent_witness:
  "\<exists>r pre post. demo_run = Inr r \<and> r_blocks r ! 0 =
    pre @ [Inserted (''__tsan_thread_unlock'', [Val 5]),
      Orig (demo_instr 3 (CallInst (Some ''pthread_mutex_unlock'') [5]))] @ post"
proof -
  let ?I = "demo_instr 3 (CallInst (Some ''pthread_mutex_unlock'') [5])"
  obtain r where r: "demo_run = Inr r" using demo_run_returns by blast
  have "\<exists>pre post. r_blocks r ! 0 = pre @ (case Before of After \<Rightarrow> [Orig ?I, Inserted (''__tsan_thread_unlock'', [Val 5])]
      | Before \<Rightarrow> [Inserted (''__tsan_thread_unlock'', [Val 5]), Orig ?I]) @ post"
    by (rule sync_callback_adjacent [OF r, where name = "''pthread_mutex_unlock''" and p = "''pthread_mutex_unlock''"])
      (simp_all add: demo_func_def demo_instr_def startswith_def)
  with r show ?thesis by auto
qed

text \<open>A leaf function: it stores and returns.\<close>

definition demo_leaf :: "nat func" where
  "demo_leaf = \<lparr>f_name = ''leaf'',
     f_blocks = [[demo_instr 2 (StoreInst 3 9 4 AO_NotAtomic CrossThread), demo_instr 4 ReturnInst]],
     f_SanitizeThread = True, f_noChecking = False, f_isTsanCtor = False\<rparr>"

abbreviation leaf_run :: "nat result res" where
  "leaf_run \<equiv> runOnFunction demo_queries default_opts (\<lambda>_. None) (\<lambda>_ _. [4]) demo_leaf stats_init"

lemma leaf_run_returns: "\<exists>r. leaf_run = Inr r \<and> r_Res r"
proof -
  have "case leaf_run of Inr r \<Rightarrow> r_Res r | Inl e \<Rightarrow> False" by code_simp
  then show ?thesis by (auto split: sum.splits)
qed

theorem function_entry_and_exit_witness:
  "\<exists>r pre post pre' post'. leaf_run = Inr r \<and>
    r_blocks r ! 0 = pre @ Inserted (''__tsan_func_entry'', [name_arg (\<lambda>_. None) demo_leaf]) # post \<and>
    r_blocks r ! 0 = pre' @ Inserted (''__tsan_func_exit'', [name_arg (\<lambda>_. None) demo_leaf]) #
      Orig (demo_instr 4 ReturnInst) # post'"
proof -
  obtain r where r: "leaf_run = Inr r" "r_Res r" using leaf_run_returns by blast
  have name: "getFuncNameStr (\<lambda>_. None) (f_name demo_leaf) \<noteq> ''main''"
    by (simp add: demo_leaf_def getFuncNameStr_def demangleName_def cut_args_eq)
  show ?thesis
    using function_entry_and_exit [OF r(1), of 0 "demo_instr 4 ReturnInst"] r name
    by (simp add: demo_leaf_def demo_instr_def default_opts_def) blast
qed

lemma runtime_exits:
  "(''__tsan_func_exit'', Suc 0) \<in> set runtime_functions" "(''__tsan_main_func_exit'', Suc 0) \<notin> set runtime_functions"
  by (simp_all add: runtime_functions_def)

lemma exit_calls_cases:
  "(f, args) \<in> set (exit_calls_of dm F s ee) \<Longrightarrow>
    f = ''__tsan_ignore_thread_end'' \<and> args = [] \<or> f \<in> set exit_callbacks \<and> args = [name_arg dm F]"
  by (auto simp: exit_calls_of_def split: if_splits)

lemma entry_calls_cases:
  "(f, args) \<in> set (entry_calls_of dm F s ee) \<Longrightarrow>
    f = ''__tsan_ignore_thread_begin'' \<and> args = [] \<or> f = ''__tsan_func_entry'' \<and> args = [name_arg dm F]"
  by (auto simp: entry_calls_of_def split: if_splits)

lemma sync_calls_cases:
  assumes "InstrIfSynchronization I = Inr (Some (p, (f, args)))"
  shows "f \<in> set sync_callbacks \<and> length args = 1"
proof -
  obtain name as where "i_kind I = CallInst (Some name) as" using InstrIfSynchronization_Some [OF assms] by blast
  with assms show ?thesis
    by (auto simp: InstrIfSynchronization_def Let_def bnd_eq_Inr_iff split: if_splits)
qed

text \<open>
  C32: Every call the pass inserts into a function has as many arguments as the callback was declared with, but
  for the callbacks at the exits: \<open>initializeCallbacks\<close> declares \<open>__tsan_func_exit\<close> and \<open>__tsan_main_func_exit\<close>
  without a parameter, and the pass calls both with the name of the function, which the runtime's
  \<open>__tsan_func_exit\<close> reads. The callbacks of synchronisation calls, with one argument, are not declared there
  but where they are inserted.
\<close>

theorem declarations_and_calls:
  assumes "runOnFunction q opts dm EE F st = Inr r"
    and "b < length (r_blocks r)" and "Inserted (f, args) \<in> set (r_blocks r ! b)"
  shows "if f \<in> {''__tsan_func_exit'', ''__tsan_main_func_exit''}
    then declared f 0 \<and> \<not> declared f (length args) \<and> length args = 1 \<and>
      ((f, length args) \<in> set runtime_functions \<longleftrightarrow> f = ''__tsan_func_exit'')
    else if f \<in> {''__tsan_thread_create'', ''__tsan_thread_join'', ''__tsan_thread_lock'', ''__tsan_thread_unlock''}
    then (\<nexists>n. declared f n) \<and> length args = 1
    else declared f (length args)"
proof (cases "f_isTsanCtor F")
  case True
  then have r: "r_blocks r = map (map Orig) (f_blocks F)"
    using assms(1) by (auto simp: runOnFunction_def)
  have False using assms(2,3) unfolding r by auto
  then show ?thesis ..
next
  case False
  then obtain s where s: "collect_blocks q (f_blocks F) (found_init st) = Inr s"
    "rewrite_function q opts dm EE F s = Inr r"
    using assms(1) by (auto simp: runOnFunction_def bnd_eq_Inr_iff)
  obtain Res es st' where R: "edits_made q opts F s = Inr (Res, es, st')"
    "r_blocks r = insert_at_entry (entry_calls_of dm F s (entry_exit opts Res s))
       (map (\<lambda>BB. concat (map (item_of es (syncs s) (exit_calls_of dm F s (entry_exit opts Res s))
          (\<lambda>i. i \<in> set (EE F (ClHandleCxxExceptions opts)))) BB)) (f_blocks F))" (is "_ = insert_at_entry ?en (map ?g _)")
    using rewrite_function_shape [OF s(2)] by metis
  have "b < length (map ?g (f_blocks F))"
    using assms(2) unfolding R(2) by (cases "f_blocks F") (simp_all add: insert_at_entry_def)
  with inserted_at_entry [OF assms(3) [unfolded R(2)] this] consider (entry) "(f, args) \<in> set ?en"
    | (item) I where "Inserted (f, args) \<in> set (item_of es (syncs s) (exit_calls_of dm F s (entry_exit opts Res s))
        (\<lambda>i. i \<in> set (EE F (ClHandleCxxExceptions opts))) I)"
    by auto
  then consider "(f, args) \<in> set ?en" | "(f, args) \<in> set (exit_calls_of dm F s (entry_exit opts Res s))"
    | i e where "(i, e) \<in> set es" "(f, args) \<in> set (calls_of e)" | i p where "(i, p, (f, args)) \<in> set (syncs s)"
  proof cases
    case entry
    then show ?thesis using that(1) by blast
  next
    case item
    from inserted_item [OF item] that(2-4) show ?thesis by blast
  qed
  then show ?thesis
  proof cases
    case 1
    from entry_calls_cases [OF this] show ?thesis using declared_rest(3,4) by (elim disjE) simp_all
  next
    case 2
    from exit_calls_cases [OF this] consider "f = ''__tsan_ignore_thread_end''" "args = []"
      | "f = ''__tsan_func_exit''" "length args = Suc 0" | "f = ''__tsan_main_func_exit''" "length args = Suc 0"
      by auto
    then show ?thesis
    proof cases
      case 1
      then show ?thesis using declared_rest(5) by simp
    next
      case 2
      then show ?thesis
        using declared_rest(1) declared_exits [of "''__tsan_func_exit''" "Suc 0"] runtime_exits by auto
    next
      case 3
      then show ?thesis
        using declared_rest(2) declared_exits [of "''__tsan_main_func_exit''" "Suc 0"] runtime_exits by auto
    qed
  next
    case 3
    then have "args \<noteq> []" "declared f (length args)"
      using edits_made_ok(1) [OF R(1)] by (auto simp: calls_ok_def)
    moreover from this have "f \<notin> set exit_callbacks" using declared_exits [of f "length args"] by auto
    moreover have "f \<notin> set sync_callbacks" using \<open>declared f (length args)\<close> by (rule declared_syncs)
    ultimately show ?thesis by simp
  next
    case 4
    have "syncs s = concat (map sync_of (concat (f_blocks F)))"
      using collect_blocks_collected [OF s(1)] by (simp add: collected_def found_init_def)
    with 4 obtain I where "InstrIfSynchronization I = Inr (Some (p, (f, args)))"
      by (auto simp: sync_of_def split: sum.splits option.splits)
    from sync_calls_cases [OF this] have f: "f \<in> set sync_callbacks" "length args = 1" by simp_all
    then have "f \<notin> set exit_callbacks" "\<nexists>n. declared f n" using declared_syncs by auto
    with f show ?thesis by simp
  qed
qed

theorem declarations_and_calls_witness:
  "\<exists>r f. leaf_run = Inr r \<and> Inserted (''__tsan_func_exit'', [name_arg (\<lambda>_. None) demo_leaf]) \<in> set (r_blocks r ! 0) \<and>
    declared ''__tsan_func_exit'' 0 \<and> \<not> declared ''__tsan_func_exit'' 1"
proof -
  obtain r where r: "leaf_run = Inr r" "r_Res r" using leaf_run_returns by blast
  have "case leaf_run of Inr r \<Rightarrow> 0 < length (r_blocks r) \<and>
      Inserted (''__tsan_func_exit'', [name_arg (\<lambda>_. None) demo_leaf]) \<in> set (r_blocks r ! 0) | Inl e \<Rightarrow> False" by code_simp
  with r have "0 < length (r_blocks r)"
    "Inserted (''__tsan_func_exit'', [name_arg (\<lambda>_. None) demo_leaf]) \<in> set (r_blocks r ! 0)"
    by simp_all
  with declarations_and_calls [OF r(1) this] r show ?thesis by simp
qed

end
