(* ===== verification/DriverArgs.thy ===== *)
theory DriverArgs
  imports Prelude
begin

unbundle bit_operations_syntax

text \<open>
  What the files of Clang's driver share (\<open>llvm/tools/clang/lib/Driver\<close>): parsed options, the target,
  the diagnostics. The option parser, the class \<open>ToolChain\<close>, the triple and
  \<open>clang/Basic/Sanitizers.def\<close> are not part of this repository. Their answers are fields of the records
  below, arbitrary unless a theorem says what it needs of them.
\<close>

subsection \<open>Options\<close>

datatype (plugins only: size) ToolOpt =
    OPT_mcpu_EQ | OPT_march_EQ | OPT_mfpu_EQ | OPT_mhwdiv_EQ | OPT_Wa_COMMA | OPT_Xassembler
  | OPT_msoft_float | OPT_mhard_float | OPT_mfloat_abi_EQ | OPT_mkernel | OPT_fapple_kext
  | OPT_mcrc | OPT_mnocrc | OPT_mlong_calls | OPT_mno_long_calls | OPT_mexecute_only
  | OPT_mno_execute_only | OPT_mno_movt | OPT_mno_unaligned_access | OPT_munaligned_access
  | OPT_ffixed_r9 | OPT_mabi_EQ | OPT_mno_global_merge | OPT_mglobal_merge
  | OPT_mno_implicit_float | OPT_mimplicit_float | OPT_fxray_instrument | OPT_fnoxray_instrument
  | OPT_EL | OPT_EB | OPT_O_Group | OPT_O0 | OPT_pg | OPT_fomit_frame_pointer
  | OPT_fno_omit_frame_pointer | OPT_momit_leaf_frame_pointer | OPT_mno_omit_leaf_frame_pointer
  | OPT_shared | OPT_r | OPT_mrecip | OPT_mrecip_EQ | OPT_other

datatype (plugins only: size) LinkOpt =
    OPT_static | OPT_static_libgcc | OPT_pie | OPT_rdynamic | OPT_s | OPT_nostdlib | OPT_nostartfiles
  | OPT_nodefaultlibs | OPT_static_libstdcxx | OPT_pthread | OPT_pthreads | OPT_fopenmp | OPT_fopenmp_EQ
  | OPT_fno_openmp | OPT_fsplit_stack | OPT_Z_Xlinker__no_demangle | OPT_rtlib_EQ | OPT_stdlib_EQ
  | OPT_flto_jobs_EQ | OPT_O4 | OPT_Ofast | OPT_O | OPT_gTune_Group | OPT_ggdbN_Group | OPT_glldb | OPT_gsce
  | OPT_ffunction_sections | OPT_fno_function_sections | OPT_fdata_sections | OPT_fno_data_sections
  | OPT_fprofile_sample_use_EQ | OPT_g_Group | OPT_emit_llvm | OPT_w | OPT_L | OPT_u | OPT_z
  | OPT_mtune_EQ | OPT_arch | OPT_Zlinker_input | OPT_Z_reserved_lib_stdcxx | OPT_Z_reserved_lib_cckext

datatype (plugins only: size) PicOpt =
    OPT_fPIC | OPT_fno_PIC | OPT_fpic | OPT_fno_pic | OPT_fPIE | OPT_fno_PIE | OPT_fpie | OPT_fno_pie
  | OPT_mcmodel_EQ | OPT_mdynamic_no_pic | OPT_fropi | OPT_fno_ropi | OPT_frwpi | OPT_fno_rwpi

text \<open>Options of single targets; \<open>OPT_m_\<dots>_Features_Group\<close> and \<open>OPT_m_libc_Group\<close> are groups of options.\<close>

datatype (plugins only: size) MipsOpt =
    OPT_mno_abicalls | OPT_mabicalls | OPT_mnan_EQ | OPT_msingle_float | OPT_mdouble_float |
    OPT_mips16 | OPT_mno_mips16 | OPT_mmicromips | OPT_mno_micromips | OPT_mdsp | OPT_mno_dsp |
    OPT_mdspr2 | OPT_mno_dspr2 | OPT_mmsa | OPT_mno_msa | OPT_mfp32 | OPT_mfpxx | OPT_mfp64 |
    OPT_mno_odd_spreg | OPT_modd_spreg | OPT_mxgot | OPT_mno_xgot | OPT_mldc1_sdc1 |
    OPT_mno_ldc1_sdc1 | OPT_mcheck_zero_division | OPT_mno_check_zero_division | OPT_G |
    OPT_mcompact_branches_EQ | OPT_m_libc_Group | OPT_muclibc

datatype (plugins only: size) TargetOpt =
    OPT_m_ppc_Features_Group | OPT_faltivec | OPT_fno_altivec | OPT_mqpx | OPT_mno_qpx |
    OPT_mbackchain | OPT_mno_backchain | OPT_mhtm | OPT_mno_htm | OPT_mvx | OPT_mno_vx |
    OPT_m_x86_Features_Group | OPT__SLASH_arch | OPT_mred_zone | OPT_mno_red_zone |
    OPT_mno_soft_float | OPT_masm_EQ | OPT_miamcu | OPT_mno_iamcu | OPT_m_hexagon_Features_Group |
    OPT_fno_short_enums | OPT_mieee_rnd_near | OPT_mregparm_EQ | OPT_m_wasm_Features_Group |
    OPT_fvisibility_ms_compat | OPT_mgeneral_regs_only | OPT_ffixed_x18 | OPT_mfix_cortex_a53_835769
    | OPT_mno_fix_cortex_a53_835769 | OPT_mamdgpu_debugger_abi | OPT_m_amdgpu_Features_Group

datatype (plugins only: size) AsmOpt =
    OPT_C | OPT_CC | OPT_E | OPT__SLASH_P | OPT__SLASH_EP | OPT_dynamic | OPT_mfpmath_EQ |
    OPT_mimplicit_it_EQ | OPT_mrelax_all | OPT_mno_relax_all | OPT_mincremental_linker_compatible |
    OPT_mno_incremental_linker_compatible | OPT_I_Group | OPT_W_Group | OPT_force_cpusubtype_ALL |
    OPT_mllvm

datatype (plugins only: size) JobOpt =
    OPT_g0 | OPT_ggdb0 | OPT_ggdb1 | OPT_gline_tables_only | OPT_gN_Group | OPT_flto_EQ | OPT_flto |
    OPT_fno_lto | OPT_o | OPT_c | OPT_S | OPT_fdebug_compilation_dir | OPT_I | OPT_gsplit_dwarf |
    OPT_gz | OPT_gz_EQ

datatype (plugins only: size) OptID =
    OPT_fsanitize_EQ | OPT_fno_sanitize_EQ
  | OPT_fsanitize_trap_EQ | OPT_fno_sanitize_trap_EQ
  | OPT_fsanitize_undefined_trap_on_error | OPT_fno_sanitize_undefined_trap_on_error
  | OPT_fsanitize_recover | OPT_fno_sanitize_recover
  | OPT_fsanitize_recover_EQ | OPT_fno_sanitize_recover_EQ
  | OPT_fsanitize_blacklist | OPT_fno_sanitize_blacklist
  | OPT_fsanitize_coverage | OPT_fno_sanitize_coverage
  | OPT_fsanitize_memory_track_origins_EQ | OPT_fsanitize_memory_track_origins
  | OPT_fno_sanitize_memory_track_origins | OPT_fsanitize_memory_use_after_dtor
  | OPT_fsanitize_thread_memory_access | OPT_fno_sanitize_thread_memory_access
  | OPT_fsanitize_thread_func_entry_exit | OPT_fno_sanitize_thread_func_entry_exit
  | OPT_fsanitize_thread_atomics | OPT_fno_sanitize_thread_atomics
  | OPT_fsanitize_cfi_cross_dso | OPT_fno_sanitize_cfi_cross_dso
  | OPT_fsanitize_stats | OPT_fno_sanitize_stats
  | OPT_shared_libasan | OPT_fsanitize_address_field_padding
  | OPT__SLASH_MTd | OPT__SLASH_MT | OPT__SLASH_MDd | OPT__SLASH_MD | OPT__SLASH_LDd | OPT__SLASH_LD
  | OPT_fsanitize_address_use_after_scope | OPT_fno_sanitize_address_use_after_scope
  | OPT_fsanitize_link_cxx_runtime | OPT_fvisibility_EQ
  | Tool ToolOpt | Link LinkOpt | Pic PicOpt | Tgt TargetOpt | Mips MipsOpt
  | Asm AsmOpt | Job JobOpt | CC string

text \<open>
  \<open>CC\<close> holds the options that only the compile job asks for, several hundred, by the name of the id without
  \<open>OPT_\<close>: \<open>CC ''fmath_errno''\<close> is \<open>OPT_fmath_errno\<close>.
\<close>

text \<open>
  \<open>a_name\<close> is \<open>getOption().getName()\<close>, \<open>a_string\<close> is \<open>getAsString\<close>, \<open>a_spelling\<close> is \<open>getSpelling\<close>; \<open>a_index\<close> tells the arguments of a
  command line apart. The lookups of \<open>ArgList\<close> are fields: the last argument with one of some ids,
  whether there is one, and the value of a positive or negative flag.
\<close>

record Arg =
  a_index :: nat
  a_opt :: OptID
  a_values :: "string list"
  a_name :: string
  a_string :: string
  a_spelling :: string

record ArgList =
  al_args :: "Arg list"
  getLastArg :: "OptID list \<Rightarrow> Arg option"
  hasArg :: "OptID list \<Rightarrow> bool"
  hasFlag :: "OptID \<Rightarrow> OptID \<Rightarrow> bool \<Rightarrow> bool"

definition filtered :: "OptID list \<Rightarrow> ArgList \<Rightarrow> Arg list" where
  "filtered ids Args = filter (\<lambda>A. a_opt A \<in> set ids) (al_args Args)"

definition getValue :: "Arg \<Rightarrow> string res" where
  "getValue A = vget (a_values A) 0"

text \<open>
  What the option parser guarantees: an argument of an option that takes a value has one, and a lookup of
  options finds an argument of one of them, when there is one. A group stands for the options in it.
\<close>

definition option_groups :: "OptID set" where
  "option_groups = {Tool OPT_O_Group, Link OPT_gTune_Group, Link OPT_ggdbN_Group, Link OPT_g_Group,
     Mips OPT_m_libc_Group, Asm OPT_I_Group, Asm OPT_W_Group, Job OPT_gN_Group, Tgt OPT_m_ppc_Features_Group, Tgt OPT_m_x86_Features_Group,
     Tgt OPT_m_hexagon_Features_Group, Tgt OPT_m_wasm_Features_Group, Tgt OPT_m_amdgpu_Features_Group} \<union>
     CC ` {''clang_i_Group'', ''R_Group'', ''g_flags_Group'', ''clang_ignored_f_Group'', ''clang_ignored_m_Group'',
       ''clang_ignored_gcc_optimization_f_Group'', ''_SLASH_M_Group'', ''_SLASH_volatile_Group''}"

definition CC_valued :: "string list" where
  "CC_valued = [''MF'', ''MQ'', ''include'', ''_SLASH_Yc'', ''_SLASH_Yu'', ''MJ'', ''_analyzer_output'', ''meabi'', ''mthread_model'',
     ''frewrite_map_file'', ''frewrite_map_file_EQ'', ''Wframe_larger_than_EQ'', ''ffp_contract'', ''flimited_precision_EQ'',
     ''mlinker_version_EQ'', ''fxray_instruction_threshold_'', ''fxray_instruction_threshold_EQ'', ''ccc_arcmt_migrate'',
     ''ccc_objcmt_migrate'', ''fdebug_prefix_map_EQ'', ''ftemplate_depth_'', ''ftemplate_depth_EQ'', ''foperator_arrow_depth_EQ'',
     ''fconstexpr_depth_EQ'', ''fconstexpr_steps_EQ'', ''fbracket_depth_EQ'', ''fconstant_string_class_EQ'', ''ftabstop_EQ'',
     ''ferror_limit_EQ'', ''fmacro_backtrace_limit_EQ'', ''ftemplate_backtrace_limit_EQ'', ''fconstexpr_backtrace_limit_EQ'',
     ''fspell_checking_limit_EQ'', ''fmessage_length_EQ'', ''ftrapv_handler_EQ'', ''_param'', ''cl_std_EQ'', ''fno_builtin_'',
     ''fmodules_cache_path'', ''fprebuilt_module_path'', ''fbuild_session_file'', ''_SLASH_std'', ''fnew_alignment_EQ'',
     ''faligned_new_EQ'', ''fpack_struct_EQ'', ''fmax_type_align_EQ'', ''finput_charset_EQ'', ''fexec_charset_EQ'',
     ''fdiagnostics_show_category_EQ'', ''fdiagnostics_format_EQ'', ''fdiagnostics_color_EQ'', ''foptimization_record_file_EQ'',
     ''_serialize_diags'', ''fplugin_EQ'', ''save_stats_EQ'', ''fobjc_runtime_EQ'', ''fobjc_abi_version_EQ'',
     ''fobjc_nonfragile_abi_version_EQ'', ''fprofile_instr_generate_EQ'', ''fprofile_generate_EQ'', ''fprofile_instr_use_EQ'',
     ''fprofile_use_EQ'', ''fprofile_dir'', ''mstack_alignment'', ''mstack_probe_size'']"

definition valued :: "OptID set" where
  "valued = Tool ` {OPT_mcpu_EQ, OPT_march_EQ, OPT_mfpu_EQ, OPT_mhwdiv_EQ, OPT_Wa_COMMA, OPT_Xassembler,
       OPT_mfloat_abi_EQ, OPT_mabi_EQ} \<union> Link ` {OPT_mtune_EQ, OPT_arch} \<union> {Pic OPT_mcmodel_EQ} \<union>
     Mips ` {OPT_mnan_EQ, OPT_G, OPT_mcompact_branches_EQ} \<union>
     Tgt ` {OPT__SLASH_arch, OPT_masm_EQ, OPT_mregparm_EQ, OPT_mamdgpu_debugger_abi} \<union>
     Asm ` {OPT_mfpmath_EQ, OPT_mimplicit_it_EQ} \<union>
     Job ` {OPT_o, OPT_fdebug_compilation_dir, OPT_I, OPT_gz_EQ} \<union> {OPT_fvisibility_EQ, Link OPT_fprofile_sample_use_EQ, Link OPT_O, Asm OPT_mllvm} \<union> CC ` set CC_valued"

definition args_valued :: "ArgList \<Rightarrow> bool" where
  "args_valued Args \<longleftrightarrow>
     (\<forall>A \<in> set (al_args Args). a_opt A \<in> valued \<longrightarrow> a_values A \<noteq> []) \<and>
     (\<forall>ids A. set ids \<inter> option_groups = {} \<and> getLastArg Args ids = Some A \<longrightarrow>
       A \<in> set (al_args Args) \<and> a_opt A \<in> set ids) \<and>
     (\<forall>ids. hasArg Args ids \<longleftrightarrow> getLastArg Args ids \<noteq> None)"

definition has_value :: "Arg option \<Rightarrow> bool" where
  "has_value A \<longleftrightarrow> (case A of None \<Rightarrow> True | Some A \<Rightarrow> a_values A \<noteq> [])"

lemma valued_ids [simp]:
  "Tool OPT_mcpu_EQ \<in> valued" "Tool OPT_march_EQ \<in> valued" "Tool OPT_mfpu_EQ \<in> valued"
  "Tool OPT_mhwdiv_EQ \<in> valued" "Tool OPT_mabi_EQ \<in> valued" "Tool OPT_mfloat_abi_EQ \<in> valued"
  "Link OPT_mtune_EQ \<in> valued" "Link OPT_arch \<in> valued" "Mips OPT_mnan_EQ \<in> valued" "Mips OPT_G \<in> valued"
  "Mips OPT_mcompact_branches_EQ \<in> valued" "Tgt OPT__SLASH_arch \<in> valued" "Tgt OPT_masm_EQ \<in> valued"
  "Tgt OPT_mregparm_EQ \<in> valued" "Tgt OPT_mamdgpu_debugger_abi \<in> valued" "Asm OPT_mfpmath_EQ \<in> valued"
  "Asm OPT_mimplicit_it_EQ \<in> valued" "Job OPT_o \<in> valued" "Job OPT_gz_EQ \<in> valued"
  "Pic OPT_mcmodel_EQ \<in> valued"
  "OPT_fvisibility_EQ \<in> valued" "Link OPT_fprofile_sample_use_EQ \<in> valued" "Link OPT_O \<in> valued" "Asm OPT_mllvm \<in> valued"
  unfolding valued_def by blast+

lemma CC_in_valued [simp]: "CC n \<in> valued \<longleftrightarrow> n \<in> set CC_valued"
  by (auto simp: valued_def)

lemma CC_valued_no_group: "n \<in> set CC_valued \<Longrightarrow> CC n \<notin> option_groups"
  by (auto simp: option_groups_def CC_valued_def)

lemma valued_no_group:
  assumes "set ids \<subseteq> valued"
  shows "set ids \<inter> option_groups = {}"
proof -
  have "x \<notin> option_groups" if "x \<in> valued" for x
  proof (cases "\<exists>n. x = CC n")
    case True
    with that CC_valued_no_group show ?thesis by auto
  next
    case False
    with that show ?thesis by (auto simp: valued_def option_groups_def)
  qed
  with assms show ?thesis by blast
qed

lemma has_value_last:
  assumes "args_valued Args" and "set ids \<subseteq> valued"
  shows "has_value (getLastArg Args ids)"
  using assms valued_no_group [OF assms(2)]
  by (fastforce simp: args_valued_def has_value_def split: option.split)

lemma getLastArg_opt:
  "args_valued Args \<Longrightarrow> set ids \<inter> option_groups = {} \<Longrightarrow> getLastArg Args ids = Some A \<Longrightarrow>
     A \<in> set (al_args Args) \<and> a_opt A \<in> set ids \<and> (a_opt A \<in> valued \<longrightarrow> a_values A \<noteq> [])"
  by (auto simp: args_valued_def)

lemma getValue_hd: "a_values A \<noteq> [] \<Longrightarrow> getValue A = Inr (hd (a_values A))"
  by (simp add: getValue_def vget_def hd_conv_nth)

subsection \<open>Diagnostics\<close>

datatype (plugins only: size) compile_diag =
    err_drv_mg_requires_m_or_mm
  | warn_drv_pch_not_first_include string string
  | err_drv_I_dash_not_supported string
  | err_target_unsupported_arch string string
  | err_drv_ropi_incompatible_with_cxx
  | err_drv_clang_unsupported_opt_cxx_darwin_i386 string
  | warn_O4_is_O3
  | warn_ignored_gcc_optimization string
  | err_drv_invalid_argument_to_fdebug_prefix_map string
  | err_drv_modules_validate_once_requires_timestamp
  | err_objc_weak_unsupported
  | warn_drv_clang_unsupported string
  | err_drv_unknown_objc_runtime string
  | err_drv_compilationdatabase string string

datatype (plugins only: size) diag =
    err_drv_unsupported_option_argument string string
  | err_drv_argument_not_allowed_with string string
  | err_drv_argument_only_allowed_with string string
  | err_drv_unsupported_opt_for_target string string
  | err_drv_no_such_file string
  | err_drv_malformed_sanitizer_blacklist string
  | err_drv_invalid_value string string
  | err_drv_clang_unsupported string
  | err_drv_invalid_mfloat_abi string
  | err_target_unsupported_execute_only string
  | err_target_unsupported_unaligned string
  | err_opt_not_valid_with_opt string string
  | err_drv_unknown_argument string
  | err_target_unknown_triple string
  | err_drv_unsupported_rtlib_for_platform string string
  | err_drv_no_linker_llvm_support string
  | err_drv_invalid_int_value string string
  | err_drv_ropi_rwpi_incompatible_with_pic
  | err_drv_no_neon_modifier
  | warn_target_unsupported_nan2008 string
  | warn_target_unsupported_nanlegacy string
  | warn_target_unsupported_compact_branches string
  | err_drv_defsym_invalid_format string
  | err_drv_defsym_invalid_symval string
  | warn_debug_compression_unavailable
  | warn_drv_enabling_rtti_with_exceptions
  | warn_drv_ps4_force_pic string
  | warn_drv_disabling_vptr_no_rtti_default
  | warn_drv_deprecated_arg string string
  | warn_drv_assuming_mfloat_abi_is string
  | warn_drv_unused_argument string
  | note_drv_address_sanitizer_debug_runtime
  | Compile compile_diag

text \<open>
  The driver's state: the diagnostics it has emitted and the arguments the code has claimed with
  \<open>Arg->claim()\<close>. The claims made inside the lookups of \<open>ArgList\<close> are not recorded.
\<close>

record drv =
  diags :: "diag list"
  claimed :: "nat list"

definition Diag :: "diag \<Rightarrow> drv \<Rightarrow> drv" where
  "Diag d D = D\<lparr>diags := diags D @ [d]\<rparr>"

definition claim :: "Arg \<Rightarrow> drv \<Rightarrow> drv" where
  "claim A D = D\<lparr>claimed := claimed D @ [a_index A]\<rparr>"

definition Diag_if :: "bool \<Rightarrow> diag \<Rightarrow> drv \<Rightarrow> drv" where
  "Diag_if b d D = (if b then Diag d D else D)"

lemma diags_simps [simp]:
  "diags (Diag d D) = diags D @ [d]" "claimed (Diag d D) = claimed D"
  "diags (claim A D) = diags D" "claimed (claim A D) = claimed D @ [a_index A]"
  by (simp_all add: Diag_def claim_def)

subsection \<open>Sanitizers\<close>

type_synonym SanitizerMask = "64 word"

text \<open>
  The names of \<open>SanitizerKind\<close>, and what \<open>Sanitizers.def\<close> lists: \<open>SK_names\<close> are the pairs of the macro
  \<open>SANITIZER(NAME, ID)\<close> in order, \<open>SK_groups\<close> the pairs \<open>ID\<close>, \<open>IDGroup\<close> of \<open>SANITIZER_GROUP\<close>.
\<close>

record sanitizers =
  SK_Address :: SanitizerMask
  SK_KernelAddress :: SanitizerMask
  SK_Memory :: SanitizerMask
  SK_Thread :: SanitizerMask
  SK_Leak :: SanitizerMask
  SK_Undefined :: SanitizerMask
  SK_UndefinedGroup :: SanitizerMask
  SK_Integer :: SanitizerMask
  SK_CFI :: SanitizerMask
  SK_CFIVCall :: SanitizerMask
  SK_CFINVCall :: SanitizerMask
  SK_CFIDerivedCast :: SanitizerMask
  SK_CFIUnrelatedCast :: SanitizerMask
  SK_Vptr :: SanitizerMask
  SK_DataFlow :: SanitizerMask
  SK_Unreachable :: SanitizerMask
  SK_Return :: SanitizerMask
  SK_UnsignedIntegerOverflow :: SanitizerMask
  SK_LocalBounds :: SanitizerMask
  SK_Efficiency :: SanitizerMask
  SK_names :: "(string \<times> SanitizerMask) list"
  SK_groups :: "(SanitizerMask \<times> SanitizerMask) list"
  parseSanitizerValue :: "string \<Rightarrow> SanitizerMask"
  expandSanitizerGroups :: "SanitizerMask \<Rightarrow> SanitizerMask"

definition has :: "SanitizerMask \<Rightarrow> SanitizerMask \<Rightarrow> bool" where
  "has Mask K \<longleftrightarrow> Mask AND K \<noteq> 0"

subsection \<open>The target\<close>

datatype (plugins only: size) OSType = OS_Darwin | OS_MacOSX | OS_IOS | OS_TvOS | OS_WatchOS | OS_Win32 | OS_FreeBSD
  | OS_NetBSD | OS_OpenBSD | OS_Fuchsia | OS_Linux | OS_NaCl | OS_RTEMS | OS_CloudABI | OS_Haiku | OS_Bitrig | OS_UnknownOS | OS_other

datatype EnvironmentType = Env_GNUEABIHF | Env_MuslEABIHF | Env_EABIHF | Env_GNUEABI | Env_MuslEABI
  | Env_EABI | Env_Android | Env_GNUX32 | Env_GNU | Env_other

datatype SubArchType = ARMSubArch_v7 | ARMSubArch_v8 | ARMSubArch_v7em | ARMSubArch_v6m | ARMSubArch_v8m_baseline | SubArch_other

datatype (plugins only: size) ArchType =
    Arch_arm | Arch_armeb | Arch_thumb | Arch_thumbeb | Arch_aarch64 | Arch_aarch64_be | Arch_x86
  | Arch_x86_64 | Arch_ppc | Arch_ppc64 | Arch_ppc64le | Arch_hexagon | Arch_systemz | Arch_xcore
  | Arch_wasm32 | Arch_wasm64 | Arch_mips | Arch_mipsel | Arch_mips64 | Arch_mips64el
  | Arch_sparc | Arch_sparcel | Arch_sparcv9 | Arch_lanai | Arch_nvptx | Arch_nvptx64 | Arch_r600 | Arch_amdgcn
  | Arch_other

definition arm_archs :: "ArchType set" where
  "arm_archs = {Arch_arm, Arch_armeb, Arch_thumb, Arch_thumbeb}"

datatype VendorType = Vendor_ImaginationTechnologies | Vendor_MipsTechnologies | Vendor_other

record Triple =
  t_str :: string
  t_OS :: OSType
  t_Environment :: EnvironmentType
  t_SubArch :: SubArchType
  t_Arch :: ArchType
  t_ArchName :: string
  t_Vendor :: VendorType
  t_isOSWindows :: bool
  t_isOSLinux :: bool
  t_isOSDarwin :: bool
  t_isOSBinFormatMachO :: bool
  t_isWatchABI :: bool
  t_isiOS :: bool
  t_isAndroid :: bool
  t_isNVPTX :: bool
  t_isOSVersionLT6 :: bool
  t_isMacOSX :: bool
  t_isOSVersionLT10_12 :: bool
  t_isPS4CPU :: bool

datatype RTTIMode = RM_EnabledExplicitly | RM_EnabledImplicitly | RM_DisabledExplicitly
  | RM_DisabledImplicitly

text \<open>
  \<open>tc_create\<close> is \<open>SpecialCaseList::create\<close>: \<open>Some\<close> the error text for a malformed list of files.
  \<open>tc_getAsInteger\<close> is \<open>StringRef::getAsInteger(0, \<dots>)\<close> into an \<open>int\<close>, with \<open>None\<close> for a string that is
  not a number. \<open>tc_getCompilerRT\<close> is the path of a runtime library, by name and whether it is shared.
\<close>

record ToolChain =
  tc_SupportedSanitizers :: SanitizerMask
  tc_DefaultSanitizers :: SanitizerMask
  tc_RTTIMode :: RTTIMode
  tc_RTTIArg :: "Arg option"
  tc_Triple :: Triple
  tc_EffectiveTriple :: Triple
  tc_ResourceDir :: string
  tc_isUsingLTO :: bool
  tc_CCCIsCXX :: bool
  tc_path_append :: "string \<Rightarrow> string \<Rightarrow> string"
  tc_exists :: "string \<Rightarrow> bool"
  tc_create :: "string list \<Rightarrow> string option"
  tc_getAsInteger :: "string \<Rightarrow> int option"
  tc_getCompilerRT :: "string \<Rightarrow> bool \<Rightarrow> string"

subsection \<open>Bits of masks\<close>

lemma has_iff: "has M K \<longleftrightarrow> (\<exists>n. bit M n \<and> bit K n)"
  by (fastforce simp: has_def bit_eq_iff bit_and_iff dest: bit_imp_le_length)

lemma has_not [simp]: "\<not> has (M AND NOT K) K"
  by (auto simp: has_iff bit_simps)

end
