(* ===== verification/SanitizerArgs.thy ===== *)
theory SanitizerArgs
  imports DriverArgs
begin

unbundle bit_operations_syntax

text \<open>
  The driver's choice of sanitizers (\<open>SanitizerArgs.cpp\<close>), one definition per function, the
  constructor as one definition per part of its body. \<open>K\<close> is the table of sanitizers, \<open>TC\<close> the tool
  chain, \<open>Args\<close> the command line, \<open>D\<close> the driver with its diagnostics.
\<close>

subsection \<open>Constants\<close>

definition NeedsUbsanRt :: "sanitizers \<Rightarrow> SanitizerMask" where
  "NeedsUbsanRt K = SK_Undefined K OR SK_Integer K OR SK_CFI K"

definition NeedsUbsanCxxRt :: "sanitizers \<Rightarrow> SanitizerMask" where
  "NeedsUbsanCxxRt K = SK_Vptr K OR SK_CFI K"

definition NotAllowedWithTrap :: "sanitizers \<Rightarrow> SanitizerMask" where
  "NotAllowedWithTrap K = SK_Vptr K"

definition RequiresPIE :: "sanitizers \<Rightarrow> SanitizerMask" where
  "RequiresPIE K = SK_DataFlow K"

definition NeedsUnwindTables :: "sanitizers \<Rightarrow> SanitizerMask" where
  "NeedsUnwindTables K = SK_Address K OR SK_Thread K OR SK_Memory K OR SK_DataFlow K"

definition SupportsCoverage :: "sanitizers \<Rightarrow> SanitizerMask" where
  "SupportsCoverage K = SK_Address K OR SK_Memory K OR SK_Leak K OR SK_Undefined K OR
     SK_Integer K OR SK_DataFlow K"

definition RecoverableByDefault :: "sanitizers \<Rightarrow> SanitizerMask" where
  "RecoverableByDefault K = SK_Undefined K OR SK_Integer K"

definition Unrecoverable :: "sanitizers \<Rightarrow> SanitizerMask" where
  "Unrecoverable K = SK_Unreachable K OR SK_Return K"

definition LegacyFsanitizeRecoverMask :: "sanitizers \<Rightarrow> SanitizerMask" where
  "LegacyFsanitizeRecoverMask K = SK_Undefined K OR SK_Integer K"

definition NeedsLTO :: "sanitizers \<Rightarrow> SanitizerMask" where
  "NeedsLTO K = SK_CFI K"

definition TrappingSupported :: "sanitizers \<Rightarrow> SanitizerMask" where
  "TrappingSupported K = (SK_Undefined K AND NOT (SK_Vptr K)) OR SK_UnsignedIntegerOverflow K OR
     SK_LocalBounds K OR SK_CFI K"

definition TrappingDefault :: "sanitizers \<Rightarrow> SanitizerMask" where
  "TrappingDefault K = SK_CFI K"

definition CFIClasses :: "sanitizers \<Rightarrow> SanitizerMask" where
  "CFIClasses K = SK_CFIVCall K OR SK_CFINVCall K OR SK_CFIDerivedCast K OR SK_CFIUnrelatedCast K"

type_synonym CoverageMask = i32

definition CoverageFunc :: CoverageMask where "CoverageFunc = push_bit 0 1"

definition CoverageBB :: CoverageMask where "CoverageBB = push_bit 1 1"

definition CoverageEdge :: CoverageMask where "CoverageEdge = push_bit 2 1"

definition CoverageIndirCall :: CoverageMask where "CoverageIndirCall = push_bit 3 1"

definition CoverageTraceBB :: CoverageMask where "CoverageTraceBB = push_bit 4 1"

definition CoverageTraceCmp :: CoverageMask where "CoverageTraceCmp = push_bit 5 1"

definition CoverageTraceDiv :: CoverageMask where "CoverageTraceDiv = push_bit 6 1"

definition CoverageTraceGep :: CoverageMask where "CoverageTraceGep = push_bit 7 1"

definition Coverage8bitCounters :: CoverageMask where "Coverage8bitCounters = push_bit 8 1"

definition CoverageTracePC :: CoverageMask where "CoverageTracePC = push_bit 9 1"

definition CoverageTracePCGuard :: CoverageMask where "CoverageTracePCGuard = push_bit 10 1"

subsection \<open>Values of arguments\<close>

definition comma :: "string \<Rightarrow> string \<Rightarrow> string" where
  "comma Res NAME = (if Res = [] then NAME else Res @ '','' @ NAME)"

definition toString :: "sanitizers \<Rightarrow> SanitizerMask \<Rightarrow> string" where
  "toString K Mask =
     fold (\<lambda>(NAME, ID) Res. if Mask AND ID \<noteq> 0 then comma Res NAME else Res) (SK_names K) []"

definition getDefaultBlacklist :: "sanitizers \<Rightarrow> ToolChain \<Rightarrow> SanitizerMask \<Rightarrow> string option" where
  "getDefaultBlacklist K TC Kinds =
     map_option (tc_path_append TC (tc_ResourceDir TC))
       (if Kinds AND SK_Address K \<noteq> 0 then Some ''asan_blacklist.txt''
        else if Kinds AND SK_Memory K \<noteq> 0 then Some ''msan_blacklist.txt''
        else if Kinds AND SK_Thread K \<noteq> 0 then Some ''tsan_blacklist.txt''
        else if Kinds AND SK_DataFlow K \<noteq> 0 then Some ''dfsan_abilist.txt''
        else if Kinds AND SK_CFI K \<noteq> 0 then Some ''cfi_blacklist.txt''
        else None)"

definition setGroupBits :: "sanitizers \<Rightarrow> SanitizerMask \<Rightarrow> SanitizerMask" where
  "setGroupBits K Kinds =
     fold (\<lambda>(ID, IDGroup) Kinds. if Kinds AND ID \<noteq> 0 then Kinds OR IDGroup else Kinds) (SK_groups K) Kinds"

definition value_kind :: "sanitizers \<Rightarrow> Arg \<Rightarrow> string \<Rightarrow> SanitizerMask" where
  "value_kind K A Value =
     (if a_opt A = OPT_fsanitize_EQ \<and> Value = ''all'' then 0
      else if a_opt A = OPT_fsanitize_EQ \<and> Value = ''efficiency-all'' then 0
      else parseSanitizerValue K Value)"

fun parse_values :: "sanitizers \<Rightarrow> Arg \<Rightarrow> bool \<Rightarrow> string list \<Rightarrow> SanitizerMask \<Rightarrow> drv \<Rightarrow> SanitizerMask \<times> drv" where
  "parse_values K A DiagnoseErrors [] Kinds D = (Kinds, D)"
| "parse_values K A DiagnoseErrors (Value # vs) Kinds D =
     (let Kind = value_kind K A Value
      in if Kind \<noteq> 0 then parse_values K A DiagnoseErrors vs (Kinds OR Kind) D
         else parse_values K A DiagnoseErrors vs Kinds
           (Diag_if DiagnoseErrors (err_drv_unsupported_option_argument (a_name A) Value) D))"

definition parseArgValues :: "sanitizers \<Rightarrow> Arg \<Rightarrow> bool \<Rightarrow> drv \<Rightarrow> SanitizerMask \<times> drv" where
  "parseArgValues K A DiagnoseErrors D = parse_values K A DiagnoseErrors (a_values A) 0 D"

definition coverage_feature :: "string \<Rightarrow> CoverageMask" where
  "coverage_feature Value =
     (if Value = ''func'' then CoverageFunc
      else if Value = ''bb'' then CoverageBB
      else if Value = ''edge'' then CoverageEdge
      else if Value = ''indirect-calls'' then CoverageIndirCall
      else if Value = ''trace-bb'' then CoverageTraceBB
      else if Value = ''trace-cmp'' then CoverageTraceCmp
      else if Value = ''trace-div'' then CoverageTraceDiv
      else if Value = ''trace-gep'' then CoverageTraceGep
      else if Value = ''8bit-counters'' then Coverage8bitCounters
      else if Value = ''trace-pc'' then CoverageTracePC
      else if Value = ''trace-pc-guard'' then CoverageTracePCGuard
      else 0)"

definition parseCoverageFeatures :: "Arg \<Rightarrow> drv \<Rightarrow> CoverageMask \<times> drv" where
  "parseCoverageFeatures A D =
     fold (\<lambda>Value (Features, D).
         let F = coverage_feature Value
         in (Features OR F, Diag_if (F = 0) (err_drv_unsupported_option_argument (a_name A) Value) D))
       (a_values A) (0, D)"

text \<open>The assertion that something was found is a branch, as \<open>llvm_unreachable\<close> is.\<close>

definition describeSanitizeArg :: "sanitizers \<Rightarrow> Arg \<Rightarrow> SanitizerMask \<Rightarrow> string res" where
  "describeSanitizeArg K A Mask =
     (let Sanitizers = fold (\<lambda>Value s.
            if expandSanitizerGroups K (parseSanitizerValue K Value) AND Mask \<noteq> 0 then comma s Value else s)
            (a_values A) []
      in if Sanitizers = [] then Inl Unreachable else Inr (''-fsanitize='' @ Sanitizers))"

fun last_argument :: "sanitizers \<Rightarrow> Arg list \<Rightarrow> drv \<Rightarrow> SanitizerMask \<Rightarrow> string res" where
  "last_argument K [] D Mask = Inl Unreachable"
| "last_argument K (A # As) D Mask =
     (if a_opt A = OPT_fsanitize_EQ then
        let AddKinds = expandSanitizerGroups K (fst (parseArgValues K A False D))
        in if AddKinds AND Mask \<noteq> 0 then describeSanitizeArg K A Mask else last_argument K As D Mask
      else if a_opt A = OPT_fno_sanitize_EQ then
        let RemoveKinds = expandSanitizerGroups K (fst (parseArgValues K A False D))
        in last_argument K As D (Mask AND NOT RemoveKinds)
      else last_argument K As D Mask)"

definition lastArgumentForMask :: "sanitizers \<Rightarrow> ArgList \<Rightarrow> drv \<Rightarrow> SanitizerMask \<Rightarrow> string res" where
  "lastArgumentForMask K Args D Mask = last_argument K (rev (al_args Args)) D Mask"

subsection \<open>Trapping\<close>

definition trap_step :: "sanitizers \<Rightarrow> Arg \<Rightarrow> SanitizerMask \<times> SanitizerMask \<times> drv \<Rightarrow> SanitizerMask \<times> SanitizerMask \<times> drv" where
  "trap_step K A = (\<lambda>(TrapRemove, TrappingKinds, D).
     if a_opt A = OPT_fsanitize_trap_EQ then
       let (Add0, D1) = parseArgValues K A True (claim A D);
           Add = Add0 AND NOT TrapRemove;
           InvalidValues = Add AND NOT (setGroupBits K (TrappingSupported K));
           D2 = Diag_if (InvalidValues \<noteq> 0)
             (err_drv_unsupported_option_argument ''-fsanitize-trap'' (toString K InvalidValues)) D1
       in (TrapRemove, TrappingKinds OR (expandSanitizerGroups K Add AND NOT TrapRemove), D2)
     else if a_opt A = OPT_fno_sanitize_trap_EQ then
       let (Remove, D1) = parseArgValues K A True (claim A D)
       in (TrapRemove OR expandSanitizerGroups K Remove, TrappingKinds, D1)
     else if a_opt A = OPT_fsanitize_undefined_trap_on_error then
       (TrapRemove,
        TrappingKinds OR
          (expandSanitizerGroups K (SK_UndefinedGroup K AND NOT TrapRemove) AND NOT TrapRemove),
        claim A D)
     else if a_opt A = OPT_fno_sanitize_undefined_trap_on_error then
       (TrapRemove OR expandSanitizerGroups K (SK_UndefinedGroup K), TrappingKinds, claim A D)
     else (TrapRemove, TrappingKinds, D))"

definition parseSanitizeTrapArgs :: "sanitizers \<Rightarrow> ArgList \<Rightarrow> drv \<Rightarrow> SanitizerMask \<times> drv" where
  "parseSanitizeTrapArgs K Args D =
     (let (TrapRemove, TrappingKinds, D') = fold (trap_step K) (rev (al_args Args)) (0, 0, D)
      in (TrappingKinds OR (TrappingDefault K AND NOT TrapRemove), D'))"

subsection \<open>The loop over \<open>-fsanitize=\<close> and \<open>-fno-sanitize=\<close>\<close>

text \<open>Its variables. The command line is read from the last argument to the first.\<close>

record scan =
  AllRemove :: SanitizerMask
  AllAddedKinds :: SanitizerMask
  DiagnosedKinds :: SanitizerMask
  Kinds :: SanitizerMask
  Supported :: SanitizerMask
  Driver :: drv

definition scan_init :: "SanitizerMask \<Rightarrow> drv \<Rightarrow> scan" where
  "scan_init S D = \<lparr>AllRemove = 0, AllAddedKinds = 0, DiagnosedKinds = 0, Kinds = 0, Supported = S,
     Driver = D\<rparr>"

definition embed_triple :: string where
  "embed_triple = ''arm-none-linux-gnueabi''"

definition rtti_disabled :: "ToolChain \<Rightarrow> bool" where
  "rtti_disabled TC \<longleftrightarrow> tc_RTTIMode TC = RM_DisabledImplicitly \<or> tc_RTTIMode TC = RM_DisabledExplicitly"

text \<open>A diagnostic about the kinds in \<open>Diagnose\<close>, when there are any.\<close>

definition diagnose :: "sanitizers \<Rightarrow> Arg \<Rightarrow> SanitizerMask \<Rightarrow> (string \<Rightarrow> diag) \<Rightarrow> scan \<Rightarrow> scan res" where
  "diagnose K A Diagnose d s =
     (if Diagnose = 0 then Inr s
      else bnd (describeSanitizeArg K A Diagnose) (\<lambda>Desc.
        Inr (s\<lparr>DiagnosedKinds := DiagnosedKinds s OR Diagnose, Driver := Diag (d Desc) (Driver s)\<rparr>)))"

text \<open>The test of \<open>-fsanitize=vptr\<close> against \<open>-fno-rtti\<close>.\<close>

definition check_vptr :: "sanitizers \<Rightarrow> ToolChain \<Rightarrow> SanitizerMask \<Rightarrow> scan \<Rightarrow> scan res" where
  "check_vptr K TC Add s =
     (if Add AND SK_Vptr K \<noteq> 0 \<and> rtti_disabled TC then
        bnd (if tc_RTTIMode TC = RM_DisabledImplicitly
             then Inr (Diag warn_drv_disabling_vptr_no_rtti_default (Driver s))
             else case tc_RTTIArg TC of
                 None \<Rightarrow> Inl Unreachable
               | Some NoRTTIArg \<Rightarrow>
                   Inr (Diag (err_drv_argument_not_allowed_with ''-fsanitize=vptr'' (a_string NoRTTIArg)) (Driver s)))
          (\<lambda>D. Inr (s\<lparr>AllRemove := AllRemove s OR SK_Vptr K, Driver := D\<rparr>))
      else Inr s)"

definition add_step :: "sanitizers \<Rightarrow> ToolChain \<Rightarrow> SanitizerMask \<Rightarrow> Arg \<Rightarrow> scan \<Rightarrow> scan res" where
  "add_step K TC InvalidTrappingKinds A s =
     (let (Add0, D1) = parseArgValues K A True (claim A (Driver s));
          s1 = s\<lparr>AllAddedKinds := AllAddedKinds s OR expandSanitizerGroups K Add0, Driver := D1\<rparr>;
          Add1 = Add0 AND NOT (AllRemove s1)
      in bnd (diagnose K A (Add1 AND InvalidTrappingKinds AND NOT (DiagnosedKinds s1))
            (\<lambda>Desc. err_drv_argument_not_allowed_with Desc ''-fsanitize-trap=undefined'') s1) (\<lambda>s2.
         let Add2 = Add1 AND NOT InvalidTrappingKinds;
             s3 = (if t_str (tc_Triple TC) = embed_triple then s2\<lparr>Supported := 0xffffffffffff\<rparr> else s2)
         in bnd (diagnose K A (Add2 AND NOT (Supported s3) AND NOT (DiagnosedKinds s3))
              (\<lambda>Desc. err_drv_unsupported_opt_for_target Desc (t_str (tc_Triple TC))) s3) (\<lambda>s4.
            let Add3 = Add2 AND Supported s4
            in bnd (check_vptr K TC Add3 s4) (\<lambda>s5.
               let Add = expandSanitizerGroups K Add3 AND NOT (AllRemove s5) AND
                     NOT InvalidTrappingKinds AND Supported s5
               in Inr (s5\<lparr>Kinds := Kinds s5 OR Add\<rparr>)))))"

definition remove_step :: "sanitizers \<Rightarrow> Arg \<Rightarrow> scan \<Rightarrow> scan" where
  "remove_step K A s =
     (let (Remove, D1) = parseArgValues K A True (claim A (Driver s))
      in s\<lparr>AllRemove := AllRemove s OR expandSanitizerGroups K Remove, Driver := D1\<rparr>)"

fun scan_args :: "sanitizers \<Rightarrow> ToolChain \<Rightarrow> SanitizerMask \<Rightarrow> Arg list \<Rightarrow> scan \<Rightarrow> scan res" where
  "scan_args K TC InvalidTrappingKinds [] s = Inr s"
| "scan_args K TC InvalidTrappingKinds (A # As) s =
     (if a_opt A = OPT_fsanitize_EQ then
        bnd (add_step K TC InvalidTrappingKinds A s) (scan_args K TC InvalidTrappingKinds As)
      else if a_opt A = OPT_fno_sanitize_EQ then
        scan_args K TC InvalidTrappingKinds As (remove_step K A s)
      else scan_args K TC InvalidTrappingKinds As s)"

subsection \<open>Combinations that are not allowed\<close>

text \<open>The default sanitizers of the tool chain, and vptr without RTTI.\<close>

definition apply_defaults :: "sanitizers \<Rightarrow> ToolChain \<Rightarrow> scan \<Rightarrow> scan" where
  "apply_defaults K TC s =
     (let K1 = Kinds s OR (tc_DefaultSanitizers TC AND NOT (AllRemove s));
          K2 = (if K1 AND SK_Vptr K \<noteq> 0 \<and> rtti_disabled TC then K1 AND NOT (SK_Vptr K) else K1)
      in s\<lparr>Kinds := K2\<rparr>)"

definition check_LTO :: "sanitizers \<Rightarrow> ToolChain \<Rightarrow> ArgList \<Rightarrow> scan \<Rightarrow> scan res" where
  "check_LTO K TC Args s =
     (if Kinds s AND NeedsLTO K \<noteq> 0 \<and> \<not> tc_isUsingLTO TC then
        bnd (lastArgumentForMask K Args (Driver s) (Kinds s AND NeedsLTO K)) (\<lambda>a.
          Inr (s\<lparr>Driver := Diag (err_drv_argument_only_allowed_with a ''-flto'') (Driver s)\<rparr>))
      else Inr s)"

definition check_cxxabi :: "sanitizers \<Rightarrow> ToolChain \<Rightarrow> SanitizerMask \<Rightarrow> scan \<Rightarrow> scan" where
  "check_cxxabi K TC TrappingKinds s =
     (if NOT (Supported s) AND SK_Vptr K \<noteq> 0 then
        let D0 = Kinds s AND NOT TrappingKinds AND NeedsUbsanCxxRt K;
            KindsToDiagnose = (if t_isOSWindows (tc_Triple TC) then D0 AND NOT (SK_CFI K) else D0)
        in if KindsToDiagnose \<noteq> 0
           then s\<lparr>Kinds := Kinds s AND NOT KindsToDiagnose,
                  Driver := Diag (err_drv_unsupported_opt_for_target
                    (''-fno-sanitize-trap='' @ toString K KindsToDiagnose) (t_str (tc_Triple TC))) (Driver s)\<rparr>
           else s
      else s)"

definition IncompatibleGroups :: "sanitizers \<Rightarrow> (SanitizerMask \<times> SanitizerMask) list" where
  "IncompatibleGroups K =
     [(SK_Address K, SK_Thread K), (SK_Address K, SK_Memory K),
      (SK_Thread K, SK_Memory K), (SK_Leak K, SK_Thread K),
      (SK_Leak K, SK_Memory K), (SK_KernelAddress K, SK_Address K),
      (SK_KernelAddress K, SK_Leak K), (SK_KernelAddress K, SK_Thread K),
      (SK_KernelAddress K, SK_Memory K), (SK_Efficiency K, SK_Address K),
      (SK_Efficiency K, SK_Leak K), (SK_Efficiency K, SK_Thread K),
      (SK_Efficiency K, SK_Memory K), (SK_Efficiency K, SK_KernelAddress K)]"

fun check_groups :: "sanitizers \<Rightarrow> ArgList \<Rightarrow> (SanitizerMask \<times> SanitizerMask) list \<Rightarrow> scan \<Rightarrow> scan res" where
  "check_groups K Args [] s = Inr s"
| "check_groups K Args ((Group, Second) # Gs) s =
     (if Kinds s AND Group \<noteq> 0 \<and> Kinds s AND Second \<noteq> 0 then
        bnd (lastArgumentForMask K Args (Driver s) Group) (\<lambda>a.
          bnd (lastArgumentForMask K Args (Driver s) (Kinds s AND Second)) (\<lambda>b.
            check_groups K Args Gs (s\<lparr>Kinds := Kinds s AND NOT (Kinds s AND Second),
              Driver := Diag (err_drv_argument_not_allowed_with a b) (Driver s)\<rparr>)))
      else check_groups K Args Gs s)"

text \<open>The first half of the constructor: the kinds that are enabled and those that trap.\<close>

definition choose_kinds :: "sanitizers \<Rightarrow> ToolChain \<Rightarrow> ArgList \<Rightarrow> drv \<Rightarrow> (scan \<times> SanitizerMask) res" where
  "choose_kinds K TC Args D =
     (let (TrappingKinds, D1) = parseSanitizeTrapArgs K Args D;
          InvalidTrappingKinds = TrappingKinds AND NotAllowedWithTrap K
      in bnd (scan_args K TC InvalidTrappingKinds (rev (al_args Args))
            (scan_init (setGroupBits K (tc_SupportedSanitizers TC)) D1)) (\<lambda>s.
         bnd (check_LTO K TC Args (apply_defaults K TC s)) (\<lambda>s2.
         bnd (check_groups K Args (IncompatibleGroups K) (check_cxxabi K TC TrappingKinds s2)) (\<lambda>s3.
           Inr (s3, TrappingKinds)))))"

subsection \<open>Recovery\<close>

definition recover_step :: "sanitizers \<Rightarrow> Arg \<Rightarrow> SanitizerMask \<times> SanitizerMask \<times> drv \<Rightarrow> SanitizerMask \<times> SanitizerMask \<times> drv" where
  "recover_step K A = (\<lambda>(RecoverableKinds, Diagnosed, D).
     if a_opt A = OPT_fsanitize_recover then
       (RecoverableKinds OR expandSanitizerGroups K (LegacyFsanitizeRecoverMask K), Diagnosed,
        Diag (warn_drv_deprecated_arg (a_string A)
          (''-fsanitize-recover=undefined,integer'' @ [CHR 0x27] @ '' or '' @ [CHR 0x27] @ ''-fsanitize-recover=all''))
          (claim A D))
     else if a_opt A = OPT_fno_sanitize_recover then
       (RecoverableKinds AND NOT (expandSanitizerGroups K (LegacyFsanitizeRecoverMask K)), Diagnosed,
        Diag (warn_drv_deprecated_arg (a_string A)
          (''-fno-sanitize-recover=undefined,integer'' @ [CHR 0x27] @ '' or '' @ [CHR 0x27] @ ''-fno-sanitize-recover=all''))
          (claim A D))
     else if a_opt A = OPT_fsanitize_recover_EQ then
       let (Add, D1) = parseArgValues K A True D;
           KindsToDiagnose = Add AND Unrecoverable K AND NOT Diagnosed
       in (RecoverableKinds OR expandSanitizerGroups K Add, Diagnosed OR KindsToDiagnose,
           claim A (Diag_if (KindsToDiagnose \<noteq> 0)
             (err_drv_unsupported_option_argument (a_name A) (toString K KindsToDiagnose)) D1))
     else if a_opt A = OPT_fno_sanitize_recover_EQ then
       let (Remove, D1) = parseArgValues K A True D
       in (RecoverableKinds AND NOT (expandSanitizerGroups K Remove), Diagnosed, claim A D1)
     else (RecoverableKinds, Diagnosed, D))"

definition parse_recover :: "sanitizers \<Rightarrow> ArgList \<Rightarrow> SanitizerMask \<Rightarrow> drv \<Rightarrow> SanitizerMask \<times> drv" where
  "parse_recover K Args Ks D =
     (let (RecoverableKinds, _, D') = fold (recover_step K) (al_args Args) (RecoverableByDefault K, 0, D)
      in (RecoverableKinds AND Ks AND NOT (Unrecoverable K), D'))"

subsection \<open>The object\<close>

text \<open>The members of the class \<open>SanitizerArgs\<close>. Their initial values stand in its header.\<close>

record sanitizer_args =
  Sanitizers :: SanitizerMask
  RecoverableSanitizers :: SanitizerMask
  TrapSanitizers :: SanitizerMask
  BlacklistFiles :: "string list"
  ExtraDeps :: "string list"
  CoverageFeatures :: CoverageMask
  MsanTrackOrigins :: int
  MsanUseAfterDtor :: bool
  CfiCrossDso :: bool
  AsanFieldPadding :: int
  AsanSharedRuntime :: bool
  AsanUseAfterScope :: bool
  LinkCXXRuntimes :: bool
  NeedPIE :: bool
  Stats :: bool
  TsanMemoryAccess :: bool
  TsanFuncEntryExit :: bool
  TsanAtomics :: bool

type_synonym args_drv = "sanitizer_args \<times> drv"

definition default_blacklist :: "sanitizers \<Rightarrow> ToolChain \<Rightarrow> SanitizerMask \<Rightarrow> args_drv \<Rightarrow> args_drv" where
  "default_blacklist K TC Ks = (\<lambda>(m, D).
     case getDefaultBlacklist K TC Ks of
       None \<Rightarrow> (m, D)
     | Some BLPath \<Rightarrow>
         if tc_exists TC BLPath then (m\<lparr>BlacklistFiles := BlacklistFiles m @ [BLPath]\<rparr>, D) else (m, D))"

fun parse_blacklists :: "ToolChain \<Rightarrow> Arg list \<Rightarrow> args_drv \<Rightarrow> args_drv res" where
  "parse_blacklists TC [] md = Inr md"
| "parse_blacklists TC (A # As) (m, D) =
     (if a_opt A = OPT_fsanitize_blacklist then
        bnd (getValue A) (\<lambda>BLPath.
          parse_blacklists TC As
            (if tc_exists TC BLPath
             then (m\<lparr>BlacklistFiles := BlacklistFiles m @ [BLPath], ExtraDeps := ExtraDeps m @ [BLPath]\<rparr>, claim A D)
             else (m, Diag (err_drv_no_such_file BLPath) (claim A D))))
      else if a_opt A = OPT_fno_sanitize_blacklist then
        parse_blacklists TC As (m\<lparr>BlacklistFiles := [], ExtraDeps := []\<rparr>, claim A D)
      else parse_blacklists TC As (m, D))"

definition validate_blacklists :: "ToolChain \<Rightarrow> args_drv \<Rightarrow> args_drv" where
  "validate_blacklists TC = (\<lambda>(m, D).
     case tc_create TC (BlacklistFiles m) of
       None \<Rightarrow> (m, D)
     | Some BLError \<Rightarrow> (m, Diag (err_drv_malformed_sanitizer_blacklist BLError) D))"

text \<open>An option whose value is a level from 0 to 2; a number out of range is stored all the same.\<close>

definition parse_level :: "ToolChain \<Rightarrow> Arg \<Rightarrow> int \<Rightarrow> drv \<Rightarrow> (int \<times> drv) res" where
  "parse_level TC A old D =
     bnd (getValue A) (\<lambda>S.
       let new = (case tc_getAsInteger TC S of None \<Rightarrow> old | Some n \<Rightarrow> n)
       in Inr (new, Diag_if (tc_getAsInteger TC S = None \<or> new < 0 \<or> new > 2)
            (err_drv_invalid_value (a_string A) S) D))"

definition parse_memory :: "sanitizers \<Rightarrow> ToolChain \<Rightarrow> ArgList \<Rightarrow> SanitizerMask \<Rightarrow> args_drv \<Rightarrow> args_drv res" where
  "parse_memory K TC Args Added = (\<lambda>(m, D).
     if Added AND SK_Memory K = 0 then Inr (m, D)
     else bnd (case getLastArg Args [OPT_fsanitize_memory_track_origins_EQ,
              OPT_fsanitize_memory_track_origins, OPT_fno_sanitize_memory_track_origins] of
            None \<Rightarrow> Inr (MsanTrackOrigins m, D)
          | Some A \<Rightarrow>
              if a_opt A = OPT_fsanitize_memory_track_origins then Inr (2, D)
              else if a_opt A = OPT_fno_sanitize_memory_track_origins then Inr (0, D)
              else parse_level TC A (MsanTrackOrigins m) D) (\<lambda>(origins, D1).
        Inr (m\<lparr>MsanTrackOrigins := origins,
               MsanUseAfterDtor := hasArg Args [OPT_fsanitize_memory_use_after_dtor],
               NeedPIE := NeedPIE m \<or> \<not> (t_isOSLinux (tc_Triple TC) \<and> t_Arch (tc_Triple TC) = Arch_x86_64)\<rparr>, D1)))"

definition parse_thread_cfi :: "sanitizers \<Rightarrow> ArgList \<Rightarrow> SanitizerMask \<Rightarrow> sanitizer_args \<Rightarrow> sanitizer_args" where
  "parse_thread_cfi K Args Added m =
     (let m1 = (if Added AND SK_Thread K \<noteq> 0 then
              m\<lparr>TsanMemoryAccess := hasFlag Args OPT_fsanitize_thread_memory_access
                  OPT_fno_sanitize_thread_memory_access (TsanMemoryAccess m),
                TsanFuncEntryExit := hasFlag Args OPT_fsanitize_thread_func_entry_exit
                  OPT_fno_sanitize_thread_func_entry_exit (TsanFuncEntryExit m),
                TsanAtomics := hasFlag Args OPT_fsanitize_thread_atomics
                  OPT_fno_sanitize_thread_atomics (TsanAtomics m)\<rparr>
            else m);
          m2 = (if Added AND SK_CFI K \<noteq> 0 then
              let cross = hasFlag Args OPT_fsanitize_cfi_cross_dso OPT_fno_sanitize_cfi_cross_dso False
              in m1\<lparr>CfiCrossDso := cross, NeedPIE := NeedPIE m1 \<or> cross\<rparr>
            else m1)
      in m2\<lparr>Stats := hasFlag Args OPT_fsanitize_stats OPT_fno_sanitize_stats False\<rparr>)"

subsection \<open>Coverage\<close>

definition legacy_coverage :: "int \<Rightarrow> CoverageMask \<times> string" where
  "legacy_coverage n =
     (if n = 1 then (CoverageFunc, ''-fsanitize-coverage=func'')
      else if n = 2 then (CoverageBB, ''-fsanitize-coverage=bb'')
      else if n = 3 then (CoverageEdge, ''-fsanitize-coverage=edge'')
      else (CoverageEdge OR CoverageIndirCall, ''-fsanitize-coverage=edge,indirect-calls''))"

definition legacy_value :: "ToolChain \<Rightarrow> Arg \<Rightarrow> int option" where
  "legacy_value TC A =
     (case a_values A of
        [v] \<Rightarrow> (case tc_getAsInteger TC v of
            Some n \<Rightarrow> if 0 \<le> n \<and> n \<le> 4 then Some n else None
          | None \<Rightarrow> None)
      | _ \<Rightarrow> None)"

definition coverage_step :: "sanitizers \<Rightarrow> ToolChain \<Rightarrow> SanitizerMask \<Rightarrow> Arg \<Rightarrow> CoverageMask \<times> drv \<Rightarrow> CoverageMask \<times> drv" where
  "coverage_step K TC Added A = (\<lambda>(Features, D).
     if a_opt A = OPT_fsanitize_coverage then
       case legacy_value TC A of
         Some n \<Rightarrow>
           if n = 0 then (0, claim A D)
           else let (F, replacement) = legacy_coverage n
                in (F, Diag (warn_drv_deprecated_arg (a_string A) replacement) D)
       | None \<Rightarrow>
           let (F, D1) = parseCoverageFeatures A D
           in if Added AND NOT (setGroupBits K (SupportsCoverage K)) = 0
              then (Features OR F, claim A D1) else (0, D1)
     else if a_opt A = OPT_fno_sanitize_coverage then
       let (F, D1) = parseCoverageFeatures A (claim A D) in (Features AND NOT F, D1)
     else (Features, D))"

definition CoverageTypes :: CoverageMask where
  "CoverageTypes = CoverageFunc OR CoverageBB OR CoverageEdge"

definition coverage_checks :: "CoverageMask \<Rightarrow> drv \<Rightarrow> CoverageMask \<times> drv" where
  "coverage_checks F D0 =
     (let on = (\<lambda>b. F AND b \<noteq> 0);
          D1 = Diag_if (on CoverageFunc \<and> on CoverageBB)
            (err_drv_argument_not_allowed_with ''-fsanitize-coverage=func'' ''-fsanitize-coverage=bb'') D0;
          D2 = Diag_if (on CoverageFunc \<and> on CoverageEdge)
            (err_drv_argument_not_allowed_with ''-fsanitize-coverage=func'' ''-fsanitize-coverage=edge'') D1;
          D3 = Diag_if (on CoverageBB \<and> on CoverageEdge)
            (err_drv_argument_not_allowed_with ''-fsanitize-coverage=bb'' ''-fsanitize-coverage=edge'') D2;
          D4 = Diag_if (on CoverageTraceBB \<and> \<not> on CoverageTypes)
            (err_drv_argument_only_allowed_with ''-fsanitize-coverage=trace-bb'' ''-fsanitize-coverage=(func|bb|edge)'') D3;
          D5 = Diag_if (on Coverage8bitCounters \<and> \<not> on CoverageTypes)
            (err_drv_argument_only_allowed_with ''-fsanitize-coverage=8bit-counters'' ''-fsanitize-coverage=(func|bb|edge)'') D4
      in (if on (CoverageTracePC OR CoverageTracePCGuard) \<and> \<not> on CoverageTypes
          then F OR CoverageEdge else F, D5))"

definition parse_coverage :: "sanitizers \<Rightarrow> ToolChain \<Rightarrow> ArgList \<Rightarrow> SanitizerMask \<Rightarrow> args_drv \<Rightarrow> args_drv" where
  "parse_coverage K TC Args Added = (\<lambda>(m, D).
     let (F, D1) = fold (coverage_step K TC Added) (al_args Args) (CoverageFeatures m, D);
         (F', D2) = coverage_checks F D1
     in (m\<lparr>CoverageFeatures := F'\<rparr>, D2))"

subsection \<open>AddressSanitizer\<close>

definition debug_runtime :: "Arg \<Rightarrow> bool" where
  "debug_runtime A \<longleftrightarrow> a_opt A = OPT__SLASH_MTd \<or> a_opt A = OPT__SLASH_MDd \<or> a_opt A = OPT__SLASH_LDd"

definition parse_padding :: "ToolChain \<Rightarrow> ArgList \<Rightarrow> args_drv \<Rightarrow> args_drv res" where
  "parse_padding TC Args = (\<lambda>(m, D).
     case getLastArg Args [OPT_fsanitize_address_field_padding] of
       None \<Rightarrow> Inr (m, D)
     | Some A \<Rightarrow> bnd (parse_level TC A (AsanFieldPadding m) D) (\<lambda>(n, D1). Inr (m\<lparr>AsanFieldPadding := n\<rparr>, D1)))"

definition check_debug_runtime :: "sanitizers \<Rightarrow> ArgList \<Rightarrow> args_drv \<Rightarrow> args_drv res" where
  "check_debug_runtime K Args = (\<lambda>(m, D).
     case getLastArg Args [OPT__SLASH_MTd, OPT__SLASH_MT, OPT__SLASH_MDd, OPT__SLASH_MD,
         OPT__SLASH_LDd, OPT__SLASH_LD] of
       None \<Rightarrow> Inr (m, D)
     | Some W \<Rightarrow>
         if debug_runtime W then
           bnd (lastArgumentForMask K Args D (SK_Address K)) (\<lambda>a.
             Inr (m, Diag note_drv_address_sanitizer_debug_runtime
               (Diag (err_drv_argument_not_allowed_with (a_string W) a) D)))
         else Inr (m, D))"

definition parse_address :: "sanitizers \<Rightarrow> ToolChain \<Rightarrow> ArgList \<Rightarrow> SanitizerMask \<Rightarrow> args_drv \<Rightarrow> args_drv res" where
  "parse_address K TC Args Added = (\<lambda>(m, D).
     if Added AND SK_Address K = 0 then Inr (m, D)
     else bnd (parse_padding TC Args
         (m\<lparr>AsanSharedRuntime := hasArg Args [OPT_shared_libasan] \<or> t_isAndroid (tc_Triple TC),
            NeedPIE := NeedPIE m \<or> t_isAndroid (tc_Triple TC)\<rparr>, D)) (\<lambda>r1.
       bnd (check_debug_runtime K Args r1) (\<lambda>(m2, D2).
         case getLastArg Args [OPT_fsanitize_address_use_after_scope, OPT_fno_sanitize_address_use_after_scope] of
           None \<Rightarrow> Inr (m2, D2)
         | Some A \<Rightarrow> Inr (m2\<lparr>AsanUseAfterScope := (a_opt A = OPT_fsanitize_address_use_after_scope)\<rparr>, D2))))"

subsection \<open>The constructor\<close>

text \<open>The second half of the constructor, on a new object \<open>m0\<close>.\<close>

definition fill_object :: "sanitizers \<Rightarrow> ToolChain \<Rightarrow> ArgList \<Rightarrow> scan \<Rightarrow> SanitizerMask \<Rightarrow> sanitizer_args \<Rightarrow> args_drv res" where
  "fill_object K TC Args s TrappingKinds m0 =
     (let (RecoverableKinds, D1) = parse_recover K Args (Kinds s) (Driver s);
          Added = AllAddedKinds s
      in bnd (parse_blacklists TC (al_args Args) (default_blacklist K TC (Kinds s) (m0, D1))) (\<lambda>r2.
         bnd (parse_memory K TC Args Added (validate_blacklists TC r2)) (\<lambda>(m3, D3).
         bnd (parse_address K TC Args Added
             (parse_coverage K TC Args Added (parse_thread_cfi K Args Added m3, D3))) (\<lambda>(m4, D4).
           Inr (m4\<lparr>LinkCXXRuntimes := hasArg Args [OPT_fsanitize_link_cxx_runtime] \<or> tc_CCCIsCXX TC,
                   Sanitizers := Sanitizers m4 OR Kinds s,
                   RecoverableSanitizers := RecoverableSanitizers m4 OR RecoverableKinds,
                   TrapSanitizers := TrapSanitizers m4 OR (TrappingKinds AND Kinds s)\<rparr>, D4)))))"

definition SanitizerArgs_new :: "sanitizers \<Rightarrow> ToolChain \<Rightarrow> ArgList \<Rightarrow> sanitizer_args \<Rightarrow> drv \<Rightarrow> args_drv res" where
  "SanitizerArgs_new K TC Args m0 D =
     bnd (choose_kinds K TC Args D) (\<lambda>(s, TrappingKinds). fill_object K TC Args s TrappingKinds m0)"

subsection \<open>Questions to the object\<close>

definition needsUbsanRt :: "sanitizers \<Rightarrow> sanitizer_args \<Rightarrow> bool" where
  "needsUbsanRt K m \<longleftrightarrow>
     (Sanitizers m AND NeedsUbsanRt K AND NOT (TrapSanitizers m) \<noteq> 0 \<or> CoverageFeatures m \<noteq> 0) \<and>
     \<not> has (Sanitizers m) (SK_Address K) \<and> \<not> has (Sanitizers m) (SK_Memory K) \<and>
     \<not> has (Sanitizers m) (SK_Thread K) \<and> \<not> has (Sanitizers m) (SK_DataFlow K) \<and>
     \<not> has (Sanitizers m) (SK_Leak K) \<and> \<not> CfiCrossDso m"

definition needsCfiRt :: "sanitizers \<Rightarrow> sanitizer_args \<Rightarrow> bool" where
  "needsCfiRt K m \<longleftrightarrow> Sanitizers m AND SK_CFI K AND NOT (TrapSanitizers m) = 0 \<and> CfiCrossDso m"

definition needsCfiDiagRt :: "sanitizers \<Rightarrow> sanitizer_args \<Rightarrow> bool" where
  "needsCfiDiagRt K m \<longleftrightarrow> Sanitizers m AND SK_CFI K AND NOT (TrapSanitizers m) \<noteq> 0 \<and> CfiCrossDso m"

definition requiresPIE :: "sanitizers \<Rightarrow> sanitizer_args \<Rightarrow> bool" where
  "requiresPIE K m \<longleftrightarrow> NeedPIE m \<or> Sanitizers m AND RequiresPIE K \<noteq> 0"

definition needsUnwindTables :: "sanitizers \<Rightarrow> sanitizer_args \<Rightarrow> bool" where
  "needsUnwindTables K m \<longleftrightarrow> Sanitizers m AND NeedsUnwindTables K \<noteq> 0"

subsection \<open>The arguments for the compiler proper\<close>

definition addIncludeLinkerOption :: "ToolChain \<Rightarrow> string \<Rightarrow> string list \<Rightarrow> string list" where
  "addIncludeLinkerOption TC SymbolName CmdArgs =
     CmdArgs @ [''--linker-option=/include:'' @
       (if t_Arch (tc_Triple TC) = Arch_x86 then ''_'' else []) @ SymbolName]"

definition coverage_flags :: "(CoverageMask \<times> string) list" where
  "coverage_flags =
     [(CoverageFunc, ''-fsanitize-coverage-type=1''),
      (CoverageBB, ''-fsanitize-coverage-type=2''),
      (CoverageEdge, ''-fsanitize-coverage-type=3''),
      (CoverageIndirCall, ''-fsanitize-coverage-indirect-calls''),
      (CoverageTraceBB, ''-fsanitize-coverage-trace-bb''),
      (CoverageTraceCmp, ''-fsanitize-coverage-trace-cmp''),
      (CoverageTraceDiv, ''-fsanitize-coverage-trace-div''),
      (CoverageTraceGep, ''-fsanitize-coverage-trace-gep''),
      (Coverage8bitCounters, ''-fsanitize-coverage-8bit-counters''),
      (CoverageTracePC, ''-fsanitize-coverage-trace-pc''),
      (CoverageTracePCGuard, ''-fsanitize-coverage-trace-pc-guard'')]"

text \<open>The runtime libraries that objects for Windows name; \<open>isCXX\<close> tells the type of the input,
  \<open>needsStatsRt\<close> is the answer of the header's function of that name.\<close>

definition windows_libs :: "sanitizers \<Rightarrow> ToolChain \<Rightarrow> bool \<Rightarrow> bool \<Rightarrow> sanitizer_args \<Rightarrow> string list" where
  "windows_libs K TC isCXX needsStatsRt m =
     (let lib = (\<lambda>name. ''--dependent-lib='' @ tc_getCompilerRT TC name False)
      in (if t_isOSWindows (tc_Triple TC) \<and> needsUbsanRt K m
          then lib ''ubsan_standalone'' # (if isCXX then [lib ''ubsan_standalone_cxx''] else []) else []) @
         (if t_isOSWindows (tc_Triple TC) \<and> needsStatsRt
          then addIncludeLinkerOption TC ''__sanitizer_stats_register'' [lib ''stats_client'', lib ''stats'']
          else []))"

text \<open>\<open>llvm::utostr\<close> takes the number as an unsigned 64-bit integer.\<close>

definition utostr :: "int \<Rightarrow> string" where
  "utostr n = show_nat (nat (n mod 2 ^ 64))"

definition when_flag :: "bool \<Rightarrow> string list \<Rightarrow> string list" where
  "when_flag b as = (if b then as else [])"

definition tsan_flags :: "sanitizer_args \<Rightarrow> string list" where
  "tsan_flags m =
     when_flag (\<not> TsanMemoryAccess m) [''-mllvm'', ''-tsan-instrument-memory-accesses=0'',
       ''-mllvm'', ''-tsan-instrument-memintrinsics=0''] @
     when_flag (\<not> TsanFuncEntryExit m) [''-mllvm'', ''-tsan-instrument-func-entry-exit=0''] @
     when_flag (\<not> TsanAtomics m) [''-mllvm'', ''-tsan-instrument-atomics=0'']"

definition enabled_flags :: "sanitizers \<Rightarrow> sanitizer_args \<Rightarrow> string list" where
  "enabled_flags K m =
     [''-fsanitize='' @ toString K (Sanitizers m)] @
     when_flag (RecoverableSanitizers m \<noteq> 0) [''-fsanitize-recover='' @ toString K (RecoverableSanitizers m)] @
     when_flag (TrapSanitizers m \<noteq> 0) [''-fsanitize-trap='' @ toString K (TrapSanitizers m)] @
     map (\<lambda>BLPath. ''-fsanitize-blacklist='' @ BLPath) (BlacklistFiles m) @
     map (\<lambda>Dep. ''-fdepfile-entry='' @ Dep) (ExtraDeps m) @
     when_flag (MsanTrackOrigins m \<noteq> 0) [''-fsanitize-memory-track-origins='' @ utostr (MsanTrackOrigins m)] @
     when_flag (MsanUseAfterDtor m) [''-fsanitize-memory-use-after-dtor''] @
     tsan_flags m @
     when_flag (CfiCrossDso m) [''-fsanitize-cfi-cross-dso''] @
     when_flag (Stats m) [''-fsanitize-stats''] @
     when_flag (AsanFieldPadding m \<noteq> 0) [''-fsanitize-address-field-padding='' @ utostr (AsanFieldPadding m)] @
     when_flag (AsanUseAfterScope m) [''-fsanitize-address-use-after-scope''] @
     when_flag (has (Sanitizers m) (SK_Memory K) \<or> has (Sanitizers m) (SK_Address K))
       [''-fno-assume-sane-operator-new'']"

definition addArgs :: "sanitizers \<Rightarrow> ToolChain \<Rightarrow> ArgList \<Rightarrow> bool \<Rightarrow> bool \<Rightarrow> sanitizer_args \<Rightarrow>
    string list \<Rightarrow> drv \<Rightarrow> (string list \<times> drv) res" where
  "addArgs K TC Args isCXX needsStatsRt m CmdArgs D =
     (if t_isNVPTX (tc_Triple TC) then Inr (CmdArgs, D)
      else
        let CmdArgs1 = CmdArgs @
              concat (map (\<lambda>(F, flag). when_flag (CoverageFeatures m AND F \<noteq> 0) [flag]) coverage_flags) @
              windows_libs K TC isCXX needsStatsRt m
        in if Sanitizers m = 0 then Inr (CmdArgs1, D)
           else if Sanitizers m AND CFIClasses K \<noteq> 0 \<and> \<not> t_isOSWindows (tc_Triple TC) \<and>
             \<not> hasArg Args [OPT_fvisibility_EQ]
           then bnd (lastArgumentForMask K Args D (Sanitizers m AND CFIClasses K)) (\<lambda>a.
             Inr (CmdArgs1 @ enabled_flags K m, Diag (err_drv_argument_only_allowed_with a ''-fvisibility='') D))
           else Inr (CmdArgs1 @ enabled_flags K m, D))"

end
