(* ===== verification/SanitizerFacts.thy ===== *)
theory SanitizerFacts
  imports SanitizerArgs
begin

unbundle bit_operations_syntax

text \<open>
  What \<open>SanitizerArgs.cpp\<close> guarantees: which masks the parts of the constructor can change, when the
  search for the argument to blame succeeds, and the properties of the object.
\<close>

subsection \<open>Bits of masks\<close>

named_theorems mask_simps \<open>masks as sets of bits\<close>

lemma and_eq_0_iff [mask_simps]: "(M :: 'a :: len word) AND N = 0 \<longleftrightarrow> (\<forall>n. bit M n \<longrightarrow> \<not> bit N n)"
proof
  assume "M AND N = 0"
  then have "\<not> bit (M AND N) n" for n by simp
  then show "\<forall>n. bit M n \<longrightarrow> \<not> bit N n" by (simp add: bit_and_iff)
next
  assume disjoint: "\<forall>n. bit M n \<longrightarrow> \<not> bit N n"
  show "M AND N = 0"
    by (rule bit_word_eqI) (use disjoint in \<open>simp add: bit_and_iff\<close>)
qed

lemma has_bits [mask_simps]: "has M N \<longleftrightarrow> (\<exists>n. bit M n \<and> bit N n)"
  by (rule has_iff)

lemma bit_not_word [mask_simps]: "bit (NOT M) n \<longleftrightarrow> n < LENGTH('a) \<and> \<not> bit M n" for M :: "'a :: len word"
  by (simp add: bit_not_iff)

lemma bit_less_64: "bit (M :: SanitizerMask) n \<Longrightarrow> n < 64"
  using bit_imp_le_length [of M n] by simp

lemmas bits_simps = mask_simps bit_and_iff bit_or_iff bit_0_eq

subsection \<open>The incompatible groups\<close>

definition compatible :: "SanitizerMask \<Rightarrow> SanitizerMask \<times> SanitizerMask \<Rightarrow> bool" where
  "compatible M = (\<lambda>(G, H). M AND G = 0 \<or> M AND H = 0)"

lemma compatible_antimono:
  "compatible M p \<Longrightarrow> \<forall>n. bit N n \<longrightarrow> bit M n \<Longrightarrow> compatible N p"
  by (auto simp: compatible_def bits_simps split: prod.splits)

lemma check_groups_kinds:
  "check_groups K Args Gs s = Inr s' \<Longrightarrow>
    (\<forall>n. bit (Kinds s') n \<longrightarrow> bit (Kinds s) n) \<and> (\<forall>p \<in> set Gs. compatible (Kinds s') p)"
proof (induction K Args Gs s rule: check_groups.induct)
  case (2 K Args G H Gs s)
  show ?case
  proof (cases "Kinds s AND G \<noteq> 0 \<and> Kinds s AND H \<noteq> 0")
    case False
    then have here: "compatible (Kinds s) (G, H)" by (auto simp: compatible_def)
    from False 2 have IH: "(\<forall>n. bit (Kinds s') n \<longrightarrow> bit (Kinds s) n) \<and> (\<forall>p \<in> set Gs. compatible (Kinds s') p)"
      by auto
    with compatible_antimono [OF here] show ?thesis by simp
  next
    case True
    with "2.prems" obtain a b where
      rest: "check_groups K Args Gs (s\<lparr>Kinds := Kinds s AND NOT (Kinds s AND H),
        Driver := Diag (err_drv_argument_not_allowed_with a b) (Driver s)\<rparr>) = Inr s'"
      and ab: "lastArgumentForMask K Args (Driver s) G = Inr a"
        "lastArgumentForMask K Args (Driver s) (Kinds s AND H) = Inr b"
      by (auto simp: bnd_eq_Inr_iff)
    have here: "compatible (Kinds s AND NOT (Kinds s AND H)) (G, H)"
      by (auto simp: compatible_def bits_simps)
    from "2.IH" (1) [OF True rest]
    have IH: "(\<forall>n. bit (Kinds s') n \<longrightarrow> bit (Kinds s AND NOT (Kinds s AND H)) n) \<and>
        (\<forall>p \<in> set Gs. compatible (Kinds s') p)" by simp
    with compatible_antimono [OF here] show ?thesis by (auto simp: bits_simps)
  qed
qed simp

subsection \<open>The masks of the object\<close>

abbreviation masks :: "sanitizer_args \<Rightarrow> SanitizerMask \<times> SanitizerMask \<times> SanitizerMask" where
  "masks m \<equiv> (Sanitizers m, RecoverableSanitizers m, TrapSanitizers m)"

named_theorems masks_frame \<open>parts of the constructor that leave the masks alone\<close>

lemma masks_default_blacklist [masks_frame]:
  "masks (fst (default_blacklist K TC Ks md)) = masks (fst md)"
  by (simp add: default_blacklist_def split: prod.split option.split)

lemma masks_validate_blacklists [masks_frame]:
  "masks (fst (validate_blacklists TC md)) = masks (fst md)"
  by (simp add: validate_blacklists_def split: prod.split option.split)

lemma masks_parse_blacklists [masks_frame]:
  "parse_blacklists TC As md = Inr r \<Longrightarrow> masks (fst r) = masks (fst md)"
proof (induction As arbitrary: md)
  case (Cons A As)
  obtain m D where "md = (m, D)" by fastforce
  with Cons.prems show ?case by (auto simp: bnd_eq_Inr_iff split: if_splits dest!: Cons.IH)
qed simp

lemma masks_parse_memory [masks_frame]:
  "parse_memory K TC Args Added md = Inr r \<Longrightarrow> masks (fst r) = masks (fst md)"
  by (auto simp: parse_memory_def bnd_eq_Inr_iff split: prod.splits if_splits)

lemma masks_parse_thread_cfi [masks_frame]:
  "masks (parse_thread_cfi K Args Added m) = masks m"
  by (simp add: parse_thread_cfi_def Let_def)

lemma masks_parse_coverage [masks_frame]:
  "masks (fst (parse_coverage K TC Args Added md)) = masks (fst md)"
  by (simp add: parse_coverage_def split: prod.split)

lemma masks_parse_padding [masks_frame]:
  "parse_padding TC Args md = Inr r \<Longrightarrow> masks (fst r) = masks (fst md)"
  by (auto simp: parse_padding_def bnd_eq_Inr_iff split: prod.splits option.splits)

lemma masks_check_debug_runtime [masks_frame]:
  "check_debug_runtime K Args md = Inr r \<Longrightarrow> masks (fst r) = masks (fst md)"
  by (auto simp: check_debug_runtime_def bnd_eq_Inr_iff split: prod.splits option.splits if_splits)

lemma masks_parse_address [masks_frame]:
  "parse_address K TC Args Added md = Inr r \<Longrightarrow> masks (fst r) = masks (fst md)"
  by (auto simp: parse_address_def bnd_eq_Inr_iff split: prod.splits option.splits if_splits
      dest!: masks_parse_padding masks_check_debug_runtime)

lemma fill_object_masks:
  assumes "fill_object K TC Args s T m0 = Inr (m, D)"
  shows "Sanitizers m = Sanitizers m0 OR Kinds s"
    "RecoverableSanitizers m = RecoverableSanitizers m0 OR fst (parse_recover K Args (Kinds s) (Driver s))"
    "TrapSanitizers m = TrapSanitizers m0 OR (T AND Kinds s)"
proof -
  obtain R D1 where R: "parse_recover K Args (Kinds s) (Driver s) = (R, D1)" by fastforce
  from assms R obtain r2 m3 D3 m4 D4 where
    steps: "parse_blacklists TC (al_args Args) (default_blacklist K TC (Kinds s) (m0, D1)) = Inr r2"
      "parse_memory K TC Args (AllAddedKinds s) (validate_blacklists TC r2) = Inr (m3, D3)"
      "parse_address K TC Args (AllAddedKinds s)
         (parse_coverage K TC Args (AllAddedKinds s) (parse_thread_cfi K Args (AllAddedKinds s) m3, D3)) =
       Inr (m4, D4)"
    and m: "m = m4\<lparr>LinkCXXRuntimes := hasArg Args [OPT_fsanitize_link_cxx_runtime] \<or> tc_CCCIsCXX TC,
      Sanitizers := Sanitizers m4 OR Kinds s,
      RecoverableSanitizers := RecoverableSanitizers m4 OR R,
      TrapSanitizers := TrapSanitizers m4 OR (T AND Kinds s)\<rparr>"
    by (auto simp: fill_object_def bnd_eq_Inr_iff Let_def split: prod.splits)
  have "masks m4 = masks m0"
    using masks_parse_blacklists [OF steps(1)] masks_parse_memory [OF steps(2)]
      masks_parse_address [OF steps(3)]
    by (simp add: masks_default_blacklist masks_validate_blacklists masks_parse_coverage masks_parse_thread_cfi)
  with R m show "Sanitizers m = Sanitizers m0 OR Kinds s"
    "RecoverableSanitizers m = RecoverableSanitizers m0 OR fst (parse_recover K Args (Kinds s) (Driver s))"
    "TrapSanitizers m = TrapSanitizers m0 OR (T AND Kinds s)" by simp_all
qed

subsection \<open>The scan of the command line\<close>

text \<open>The kinds one argument names, without its diagnostics.\<close>

definition arg_mask :: "sanitizers \<Rightarrow> Arg \<Rightarrow> SanitizerMask" where
  "arg_mask K A = fold (\<lambda>v M. M OR value_kind K A v) (a_values A) 0"

lemma parse_values_mask: "fst (parse_values K A b vs M D) = fold (\<lambda>v M. M OR value_kind K A v) vs M"
proof (induction vs arbitrary: M D)
  case (Cons v vs)
  then show ?case by (cases "value_kind K A v = 0") (simp_all add: Let_def)
qed simp

lemma parseArgValues_mask: "fst (parseArgValues K A b D) = arg_mask K A"
  by (simp add: parseArgValues_def arg_mask_def parse_values_mask)

definition removed_vptr :: "sanitizers \<Rightarrow> ToolChain \<Rightarrow> SanitizerMask \<Rightarrow> SanitizerMask" where
  "removed_vptr K TC Add = (if Add AND SK_Vptr K \<noteq> 0 \<and> rtti_disabled TC then SK_Vptr K else 0)"

lemma diagnose_frame:
  assumes "diagnose K A M d s = Inr s'"
  shows "Kinds s' = Kinds s" "AllRemove s' = AllRemove s" "AllAddedKinds s' = AllAddedKinds s"
    "Supported s' = Supported s"
  using assms by (auto simp: diagnose_def bnd_eq_Inr_iff split: if_splits)

lemma check_vptr_frame:
  assumes "check_vptr K TC Add s = Inr s'"
  shows "Kinds s' = Kinds s" "AllRemove s' = AllRemove s OR removed_vptr K TC Add"
    "AllAddedKinds s' = AllAddedKinds s" "Supported s' = Supported s"
  using assms by (auto simp: check_vptr_def removed_vptr_def bnd_eq_Inr_iff split: if_splits option.splits)

definition forced :: "ToolChain \<Rightarrow> SanitizerMask \<Rightarrow> SanitizerMask" where
  "forced TC S = (if t_str (tc_Triple TC) = embed_triple then 0xffffffffffff else S)"

definition direct :: "sanitizers \<Rightarrow> SanitizerMask \<Rightarrow> Arg \<Rightarrow> SanitizerMask \<Rightarrow> SanitizerMask \<Rightarrow> SanitizerMask" where
  "direct K I A R S = ((arg_mask K A AND NOT R) AND NOT I) AND S"

lemma add_step_masks:
  assumes "add_step K TC I A s = Inr s'"
  shows "AllAddedKinds s' = AllAddedKinds s OR expandSanitizerGroups K (arg_mask K A)"
    "Supported s' = forced TC (Supported s)"
    "AllRemove s' = AllRemove s OR removed_vptr K TC (direct K I A (AllRemove s) (Supported s'))"
    "Kinds s' = Kinds s OR
       (expandSanitizerGroups K (direct K I A (AllRemove s) (Supported s')) AND NOT (AllRemove s') AND
        NOT I AND Supported s')"
proof -
  obtain D1 where p: "parseArgValues K A True (claim A (Driver s)) = (arg_mask K A, D1)"
    by (metis parseArgValues_mask prod.collapse)
  define s1 where "s1 = s\<lparr>AllAddedKinds := AllAddedKinds s OR expandSanitizerGroups K (arg_mask K A), Driver := D1\<rparr>"
  define Add1 where "Add1 = arg_mask K A AND NOT (AllRemove s1)"
  have force: "(if t_str (tc_Triple TC) = embed_triple then s2\<lparr>Supported := 0xffffffffffff\<rparr> else s2) =
      s2\<lparr>Supported := forced TC (Supported s2)\<rparr>" for s2
    by (simp add: forced_def)
  from assms p obtain s2 s4 s5 where
    s2: "diagnose K A (Add1 AND I AND NOT (DiagnosedKinds s1))
      (\<lambda>Desc. err_drv_argument_not_allowed_with Desc ''-fsanitize-trap=undefined'') s1 = Inr s2"
    and s4: "diagnose K A ((Add1 AND NOT I) AND
        NOT (Supported (s2\<lparr>Supported := forced TC (Supported s2)\<rparr>)) AND
        NOT (DiagnosedKinds (s2\<lparr>Supported := forced TC (Supported s2)\<rparr>)))
      (\<lambda>Desc. err_drv_unsupported_opt_for_target Desc (t_str (tc_Triple TC)))
      (s2\<lparr>Supported := forced TC (Supported s2)\<rparr>) = Inr s4"
    and s5: "check_vptr K TC ((Add1 AND NOT I) AND Supported s4) s4 = Inr s5"
    and s': "s' = s5\<lparr>Kinds := Kinds s5 OR
      (expandSanitizerGroups K ((Add1 AND NOT I) AND Supported s4) AND
       NOT (AllRemove s5) AND NOT I AND Supported s5)\<rparr>"
    unfolding add_step_def p Let_def prod.case bnd_eq_Inr_iff force
    unfolding s1_def [symmetric] Add1_def [symmetric] by blast
  note f = diagnose_frame [OF s2] diagnose_frame [OF s4] check_vptr_frame [OF s5]
  show "AllAddedKinds s' = AllAddedKinds s OR expandSanitizerGroups K (arg_mask K A)"
    "Supported s' = forced TC (Supported s)"
    "AllRemove s' = AllRemove s OR removed_vptr K TC (direct K I A (AllRemove s) (Supported s'))"
    "Kinds s' = Kinds s OR
       (expandSanitizerGroups K (direct K I A (AllRemove s) (Supported s')) AND NOT (AllRemove s') AND
        NOT I AND Supported s')"
    using f by (simp_all add: s' s1_def Add1_def direct_def)
qed

lemma remove_step_masks:
  "AllAddedKinds (remove_step K A s) = AllAddedKinds s" "Supported (remove_step K A s) = Supported s"
  "Kinds (remove_step K A s) = Kinds s"
  "AllRemove (remove_step K A s) = AllRemove s OR expandSanitizerGroups K (arg_mask K A)"
  by (simp_all add: remove_step_def split_def parseArgValues_mask)

lemma scan_args_invalid:
  "scan_args K TC I As s = Inr s' \<Longrightarrow> Kinds s AND I = 0 \<Longrightarrow> Kinds s' AND I = 0"
proof (induction As arbitrary: s)
  case (Cons A As)
  show ?case
  proof (cases "a_opt A = OPT_fsanitize_EQ")
    case True
    with Cons.prems obtain s1 where s1: "add_step K TC I A s = Inr s1" "scan_args K TC I As s1 = Inr s'"
      by (auto simp: bnd_eq_Inr_iff)
    moreover have "Kinds s1 AND I = 0"
      using Cons.prems(2) by (auto simp: add_step_masks(4) [OF s1(1)] bits_simps)
    ultimately show ?thesis by (blast intro: Cons.IH)
  next
    case False
    with Cons.prems show ?thesis
      by (auto split: if_splits simp: remove_step_masks intro!: Cons.IH)
  qed
qed simp

subsection \<open>The first half of the constructor\<close>

lemma check_LTO_frame: "check_LTO K TC Args s = Inr s' \<Longrightarrow>
    Kinds s' = Kinds s \<and> AllRemove s' = AllRemove s \<and> AllAddedKinds s' = AllAddedKinds s \<and>
    Supported s' = Supported s"
  by (auto simp: check_LTO_def bnd_eq_Inr_iff split: if_splits)

lemma check_cxxabi_kinds: "bit (Kinds (check_cxxabi K TC T s)) n \<Longrightarrow> bit (Kinds s) n"
  by (auto simp: check_cxxabi_def Let_def bits_simps split: if_splits)

lemma choose_kinds_decompose:
  assumes "choose_kinds K TC Args D = Inr (s, T)"
  obtains s1 where
    "scan_args K TC (T AND NotAllowedWithTrap K) (rev (al_args Args))
      (scan_init (setGroupBits K (tc_SupportedSanitizers TC)) (snd (parseSanitizeTrapArgs K Args D))) = Inr s1"
    "T = fst (parseSanitizeTrapArgs K Args D)"
    "\<forall>n. bit (Kinds s) n \<longrightarrow> bit (Kinds (apply_defaults K TC s1)) n"
    "\<forall>p \<in> set (IncompatibleGroups K). compatible (Kinds s) p"
proof -
  from assms obtain s1 s2 where T: "T = fst (parseSanitizeTrapArgs K Args D)"
    and s1: "scan_args K TC (T AND NotAllowedWithTrap K) (rev (al_args Args))
      (scan_init (setGroupBits K (tc_SupportedSanitizers TC)) (snd (parseSanitizeTrapArgs K Args D))) = Inr s1"
    and s2: "check_LTO K TC Args (apply_defaults K TC s1) = Inr s2"
    and s: "check_groups K Args (IncompatibleGroups K) (check_cxxabi K TC T s2) = Inr s"
    by (auto simp: choose_kinds_def split_def Let_def bnd_eq_Inr_iff)
  have "bit (Kinds (apply_defaults K TC s1)) n" if "bit (Kinds s) n" for n
    using check_groups_kinds [OF s] check_LTO_frame [OF s2] check_cxxabi_kinds that by metis
  with that [OF s1 T] check_groups_kinds [OF s] show thesis by simp
qed

lemma SanitizerArgs_new_decompose:
  assumes "SanitizerArgs_new K TC Args m0 D = Inr (m, D')" and "masks m0 = (0, 0, 0)"
  obtains s T where "choose_kinds K TC Args D = Inr (s, T)" "Sanitizers m = Kinds s"
    "RecoverableSanitizers m = fst (parse_recover K Args (Kinds s) (Driver s))"
    "TrapSanitizers m = T AND Kinds s"
proof -
  from assms(1) obtain s T where s: "choose_kinds K TC Args D = Inr (s, T)"
    and m: "fill_object K TC Args s T m0 = Inr (m, D')"
    by (auto simp: SanitizerArgs_new_def bnd_eq_Inr_iff)
  with fill_object_masks [OF m] assms(2) that [OF s] show thesis by simp
qed

subsection \<open>Which arguments name a kind\<close>

text \<open>What the code relies on of \<open>parseSanitizerValue\<close> and \<open>expandSanitizerGroups\<close>.\<close>

definition table_ok :: "sanitizers \<Rightarrow> bool" where
  "table_ok K \<longleftrightarrow> parseSanitizerValue K [] = 0 \<and> expandSanitizerGroups K 0 = 0 \<and>
     (\<forall>M N. expandSanitizerGroups K (M OR N) = expandSanitizerGroups K M OR expandSanitizerGroups K N) \<and>
     (\<forall>M n. bit M n \<longrightarrow> bit (expandSanitizerGroups K M) n) \<and>
     (\<forall>M. expandSanitizerGroups K (expandSanitizerGroups K M) = expandSanitizerGroups K M)"

lemma table_okD:
  assumes "table_ok K"
  shows "parseSanitizerValue K [] = 0" "expandSanitizerGroups K 0 = 0"
    "expandSanitizerGroups K (M OR N) = expandSanitizerGroups K M OR expandSanitizerGroups K N"
    "bit M n \<Longrightarrow> bit (expandSanitizerGroups K M) n"
    "expandSanitizerGroups K (expandSanitizerGroups K M) = expandSanitizerGroups K M"
  using assms by (simp_all add: table_ok_def)

lemma expand_mono:
  assumes "table_ok K" and "\<forall>n. bit M n \<longrightarrow> bit N n" and "bit (expandSanitizerGroups K M) n"
  shows "bit (expandSanitizerGroups K N) n"
proof -
  have "N = M OR N" by (rule bit_word_eqI) (use assms(2) in \<open>auto simp: bit_or_iff\<close>)
  then have "expandSanitizerGroups K N = expandSanitizerGroups K M OR expandSanitizerGroups K N"
    using table_okD(3) [OF assms(1)] by metis
  then have "bit (expandSanitizerGroups K N) n \<longleftrightarrow>
      bit (expandSanitizerGroups K M OR expandSanitizerGroups K N) n" by simp
  with assms(3) show ?thesis by (simp add: bit_or_iff)
qed

definition names :: "sanitizers \<Rightarrow> Arg \<Rightarrow> nat \<Rightarrow> bool" where
  "names K A n \<longleftrightarrow> bit (expandSanitizerGroups K (arg_mask K A)) n"

text \<open>
  The reference for the scan, on the arguments from last to first: a kind is provided if some
  \<open>-fsanitize=\<close> names it and no later \<open>-fno-sanitize=\<close> does.
\<close>

fun provides :: "sanitizers \<Rightarrow> nat \<Rightarrow> Arg list \<Rightarrow> bool" where
  "provides K n [] = False"
| "provides K n (A # As) =
     (if a_opt A = OPT_fsanitize_EQ then names K A n \<or> provides K n As
      else if a_opt A = OPT_fno_sanitize_EQ then \<not> names K A n \<and> provides K n As
      else provides K n As)"

lemma expand_fold:
  assumes "table_ok K" and "bit (expandSanitizerGroups K (fold (\<lambda>v M. M OR value_kind K A v) vs M)) n"
  shows "bit (expandSanitizerGroups K M) n \<or> (\<exists>v \<in> set vs. bit (expandSanitizerGroups K (value_kind K A v)) n)"
  using assms(2)
proof (induction vs arbitrary: M)
  case (Cons v vs)
  then show ?case using table_okD(3) [OF assms(1)] by (fastforce simp: bit_or_iff)
qed simp

lemma fold_comma:
  "acc \<noteq> [] \<or> (\<exists>v \<in> set vs. P v \<and> v \<noteq> []) \<Longrightarrow> fold (\<lambda>v s. if P v then comma s v else s) vs acc \<noteq> []"
  by (induction vs arbitrary: acc) (auto simp: comma_def)

lemma fold_comma_none:
  "\<forall>v \<in> set vs. \<not> P v \<Longrightarrow> fold (\<lambda>v s. if P v then comma s v else s) vs acc = acc"
  by (induction vs arbitrary: acc) auto

lemma describeSanitizeArg_ok:
  assumes "table_ok K" and "names K A n" and "bit Mask n"
  shows "\<exists>a. describeSanitizeArg K A Mask = Inr a"
proof -
  note t = table_okD [OF assms(1)]
  from expand_fold [OF assms(1), of A "a_values A" 0 n] assms(2) obtain v where
    v: "v \<in> set (a_values A)" "bit (expandSanitizerGroups K (value_kind K A v)) n"
    by (auto simp: names_def arg_mask_def t(2))
  then have "value_kind K A v = parseSanitizerValue K v" "v \<noteq> []"
    using t(1,2) by (auto simp: value_kind_def split: if_splits)
  with v assms(3) have "\<exists>v \<in> set (a_values A). expandSanitizerGroups K (parseSanitizerValue K v) AND Mask \<noteq> 0 \<and> v \<noteq> []"
    by (auto simp: bits_simps)
  then show ?thesis by (simp add: describeSanitizeArg_def Let_def fold_comma)
qed

lemma last_argument_ok:
  assumes "table_ok K"
  shows "bit Mask n \<Longrightarrow> provides K n As \<Longrightarrow> \<exists>a. last_argument K As D Mask = Inr a"
proof (induction As arbitrary: Mask)
  case (Cons A As)
  show ?case
  proof (cases "a_opt A = OPT_fsanitize_EQ \<and> expandSanitizerGroups K (arg_mask K A) AND Mask \<noteq> 0")
    case True
    then obtain n' where "names K A n'" "bit Mask n'" by (auto simp: names_def bits_simps)
    with describeSanitizeArg_ok [OF assms] True show ?thesis by (simp add: parseArgValues_mask)
  next
    case False
    with Cons.prems(2) show ?thesis
      using Cons.prems(1) bit_less_64 [OF Cons.prems(1)]
      by (auto simp: parseArgValues_mask names_def bits_simps intro!: Cons.IH split: if_splits)
  qed
qed simp

lemma last_argument_found:
  "last_argument K As D Mask = Inr a \<Longrightarrow> \<exists>n. bit Mask n \<and> provides K n As"
proof (induction As arbitrary: Mask)
  case (Cons A As)
  show ?case
  proof (cases "a_opt A = OPT_fsanitize_EQ \<and> expandSanitizerGroups K (arg_mask K A) AND Mask \<noteq> 0")
    case True
    then show ?thesis by (auto simp: names_def bits_simps)
  next
    case False
    with Cons.prems show ?thesis
      by (auto simp: parseArgValues_mask names_def bits_simps split: if_splits dest!: Cons.IH)
  qed
qed simp

subsection \<open>The scan against its reference\<close>

definition rtti_ok :: "ToolChain \<Rightarrow> bool" where
  "rtti_ok TC \<longleftrightarrow> (tc_RTTIMode TC = RM_DisabledExplicitly \<longrightarrow> tc_RTTIArg TC \<noteq> None)"

lemma diagnose_ok:
  assumes "table_ok K" and "\<forall>n. bit M n \<longrightarrow> names K A n"
  shows "\<exists>s'. diagnose K A M d s = Inr s'"
proof (cases "M = 0")
  case False
  then obtain n where "bit M n" by (metis bit_0_eq bit_word_eqI bot_apply bot_bool_def)
  with describeSanitizeArg_ok [OF assms(1)] assms(2) obtain a where
    "describeSanitizeArg K A M = Inr a" by blast
  then show ?thesis by (simp add: diagnose_def)
qed (simp add: diagnose_def)

lemma check_vptr_ok: "rtti_ok TC \<Longrightarrow> \<exists>s'. check_vptr K TC Add s = Inr s'"
  by (auto simp: check_vptr_def rtti_ok_def rtti_disabled_def split: option.splits)

lemma arg_mask_names: "table_ok K \<Longrightarrow> bit (arg_mask K A) n \<Longrightarrow> names K A n"
  by (simp add: names_def table_okD(4))

lemma add_step_ok:
  assumes "table_ok K" and "rtti_ok TC"
  shows "\<exists>s'. add_step K TC I A s = Inr s'"
proof -
  obtain D1 where p: "parseArgValues K A True (claim A (Driver s)) = (arg_mask K A, D1)"
    by (metis parseArgValues_mask prod.collapse)
  have named: "bit (arg_mask K A AND X) n \<Longrightarrow> names K A n" "bit ((arg_mask K A AND X) AND Y) n \<Longrightarrow> names K A n"
    for X Y n using arg_mask_names [OF assms(1)] by (auto simp: bit_and_iff)
  show ?thesis
    unfolding add_step_def p Let_def prod.case
    by (intro bnd_total diagnose_ok [OF assms(1)] check_vptr_ok [OF assms(2)])
      (use named in \<open>auto simp: bit_and_iff\<close>)
qed

lemma scan_args_ok:
  "table_ok K \<Longrightarrow> rtti_ok TC \<Longrightarrow> \<exists>s'. scan_args K TC I As s = Inr s'"
proof (induction As arbitrary: s)
  case (Cons A As)
  show ?case
  proof (cases "a_opt A = OPT_fsanitize_EQ")
    case True
    from add_step_ok [OF Cons.prems] obtain s1 where "add_step K TC I A s = Inr s1" by blast
    with True Cons show ?thesis by simp
  qed (use Cons in simp)
qed simp

lemma direct_named:
  assumes "table_ok K" and "bit (expandSanitizerGroups K (direct K I A R S)) n"
  shows "names K A n"
  unfolding names_def using assms(1) _ assms(2) by (rule expand_mono) (simp add: direct_def bit_and_iff)

lemma scan_args_provided:
  assumes "table_ok K"
  shows "scan_args K TC I As s = Inr s' \<Longrightarrow> bit (Kinds s') n \<Longrightarrow>
    bit (Kinds s) n \<or> provides K n As \<and> \<not> bit (AllRemove s) n"
proof (induction As arbitrary: s)
  case (Cons A As)
  consider "a_opt A = OPT_fsanitize_EQ" | "a_opt A = OPT_fno_sanitize_EQ"
    | "a_opt A \<noteq> OPT_fsanitize_EQ" "a_opt A \<noteq> OPT_fno_sanitize_EQ" by blast
  then show ?case
  proof cases
    case 1
    with Cons.prems obtain s1 where s1: "add_step K TC I A s = Inr s1" "scan_args K TC I As s1 = Inr s'"
      by (auto simp: bnd_eq_Inr_iff)
    note m = add_step_masks [OF s1(1)]
    from Cons.IH [OF s1(2) Cons.prems(2)] show ?thesis
    proof
      assume "bit (Kinds s1) n"
      then show ?thesis
        using direct_named [OF assms, of I A "AllRemove s" "Supported s1" n] 1
        by (auto simp: m(3,4) bits_simps)
    next
      assume "provides K n As \<and> \<not> bit (AllRemove s1) n"
      then show ?thesis using 1 by (simp add: m(3) bits_simps)
    qed
  next
    case 2
    with Cons.prems Cons.IH [of "remove_step K A s"] show ?thesis
      by (auto simp: remove_step_masks bits_simps names_def)
  next
    case 3
    with Cons show ?thesis by simp
  qed
qed simp

lemma scan_args_added:
  "scan_args K TC I As s = Inr s' \<Longrightarrow> bit (AllAddedKinds s') n \<longleftrightarrow>
    bit (AllAddedKinds s) n \<or> (\<exists>A \<in> set As. a_opt A = OPT_fsanitize_EQ \<and> names K A n)"
proof (induction As arbitrary: s)
  case (Cons A As)
  show ?case
  proof (cases "a_opt A = OPT_fsanitize_EQ")
    case True
    with Cons.prems obtain s1 where s1: "add_step K TC I A s = Inr s1" "scan_args K TC I As s1 = Inr s'"
      by (auto simp: bnd_eq_Inr_iff)
    with True Cons.IH [OF s1(2)] show ?thesis
      by (auto simp: add_step_masks(1) [OF s1(1)] bits_simps names_def)
  next
    case False
    with Cons show ?thesis by (auto simp: remove_step_masks split: if_splits)
  qed
qed simp

text \<open>The converse needs to know through which bit, of a sanitizer or of a group, a kind is named.\<close>

definition gives :: "sanitizers \<Rightarrow> nat \<Rightarrow> nat \<Rightarrow> bool" where
  "gives K g n \<longleftrightarrow> bit (expandSanitizerGroups K (push_bit g 1)) n"

lemma expand_gives:
  assumes "table_ok K" and "bit (expandSanitizerGroups K M) n"
  shows "\<exists>g. bit M g \<and> gives K g n"
proof -
  note t = table_okD [OF assms(1)]
  have "bit (expandSanitizerGroups K (take_bit k M)) n \<Longrightarrow> \<exists>g. bit M g \<and> gives K g n" for k
  proof (induction k)
    case (Suc k)
    have split: "take_bit (Suc k) M = take_bit k M OR (if bit M k then push_bit k 1 else 0)"
      by (rule bit_word_eqI) (auto simp: bit_simps less_Suc_eq)
    from Suc.prems have "bit (expandSanitizerGroups K (take_bit k M)) n \<or> bit M k \<and> gives K k n"
      by (simp add: split t(2,3) bit_or_iff gives_def split: if_splits)
    with Suc.IH show ?case by blast
  qed (simp add: t(2))
  from this [of 64] assms(2) show ?thesis by (simp add: take_bit_word_eq_self)
qed

lemma gives_expand:
  assumes "table_ok K" and "bit M g" and "gives K g n"
  shows "bit (expandSanitizerGroups K M) n"
proof (rule expand_mono [OF assms(1)])
  show "\<forall>n. bit (push_bit g 1 :: SanitizerMask) n \<longrightarrow> bit M n"
    using assms(2) by (auto simp: bit_simps)
qed (use assms(3) in \<open>simp add: gives_def\<close>)

lemma forced_idem: "forced TC (forced TC S) = forced TC S"
  by (simp add: forced_def)

text \<open>Kinds that are not removed for vptr's sake, on a target that supports what names them.\<close>

definition plain_kind :: "sanitizers \<Rightarrow> ToolChain \<Rightarrow> SanitizerMask \<Rightarrow> nat \<Rightarrow> bool" where
  "plain_kind K TC S n \<longleftrightarrow> \<not> bit (expandSanitizerGroups K (SK_Vptr K)) n \<and>
     bit (forced TC S) n \<and> (\<forall>g. gives K g n \<longrightarrow> bit (forced TC S) g)"

lemma add_step_enables:
  assumes "table_ok K" and "add_step K TC I A s = Inr s'" and "\<forall>i. bit I i \<longrightarrow> bit (SK_Vptr K) i"
    and "plain_kind K TC (Supported s) n" and "names K A n" and "\<not> bit (AllRemove s) n"
    and closed: "\<forall>g. gives K g n \<longrightarrow> bit (AllRemove s) g \<longrightarrow> bit (AllRemove s) n"
  shows "bit (Kinds s') n"
proof -
  note m = add_step_masks [OF assms(2)] and vptr = gives_expand [OF assms(1), of "SK_Vptr K"]
  have n: "n < 64" using assms(5) unfolding names_def by (rule bit_less_64)
  from expand_gives [OF assms(1)] assms(5) obtain g where g: "bit (arg_mask K A) g" "gives K g n"
    unfolding names_def by blast
  have "\<not> bit I g" "\<not> bit I n" "\<not> bit (AllRemove s) g" "bit (Supported s') g" "bit (Supported s') n"
    using assms g vptr table_okD(4) [OF assms(1)] by (auto simp: plain_kind_def m(2))
  with g bit_less_64 have "bit (direct K I A (AllRemove s) (Supported s')) g"
    by (simp add: direct_def bits_simps)
  with g gives_expand [OF assms(1)] have "bit (expandSanitizerGroups K (direct K I A (AllRemove s) (Supported s'))) n"
    by blast
  moreover have "\<not> bit (AllRemove s') n"
    using assms(4,6) table_okD(4) [OF assms(1)] by (auto simp: m(3) removed_vptr_def plain_kind_def bits_simps)
  ultimately show ?thesis
    using \<open>\<not> bit I n\<close> \<open>bit (Supported s') n\<close> n by (simp add: m(4) bits_simps)
qed

lemma scan_args_enables:
  assumes "table_ok K" and "\<forall>i. bit I i \<longrightarrow> bit (SK_Vptr K) i"
  shows "scan_args K TC I As s = Inr s' \<Longrightarrow> plain_kind K TC (Supported s) n \<Longrightarrow>
    \<forall>g. gives K g n \<longrightarrow> bit (AllRemove s) g \<longrightarrow> bit (AllRemove s) n \<Longrightarrow>
    bit (Kinds s) n \<or> provides K n As \<and> \<not> bit (AllRemove s) n \<Longrightarrow> bit (Kinds s') n"
proof (induction As arbitrary: s)
  case (Cons A As)
  note vptr = gives_expand [OF assms(1), of "SK_Vptr K"]
  consider "a_opt A = OPT_fsanitize_EQ" | "a_opt A = OPT_fno_sanitize_EQ"
    | "a_opt A \<noteq> OPT_fsanitize_EQ" "a_opt A \<noteq> OPT_fno_sanitize_EQ" by blast
  then show ?case
  proof cases
    case 1
    with Cons.prems obtain s1 where s1: "add_step K TC I A s = Inr s1" "scan_args K TC I As s1 = Inr s'"
      by (auto simp: bnd_eq_Inr_iff)
    note m = add_step_masks [OF s1(1)]
    have "plain_kind K TC (Supported s1) n"
      using Cons.prems(2) by (simp add: plain_kind_def m(2) forced_idem)
    moreover have "\<forall>g. gives K g n \<longrightarrow> bit (AllRemove s1) g \<longrightarrow> bit (AllRemove s1) n"
      using Cons.prems(2,3) vptr by (auto simp: m(3) removed_vptr_def bit_or_iff plain_kind_def)
    moreover have "bit (Kinds s1) n \<or> provides K n As \<and> \<not> bit (AllRemove s1) n"
      using Cons.prems(2,4) 1 add_step_enables [OF assms(1) s1(1) assms(2) Cons.prems(2) _ _ Cons.prems(3)]
        table_okD(4) [OF assms(1)]
      by (auto simp: m(3,4) removed_vptr_def bit_or_iff plain_kind_def)
    ultimately show ?thesis by (rule Cons.IH [OF s1(2)])
  next
    case 2
    have "\<forall>g. gives K g n \<longrightarrow> bit (AllRemove (remove_step K A s)) g \<longrightarrow> bit (AllRemove (remove_step K A s)) n"
      using Cons.prems(3) gives_expand [OF assms(1), of "expandSanitizerGroups K (arg_mask K A)"]
      by (auto simp: remove_step_masks bit_or_iff table_okD(5) [OF assms(1)])
    then show ?thesis
      using Cons.prems 2 by (intro Cons.IH [of "remove_step K A s"])
        (auto simp: remove_step_masks bit_or_iff names_def)
  next
    case 3
    with Cons show ?thesis by simp
  qed
qed simp

subsection \<open>When the constructor returns\<close>

text \<open>The kinds that the constructor may have to blame an argument for.\<close>

definition blamed :: "sanitizers \<Rightarrow> SanitizerMask" where
  "blamed K = fold (\<lambda>(G, H) M. M OR (G OR H)) (IncompatibleGroups K) (NeedsLTO K)"

lemma bit_blamed:
  "bit (blamed K) n \<longleftrightarrow> bit (NeedsLTO K) n \<or> (\<exists>(G, H) \<in> set (IncompatibleGroups K). bit G n \<or> bit H n)"
proof -
  have "bit (fold (\<lambda>(G, H) M. M OR (G OR H)) Gs M) n \<longleftrightarrow>
      bit M n \<or> (\<exists>(G, H) \<in> set Gs. bit G n \<or> bit H n)" for Gs and M :: SanitizerMask
    by (induction Gs arbitrary: M) (auto simp: bit_or_iff)
  then show ?thesis by (simp add: blamed_def)
qed

lemma check_groups_ok:
  assumes "table_ok K"
    and "\<forall>n. bit (Kinds s) n \<longrightarrow> (\<exists>(G, H) \<in> set Gs. bit G n \<or> bit H n) \<longrightarrow> provides K n (rev (al_args Args))"
  shows "\<exists>s'. check_groups K Args Gs s = Inr s'"
  using assms(2)
proof (induction Gs arbitrary: s)
  case (Cons p Gs)
  obtain G H where p: "p = (G, H)" by fastforce
  note last = last_argument_ok [OF assms(1), of _ _ "rev (al_args Args)" "Driver s"]
  show ?case
  proof (cases "Kinds s AND G \<noteq> 0 \<and> Kinds s AND H \<noteq> 0")
    case True
    then obtain n k where "bit (Kinds s) n" "bit G n" "bit (Kinds s) k" "bit H k"
      by (auto simp: bits_simps)
    with Cons.prems p have "provides K n (rev (al_args Args))" "provides K k (rev (al_args Args))"
      by auto
    with last [of G n] last [of "Kinds s AND H" k] \<open>bit G n\<close> \<open>bit (Kinds s) k\<close> \<open>bit H k\<close>
    obtain a b where ab: "lastArgumentForMask K Args (Driver s) G = Inr a"
      "lastArgumentForMask K Args (Driver s) (Kinds s AND H) = Inr b"
      by (auto simp: lastArgumentForMask_def bit_and_iff)
    have "\<exists>s'. check_groups K Args Gs (s\<lparr>Kinds := Kinds s AND NOT (Kinds s AND H),
        Driver := Diag (err_drv_argument_not_allowed_with a b) (Driver s)\<rparr>) = Inr s'"
      using Cons.prems by (intro Cons.IH) (auto simp: bit_and_iff)
    with True ab p show ?thesis by simp
  next
    case False
    have "\<exists>s'. check_groups K Args Gs s = Inr s'" using Cons.prems by (intro Cons.IH) auto
    moreover from False have "check_groups K Args (p # Gs) s = check_groups K Args Gs s"
      by (simp only: p check_groups.simps if_False)
    ultimately show ?thesis by simp
  qed
qed simp

lemma scan_provides:
  assumes "table_ok K" and "scan_args K TC I As (scan_init S D) = Inr s" and "bit (Kinds s) n"
  shows "provides K n As"
  using scan_args_provided [OF assms] by (simp add: scan_init_def)

lemma apply_defaults_kinds:
  "bit (Kinds (apply_defaults K TC s)) n \<Longrightarrow> bit (Kinds s) n \<or> bit (tc_DefaultSanitizers TC) n"
  by (auto simp: apply_defaults_def Let_def bits_simps split: if_splits)

lemma blamed_provided:
  assumes "table_ok K" and "tc_DefaultSanitizers TC AND blamed K = 0"
    and "scan_args K TC I (rev (al_args Args)) (scan_init S D) = Inr s"
    and "bit (Kinds (apply_defaults K TC s)) n" and "bit (blamed K) n"
  shows "provides K n (rev (al_args Args))"
  using apply_defaults_kinds [OF assms(4)] scan_provides [OF assms(1,3)] assms(2,5)
  by (auto simp: bits_simps)

lemma choose_kinds_ok:
  assumes "table_ok K" and "rtti_ok TC" and "tc_DefaultSanitizers TC AND blamed K = 0"
  shows "\<exists>r. choose_kinds K TC Args D = Inr r"
proof -
  let ?As = "rev (al_args Args)"
  have LTO: "\<exists>s2. check_LTO K TC Args (apply_defaults K TC s1) = Inr s2"
    if s1: "scan_args K TC I ?As (scan_init S D1) = Inr s1" for I S D1 s1
  proof (cases "Kinds (apply_defaults K TC s1) AND NeedsLTO K = 0")
    case False
    then obtain n where n: "bit (Kinds (apply_defaults K TC s1)) n" "bit (NeedsLTO K) n"
      by (auto simp: bits_simps)
    with blamed_provided [OF assms(1,3) s1] have "provides K n ?As" by (simp add: bit_blamed)
    with n last_argument_ok [OF assms(1), of "Kinds (apply_defaults K TC s1) AND NeedsLTO K" n ?As
        "Driver (apply_defaults K TC s1)"]
    obtain a where "lastArgumentForMask K Args (Driver (apply_defaults K TC s1))
        (Kinds (apply_defaults K TC s1) AND NeedsLTO K) = Inr a"
      by (auto simp: lastArgumentForMask_def bit_and_iff)
    then show ?thesis by (simp add: check_LTO_def)
  qed (simp add: check_LTO_def)
  have groups: "\<exists>s3. check_groups K Args (IncompatibleGroups K) (check_cxxabi K TC T s2) = Inr s3"
    if s1: "scan_args K TC I ?As (scan_init S D1) = Inr s1"
      and s2: "check_LTO K TC Args (apply_defaults K TC s1) = Inr s2" for I S D1 s1 s2 T
  proof (rule check_groups_ok [OF assms(1)], intro allI impI)
    fix n assume "bit (Kinds (check_cxxabi K TC T s2)) n"
      "\<exists>(G, H) \<in> set (IncompatibleGroups K). bit G n \<or> bit H n"
    with check_cxxabi_kinds check_LTO_frame [OF s2] blamed_provided [OF assms(1,3) s1]
    show "provides K n ?As" by (metis bit_blamed)
  qed
  show ?thesis
    unfolding choose_kinds_def split_def Let_def
    using scan_args_ok [OF assms(1,2)] LTO groups by (intro bnd_total) auto
qed

lemma check_groups_added:
  "check_groups K Args Gs s = Inr s' \<Longrightarrow> AllAddedKinds s' = AllAddedKinds s"
proof (induction Gs arbitrary: s)
  case (Cons p Gs)
  then show ?case by (cases p) (auto simp: bnd_eq_Inr_iff split: if_splits dest!: Cons.IH)
qed simp

lemma choose_kinds_added:
  assumes "choose_kinds K TC Args D = Inr (s, T)"
  shows "bit (AllAddedKinds s) n \<longleftrightarrow> (\<exists>A \<in> set (al_args Args). a_opt A = OPT_fsanitize_EQ \<and> names K A n)"
proof -
  from assms obtain s1 s2 I S D1 where
    s1: "scan_args K TC I (rev (al_args Args)) (scan_init S D1) = Inr s1"
    and s2: "check_LTO K TC Args (apply_defaults K TC s1) = Inr s2"
    and s: "check_groups K Args (IncompatibleGroups K) (check_cxxabi K TC T s2) = Inr s"
    by (auto simp: choose_kinds_def split_def Let_def bnd_eq_Inr_iff)
  have "AllAddedKinds s = AllAddedKinds s1"
    using check_groups_added [OF s] check_LTO_frame [OF s2]
    by (simp add: check_cxxabi_def apply_defaults_def Let_def split: if_splits)
  with scan_args_added [OF s1, of n] show ?thesis by (simp add: scan_init_def)
qed

text \<open>
  The option library: options with a value have one, and the last argument is one that was asked for. A group
  stands for the options in it, so nothing is required of a lookup of groups.
\<close>

definition args_ok :: "ArgList \<Rightarrow> bool" where
  "args_ok Args \<longleftrightarrow>
     (\<forall>A \<in> set (al_args Args). a_opt A \<in> {OPT_fsanitize_blacklist, OPT_fsanitize_memory_track_origins_EQ,
        OPT_fsanitize_address_field_padding} \<longrightarrow> a_values A \<noteq> []) \<and>
     (\<forall>ids A. set ids \<inter> option_groups = {} \<and> getLastArg Args ids = Some A \<longrightarrow>
        A \<in> set (al_args Args) \<and> a_opt A \<in> set ids)"

lemma no_groups:
  "set [OPT_fsanitize_memory_track_origins_EQ, OPT_fsanitize_memory_track_origins,
    OPT_fno_sanitize_memory_track_origins] \<inter> option_groups = {}"
  "set [OPT_fsanitize_address_field_padding] \<inter> option_groups = {}"
  by (auto simp: option_groups_def)

lemma args_ok_last:
  "args_ok Args \<Longrightarrow> getLastArg Args ids = Some A \<Longrightarrow> set ids \<inter> option_groups = {} \<Longrightarrow>
    A \<in> set (al_args Args) \<and> a_opt A \<in> set ids"
  unfolding args_ok_def by blast

lemma args_ok_value:
  "args_ok Args \<Longrightarrow> A \<in> set (al_args Args) \<Longrightarrow> a_opt A \<in> {OPT_fsanitize_blacklist,
     OPT_fsanitize_memory_track_origins_EQ, OPT_fsanitize_address_field_padding} \<Longrightarrow> a_values A \<noteq> []"
  unfolding args_ok_def by blast

lemma getValue_ok: "a_values A \<noteq> [] \<Longrightarrow> \<exists>v. getValue A = Inr v"
  by (simp add: getValue_def vget_def)

lemma parse_blacklists_ok:
  "\<forall>A \<in> set As. a_opt A = OPT_fsanitize_blacklist \<longrightarrow> a_values A \<noteq> [] \<Longrightarrow>
    \<exists>r. parse_blacklists TC As md = Inr r"
proof (induction As arbitrary: md)
  case (Cons A As)
  obtain m D where md: "md = (m, D)" by fastforce
  show ?case
  proof (cases "a_opt A = OPT_fsanitize_blacklist")
    case True
    with Cons.prems getValue_ok [of A] obtain v where "getValue A = Inr v" by auto
    with True Cons md show ?thesis by simp
  qed (use Cons md in simp)
qed simp

lemma parse_level_ok: "a_values A \<noteq> [] \<Longrightarrow> \<exists>r. parse_level TC A old D = Inr r"
  using getValue_ok [of A] by (auto simp: parse_level_def Let_def)

lemma parse_memory_ok:
  assumes "args_ok Args"
  shows "\<exists>r. parse_memory K TC Args Added md = Inr r"
proof -
  obtain m D where md: "md = (m, D)" by fastforce
  let ?ids = "[OPT_fsanitize_memory_track_origins_EQ, OPT_fsanitize_memory_track_origins,
    OPT_fno_sanitize_memory_track_origins]"
  have "\<exists>r. parse_level TC A (MsanTrackOrigins m) D = Inr r"
    if "getLastArg Args ?ids = Some A" "a_opt A \<noteq> OPT_fsanitize_memory_track_origins"
      "a_opt A \<noteq> OPT_fno_sanitize_memory_track_origins" for A
    using args_ok_last [OF assms that(1) no_groups(1)] that(2,3)
    by (intro parse_level_ok args_ok_value [OF assms]) auto
  then show ?thesis by (fastforce simp: parse_memory_def md split: option.splits)
qed

lemma parse_padding_ok:
  assumes "args_ok Args"
  shows "\<exists>r. parse_padding TC Args md = Inr r"
proof -
  obtain m D where md: "md = (m, D)" by fastforce
  have "\<exists>r. parse_level TC A (AsanFieldPadding m) D = Inr r"
    if "getLastArg Args [OPT_fsanitize_address_field_padding] = Some A" for A
    using args_ok_last [OF assms that no_groups(2)]
    by (intro parse_level_ok args_ok_value [OF assms]) auto
  then show ?thesis by (fastforce simp: parse_padding_def md split: option.splits)
qed

text \<open>A Windows debug runtime that clashes with AddressSanitizer.\<close>

definition debug_runtime_given :: "ArgList \<Rightarrow> bool" where
  "debug_runtime_given Args \<longleftrightarrow>
     (case getLastArg Args [OPT__SLASH_MTd, OPT__SLASH_MT, OPT__SLASH_MDd, OPT__SLASH_MD,
        OPT__SLASH_LDd, OPT__SLASH_LD] of None \<Rightarrow> False | Some W \<Rightarrow> debug_runtime W)"

lemma check_debug_runtime_ok:
  assumes "table_ok K"
  shows "(\<exists>r. check_debug_runtime K Args md = Inr r) \<longleftrightarrow>
    (debug_runtime_given Args \<longrightarrow> (\<exists>n. bit (SK_Address K) n \<and> provides K n (rev (al_args Args))))"
proof -
  obtain m D where md: "md = (m, D)" by fastforce
  have "(\<exists>a. lastArgumentForMask K Args D (SK_Address K) = Inr a) \<longleftrightarrow>
      (\<exists>n. bit (SK_Address K) n \<and> provides K n (rev (al_args Args)))"
    using last_argument_ok [OF assms] last_argument_found by (fastforce simp: lastArgumentForMask_def)
  then show ?thesis
    by (auto simp: check_debug_runtime_def debug_runtime_given_def md bnd_eq_Inr_iff split: option.splits)
qed

lemma parse_address_ok:
  assumes "table_ok K" and "args_ok Args"
  shows "(\<exists>r. parse_address K TC Args Added md = Inr r) \<longleftrightarrow>
    (Added AND SK_Address K \<noteq> 0 \<longrightarrow> debug_runtime_given Args \<longrightarrow>
      (\<exists>n. bit (SK_Address K) n \<and> provides K n (rev (al_args Args))))"
proof (cases "Added AND SK_Address K = 0")
  case False
  obtain m D where md: "md = (m, D)" by fastforce
  let ?m1 = "(m\<lparr>AsanSharedRuntime := hasArg Args [OPT_shared_libasan] \<or> t_isAndroid (tc_Triple TC),
    NeedPIE := NeedPIE m \<or> t_isAndroid (tc_Triple TC)\<rparr>, D)"
  from parse_padding_ok [OF assms(2)] obtain r1 where r1: "parse_padding TC Args ?m1 = Inr r1" by blast
  have "(\<exists>r. parse_address K TC Args Added md = Inr r) \<longleftrightarrow> (\<exists>r. check_debug_runtime K Args r1 = Inr r)"
    using False r1
    by (cases "getLastArg Args [OPT_fsanitize_address_use_after_scope, OPT_fno_sanitize_address_use_after_scope]")
      (auto simp: parse_address_def md bnd_eq_Inr_iff)
  with check_debug_runtime_ok [OF assms(1), of Args r1] False show ?thesis by simp
qed (simp add: parse_address_def split_def)

lemma fill_object_ok:
  assumes "table_ok K" and "args_ok Args"
  shows "(\<exists>r. fill_object K TC Args s T m0 = Inr r) \<longleftrightarrow>
    (AllAddedKinds s AND SK_Address K \<noteq> 0 \<longrightarrow> debug_runtime_given Args \<longrightarrow>
      (\<exists>n. bit (SK_Address K) n \<and> provides K n (rev (al_args Args))))"
proof -
  obtain R D1 where R: "parse_recover K Args (Kinds s) (Driver s) = (R, D1)" by fastforce
  have "\<forall>A \<in> set (al_args Args). a_opt A = OPT_fsanitize_blacklist \<longrightarrow> a_values A \<noteq> []"
    using assms(2) by (auto simp: args_ok_def)
  from parse_blacklists_ok [OF this] obtain r2 where
    r2: "parse_blacklists TC (al_args Args) (default_blacklist K TC (Kinds s) (m0, D1)) = Inr r2" by blast
  from parse_memory_ok [OF assms(2)] obtain m3 D3 where
    r3: "parse_memory K TC Args (AllAddedKinds s) (validate_blacklists TC r2) = Inr (m3, D3)" by fastforce
  let ?r4 = "parse_address K TC Args (AllAddedKinds s)
    (parse_coverage K TC Args (AllAddedKinds s) (parse_thread_cfi K Args (AllAddedKinds s) m3, D3))"
  have "(\<exists>r. fill_object K TC Args s T m0 = Inr r) \<longleftrightarrow> (\<exists>r. ?r4 = Inr r)"
    by (cases ?r4) (auto simp: fill_object_def R r2 r3 Let_def)
  with parse_address_ok [OF assms] show ?thesis by simp
qed

subsection \<open>Equal results for the triple of the embedded target\<close>

lemma diagnose_Supported:
  "diagnose K A M d (s\<lparr>Supported := X\<rparr>) = bnd (diagnose K A M d s) (\<lambda>s'. Inr (s'\<lparr>Supported := X\<rparr>))"
  by (cases s) (simp add: diagnose_def bnd_assoc)

lemma add_step_forced:
  assumes "t_str (tc_Triple TC) = embed_triple"
  shows "add_step K TC I A (s\<lparr>Supported := S\<rparr>) = add_step K TC I A s"
proof -
  have s1: "(s\<lparr>Supported := S\<rparr>)\<lparr>AllAddedKinds := a, Driver := d\<rparr> =
      (s\<lparr>AllAddedKinds := a, Driver := d\<rparr>)\<lparr>Supported := S\<rparr>" for a d
    by simp
  show ?thesis
    unfolding add_step_def split_def Let_def s1 diagnose_Supported bnd_assoc
    by (simp add: assms)
qed

lemma scan_args_forced:
  assumes "t_str (tc_Triple TC) = embed_triple"
  shows "\<exists>A \<in> set As. a_opt A = OPT_fsanitize_EQ \<Longrightarrow>
    scan_args K TC I As (s\<lparr>Supported := S\<rparr>) = scan_args K TC I As s"
proof (induction As arbitrary: s)
  case (Cons A As)
  have "remove_step K A (s\<lparr>Supported := S\<rparr>) = (remove_step K A s)\<lparr>Supported := S\<rparr>"
    by (cases s) (simp add: remove_step_def split_def Let_def)
  with Cons show ?case by (auto simp: add_step_forced [OF assms])
qed simp

lemma scan_args_keeps_forced:
  assumes "t_str (tc_Triple TC) = embed_triple"
  shows "scan_args K TC I As s = Inr s' \<Longrightarrow> Supported s = 0xffffffffffff \<or> (\<exists>A \<in> set As. a_opt A = OPT_fsanitize_EQ) \<Longrightarrow>
    Supported s' = 0xffffffffffff"
proof (induction As arbitrary: s)
  case (Cons A As)
  show ?case
  proof (cases "a_opt A = OPT_fsanitize_EQ")
    case True
    with Cons.prems obtain s1 where s1: "add_step K TC I A s = Inr s1" "scan_args K TC I As s1 = Inr s'"
      by (auto simp: bnd_eq_Inr_iff)
    from add_step_masks(2) [OF s1(1)] assms have "Supported s1 = 0xffffffffffff" by (simp add: forced_def)
    with Cons.IH [OF s1(2)] show ?thesis by simp
  next
    case False
    have "Supported (remove_step K A s) = Supported s" by (simp add: remove_step_def split_def Let_def)
    with False Cons show ?thesis by (auto split: if_splits)
  qed
qed simp

lemma scan_args_supported:
  assumes "t_str (tc_Triple TC) = embed_triple" and "scan_args K TC I As s = Inr s'"
    and "\<exists>A \<in> set As. a_opt A = OPT_fsanitize_EQ"
  shows "Supported s' = 0xffffffffffff"
  using scan_args_keeps_forced [OF assms(1,2)] assms(3) by blast

lemma forced_bits: "bit (0xffffffffffff :: SanitizerMask) n \<longleftrightarrow> n < 48"
proof -
  have "(0xffffffffffff :: SanitizerMask) = mask 48" by (simp add: mask_eq_exp_minus_1)
  then show ?thesis by (simp only: bit_mask_iff) auto
qed

lemma supported_parameter:
  fixes TC S
  defines "TC' \<equiv> TC\<lparr>tc_SupportedSanitizers := S\<rparr>"
  shows "scan_args K TC' I As s = scan_args K TC I As s" "apply_defaults K TC' = apply_defaults K TC"
    "check_LTO K TC' = check_LTO K TC" "check_cxxabi K TC' = check_cxxabi K TC"
    "fill_object K TC' = fill_object K TC"
proof -
  have fields: "tc_Triple TC' = tc_Triple TC" "tc_RTTIMode TC' = tc_RTTIMode TC" "tc_RTTIArg TC' = tc_RTTIArg TC"
    "tc_DefaultSanitizers TC' = tc_DefaultSanitizers TC" "tc_isUsingLTO TC' = tc_isUsingLTO TC"
    "tc_ResourceDir TC' = tc_ResourceDir TC" "tc_path_append TC' = tc_path_append TC"
    "tc_exists TC' = tc_exists TC" "tc_create TC' = tc_create TC" "tc_CCCIsCXX TC' = tc_CCCIsCXX TC"
    "tc_getAsInteger TC' = tc_getAsInteger TC"
    by (simp_all add: TC'_def)
  have vptr: "check_vptr K TC' = check_vptr K TC"
    by (intro ext) (simp add: check_vptr_def rtti_disabled_def fields)
  have add: "add_step K TC' I = add_step K TC I" for I
    by (intro ext) (simp add: add_step_def vptr fields)
  have "scan_args K TC' I As = scan_args K TC I As"
    by (induction As) (intro ext, simp add: add)+
  then show "scan_args K TC' I As s = scan_args K TC I As s" by simp
  show "apply_defaults K TC' = apply_defaults K TC"
    by (intro ext) (simp add: apply_defaults_def rtti_disabled_def fields)
  show "check_LTO K TC' = check_LTO K TC"
    by (intro ext) (simp add: check_LTO_def fields)
  show "check_cxxabi K TC' = check_cxxabi K TC"
    by (intro ext) (simp add: check_cxxabi_def fields cong: if_cong)
  have level: "parse_level TC' = parse_level TC"
    by (intro ext) (simp add: parse_level_def fields)
  have black: "parse_blacklists TC' As = parse_blacklists TC As" for As
  proof (induction As)
    case (Cons A As)
    show ?case by (rule ext, clarify) (simp add: Cons fields)
  qed (rule ext, simp)
  have legacy: "legacy_value TC' = legacy_value TC"
    by (intro ext, unfold legacy_value_def fields, rule refl)
  have step: "coverage_step K TC' = coverage_step K TC"
    by (intro ext, unfold coverage_step_def legacy, rule refl)
  have parts: "default_blacklist K TC' = default_blacklist K TC" "validate_blacklists TC' = validate_blacklists TC"
    "parse_memory K TC' = parse_memory K TC" "parse_coverage K TC' = parse_coverage K TC"
    "parse_padding TC' = parse_padding TC"
    unfolding default_blacklist_def getDefaultBlacklist_def validate_blacklists_def parse_memory_def
      parse_coverage_def parse_padding_def level step fields by (rule refl)+
  have address: "parse_address K TC' = parse_address K TC"
    by (intro ext, unfold parse_address_def parts fields, rule refl)
  show "fill_object K TC' = fill_object K TC"
    by (intro ext, unfold fill_object_def black parts address fields, rule refl)
qed

lemma forced_choose_kinds:
  assumes "t_str (tc_Triple TC) = embed_triple" and "\<exists>A \<in> set (al_args Args). a_opt A = OPT_fsanitize_EQ"
  shows "choose_kinds K (TC\<lparr>tc_SupportedSanitizers := S\<rparr>) Args D = choose_kinds K TC Args D"
proof -
  have init: "scan_init X D1 = (scan_init Y D1)\<lparr>Supported := X\<rparr>" for X Y D1
    by (simp add: scan_init_def)
  have "scan_args K TC I (rev (al_args Args)) (scan_init X D1) =
      scan_args K TC I (rev (al_args Args)) (scan_init Y D1)" for I X Y D1
    using scan_args_forced [OF assms(1), where As = "rev (al_args Args)" and s = "scan_init Y D1" and S = X]
      assms(2) by (simp add: init [of X D1 Y])
  note scan = this [where X = "setGroupBits K S" and Y = "setGroupBits K (tc_SupportedSanitizers TC)"]
  show ?thesis
    unfolding choose_kinds_def split_def Let_def supported_parameter by (simp add: scan)
qed

subsection \<open>An instance\<close>

text \<open>A table with one group, a Linux tool chain for the triple of the installation script, and command
  lines, to evaluate the constructor on.\<close>

definition demo_kinds :: "(string \<times> SanitizerMask) list" where
  "demo_kinds = [(''address'', 1), (''thread'', 2), (''memory'', 4), (''leak'', 8), (''vptr'', 16),
     (''unreachable'', 32), (''undefined'', 64), (''cfi'', 128)]"

definition demo_sanitizers :: sanitizers where
  "demo_sanitizers = \<lparr>SK_Address = 1, SK_KernelAddress = 0x100, SK_Memory = 4, SK_Thread = 2,
     SK_Leak = 8, SK_Undefined = 48, SK_UndefinedGroup = 64, SK_Integer = 0x200, SK_CFI = 128,
     SK_CFIVCall = 128, SK_CFINVCall = 128, SK_CFIDerivedCast = 128, SK_CFIUnrelatedCast = 128,
     SK_Vptr = 16, SK_DataFlow = 0x400, SK_Unreachable = 32, SK_Return = 0x800,
     SK_UnsignedIntegerOverflow = 0x1000, SK_LocalBounds = 0x2000, SK_Efficiency = 0x4000,
     SK_names = [(''address'', 1), (''thread'', 2)], SK_groups = [(48, 64)],
     parseSanitizerValue = (\<lambda>v. case map_of demo_kinds v of None \<Rightarrow> 0 | Some M \<Rightarrow> M),
     expandSanitizerGroups = (\<lambda>M. if M AND 64 \<noteq> 0 then M OR 48 else M)\<rparr>"

definition demo_triple :: Triple where
  "demo_triple = \<lparr>t_str = embed_triple, t_OS = OS_Linux, t_Environment = Env_GNUEABI,
     t_SubArch = SubArch_other, t_Arch = Arch_arm, t_ArchName = ''arm'', t_Vendor = Vendor_other, t_isOSWindows = False,
     t_isOSLinux = True, t_isOSDarwin = False, t_isOSBinFormatMachO = False, t_isWatchABI = False,
     t_isiOS = False, t_isAndroid = False, t_isNVPTX = False, t_isOSVersionLT6 = False,
     t_isMacOSX = False, t_isOSVersionLT10_12 = False, t_isPS4CPU = False\<rparr>"

definition demo_TC :: ToolChain where
  "demo_TC = \<lparr>tc_SupportedSanitizers = 1, tc_DefaultSanitizers = 0, tc_RTTIMode = RM_EnabledImplicitly,
     tc_RTTIArg = None, tc_Triple = demo_triple, tc_EffectiveTriple = demo_triple, tc_ResourceDir = ''res'', tc_isUsingLTO = False,
     tc_CCCIsCXX = True, tc_path_append = (\<lambda>a b. a @ ''/'' @ b), tc_exists = (\<lambda>_. False),
     tc_create = (\<lambda>_. None), tc_getAsInteger = (\<lambda>_. None), tc_getCompilerRT = (\<lambda>n b. n)\<rparr>"

definition demo_arg :: "nat \<Rightarrow> OptID \<Rightarrow> string list \<Rightarrow> Arg" where
  "demo_arg i opt vs = \<lparr>a_index = i, a_opt = opt, a_values = vs, a_name = [], a_string = [], a_spelling = []\<rparr>"

definition demo_args :: "Arg list \<Rightarrow> ArgList" where
  "demo_args As = \<lparr>al_args = As, getLastArg = (\<lambda>ids. find (\<lambda>A. a_opt A \<in> set ids) (rev As)),
     hasArg = (\<lambda>ids. \<exists>A \<in> set As. a_opt A \<in> set ids), hasFlag = (\<lambda>p n d. d)\<rparr>"

definition demo_object :: sanitizer_args where
  "demo_object = \<lparr>Sanitizers = 0, RecoverableSanitizers = 0, TrapSanitizers = 0, BlacklistFiles = [],
     ExtraDeps = [], CoverageFeatures = 0, MsanTrackOrigins = 0, MsanUseAfterDtor = False,
     CfiCrossDso = False, AsanFieldPadding = 0, AsanSharedRuntime = False, AsanUseAfterScope = False,
     LinkCXXRuntimes = False, NeedPIE = False, Stats = False, TsanMemoryAccess = True,
     TsanFuncEntryExit = True, TsanAtomics = True\<rparr>"

definition demo_line :: ArgList where
  "demo_line = demo_args [demo_arg 0 OPT_fsanitize_EQ [''address'', ''thread'']]"

lemmas demo_defs = demo_kinds_def demo_sanitizers_def demo_triple_def demo_TC_def demo_arg_def
  demo_args_def demo_object_def demo_line_def embed_triple_def

lemmas constructor_defs = SanitizerArgs_new_def choose_kinds_def parseSanitizeTrapArgs_def trap_step_def
  setGroupBits_def scan_init_def add_step_def parseArgValues_def value_kind_def Diag_def Diag_if_def claim_def
  diagnose_def describeSanitizeArg_def comma_def check_vptr_def apply_defaults_def check_LTO_def
  check_cxxabi_def IncompatibleGroups_def lastArgumentForMask_def NotAllowedWithTrap_def
  TrappingDefault_def TrappingSupported_def NeedsLTO_def NeedsUbsanCxxRt_def rtti_disabled_def

lemmas fill_defs = fill_object_def parse_recover_def recover_step_def RecoverableByDefault_def
  default_blacklist_def getDefaultBlacklist_def validate_blacklists_def parse_memory_def parse_thread_cfi_def
  parse_coverage_def coverage_step_def coverage_checks_def parse_address_def parse_padding_def
  check_debug_runtime_def Unrecoverable_def

lemma demo_run:
  "\<exists>m D'. SanitizerArgs_new demo_sanitizers demo_TC demo_line demo_object \<lparr>diags = [], claimed = []\<rparr> =
    Inr (m, D') \<and> Sanitizers m = 1"
  by (simp add: constructor_defs fill_defs demo_defs Let_def)

lemma and_64: "M AND 64 \<noteq> 0 \<longleftrightarrow> bit M 6" for M :: SanitizerMask
proof -
  have "(64 :: SanitizerMask) = 2 ^ 6" by simp
  then have "bit (64 :: SanitizerMask) n \<longleftrightarrow> n = 6" for n
    by (simp only: bit_exp_iff) auto
  then show ?thesis by (auto simp: and_eq_0_iff)
qed

lemma demo_expand: "expandSanitizerGroups demo_sanitizers M = (if bit M 6 then M OR 48 else M)"
  by (simp add: demo_sanitizers_def and_64)

lemma demo_table_ok: "table_ok demo_sanitizers"
proof -
  have "parseSanitizerValue demo_sanitizers [] = 0" by (simp add: demo_sanitizers_def demo_kinds_def)
  then show ?thesis
    by (simp add: table_ok_def demo_expand bit_simps or.assoc or.left_commute or.commute)
qed

subsection \<open>Properties\<close>

text \<open>
  C33: The object never has two sanitizers of incompatible groups: of each pair the constructor
  reports it keeps the first, whatever the command line and the table of sanitizers.
\<close>

theorem incompatible_never_together:
  assumes "SanitizerArgs_new K TC Args m0 D = Inr (m, D')" and "masks m0 = (0, 0, 0)"
  shows "\<forall>(G, H) \<in> set (IncompatibleGroups K). \<not> (has (Sanitizers m) G \<and> has (Sanitizers m) H)"
proof -
  from SanitizerArgs_new_decompose [OF assms] obtain s T where
    s: "choose_kinds K TC Args D = Inr (s, T)" "Sanitizers m = Kinds s" by metis
  then have "\<forall>p \<in> set (IncompatibleGroups K). compatible (Sanitizers m) p"
    by (metis choose_kinds_decompose)
  then show ?thesis by (auto simp: compatible_def has_def)
qed

theorem incompatible_never_together_witness:
  "\<exists>m D'. SanitizerArgs_new demo_sanitizers demo_TC demo_line demo_object \<lparr>diags = [], claimed = []\<rparr> =
      Inr (m, D') \<and> Sanitizers m = 1 \<and> \<not> (has (Sanitizers m) 1 \<and> has (Sanitizers m) 2)"
proof -
  from demo_run obtain m D' where run: "SanitizerArgs_new demo_sanitizers demo_TC demo_line demo_object
      \<lparr>diags = [], claimed = []\<rparr> = Inr (m, D')" and m: "Sanitizers m = 1" by blast
  have "masks demo_object = (0, 0, 0)" by (simp add: demo_object_def)
  from incompatible_never_together [OF run this] have
    "\<forall>(G, H) \<in> set (IncompatibleGroups demo_sanitizers). \<not> (has (Sanitizers m) G \<and> has (Sanitizers m) H)" .
  moreover have "(1, 2) \<in> set (IncompatibleGroups demo_sanitizers)"
    by (simp add: IncompatibleGroups_def demo_sanitizers_def)
  ultimately have "\<not> (has (Sanitizers m) 1 \<and> has (Sanitizers m) 2)" by blast
  with run m show ?thesis by blast
qed

text \<open>
  C34: The constructor returns on every command line whose options have their values but one kind: a Windows
  debug runtime, an \<open>-fsanitize=address\<close>, and a later \<open>-fno-sanitize=address\<close> that leaves no argument to blame;
  then it runs into \<open>llvm_unreachable\<close>. It relies on the option parser, on \<open>expandSanitizerGroups\<close>, on an
  argument for \<open>-fno-rtti\<close>, and on defaults that cannot clash. Other options, \<open>-O2\<close> and \<open>-g\<close> among them, may be
  present: nothing is asked of lookups by groups.
\<close>

theorem constructor_returns:
  assumes "table_ok K" and "args_ok Args" and "rtti_ok TC" and "tc_DefaultSanitizers TC AND blamed K = 0"
  shows "(\<exists>r. SanitizerArgs_new K TC Args m0 D = Inr r) \<longleftrightarrow>
    \<not> (debug_runtime_given Args \<and>
       (\<exists>A \<in> set (al_args Args). a_opt A = OPT_fsanitize_EQ \<and> (\<exists>n. names K A n \<and> bit (SK_Address K) n)) \<and>
       \<not> (\<exists>n. bit (SK_Address K) n \<and> provides K n (rev (al_args Args))))"
proof -
  from choose_kinds_ok [OF assms(1,3,4)] obtain s T where
    s: "choose_kinds K TC Args D = Inr (s, T)" by fastforce
  have "AllAddedKinds s AND SK_Address K \<noteq> 0 \<longleftrightarrow>
      (\<exists>A \<in> set (al_args Args). a_opt A = OPT_fsanitize_EQ \<and> (\<exists>n. names K A n \<and> bit (SK_Address K) n))"
    using choose_kinds_added [OF s] by (auto simp: bits_simps)
  with fill_object_ok [OF assms(1,2), of TC s T m0] show ?thesis
    by (auto simp: SanitizerArgs_new_def s)
qed

definition demo_removed :: ArgList where
  "demo_removed = demo_args [demo_arg 0 OPT_fsanitize_EQ [''address''], demo_arg 1 OPT__SLASH_MTd [],
     demo_arg 2 OPT_fno_sanitize_EQ [''address'']]"

lemma demo_removed_ok: "args_ok demo_removed"
  by (auto simp: args_ok_def demo_removed_def demo_args_def demo_arg_def find_Some_iff split: if_splits)

lemma demo_rtti_ok: "rtti_ok demo_TC"
  by (simp add: rtti_ok_def demo_TC_def)

theorem constructor_returns_witness:
  "\<not> (\<exists>r. SanitizerArgs_new demo_sanitizers demo_TC demo_removed demo_object \<lparr>diags = [], claimed = []\<rparr> = Inr r)"
proof -
  have "tc_DefaultSanitizers demo_TC AND blamed demo_sanitizers = 0" by (simp add: demo_TC_def)
  note iff = constructor_returns [OF demo_table_ok demo_removed_ok demo_rtti_ok this, of demo_object
    "\<lparr>diags = [], claimed = []\<rparr>"]
  have mask: "arg_mask demo_sanitizers (demo_arg i opt [''address'']) = 1" for i opt
    by (simp add: arg_mask_def value_kind_def demo_arg_def demo_sanitizers_def demo_kinds_def)
  have named: "names demo_sanitizers (demo_arg i opt [''address'']) n \<longleftrightarrow> n = 0" for i opt n
    by (simp add: names_def mask demo_expand bit_1_iff)
  have address: "bit (SK_Address demo_sanitizers) n \<longleftrightarrow> n = 0" for n
    by (simp add: demo_sanitizers_def bit_1_iff)
  have args: "al_args demo_removed = [demo_arg 0 OPT_fsanitize_EQ [''address''],
      demo_arg 1 OPT__SLASH_MTd [], demo_arg 2 OPT_fno_sanitize_EQ [''address'']]"
    by (simp add: demo_removed_def demo_args_def)
  have opt: "a_opt (demo_arg i opt vs) = opt" for i opt vs by (simp add: demo_arg_def)
  have "debug_runtime_given demo_removed"
    by (simp add: debug_runtime_given_def demo_removed_def demo_args_def demo_arg_def debug_runtime_def)
  then show ?thesis unfolding iff by (simp add: args address named opt)
qed

text \<open>
  C35: For the triple \<open>arm-none-linux-gnueabi\<close> the set of sanitizers the tool chain supports has no
  influence on the object. With any \<open>-fsanitize=\<close> argument each of the 48 lowest kinds counts as supported, not
  only ThreadSanitizer: the loop enables such a kind exactly when the last flag that names it does, although the
  tool chain may support none (vptr apart, which \<open>-fno-rtti\<close> and \<open>-fsanitize-trap=\<close> can exclude).
\<close>

theorem embedded_triple_forces_all:
  assumes "t_str (tc_Triple TC) = embed_triple"
    and "\<exists>A \<in> set (al_args Args). a_opt A = OPT_fsanitize_EQ"
    and "table_ok K" and "rtti_ok TC" and "\<forall>i. bit I i \<longrightarrow> bit (SK_Vptr K) i"
  shows "SanitizerArgs_new K (TC\<lparr>tc_SupportedSanitizers := S\<rparr>) Args m0 D = SanitizerArgs_new K TC Args m0 D \<and>
    (\<exists>s. scan_args K TC I (rev (al_args Args)) (scan_init S D) = Inr s \<and> Supported s = 0xffffffffffff \<and>
      (\<forall>n < 48. (\<forall>g. gives K g n \<longrightarrow> g < 48) \<and> \<not> bit (expandSanitizerGroups K (SK_Vptr K)) n \<longrightarrow>
        (bit (Kinds s) n \<longleftrightarrow> provides K n (rev (al_args Args)))))"
proof (intro conjI)
  show "SanitizerArgs_new K (TC\<lparr>tc_SupportedSanitizers := S\<rparr>) Args m0 D = SanitizerArgs_new K TC Args m0 D"
    by (simp add: SanitizerArgs_new_def forced_choose_kinds [OF assms(1,2)] supported_parameter(5))
  from scan_args_ok [OF assms(3,4)] obtain s where
    s: "scan_args K TC I (rev (al_args Args)) (scan_init S D) = Inr s" by blast
  have "Supported s = 0xffffffffffff"
    using scan_args_supported [OF assms(1) s] assms(2) by simp
  moreover have "bit (Kinds s) n \<longleftrightarrow> provides K n (rev (al_args Args))"
    if "n < 48" "\<forall>g. gives K g n \<longrightarrow> g < 48" "\<not> bit (expandSanitizerGroups K (SK_Vptr K)) n" for n
  proof -
    have "forced TC S = 0xffffffffffff" using assms(1) by (simp add: forced_def)
    then have "plain_kind K TC S n" unfolding plain_kind_def using that by (simp only: forced_bits) simp
    with scan_provides [OF assms(3) s] scan_args_enables [OF assms(3,5) s, of n] show ?thesis
      by (auto simp: scan_init_def)
  qed
  ultimately show "\<exists>s. scan_args K TC I (rev (al_args Args)) (scan_init S D) = Inr s \<and> Supported s = 0xffffffffffff \<and>
      (\<forall>n < 48. (\<forall>g. gives K g n \<longrightarrow> g < 48) \<and> \<not> bit (expandSanitizerGroups K (SK_Vptr K)) n \<longrightarrow>
        (bit (Kinds s) n \<longleftrightarrow> provides K n (rev (al_args Args))))"
    using s by blast
qed

text \<open>No sanitizer is supported by the tool chain, \<open>-fsanitize=\<close> enables the first one.\<close>

theorem embedded_triple_forces_all_witness:
  "SanitizerArgs_new demo_sanitizers (demo_TC\<lparr>tc_SupportedSanitizers := 0\<rparr>) demo_line demo_object \<lparr>diags = [], claimed = []\<rparr> =
     SanitizerArgs_new demo_sanitizers demo_TC demo_line demo_object \<lparr>diags = [], claimed = []\<rparr> \<and>
   (\<exists>s. scan_args demo_sanitizers demo_TC 0 (rev (al_args demo_line)) (scan_init 0 \<lparr>diags = [], claimed = []\<rparr>) = Inr s \<and>
      Supported s = 0xffffffffffff \<and> bit (Kinds s) 0)"
proof -
  have gives: "gives demo_sanitizers g 0 \<longleftrightarrow> g = 0" for g
    by (auto simp: gives_def demo_expand bit_simps split: if_splits)
  have vptr: "\<not> bit (expandSanitizerGroups demo_sanitizers (SK_Vptr demo_sanitizers)) 0"
    by (simp add: demo_expand) (simp add: demo_sanitizers_def)
  have provided: "provides demo_sanitizers 0 (rev (al_args demo_line))" 
  proof -
    have "arg_mask demo_sanitizers (demo_arg 0 OPT_fsanitize_EQ [''address'', ''thread'']) = 3"
      by (simp add: arg_mask_def value_kind_def demo_arg_def demo_sanitizers_def demo_kinds_def)
    then have "names demo_sanitizers (demo_arg 0 OPT_fsanitize_EQ [''address'', ''thread'']) 0"
      by (simp add: names_def demo_expand bit_simps)
    then show ?thesis by (simp add: demo_line_def demo_args_def demo_arg_def)
  qed
  have "t_str (tc_Triple demo_TC) = embed_triple" "\<exists>A \<in> set (al_args demo_line). a_opt A = OPT_fsanitize_EQ"
    by (simp_all add: demo_defs)
  from embedded_triple_forces_all [OF this demo_table_ok demo_rtti_ok, of 0 0 demo_object "\<lparr>diags = [], claimed = []\<rparr>"]
  show ?thesis using gives vptr provided by auto
qed

text \<open>
  C36: In the object recoverable and trapping sanitizers are enabled ones, unrecoverable ones are not
  recoverable, vptr is off without RTTI, and unless vptr is a default it does not trap.
\<close>

theorem masks_consistent:
  assumes "SanitizerArgs_new K TC Args m0 D = Inr (m, D')" and "masks m0 = (0, 0, 0)"
  shows "RecoverableSanitizers m AND NOT (Sanitizers m) = 0 \<and> TrapSanitizers m AND NOT (Sanitizers m) = 0 \<and>
    RecoverableSanitizers m AND Unrecoverable K = 0 \<and>
    (rtti_disabled TC \<longrightarrow> Sanitizers m AND SK_Vptr K = 0) \<and>
    (tc_DefaultSanitizers TC AND SK_Vptr K = 0 \<longrightarrow> TrapSanitizers m AND SK_Vptr K = 0)"
proof -
  from SanitizerArgs_new_decompose [OF assms] obtain s T where
    c: "choose_kinds K TC Args D = Inr (s, T)" and m: "Sanitizers m = Kinds s"
      "RecoverableSanitizers m = fst (parse_recover K Args (Kinds s) (Driver s))" "TrapSanitizers m = T AND Kinds s"
    by metis
  from choose_kinds_decompose [OF c] obtain s1 I S D1 where
    s1: "scan_args K TC I (rev (al_args Args)) (scan_init S D1) = Inr s1" and I: "I = T AND SK_Vptr K"
    and sub: "\<forall>n. bit (Kinds s) n \<longrightarrow> bit (Kinds (apply_defaults K TC s1)) n"
    by (metis NotAllowedWithTrap_def)
  have "RecoverableSanitizers m AND NOT (Kinds s) = 0 \<and> RecoverableSanitizers m AND Unrecoverable K = 0"
    by (auto simp: m(2) parse_recover_def split_def Let_def bits_simps)
  moreover have "rtti_disabled TC \<longrightarrow> Kinds s AND SK_Vptr K = 0"
    using sub by (fastforce simp: apply_defaults_def Let_def bits_simps split: if_splits)
  moreover have "TrapSanitizers m AND SK_Vptr K = 0" if "tc_DefaultSanitizers TC AND SK_Vptr K = 0"
  proof -
    have "Kinds s1 AND I = 0" using scan_args_invalid [OF s1] by (simp add: scan_init_def)
    with that sub apply_defaults_kinds [of K TC s1] show ?thesis by (auto simp: m(3) I bits_simps)
  qed
  moreover have "TrapSanitizers m AND NOT (Kinds s) = 0" by (auto simp: m(3) bits_simps)
  ultimately show ?thesis by (simp add: m(1))
qed

theorem masks_consistent_witness:
  "\<exists>m D'. SanitizerArgs_new demo_sanitizers demo_TC demo_line demo_object \<lparr>diags = [], claimed = []\<rparr> =
    Inr (m, D') \<and> TrapSanitizers m AND NOT (Sanitizers m) = 0"
proof -
  from demo_run obtain m D' where run: "SanitizerArgs_new demo_sanitizers demo_TC demo_line demo_object
      \<lparr>diags = [], claimed = []\<rparr> = Inr (m, D')" by blast
  have "masks demo_object = (0, 0, 0)" by (simp add: demo_object_def)
  from masks_consistent [OF run this] run show ?thesis by blast
qed

text \<open>
  C37: The last flag wins: the loop enables a supported sanitizer other than vptr if and only if some
  \<open>-fsanitize=\<close> names it, directly or through a group, and no later \<open>-fno-sanitize=\<close> does.
\<close>

theorem last_flag_wins:
  assumes "table_ok K" and "rtti_ok TC" and "\<forall>i. bit I i \<longrightarrow> bit (SK_Vptr K) i" and "plain_kind K TC S n"
  shows "\<exists>s. scan_args K TC I (rev (al_args Args)) (scan_init S D) = Inr s \<and>
    (bit (Kinds s) n \<longleftrightarrow> provides K n (rev (al_args Args)))"
proof -
  from scan_args_ok [OF assms(1,2)] obtain s where
    s: "scan_args K TC I (rev (al_args Args)) (scan_init S D) = Inr s" by blast
  with scan_provides [OF assms(1) s] scan_args_enables [OF assms(1,3) s, of n] assms(4)
  show ?thesis by (auto simp: scan_init_def)
qed

theorem last_flag_wins_witness:
  "\<exists>s. scan_args demo_sanitizers demo_TC 0 (rev (al_args demo_removed)) (scan_init 1 \<lparr>diags = [], claimed = []\<rparr>) = Inr s \<and>
    (bit (Kinds s) 0 \<longleftrightarrow> provides demo_sanitizers 0 (rev (al_args demo_removed)))"
proof (rule last_flag_wins [OF demo_table_ok demo_rtti_ok])
  have gives: "gives demo_sanitizers g 0 \<longleftrightarrow> g = 0" for g
    by (auto simp: gives_def demo_expand bit_simps split: if_splits)
  have "bit (0xffffffffffff :: SanitizerMask) 0" by simp
  moreover have "\<not> bit (expandSanitizerGroups demo_sanitizers (SK_Vptr demo_sanitizers)) 0"
    by (simp add: demo_expand) (simp add: demo_sanitizers_def)
  ultimately show "plain_kind demo_sanitizers demo_TC 1 0"
    by (simp add: plain_kind_def forced_def demo_TC_def demo_triple_def gives)
qed simp

end
