(* ===== verification/SanitizerRuntimes.thy ===== *)
theory SanitizerRuntimes
  imports SanitizerFacts
begin

unbundle bit_operations_syntax

text \<open>
  Linking the runtimes of the sanitizers (\<open>Tools.cpp\<close>, from \<open>addClangRT\<close> to \<open>linkXRayRuntimeDeps\<close>).
  The questions to \<open>SanitizerArgs\<close> that its header answers inline (\<open>needsAsanRt\<close> and so on) are the
  fields of \<open>needs\<close>; \<open>linkCXXRuntimes\<close> and \<open>hasCrossDsoCfi\<close> there are read off the object. A string list is the command line of the linker.
\<close>

subsection \<open>The runtimes\<close>

record needs =
  needsAsanRt :: bool
  needsSharedAsanRt :: bool
  needsTsanRt :: bool
  needsMsanRt :: bool
  needsLsanRt :: bool
  needsDfsanRt :: bool
  needsSafeStackRt :: bool
  needsStatsRt :: bool
  needsEsanRt :: bool

record runtimes =
  SharedRuntimes :: "string list"
  StaticRuntimes :: "string list"
  NonWholeStaticRuntimes :: "string list"
  HelperStaticRuntimes :: "string list"
  RequiredSymbols :: "string list"

definition runtimes_init :: runtimes where
  "runtimes_init = \<lparr>SharedRuntimes = [], StaticRuntimes = [], NonWholeStaticRuntimes = [],
     HelperStaticRuntimes = [], RequiredSymbols = []\<rparr>"

definition static_when :: "bool \<Rightarrow> string list \<Rightarrow> runtimes \<Rightarrow> runtimes" where
  "static_when b RTs r = (if b then r\<lparr>StaticRuntimes := StaticRuntimes r @ RTs\<rparr> else r)"

text \<open>A static runtime, with its C++ part where the object asks for it.\<close>

definition with_cxx :: "sanitizer_args \<Rightarrow> string \<Rightarrow> string \<Rightarrow> string list" where
  "with_cxx m name cxx = name # (if LinkCXXRuntimes m then [cxx] else [])"

definition asan_runtimes :: "needs \<Rightarrow> sanitizer_args \<Rightarrow> runtimes \<Rightarrow> runtimes" where
  "asan_runtimes w m r =
     (if needsAsanRt w then
        if needsSharedAsanRt w then r\<lparr>HelperStaticRuntimes := HelperStaticRuntimes r @ [''asan-preinit'']\<rparr>
        else static_when True (with_cxx m ''asan'' ''asan_cxx'') r
      else r)"

definition stats_runtimes :: "needs \<Rightarrow> runtimes \<Rightarrow> runtimes" where
  "stats_runtimes w r =
     (if needsStatsRt w
      then r\<lparr>NonWholeStaticRuntimes := NonWholeStaticRuntimes r @ [''stats''],
             RequiredSymbols := RequiredSymbols r @ [''__sanitizer_stats_register'']\<rparr>
      else r)"

definition collectSanitizerRuntimes :: "sanitizers \<Rightarrow> ToolChain \<Rightarrow> ArgList \<Rightarrow> needs \<Rightarrow> sanitizer_args \<Rightarrow> runtimes" where
  "collectSanitizerRuntimes K TC Args w m =
     (let r0 = (if needsAsanRt w \<and> needsSharedAsanRt w
            then runtimes_init\<lparr>SharedRuntimes := [''asan'']\<rparr> else runtimes_init);
          r1 = static_when (needsStatsRt w) [''stats_client''] r0
      in if hasArg Args [Tool OPT_shared] \<or> t_isAndroid (tc_Triple TC) then r1
         else
           let r2 = asan_runtimes w m r1;
               r3 = static_when (needsDfsanRt w) [''dfsan''] r2;
               r4 = static_when (needsLsanRt w) [''lsan''] r3;
               r5 = static_when (needsMsanRt w) (with_cxx m ''msan'' ''msan_cxx'') r4;
               r6 = static_when (needsTsanRt w \<or> t_str (tc_Triple TC) = embed_triple)
                 (with_cxx m ''tsan'' ''tsan_cxx'') r5;
               r7 = static_when (needsUbsanRt K m) (with_cxx m ''ubsan_standalone'' ''ubsan_standalone_cxx'') r6;
               r8 = static_when (needsSafeStackRt w) [''safestack''] r7;
               r9 = static_when (needsCfiRt K m) [''cfi''] r8;
               r10 = static_when (needsCfiDiagRt K m) (with_cxx m ''cfi_diag'' ''ubsan_standalone_cxx'') r9;
               r11 = stats_runtimes w r10
           in static_when (needsEsanRt w) [''esan''] r11)"

subsection \<open>The linker's arguments\<close>

definition addClangRT :: "ToolChain \<Rightarrow> string list \<Rightarrow> string list" where
  "addClangRT TC CmdArgs = CmdArgs @ [tc_getCompilerRT TC ''builtins'' False]"

definition addSanitizerRuntime :: "ToolChain \<Rightarrow> string \<Rightarrow> bool \<Rightarrow> bool \<Rightarrow> string list \<Rightarrow> string list" where
  "addSanitizerRuntime TC Sanitizer IsShared IsWhole CmdArgs =
     CmdArgs @ when_flag IsWhole [''-whole-archive''] @ [tc_getCompilerRT TC Sanitizer IsShared] @
       when_flag IsWhole [''-no-whole-archive'']"

definition addSanitizerDynamicList :: "ToolChain \<Rightarrow> string \<Rightarrow> string list \<Rightarrow> bool \<times> string list" where
  "addSanitizerDynamicList TC Sanitizer CmdArgs =
     (let SanRT = tc_getCompilerRT TC Sanitizer False @ ''.syms''
      in if tc_exists TC SanRT then (True, CmdArgs @ [''--dynamic-list='' @ SanRT]) else (False, CmdArgs))"

text \<open>The loops over static runtimes, whole archives or not, with \<open>AddExportDynamic\<close>.\<close>

fun add_static :: "ToolChain \<Rightarrow> bool \<Rightarrow> string list \<Rightarrow> bool \<times> string list \<Rightarrow> bool \<times> string list" where
  "add_static TC IsWhole [] r = r"
| "add_static TC IsWhole (RT # RTs) (AddExportDynamic, CmdArgs) =
     (let (found, CmdArgs') = addSanitizerDynamicList TC RT (addSanitizerRuntime TC RT False IsWhole CmdArgs)
      in add_static TC IsWhole RTs (AddExportDynamic \<or> \<not> found, CmdArgs'))"

definition addSanitizerRuntimes ::
    "sanitizers \<Rightarrow> ToolChain \<Rightarrow> ArgList \<Rightarrow> needs \<Rightarrow> sanitizer_args \<Rightarrow> string list \<Rightarrow> bool \<times> string list" where
  "addSanitizerRuntimes K TC Args w m CmdArgs0 =
     (let r = collectSanitizerRuntimes K TC Args w m;
          c1 = fold (\<lambda>RT. addSanitizerRuntime TC RT True False) (SharedRuntimes r) CmdArgs0;
          c2 = fold (\<lambda>RT. addSanitizerRuntime TC RT False True) (HelperStaticRuntimes r) c1;
          (AddExportDynamic, c3) = add_static TC False (NonWholeStaticRuntimes r)
            (add_static TC True (StaticRuntimes r) (False, c2));
          c4 = fold (\<lambda>S c. c @ [''-u'', S]) (RequiredSymbols r) c3;
          c5 = c4 @ when_flag AddExportDynamic [''-export-dynamic'']
      in (StaticRuntimes r \<noteq> [],
          c5 @ when_flag (CfiCrossDso m \<and> \<not> AddExportDynamic) [''-export-dynamic-symbol=__cfi_check'']))"

definition linkSanitizerRuntimeDeps :: "ToolChain \<Rightarrow> string list \<Rightarrow> string list" where
  "linkSanitizerRuntimeDeps TC CmdArgs =
     CmdArgs @ [''--no-as-needed''] @
     when_flag (t_OS (tc_Triple TC) \<noteq> OS_RTEMS) [''-lpthread'', ''-lrt''] @ [''-lm''] @
     when_flag (t_OS (tc_Triple TC) \<noteq> OS_FreeBSD \<and> t_OS (tc_Triple TC) \<noteq> OS_RTEMS) [''-ldl'']"

definition addXRayRuntime :: "ToolChain \<Rightarrow> ArgList \<Rightarrow> string list \<Rightarrow> bool \<times> string list" where
  "addXRayRuntime TC Args CmdArgs =
     (if hasFlag Args (Tool OPT_fxray_instrument) (Tool OPT_fnoxray_instrument) False
      then (True, CmdArgs @ [''-whole-archive'', tc_getCompilerRT TC ''xray'' False, ''-no-whole-archive''])
      else (False, CmdArgs))"

text \<open>\<open>Libcxx\<close> tells whether \<open>GetCXXStdlibType\<close> is \<open>CST_Libcxx\<close>.\<close>

definition linkXRayRuntimeDeps :: "ToolChain \<Rightarrow> bool \<Rightarrow> string list \<Rightarrow> string list" where
  "linkXRayRuntimeDeps TC Libcxx CmdArgs =
     CmdArgs @ [''--no-as-needed'', ''-lpthread'', ''-lrt'', ''-lm'', ''-latomic'',
       if Libcxx then ''-lc++'' else ''-lstdc++''] @
     when_flag (t_OS (tc_Triple TC) \<noteq> OS_FreeBSD) [''-ldl'']"

subsection \<open>What is linked\<close>

text \<open>\<open>linked RT CmdArgs\<close>: the command line has the runtime as a whole archive.\<close>

definition linked :: "ToolChain \<Rightarrow> string \<Rightarrow> string list \<Rightarrow> bool" where
  "linked TC RT CmdArgs \<longleftrightarrow> (\<exists>pre post.
     CmdArgs = pre @ [''-whole-archive'', tc_getCompilerRT TC RT False, ''-no-whole-archive''] @ post)"

lemma linked_append: "linked TC RT c \<Longrightarrow> linked TC RT (c @ d)"
  unfolding linked_def by (metis append.assoc)

lemma linked_added: "linked TC RT (addSanitizerRuntime TC RT False True c)"
  unfolding linked_def addSanitizerRuntime_def when_flag_def
  by (rule exI [of _ c], rule exI [of _ "[]"]) simp

lemma addSanitizerRuntime_extends: "\<exists>d. addSanitizerRuntime TC RT a b c = c @ d"
  by (simp add: addSanitizerRuntime_def)

lemma addSanitizerDynamicList_extends: "\<exists>d. snd (addSanitizerDynamicList TC RT c) = c @ d"
  by (simp add: addSanitizerDynamicList_def Let_def)

lemma add_static_extends: "\<exists>d. snd (add_static TC w RTs r) = snd r @ d"
proof (induction RTs arbitrary: r)
  case (Cons RT RTs)
  obtain x c where r: "r = (x, c)" by fastforce
  let ?c = "addSanitizerRuntime TC RT False w c"
  obtain d1 d2 where "?c = c @ d1" "snd (addSanitizerDynamicList TC RT ?c) = ?c @ d2"
    using addSanitizerRuntime_extends [of TC RT False w c] addSanitizerDynamicList_extends [of TC RT ?c]
    by blast
  moreover obtain d3 where "snd (add_static TC w (RT # RTs) r) = snd (addSanitizerDynamicList TC RT ?c) @ d3"
    using Cons [of "(x \<or> \<not> fst (addSanitizerDynamicList TC RT ?c), snd (addSanitizerDynamicList TC RT ?c))"]
    by (auto simp: r split_def Let_def)
  ultimately show ?case by (simp add: r)
qed simp

lemma add_static_linked: "RT \<in> set RTs \<Longrightarrow> linked TC RT (snd (add_static TC True RTs r))"
proof (induction RTs arbitrary: r)
  case (Cons RT' RTs)
  obtain x c where r: "r = (x, c)" by fastforce
  let ?c = "addSanitizerRuntime TC RT' False True c"
  let ?l = "addSanitizerDynamicList TC RT' ?c"
  have step: "snd (add_static TC True (RT' # RTs) r) = snd (add_static TC True RTs (x \<or> \<not> fst ?l, snd ?l))"
    by (simp add: r split_def Let_def)
  show ?case
  proof (cases "RT \<in> set RTs")
    case True
    with Cons.IH show ?thesis by (simp only: step)
  next
    case False
    with Cons.prems have "linked TC RT (snd ?l)"
      using linked_added addSanitizerDynamicList_extends [of TC RT' ?c] linked_append by (metis set_ConsD)
    with add_static_extends [of TC True RTs "(x \<or> \<not> fst ?l, snd ?l)"] linked_append show ?thesis
      by (metis step snd_conv)
  qed
qed simp

lemma fold_symbols_extends: "\<exists>d. fold (\<lambda>S c. c @ [''-u'', S]) Ss c = c @ d"
  by (induction Ss arbitrary: c) (auto, metis append.assoc)

lemma static_runtimes_linked:
  assumes "RT \<in> set (StaticRuntimes (collectSanitizerRuntimes K TC Args w m))"
  shows "linked TC RT (snd (addSanitizerRuntimes K TC Args w m CmdArgs))"
proof -
  let ?r = "collectSanitizerRuntimes K TC Args w m"
  define c2 where "c2 = fold (\<lambda>RT. addSanitizerRuntime TC RT False True) (HelperStaticRuntimes ?r)
    (fold (\<lambda>RT. addSanitizerRuntime TC RT True False) (SharedRuntimes ?r) CmdArgs)"
  let ?s = "add_static TC True (StaticRuntimes ?r) (False, c2)"
  have "linked TC RT (snd ?s)" using assms by (rule add_static_linked)
  moreover obtain d where "snd (add_static TC False (NonWholeStaticRuntimes ?r) ?s) = snd ?s @ d"
    using add_static_extends by blast
  moreover obtain e where "fold (\<lambda>S c. c @ [''-u'', S]) (RequiredSymbols ?r) (snd ?s @ d) = (snd ?s @ d) @ e"
    using fold_symbols_extends by blast
  ultimately show ?thesis
    by (auto simp: addSanitizerRuntimes_def split_def Let_def c2_def [symmetric] intro!: linked_append)
qed

lemma static_when_set:
  "set (StaticRuntimes (static_when b RTs r)) = set (StaticRuntimes r) \<union> (if b then set RTs else {})"
  by (simp add: static_when_def)

lemma tsan_collected:
  "''tsan'' \<in> set (StaticRuntimes (collectSanitizerRuntimes K TC Args w m)) \<longleftrightarrow>
    \<not> hasArg Args [Tool OPT_shared] \<and> \<not> t_isAndroid (tc_Triple TC) \<and>
    (needsTsanRt w \<or> t_str (tc_Triple TC) = embed_triple)"
  by (simp add: collectSanitizerRuntimes_def Let_def static_when_set stats_runtimes_def asan_runtimes_def
      with_cxx_def runtimes_init_def)

text \<open>
  Every static runtime that is collected is linked as a whole archive. The runtime of the race
  detector is one of them, for executables, if and only if ThreadSanitizer needs it or the triple is
  \<open>arm-none-linux-gnueabi\<close>: there it is linked into every program, with or without \<open>-fsanitize=thread\<close>,
  and beside the runtime of AddressSanitizer.
\<close>

lemma race_detector_linked:
  "(\<forall>RT \<in> set (StaticRuntimes (collectSanitizerRuntimes K TC Args w m)).
      linked TC RT (snd (addSanitizerRuntimes K TC Args w m CmdArgs))) \<and>
   (''tsan'' \<in> set (StaticRuntimes (collectSanitizerRuntimes K TC Args w m)) \<longleftrightarrow>
      \<not> hasArg Args [Tool OPT_shared] \<and> \<not> t_isAndroid (tc_Triple TC) \<and>
      (needsTsanRt w \<or> t_str (tc_Triple TC) = embed_triple))"
  using static_runtimes_linked tsan_collected by blast

definition no_needs :: needs where
  "no_needs = \<lparr>needsAsanRt = False, needsSharedAsanRt = False, needsTsanRt = False, needsMsanRt = False,
     needsLsanRt = False, needsDfsanRt = False, needsSafeStackRt = False, needsStatsRt = False,
     needsEsanRt = False\<rparr>"

end
