(* ===== verification/ArmTools.thy ===== *)
theory ArmTools
  imports DriverArgs
begin

text \<open>
  The target of the embedded triple: the ARM part of \<open>Tools.cpp\<close> (architecture, CPU, float ABI,
  subtarget features, arguments for the compiler) and the choice of frame pointers. The parsers of
  LLVM's \<open>ARM\<close> namespace and the queries of the host are fields of \<open>arm_parser\<close>. Functions that append to
  the vector \<open>Features\<close> and may diagnose map a pair of both to a pair of both.
\<close>

subsection \<open>Strings\<close>

text \<open>\<open>StringRef::lower\<close>, \<open>split("+")\<close> into the parts around the first plus, \<open>split\<close> into all non-empty
  parts, and \<open>startswith\<close> with \<open>substr\<close> of what follows.\<close>

definition lower :: "string \<Rightarrow> string" where
  "lower = map (\<lambda>c. if 65 \<le> (of_char c :: nat) \<and> (of_char c :: nat) \<le> 90 then char_of ((of_char c :: nat) + 32) else c)"

definition is_plus :: "char \<Rightarrow> bool" where
  "is_plus c \<longleftrightarrow> c = CHR ''+''"

definition split_plus :: "string \<Rightarrow> string \<times> string" where
  "split_plus s = (takeWhile (\<lambda>c. \<not> is_plus c) s, drop 1 (dropWhile (\<lambda>c. \<not> is_plus c) s))"

definition part :: "string \<Rightarrow> string list" where
  "part acc = (if acc = [] then [] else [acc])"

fun split_from :: "string \<Rightarrow> string \<Rightarrow> string list" where
  "split_from acc [] = part acc"
| "split_from acc (c # s) =
     (if is_plus c then part acc @ split_from [] s else split_from (acc @ [c]) s)"

definition split_all :: "string \<Rightarrow> string list" where
  "split_all s = split_from [] s"

definition after :: "string \<Rightarrow> string \<Rightarrow> string option" where
  "after p s = (if take (length p) s = p then Some (drop (length p) s) else None)"

subsection \<open>What LLVM's parsers answer\<close>

datatype ArchKind = AK_INVALID | AK_ARMV6T2 | AK_ARMV7K | AK_other nat

record arm_parser =
  parseArchVersion :: "string \<Rightarrow> int"
  parseArchProfile_is_M :: "string \<Rightarrow> bool"
  parseArch :: "string \<Rightarrow> ArchKind"
  parseCPUArch :: "string \<Rightarrow> ArchKind"
  getSubArch :: "ArchKind \<Rightarrow> string"
  getARMCPUForArch :: "Triple \<Rightarrow> string \<Rightarrow> string"
  getArchExtFeature :: "string \<Rightarrow> string"
  getHWDivFeatures :: "string \<Rightarrow> bool \<times> string list"
  getFPUFeatures :: "string \<Rightarrow> bool \<times> string list"
  getHostCPUName :: string
  getHostCPUFeatures :: "(string \<times> bool) list option"

type_synonym feats = "string list \<times> drv"

definition push :: "string \<Rightarrow> feats \<Rightarrow> feats" where
  "push F = (\<lambda>(Features, D). (Features @ [F], D))"

definition push_if :: "bool \<Rightarrow> string \<Rightarrow> feats \<Rightarrow> feats" where
  "push_if b F fd = (if b then push F fd else fd)"

definition report :: "bool \<Rightarrow> diag \<Rightarrow> feats \<Rightarrow> feats" where
  "report b d = (\<lambda>(Features, D). (Features, Diag_if b d D))"

subsection \<open>Architecture and CPU\<close>

definition getARMSubArchVersionNumber :: "arm_parser \<Rightarrow> Triple \<Rightarrow> int" where
  "getARMSubArchVersionNumber P T = parseArchVersion P (t_ArchName T)"

definition isARMMProfile :: "arm_parser \<Rightarrow> Triple \<Rightarrow> bool" where
  "isARMMProfile P T = parseArchProfile_is_M P (t_ArchName T)"

text \<open>
  \<open>getARMArch\<close> and \<open>getLLVMArchSuffixForARM\<close> call each other, the first only for a CPU that is not
  \<open>generic\<close>, for which the second does not call back: that part of it is \<open>cpu_suffix\<close>.
\<close>

definition kind_suffix :: "arm_parser \<Rightarrow> ArchKind \<Rightarrow> string" where
  "kind_suffix P k = (if k = AK_INVALID then [] else getSubArch P k)"

definition cpu_suffix :: "arm_parser \<Rightarrow> string \<Rightarrow> string \<Rightarrow> string" where
  "cpu_suffix P CPU Arch =
     kind_suffix P (if Arch = ''armv7k'' \<or> Arch = ''thumbv7k'' then AK_ARMV7K else parseCPUArch P CPU)"

definition getARMArch :: "arm_parser \<Rightarrow> string \<Rightarrow> Triple \<Rightarrow> string" where
  "getARMArch P Arch T =
     (let MArch = lower (fst (split_plus (if Arch \<noteq> [] then Arch else t_ArchName T)))
      in if MArch = ''native'' \<and> getHostCPUName P \<noteq> ''generic'' then
           let Suffix = cpu_suffix P (getHostCPUName P) MArch
           in if Suffix = [] then [] else ''arm'' @ Suffix
         else MArch)"

definition getLLVMArchSuffixForARM :: "arm_parser \<Rightarrow> string \<Rightarrow> string \<Rightarrow> Triple \<Rightarrow> string" where
  "getLLVMArchSuffixForARM P CPU Arch T =
     (if CPU = ''generic'' then
        let ARMArch = getARMArch P Arch T; k = parseArch P ARMArch
        in kind_suffix P (if k = AK_INVALID then parseCPUArch P (getARMCPUForArch P T ARMArch) else k)
      else cpu_suffix P CPU Arch)"

definition getARMCPUForMArch :: "arm_parser \<Rightarrow> string \<Rightarrow> Triple \<Rightarrow> string" where
  "getARMCPUForMArch P Arch T =
     (let MArch = getARMArch P Arch T in if MArch = [] then [] else getARMCPUForArch P T MArch)"

definition getARMTargetCPU :: "arm_parser \<Rightarrow> string \<Rightarrow> string \<Rightarrow> Triple \<Rightarrow> string" where
  "getARMTargetCPU P CPU Arch T =
     (if CPU \<noteq> [] then
        let MCPU = lower (fst (split_plus CPU)) in if MCPU = ''native'' then getHostCPUName P else MCPU
      else getARMCPUForMArch P Arch T)"

text \<open>The last \<open>-mcpu=\<close> and \<open>-march=\<close>, and for the assembler those passed with \<open>-Wa,\<close> or \<open>-Xassembler\<close>.\<close>

definition value_or :: "Arg option \<Rightarrow> string \<Rightarrow> string res" where
  "value_or A old = (case A of None \<Rightarrow> Inr old | Some A \<Rightarrow> getValue A)"

fun assembler_arch_cpu :: "Arg list \<Rightarrow> string \<times> string \<Rightarrow> (string \<times> string) res" where
  "assembler_arch_cpu [] r = Inr r"
| "assembler_arch_cpu (A # As) (Arch, CPU) =
     bnd (getValue A) (\<lambda>Value.
       assembler_arch_cpu As
         (case after ''-march='' Value of Some v \<Rightarrow> v | None \<Rightarrow> Arch,
          case after ''-mcpu='' Value of Some v \<Rightarrow> v | None \<Rightarrow> CPU))"

definition getARMArchCPUFromArgs :: "ArgList \<Rightarrow> bool \<Rightarrow> string \<times> string \<Rightarrow> (string \<times> string) res" where
  "getARMArchCPUFromArgs Args FromAs = (\<lambda>(Arch0, CPU0).
     bnd (value_or (getLastArg Args [Tool OPT_mcpu_EQ]) CPU0) (\<lambda>CPU.
     bnd (value_or (getLastArg Args [Tool OPT_march_EQ]) Arch0) (\<lambda>Arch.
       if \<not> FromAs then Inr (Arch, CPU)
       else assembler_arch_cpu (filtered [Tool OPT_Wa_COMMA, Tool OPT_Xassembler] Args) (Arch, CPU))))"

subsection \<open>Checking \<open>-mhwdiv\<close>, \<open>-mfpu\<close>, \<open>-march\<close> and \<open>-mcpu\<close>\<close>

definition add_parsed :: "bool \<times> string list \<Rightarrow> Arg \<Rightarrow> feats \<Rightarrow> feats" where
  "add_parsed r A = (\<lambda>(Features, D).
     (Features @ snd r, Diag_if (\<not> fst r) (err_drv_clang_unsupported (a_string A)) D))"

definition getARMHWDivFeatures :: "arm_parser \<Rightarrow> Arg \<Rightarrow> string \<Rightarrow> feats \<Rightarrow> feats" where
  "getARMHWDivFeatures P A HWDiv = add_parsed (getHWDivFeatures P HWDiv) A"

definition getARMFPUFeatures :: "arm_parser \<Rightarrow> Arg \<Rightarrow> string \<Rightarrow> feats \<Rightarrow> feats" where
  "getARMFPUFeatures P A FPU = add_parsed (getFPUFeatures P FPU) A"

fun decode_features :: "arm_parser \<Rightarrow> string list \<Rightarrow> string list \<Rightarrow> bool \<times> string list" where
  "decode_features P [] Features = (True, Features)"
| "decode_features P (F # Fs) Features =
     (let FeatureName = getArchExtFeature P F
      in if FeatureName \<noteq> [] then decode_features P Fs (Features @ [FeatureName]) else (False, Features))"

definition DecodeARMFeatures :: "arm_parser \<Rightarrow> string \<Rightarrow> string list \<Rightarrow> bool \<times> string list" where
  "DecodeARMFeatures P text = decode_features P (split_all text)"

text \<open>The extensions after the plus are decoded only if the name itself is valid.\<close>

definition check_name :: "arm_parser \<Rightarrow> bool \<Rightarrow> string \<Rightarrow> Arg \<Rightarrow> feats \<Rightarrow> feats" where
  "check_name P invalid extensions A = (\<lambda>(Features, D).
     if invalid then (Features, Diag (err_drv_clang_unsupported (a_string A)) D)
     else if extensions = [] then (Features, D)
     else let (ok, Features') = DecodeARMFeatures P extensions Features
          in (Features', Diag_if (\<not> ok) (err_drv_clang_unsupported (a_string A)) D))"

definition checkARMArchName :: "arm_parser \<Rightarrow> Arg \<Rightarrow> string \<Rightarrow> Triple \<Rightarrow> feats \<Rightarrow> feats" where
  "checkARMArchName P A ArchName T =
     check_name P (parseArch P (getARMArch P ArchName T) = AK_INVALID) (snd (split_plus ArchName)) A"

definition checkARMCPUName :: "arm_parser \<Rightarrow> Arg \<Rightarrow> string \<Rightarrow> string \<Rightarrow> Triple \<Rightarrow> feats \<Rightarrow> feats" where
  "checkARMCPUName P A CPUName ArchName T =
     check_name P (getLLVMArchSuffixForARM P (getARMTargetCPU P CPUName ArchName T) ArchName T = [])
       (snd (split_plus CPUName)) A"

subsection \<open>The float ABI\<close>

datatype FloatABI = FloatInvalid | FloatSoft | FloatSoftFP | FloatHard

definition useAAPCSForMachO :: "arm_parser \<Rightarrow> Triple \<Rightarrow> bool" where
  "useAAPCSForMachO P T \<longleftrightarrow> t_Environment T = Env_EABI \<or> t_OS T = OS_UnknownOS \<or> isARMMProfile P T"

definition named_float_abi :: "string \<Rightarrow> FloatABI" where
  "named_float_abi v =
     (if v = ''soft'' then FloatSoft else if v = ''softfp'' then FloatSoftFP
      else if v = ''hard'' then FloatHard else FloatInvalid)"

text \<open>The ABI that an option selects; an empty \<open>-mfloat-abi=\<close> leaves the choice to the target.\<close>

definition float_abi_option :: "Arg \<Rightarrow> drv \<Rightarrow> (FloatABI \<times> drv) res" where
  "float_abi_option A D =
     (if a_opt A = Tool OPT_msoft_float then Inr (FloatSoft, D)
      else if a_opt A = Tool OPT_mhard_float then Inr (FloatHard, D)
      else bnd (getValue A) (\<lambda>v.
        if named_float_abi v = FloatInvalid \<and> v \<noteq> []
        then Inr (FloatSoft, Diag (err_drv_invalid_mfloat_abi (a_string A)) D)
        else Inr (named_float_abi v, D)))"

definition darwin_float_abi :: "arm_parser \<Rightarrow> Triple \<Rightarrow> FloatABI" where
  "darwin_float_abi P T =
     (if t_isWatchABI T then FloatHard
      else if getARMSubArchVersionNumber P T = 6 \<or> getARMSubArchVersionNumber P T = 7 then FloatSoftFP
      else FloatSoft)"

definition env_float_abi :: "arm_parser \<Rightarrow> Triple \<Rightarrow> drv \<Rightarrow> FloatABI \<times> drv" where
  "env_float_abi P T D =
     (case t_Environment T of
        Env_GNUEABIHF \<Rightarrow> (FloatHard, D)
      | Env_MuslEABIHF \<Rightarrow> (FloatHard, D)
      | Env_EABIHF \<Rightarrow> (FloatHard, D)
      | Env_GNUEABI \<Rightarrow> (FloatSoftFP, D)
      | Env_MuslEABI \<Rightarrow> (FloatSoftFP, D)
      | Env_EABI \<Rightarrow> (FloatSoftFP, D)
      | Env_Android \<Rightarrow> (if getARMSubArchVersionNumber P T = 7 then FloatSoftFP else FloatSoft, D)
      | _ \<Rightarrow>
          (if t_isOSBinFormatMachO T \<and> t_SubArch T = ARMSubArch_v7em then FloatHard else FloatSoft,
           Diag_if (t_OS T \<noteq> OS_UnknownOS \<or> \<not> t_isOSBinFormatMachO T)
             (warn_drv_assuming_mfloat_abi_is ''soft'') D))"

definition default_float_abi :: "arm_parser \<Rightarrow> Triple \<Rightarrow> drv \<Rightarrow> FloatABI \<times> drv" where
  "default_float_abi P T D =
     (if t_OS T \<in> {OS_Darwin, OS_MacOSX, OS_IOS, OS_TvOS} then (darwin_float_abi P T, D)
      else if t_OS T = OS_WatchOS \<or> t_OS T = OS_Win32 then (FloatHard, D)
      else if t_OS T = OS_FreeBSD then (if t_Environment T = Env_GNUEABIHF then FloatHard else FloatSoft, D)
      else env_float_abi P T D)"

definition getARMFloatABI :: "arm_parser \<Rightarrow> ToolChain \<Rightarrow> ArgList \<Rightarrow> drv \<Rightarrow> (FloatABI \<times> drv) res" where
  "getARMFloatABI P TC Args D =
     (let T = tc_EffectiveTriple TC
      in bnd (case getLastArg Args [Tool OPT_msoft_float, Tool OPT_mhard_float, Tool OPT_mfloat_abi_EQ] of
            None \<Rightarrow> Inr (FloatInvalid, D)
          | Some A \<Rightarrow> bnd (float_abi_option A D) (\<lambda>(ABI, D1).
              Inr (ABI, Diag_if (t_isOSBinFormatMachO T \<and> \<not> useAAPCSForMachO P T \<and> ABI = FloatHard)
                (err_drv_unsupported_opt_for_target (a_string A) (t_ArchName T)) D1))) (\<lambda>(ABI, D2).
         let (ABI', D3) = (if ABI = FloatInvalid then default_float_abi P T D2 else (ABI, D2))
         in if ABI' = FloatInvalid then Inl Unreachable else Inr (ABI', D3)))"

subsection \<open>Subtarget features\<close>

text \<open>The options passed through to the assembler; the last of each kind counts.\<close>

record wa_args =
  WaCPU :: "Arg option"
  WaFPU :: "Arg option"
  WaHDiv :: "Arg option"
  WaArch :: "Arg option"

definition no_wa :: wa_args where
  "no_wa = \<lparr>WaCPU = None, WaFPU = None, WaHDiv = None, WaArch = None\<rparr>"

fun find_wa :: "Arg list \<Rightarrow> wa_args \<Rightarrow> wa_args res" where
  "find_wa [] w = Inr w"
| "find_wa (A # As) w =
     bnd (getValue A) (\<lambda>Value.
       find_wa As
         (if after ''-mfpu='' Value \<noteq> None then w\<lparr>WaFPU := Some A\<rparr>
          else if after ''-mcpu='' Value \<noteq> None then w\<lparr>WaCPU := Some A\<rparr>
          else if after ''-mhwdiv='' Value \<noteq> None then w\<lparr>WaHDiv := Some A\<rparr>
          else if after ''-march='' Value \<noteq> None then w\<lparr>WaArch := Some A\<rparr>
          else w))"

definition unused :: "Arg \<Rightarrow> feats \<Rightarrow> feats" where
  "unused A = report True (warn_drv_unused_argument (a_string A))"

text \<open>
  An option that the assembler's own argument \<open>Wa\<close> overrides: the value that counts, \<open>n\<close> being the
  length of the option's name in \<open>Wa\<close>, the argument it comes from, and the warning about the other.
\<close>

definition overridden :: "Arg option \<Rightarrow> nat \<Rightarrow> Arg option \<Rightarrow> feats \<Rightarrow> ((Arg \<times> string) option \<times> feats) res" where
  "overridden Wa n Plain fd =
     (case Wa of
        Some W \<Rightarrow> bnd (getValue W) (\<lambda>v.
          Inr (Some (W, drop n v), case Plain of None \<Rightarrow> fd | Some A \<Rightarrow> unused A fd))
      | None \<Rightarrow>
          (case Plain of
             None \<Rightarrow> Inr (None, fd)
           | Some A \<Rightarrow> bnd (getValue A) (\<lambda>v. Inr (Some (A, v), fd))))"

definition march_features :: "arm_parser \<Rightarrow> Triple \<Rightarrow> ArgList \<Rightarrow> wa_args \<Rightarrow> feats \<Rightarrow> (string \<times> feats) res" where
  "march_features P T Args w fd =
     bnd (overridden (WaArch w) 7 (getLastArg Args [Tool OPT_march_EQ]) fd) (\<lambda>(found, fd1).
       case found of
         None \<Rightarrow> Inr ([], fd1)
       | Some (A, ArchName) \<Rightarrow>
           let fd2 = checkARMArchName P A ArchName T fd1
           in Inr (ArchName, if WaArch w = None then fd2 else unused A fd2))"

definition mcpu_features :: "arm_parser \<Rightarrow> Triple \<Rightarrow> ArgList \<Rightarrow> wa_args \<Rightarrow> string \<Rightarrow> feats \<Rightarrow> (string \<times> feats) res" where
  "mcpu_features P T Args w ArchName fd =
     bnd (overridden (WaCPU w) 6 (getLastArg Args [Tool OPT_mcpu_EQ]) fd) (\<lambda>(found, fd1).
       case found of
         None \<Rightarrow> Inr ([], fd1)
       | Some (A, CPUName) \<Rightarrow> Inr (CPUName, checkARMCPUName P A CPUName ArchName T fd1))"

definition native_features :: "arm_parser \<Rightarrow> string \<Rightarrow> feats \<Rightarrow> feats" where
  "native_features P CPUName fd =
     (if CPUName = ''native''
      then case getHostCPUFeatures P of
          None \<Rightarrow> fd
        | Some HostFeatures \<Rightarrow> fold (\<lambda>(name, on). push ((if on then ''+'' else ''-'') @ name)) HostFeatures fd
      else fd)"

definition mfpu_features :: "arm_parser \<Rightarrow> ArgList \<Rightarrow> wa_args \<Rightarrow> feats \<Rightarrow> feats res" where
  "mfpu_features P Args w fd =
     bnd (overridden (WaFPU w) 6 (getLastArg Args [Tool OPT_mfpu_EQ]) fd) (\<lambda>(found, fd1).
       Inr (case found of None \<Rightarrow> fd1 | Some (A, FPU) \<Rightarrow> getARMFPUFeatures P A FPU fd1))"

definition mhwdiv_features :: "arm_parser \<Rightarrow> ArgList \<Rightarrow> wa_args \<Rightarrow> feats \<Rightarrow> feats res" where
  "mhwdiv_features P Args w fd =
     bnd (overridden (WaHDiv w) 8 (getLastArg Args [Tool OPT_mhwdiv_EQ]) fd) (\<lambda>(found, fd1).
       Inr (case found of None \<Rightarrow> fd1 | Some (A, HWDiv) \<Rightarrow> getARMHWDivFeatures P A HWDiv fd1))"

definition crc_features :: "ArgList \<Rightarrow> feats \<Rightarrow> feats" where
  "crc_features Args fd =
     (case getLastArg Args [Tool OPT_mcrc, Tool OPT_mnocrc] of
        None \<Rightarrow> fd
      | Some A \<Rightarrow> push (if a_opt A = Tool OPT_mcrc then ''+crc'' else ''-crc'') fd)"

definition long_calls_features :: "Triple \<Rightarrow> ArgList \<Rightarrow> bool \<Rightarrow> feats \<Rightarrow> feats" where
  "long_calls_features T Args KernelOrKext fd =
     (case getLastArg Args [Tool OPT_mlong_calls, Tool OPT_mno_long_calls] of
        Some A \<Rightarrow> push_if (a_opt A = Tool OPT_mlong_calls) ''+long-calls'' fd
      | None \<Rightarrow> push_if (KernelOrKext \<and> (\<not> t_isiOS T \<or> t_isOSVersionLT6 T) \<and> t_OS T \<noteq> OS_WatchOS) ''+long-calls'' fd)"

definition execute_only :: "arm_parser \<Rightarrow> Triple \<Rightarrow> ArgList \<Rightarrow> string list \<Rightarrow> feats \<Rightarrow> string list \<times> feats" where
  "execute_only P T Args CmdArgs fd =
     (case getLastArg Args [Tool OPT_mexecute_only, Tool OPT_mno_execute_only] of
        None \<Rightarrow> (CmdArgs, fd)
      | Some A \<Rightarrow>
          if a_opt A = Tool OPT_mexecute_only then
            (CmdArgs @ [''-backend-option'', ''-arm-execute-only''],
             if getARMSubArchVersionNumber P T < 7 \<and> parseArch P (t_ArchName T) \<noteq> AK_ARMV6T2
             then report True (err_target_unsupported_execute_only (t_ArchName T)) fd
             else case getLastArg Args [Tool OPT_mno_movt] of
                 Some B \<Rightarrow> report True (err_opt_not_valid_with_opt (a_string A) (a_string B)) fd
               | None \<Rightarrow>
                   (case getLastArg Args [Tool OPT_mlong_calls, Tool OPT_mno_long_calls] of
                      None \<Rightarrow> fd
                    | Some B \<Rightarrow> report (a_opt B = Tool OPT_mlong_calls)
                        (err_opt_not_valid_with_opt (a_string A) (a_string B)) fd))
          else (CmdArgs, fd))"

definition default_strict_align :: "arm_parser \<Rightarrow> Triple \<Rightarrow> bool" where
  "default_strict_align P T \<longleftrightarrow>
     (if t_isOSDarwin T \<or> t_OS T = OS_NetBSD
      then getARMSubArchVersionNumber P T < 6 \<or> t_SubArch T = ARMSubArch_v6m
      else if t_isOSLinux T \<or> t_OS T = OS_NaCl then getARMSubArchVersionNumber P T < 7
      else True)"

definition strict_align :: "arm_parser \<Rightarrow> Triple \<Rightarrow> ArgList \<Rightarrow> bool \<Rightarrow> feats \<Rightarrow> feats" where
  "strict_align P T Args KernelOrKext fd =
     (if KernelOrKext then push ''+strict-align'' fd
      else case getLastArg Args [Tool OPT_mno_unaligned_access, Tool OPT_munaligned_access] of
          Some A \<Rightarrow>
            if a_opt A = Tool OPT_munaligned_access then
              if t_SubArch T = ARMSubArch_v6m then report True (err_target_unsupported_unaligned ''v6m'') fd
              else report (t_SubArch T = ARMSubArch_v8m_baseline) (err_target_unsupported_unaligned ''v8m.base'') fd
            else push ''+strict-align'' fd
        | None \<Rightarrow> push_if (default_strict_align P T) ''+strict-align'' fd)"

text \<open>The features before the option checks, and those after.\<close>

definition soft_float_features :: "FloatABI \<Rightarrow> feats \<Rightarrow> feats" where
  "soft_float_features ABI fd =
     push_if (ABI \<noteq> FloatHard) ''+soft-float-abi'' (push_if (ABI = FloatSoft) ''+soft-float'' fd)"

definition no_neon :: "FloatABI \<Rightarrow> feats \<Rightarrow> feats" where
  "no_neon ABI fd = push_if (ABI = FloatSoft) ''-crypto'' (push_if (ABI = FloatSoft) ''-neon'' fd)"

definition getARMTargetFeatures ::
    "arm_parser \<Rightarrow> ToolChain \<Rightarrow> Triple \<Rightarrow> ArgList \<Rightarrow> bool \<Rightarrow> string list \<Rightarrow> feats \<Rightarrow> (string list \<times> feats) res" where
  "getARMTargetFeatures P TC T Args ForAS CmdArgs = (\<lambda>(Features, D).
     let KernelOrKext = hasArg Args [Tool OPT_mkernel, Tool OPT_fapple_kext]
     in bnd (getARMFloatABI P TC Args D) (\<lambda>(ABI, D1).
        bnd (if ForAS then find_wa (filtered [Tool OPT_Wa_COMMA, Tool OPT_Xassembler] Args) no_wa else Inr no_wa) (\<lambda>w.
        bnd (march_features P T Args w
          (if ForAS then (Features, D1) else soft_float_features ABI (Features, D1))) (\<lambda>(ArchName, fd2).
        bnd (mcpu_features P T Args w ArchName fd2) (\<lambda>(CPUName, fd3).
        bnd (mfpu_features P Args w (native_features P CPUName fd3)) (\<lambda>fd4.
        bnd (mhwdiv_features P Args w fd4) (\<lambda>fd5.
          let fd6 = long_calls_features T Args KernelOrKext (crc_features Args (no_neon ABI fd5));
              (CmdArgs', fd7) = execute_only P T Args CmdArgs fd6;
              fd8 = strict_align P T Args KernelOrKext fd7;
              fd9 = push_if (hasArg Args [Tool OPT_ffixed_r9]) ''+reserve-r9'' fd8
          in Inr (CmdArgs', push_if (KernelOrKext \<or> hasArg Args [Tool OPT_mno_movt]) ''+no-movt'' fd9))))))))"

subsection \<open>Arguments for the compiler\<close>

definition default_abi_name :: "arm_parser \<Rightarrow> Triple \<Rightarrow> string" where
  "default_abi_name P T =
     (if t_isOSBinFormatMachO T then
        if useAAPCSForMachO P T then ''aapcs'' else if t_isWatchABI T then ''aapcs16'' else ''apcs-gnu''
      else if t_isOSWindows T then ''aapcs''
      else if t_Environment T \<in> {Env_Android, Env_GNUEABI, Env_GNUEABIHF, Env_MuslEABI, Env_MuslEABIHF}
      then ''aapcs-linux''
      else if t_Environment T = Env_EABIHF \<or> t_Environment T = Env_EABI then ''aapcs''
      else if t_OS T = OS_NetBSD then ''apcs-gnu'' else ''aapcs'')"

definition float_abi_args :: "FloatABI \<Rightarrow> string list" where
  "float_abi_args ABI =
     (if ABI = FloatSoft then [''-msoft-float'', ''-mfloat-abi'', ''soft'']
      else if ABI = FloatSoftFP then [''-mfloat-abi'', ''soft'']
      else [''-mfloat-abi'', ''hard''])"

definition AddARMTargetArgs :: "arm_parser \<Rightarrow> ToolChain \<Rightarrow> Triple \<Rightarrow> ArgList \<Rightarrow> string list \<Rightarrow> drv \<Rightarrow> (string list \<times> drv) res" where
  "AddARMTargetArgs P TC T Args CmdArgs D =
     bnd (case getLastArg Args [Tool OPT_mabi_EQ] of
            Some A \<Rightarrow> getValue A
          | None \<Rightarrow> Inr (default_abi_name P T)) (\<lambda>ABIName.
     bnd (getARMFloatABI P TC Args D) (\<lambda>(ABI, D1).
       Inr (CmdArgs @ [''-target-abi'', ABIName] @ float_abi_args ABI @
         (case getLastArg Args [Tool OPT_mglobal_merge, Tool OPT_mno_global_merge] of
            None \<Rightarrow> []
          | Some A \<Rightarrow> [''-backend-option'',
              if a_opt A = Tool OPT_mno_global_merge then ''-arm-global-merge=false'' else ''-arm-global-merge=true'']) @
         (if hasFlag Args (Tool OPT_mimplicit_float) (Tool OPT_mno_implicit_float) True then []
          else [''-no-implicit-float'']), D1)))"

definition appendEBLinkFlags :: "arm_parser \<Rightarrow> Triple \<Rightarrow> ArgList \<Rightarrow> string list \<Rightarrow> string list" where
  "appendEBLinkFlags P T Args CmdArgs =
     (if hasArg Args [Tool OPT_r] then CmdArgs
      else if getARMSubArchVersionNumber P T \<ge> 7 \<or> isARMMProfile P T then CmdArgs @ [''--be8'']
      else CmdArgs)"

subsection \<open>Defaults of targets and frame pointers\<close>

definition isSignedCharDefault :: "Triple \<Rightarrow> bool" where
  "isSignedCharDefault T =
     (if t_Arch T \<in> {Arch_aarch64, Arch_aarch64_be, Arch_arm, Arch_armeb, Arch_thumb, Arch_thumbeb}
      then t_isOSDarwin T \<or> t_isOSWindows T
      else if t_Arch T \<in> {Arch_ppc, Arch_ppc64} then t_isOSDarwin T
      else t_Arch T \<notin> {Arch_hexagon, Arch_ppc64le, Arch_systemz, Arch_xcore})"

definition isNoCommonDefault :: "Triple \<Rightarrow> bool" where
  "isNoCommonDefault T \<longleftrightarrow> t_Arch T \<in> {Arch_xcore, Arch_wasm32, Arch_wasm64}"

definition isUseSeparateSections :: "Triple \<Rightarrow> bool" where
  "isUseSeparateSections T \<longleftrightarrow>
     t_OS T = OS_CloudABI \<or> t_Arch T = Arch_wasm32 \<or> t_Arch T = Arch_wasm64"

definition areOptimizationsEnabled :: "ArgList \<Rightarrow> bool" where
  "areOptimizationsEnabled Args =
     (case getLastArg Args [Tool OPT_O_Group] of None \<Rightarrow> False | Some A \<Rightarrow> a_opt A \<noteq> Tool OPT_O0)"

definition mustUseFramePointerForTarget :: "Triple \<Rightarrow> bool" where
  "mustUseFramePointerForTarget T \<longleftrightarrow> t_Arch T \<in> {Arch_arm, Arch_thumb} \<and> t_isOSDarwin T"

definition useFramePointerForTargetByDefault :: "ArgList \<Rightarrow> Triple \<Rightarrow> bool" where
  "useFramePointerForTargetByDefault Args T =
     (if t_Arch T \<in> {Arch_xcore, Arch_wasm32, Arch_wasm64} then False
      else if t_isOSLinux T \<or> t_OS T = OS_CloudABI then
        if t_Arch T \<in> {Arch_mips64, Arch_mips64el, Arch_mips, Arch_mipsel, Arch_systemz, Arch_x86, Arch_x86_64}
        then \<not> areOptimizationsEnabled Args else True
      else if t_isOSWindows T then
        if t_Arch T = Arch_x86 then \<not> areOptimizationsEnabled Args
        else if t_Arch T = Arch_x86_64 then t_isOSBinFormatMachO T
        else t_Arch T \<in> {Arch_arm, Arch_thumb}
      else True)"

definition shouldUseFramePointer :: "ArgList \<Rightarrow> Triple \<Rightarrow> bool" where
  "shouldUseFramePointer Args T =
     (case getLastArg Args [Tool OPT_fno_omit_frame_pointer, Tool OPT_fomit_frame_pointer] of
        Some A \<Rightarrow> a_opt A = Tool OPT_fno_omit_frame_pointer \<or> mustUseFramePointerForTarget T
      | None \<Rightarrow> if hasArg Args [Tool OPT_pg] then True else useFramePointerForTargetByDefault Args T)"

definition shouldUseLeafFramePointer :: "ArgList \<Rightarrow> Triple \<Rightarrow> bool" where
  "shouldUseLeafFramePointer Args T =
     (case getLastArg Args [Tool OPT_mno_omit_leaf_frame_pointer, Tool OPT_momit_leaf_frame_pointer] of
        Some A \<Rightarrow> a_opt A = Tool OPT_mno_omit_leaf_frame_pointer \<or> mustUseFramePointerForTarget T
      | None \<Rightarrow>
          if hasArg Args [Tool OPT_pg] then True
          else if t_isPS4CPU T then False
          else useFramePointerForTargetByDefault Args T)"

subsection \<open>The option \<open>-mrecip\<close>\<close>

text \<open>\<open>getRefinementStep\<close>: the base name, and whether what follows a colon is one digit.\<close>

definition refinement_base :: "string \<Rightarrow> string" where
  "refinement_base v = takeWhile (\<lambda>c. c \<noteq> CHR '':'') v"

definition refinement_step :: "string \<Rightarrow> string option" where
  "refinement_step v = (case dropWhile (\<lambda>c. c \<noteq> CHR '':'') v of [] \<Rightarrow> None | _ # RefStep \<Rightarrow> Some RefStep)"

definition is_digit_char :: "char \<Rightarrow> bool" where
  "is_digit_char c \<longleftrightarrow> 48 \<le> (of_char c :: nat) \<and> (of_char c :: nat) \<le> 57"

definition getRefinementStep :: "Arg \<Rightarrow> string \<Rightarrow> drv \<Rightarrow> bool \<times> drv" where
  "getRefinementStep A v D =
     (case refinement_step v of
        None \<Rightarrow> (True, D)
      | Some RefStep \<Rightarrow>
          if length RefStep = 1 \<and> is_digit_char (hd RefStep) then (True, D)
          else (False, Diag (err_drv_invalid_value (a_name A) RefStep) D))"

definition recip_names :: "string list" where
  "recip_names = [''divd'', ''divf'', ''vec-divd'', ''vec-divf'', ''sqrtd'', ''sqrtf'', ''vec-sqrtd'', ''vec-sqrtf'']"

text \<open>
  One pass of the loop. \<open>seen\<close> are the names whose entry in the map is true; the key is the name with
  its suffix. \<open>None\<close> is the early return.
\<close>

definition recip_value :: "Arg \<Rightarrow> string \<Rightarrow> string list \<Rightarrow> drv \<Rightarrow> string list option \<times> drv" where
  "recip_value A Val0 seen D0 =
     (let Val = (if Val0 \<noteq> [] \<and> hd Val0 = CHR ''!'' then tl Val0 else Val0);
          (ok, D) = getRefinementStep A Val D0;
          ValBase = refinement_base Val;
          plain = ValBase \<in> set recip_names;
          key = (if plain then ValBase else ValBase @ ''f'')
      in if \<not> ok then (None, D)
         else if key \<notin> set recip_names then (None, Diag (err_drv_unknown_argument Val) D)
         else if \<not> plain \<and> ValBase @ ''d'' \<in> set seen
         then (None, Diag (err_drv_invalid_value (a_name A) Val) D)
         else if key \<in> set seen then (None, Diag (err_drv_invalid_value (a_name A) Val) D)
         else (Some (seen @ key # (if last ValBase \<noteq> CHR ''f'' \<and> last ValBase \<noteq> CHR ''d'' then [ValBase @ ''d''] else [])), D))"

fun recip_loop :: "Arg \<Rightarrow> string list \<Rightarrow> string list \<Rightarrow> string \<Rightarrow> drv \<Rightarrow> string option \<times> drv" where
  "recip_loop A [] seen Out D = (Some Out, D)"
| "recip_loop A (Val # vs) seen Out D =
     (case recip_value A Val seen D of
        (None, D') \<Rightarrow> (None, D')
      | (Some seen', D') \<Rightarrow>
          recip_loop A vs seen' (Out @ Val @ (if vs \<noteq> [] then '','' else [])) D')"

definition ParseMRecip :: "ArgList \<Rightarrow> string list \<Rightarrow> drv \<Rightarrow> string list \<times> drv" where
  "ParseMRecip Args OutStrings D =
     (case getLastArg Args [Tool OPT_mrecip, Tool OPT_mrecip_EQ] of
        None \<Rightarrow> (OutStrings, D)
      | Some A \<Rightarrow>
          let vs = a_values A;
              (early, D1) = (case vs of
                  [Val] \<Rightarrow>
                    (case getRefinementStep A Val D of
                       (False, D') \<Rightarrow> (Some OutStrings, D')
                     | (True, D') \<Rightarrow>
                         (if refinement_base Val \<in> {''all'', ''none'', ''default''}
                          then Some (OutStrings @ [''-mrecip='' @ Val]) else None, D'))
                | _ \<Rightarrow> (None, D))
          in if vs = [] then (OutStrings @ [''-mrecip=all''], D)
             else case early of
                 Some Out \<Rightarrow> (Out, D1)
               | None \<Rightarrow>
                   (case recip_loop A vs [] ''-mrecip='' D1 of
                      (None, D2) \<Rightarrow> (OutStrings, D2)
                    | (Some Out, D2) \<Rightarrow> (OutStrings @ [Out], D2)))"

subsection \<open>Facts about \<open>-mrecip\<close>\<close>

fun commas :: "string list \<Rightarrow> string" where
  "commas [] = []"
| "commas [v] = v"
| "commas (v # w # vs) = v @ '','' @ commas (w # vs)"

text \<open>
  What the option accepts. A name without a suffix stands for both entries of the map; a prefix \<open>!\<close> is
  ignored; a refinement step is one digit.
\<close>

definition recip_strip :: "string \<Rightarrow> string" where
  "recip_strip Val = (if Val \<noteq> [] \<and> hd Val = CHR ''!'' then tl Val else Val)"

definition recip_keys :: "string \<Rightarrow> string list" where
  "recip_keys Val =
     (let b = refinement_base (recip_strip Val)
      in if b \<in> set recip_names then [b] else [b @ ''f'', b @ ''d''])"

definition step_ok :: "string \<Rightarrow> bool" where
  "step_ok v \<longleftrightarrow> (case refinement_step v of None \<Rightarrow> True | Some R \<Rightarrow> length R = 1 \<and> is_digit_char (hd R))"

definition recip_legal :: "string \<Rightarrow> bool" where
  "recip_legal Val \<longleftrightarrow> step_ok Val \<and> list_all (\<lambda>k. k \<in> set recip_names) (recip_keys Val)"

definition mrecip_ok :: "string list \<Rightarrow> bool" where
  "mrecip_ok vs \<longleftrightarrow>
     (case vs of [v] \<Rightarrow> step_ok v \<and> refinement_base v \<in> {''all'', ''none'', ''default''} | _ \<Rightarrow> False)
     \<or> (list_all recip_legal vs \<and> distinct (concat (map recip_keys vs)))"

definition mrecip_output :: "string list \<Rightarrow> string" where
  "mrecip_output vs = ''-mrecip='' @ (if vs = [] then ''all'' else commas vs)"

lemma getRefinementStep_eq:
  "getRefinementStep A v D =
     (if step_ok v then (True, D) else (False, Diag (err_drv_invalid_value (a_name A) (the (refinement_step v))) D))"
  by (auto simp: getRefinementStep_def step_ok_def split: option.split)

lemma step_ok_strip [simp]: "step_ok (recip_strip v) = step_ok v"
  by (cases v) (auto simp: step_ok_def recip_strip_def refinement_step_def)

lemma recip_names_last: "n \<in> set recip_names \<Longrightarrow> last n = CHR ''f'' \<or> last n = CHR ''d''"
  by (auto simp: recip_names_def)

lemma recip_names_base:
  assumes "b @ ''f'' \<in> set recip_names"
  shows "b @ ''d'' \<in> set recip_names \<and> b \<notin> set recip_names \<and> last b \<noteq> CHR ''f'' \<and> last b \<noteq> CHR ''d''"
proof -
  from assms obtain n where n: "n \<in> set recip_names" "last n = CHR ''f''" "b = butlast n"
    by (metis butlast_snoc last_snoc)
  then have "b \<in> {''div'', ''vec-div'', ''sqrt'', ''vec-sqrt''}" by (auto simp: recip_names_def)
  then show ?thesis by (auto simp: recip_names_def)
qed

text \<open>One pass and the whole loop in terms of what is accepted.\<close>

lemma recip_value_eq:
  "if recip_legal Val \<and> set (recip_keys Val) \<inter> set seen = {}
   then recip_value A Val seen D = (Some (seen @ recip_keys Val), D)
   else \<exists>d. recip_value A Val seen D = (None, Diag d D)"
proof -
  define b where "b = refinement_base (recip_strip Val)"
  have v: "recip_value A Val seen D =
      (if \<not> step_ok Val
       then (None, Diag (err_drv_invalid_value (a_name A) (the (refinement_step (recip_strip Val)))) D)
       else if b \<in> set recip_names
       then (if b \<in> set seen then (None, Diag (err_drv_invalid_value (a_name A) (recip_strip Val)) D)
         else (Some (seen @ b # (if last b \<noteq> CHR ''f'' \<and> last b \<noteq> CHR ''d'' then [b @ ''d''] else [])), D))
       else if b @ ''f'' \<notin> set recip_names
       then (None, Diag (err_drv_unknown_argument (recip_strip Val)) D)
       else if b @ ''d'' \<in> set seen \<or> b @ ''f'' \<in> set seen
       then (None, Diag (err_drv_invalid_value (a_name A) (recip_strip Val)) D)
       else (Some (seen @ (b @ ''f'') # (if last b \<noteq> CHR ''f'' \<and> last b \<noteq> CHR ''d'' then [b @ ''d''] else [])), D))"
    by (simp add: recip_value_def Let_def recip_strip_def [symmetric] getRefinementStep_eq b_def [symmetric])
  show ?thesis
  proof (cases "b \<in> set recip_names")
    case True
    with recip_names_last [OF True] show ?thesis
      by (simp add: v recip_legal_def recip_keys_def b_def [symmetric]) blast
  next
    case False
    then show ?thesis
      using recip_names_base [of b]
      by (auto simp add: v recip_legal_def recip_keys_def b_def [symmetric])
  qed
qed

lemma distinct_keys: "distinct (recip_keys Val)"
  by (simp add: recip_keys_def Let_def)

lemma recip_loop_eq:
  "distinct seen \<Longrightarrow>
   if list_all recip_legal vs \<and> distinct (seen @ concat (map recip_keys vs))
   then recip_loop A vs seen Out D = (Some (Out @ commas vs), D)
   else \<exists>d. recip_loop A vs seen Out D = (None, Diag d D)"
proof (induction vs arbitrary: seen Out)
  case (Cons Val vs)
  show ?case
  proof (cases "recip_legal Val \<and> set (recip_keys Val) \<inter> set seen = {}")
    case True
    then have r: "recip_value A Val seen D = (Some (seen @ recip_keys Val), D)"
      using recip_value_eq [of Val seen A D] by simp
    let ?Out = "Out @ Val @ (if vs \<noteq> [] then '','' else [])"
    have step: "recip_loop A (Val # vs) seen Out D = recip_loop A vs (seen @ recip_keys Val) ?Out D"
      by (simp add: r)
    have out: "Out @ commas (Val # vs) = ?Out @ commas vs" by (cases vs) simp_all
    have "distinct (seen @ recip_keys Val)" using True Cons.prems distinct_keys by auto
    from Cons.IH [OF this, of ?Out] True
    show ?thesis unfolding step out by simp
  next
    case False
    then obtain d where "recip_value A Val seen D = (None, Diag d D)"
      using recip_value_eq [of Val seen A D] by (auto split: if_splits)
    then show ?thesis using False by auto
  qed
qed simp

text \<open>
  C25: \<open>-mrecip\<close> is accepted as a whole or not at all. \<open>ParseMRecip\<close> appends exactly one string, the values
  as they were given separated by commas, exactly when every value is a known name with at most one digit
  of refinement and no entry is named twice, also not by a name without suffix that stands for two (or the
  only value is \<open>all\<close>, \<open>none\<close> or \<open>default\<close>); otherwise it appends nothing and emits exactly one diagnostic.
\<close>

theorem recip_all_or_nothing:
  "case getLastArg Args [Tool OPT_mrecip, Tool OPT_mrecip_EQ] of
     None \<Rightarrow> ParseMRecip Args OutStrings D = (OutStrings, D)
   | Some A \<Rightarrow>
       if mrecip_ok (a_values A)
       then ParseMRecip Args OutStrings D = (OutStrings @ [mrecip_output (a_values A)], D)
       else \<exists>d. ParseMRecip Args OutStrings D = (OutStrings, Diag d D)"
proof (cases "getLastArg Args [Tool OPT_mrecip, Tool OPT_mrecip_EQ]")
  case (Some A)
  note l = recip_loop_eq [of "[]" "a_values A" A "''-mrecip=''" D]
  consider (none) "a_values A = []" | (one) v where "a_values A = [v]"
    | (more) v w vs where "a_values A = v # w # vs" by (metis neq_Nil_conv)
  then show ?thesis
  proof cases
    case none
    then show ?thesis using Some by (simp add: ParseMRecip_def mrecip_ok_def mrecip_output_def)
  next
    case one
    then show ?thesis using Some l
      by (auto simp: ParseMRecip_def mrecip_ok_def mrecip_output_def getRefinementStep_eq recip_legal_def
          simp del: recip_loop.simps split: if_splits)
  next
    case more
    then show ?thesis using Some l
      by (auto simp: ParseMRecip_def mrecip_ok_def mrecip_output_def simp del: recip_loop.simps split: if_splits)
  qed
qed (simp add: ParseMRecip_def)

end
