(* ===== verification/TargetCPUs.thy ===== *)
theory TargetCPUs
  imports ArmTools
begin

text \<open>
  The CPU of every target (\<open>Tools.cpp\<close>, \<open>getCPUName\<close> with the functions it calls). The Hexagon tool chain,
  LLVM's \<open>AArch64\<close> parsers, the conversion of numbers and the members of a group of options are
  the fields of \<open>target_env\<close>; \<open>te_getAsInteger\<close> is \<open>getAsInteger(10, \<dots>)\<close> into an \<open>int\<close>.
\<close>

record target_env =
  te_group :: "OptID \<Rightarrow> Arg list"
  te_getAsInteger :: "string \<Rightarrow> int option"
  te_HexagonCPUVersion :: string
  te_SmallDataThreshold :: "nat option"
  te_parseArch :: "string \<Rightarrow> ArchKind"
  te_parseCPUArch :: "string \<Rightarrow> ArchKind"
  te_getArchFeatures :: "ArchKind \<Rightarrow> bool \<times> string list"
  te_getDefaultExtensions :: "string \<Rightarrow> ArchKind \<Rightarrow> nat"
  te_getExtensionFeatures :: "nat \<Rightarrow> bool \<times> string list"
  te_getArchExtFeature :: "string \<Rightarrow> string"

text \<open>\<open>StringSwitch\<close>: the first case that matches, or the default.\<close>

definition switch :: "(string \<times> 'a) list \<Rightarrow> 'a \<Rightarrow> string \<Rightarrow> 'a" where
  "switch cases d s = (case map_of cases s of Some v \<Rightarrow> v | None \<Rightarrow> d)"

subsection \<open>AArch64\<close>

text \<open>The second result is the argument the name comes from, the null pointer if there is none.\<close>

definition getAArch64TargetCPU :: "arm_parser \<Rightarrow> ArgList \<Rightarrow> (string \<times> Arg option) res" where
  "getAArch64TargetCPU P Args =
     bnd (case getLastArg Args [Link OPT_mtune_EQ] of
            Some A \<Rightarrow> bnd (getValue A) (\<lambda>v. Inr (lower v, Some A))
          | None \<Rightarrow>
              (case getLastArg Args [Tool OPT_mcpu_EQ] of
                 Some A \<Rightarrow> bnd (getValue A) (\<lambda>v. Inr (lower (fst (split_plus v)), Some A))
               | None \<Rightarrow> Inr ([], None))) (\<lambda>(CPU, A).
       Inr (if CPU = ''native'' then getHostCPUName P
            else if CPU \<noteq> [] then CPU
            else if getLastArg Args [Link OPT_arch] \<noteq> None then ''cyclone'' else ''generic'', A))"

subsection \<open>MIPS\<close>

definition mips_archs :: "ArchType set" where
  "mips_archs = {Arch_mips, Arch_mipsel, Arch_mips64, Arch_mips64el}"

definition mips_default_cpus :: "Triple \<Rightarrow> string \<times> string" where
  "mips_default_cpus T =
     (let (Def32, Def64) =
            (if t_isAndroid T then (''mips32'', ''mips64r6'')
             else if t_Vendor T = Vendor_ImaginationTechnologies \<and> t_Environment T = Env_GNU
             then (''mips32r6'', ''mips64r6'') else (''mips32r2'', ''mips64r2''))
      in (Def32, if t_OS T = OS_OpenBSD then ''mips3'' else Def64))"

definition mips_vendor_abi :: "string \<Rightarrow> string" where
  "mips_vendor_abi = switch
     [(''mips1'', ''o32''), (''mips2'', ''o32''), (''mips3'', ''n64''), (''mips4'', ''n64''), (''mips5'', ''n64''),
      (''mips32'', ''o32''), (''mips32r2'', ''o32''), (''mips32r3'', ''o32''), (''mips32r5'', ''o32''),
      (''mips32r6'', ''o32''), (''mips64'', ''n64''), (''mips64r2'', ''n64''), (''mips64r3'', ''n64''),
      (''mips64r5'', ''n64''), (''mips64r6'', ''n64''), (''octeon'', ''n64''), (''p5600'', ''o32'')] []"

definition getMipsCPUAndABI :: "ArgList \<Rightarrow> Triple \<Rightarrow> (string \<times> string) res" where
  "getMipsCPUAndABI Args T =
     (let (Def32, Def64) = mips_default_cpus T
      in bnd (value_or (getLastArg Args [Tool OPT_march_EQ, Tool OPT_mcpu_EQ]) []) (\<lambda>CPU0.
         bnd (value_or (getLastArg Args [Tool OPT_mabi_EQ]) []) (\<lambda>v.
         let ABI0 = switch [(''32'', ''o32''), (''64'', ''n64'')] v v
         in bnd (if CPU0 = [] \<and> ABI0 = [] then
                   if t_Arch T = Arch_mips \<or> t_Arch T = Arch_mipsel then Inr Def32
                   else if t_Arch T = Arch_mips64 \<or> t_Arch T = Arch_mips64el then Inr Def64
                   else Inl Unreachable
                 else Inr CPU0) (\<lambda>CPU1.
            let ABI1 = (if ABI0 = [] \<and> (t_Vendor T = Vendor_MipsTechnologies \<or> t_Vendor T = Vendor_ImaginationTechnologies)
                        then mips_vendor_abi CPU1 else ABI0);
                ABI2 = (if ABI1 = [] then if t_Arch T = Arch_mips \<or> t_Arch T = Arch_mipsel then ''o32'' else ''n64''
                        else ABI1);
                CPU2 = (if CPU1 = [] then switch [(''o32'', Def32), (''n32'', Def64), (''n64'', Def64)] [] ABI2 else CPU1)
            in Inr (CPU2, ABI2)))))"

text \<open>A switch without a default: falling off its end is an assertion that fails.\<close>

definition getMipsABILibSuffix :: "ArgList \<Rightarrow> Triple \<Rightarrow> string res" where
  "getMipsABILibSuffix Args T =
     bnd (getMipsCPUAndABI Args T) (\<lambda>(CPUName, ABIName).
       switch [(''o32'', Inr []), (''n32'', Inr ''32''), (''n64'', Inr ''64'')] (Inl Unreachable) ABIName)"

subsection \<open>PowerPC, R600, Lanai, SystemZ\<close>

definition ppc_cpus :: "(string \<times> string) list" where
  "ppc_cpus =
     [(''common'', ''generic''), (''440'', ''440''), (''440fp'', ''440''), (''450'', ''450''), (''601'', ''601''),
      (''602'', ''602''), (''603'', ''603''), (''603e'', ''603e''), (''603ev'', ''603ev''), (''604'', ''604''),
      (''604e'', ''604e''), (''620'', ''620''), (''630'', ''pwr3''), (''G3'', ''g3''), (''7400'', ''7400''),
      (''G4'', ''g4''), (''7450'', ''7450''), (''G4+'', ''g4+''), (''750'', ''750''), (''970'', ''970''),
      (''G5'', ''g5''), (''a2'', ''a2''), (''a2q'', ''a2q''), (''e500mc'', ''e500mc''), (''e5500'', ''e5500''),
      (''power3'', ''pwr3''), (''power4'', ''pwr4''), (''power5'', ''pwr5''), (''power5x'', ''pwr5x''),
      (''power6'', ''pwr6''), (''power6x'', ''pwr6x''), (''power7'', ''pwr7''), (''power8'', ''pwr8''),
      (''power9'', ''pwr9''), (''pwr3'', ''pwr3''), (''pwr4'', ''pwr4''), (''pwr5'', ''pwr5''),
      (''pwr5x'', ''pwr5x''), (''pwr6'', ''pwr6''), (''pwr6x'', ''pwr6x''), (''pwr7'', ''pwr7''),
      (''pwr8'', ''pwr8''), (''pwr9'', ''pwr9''), (''powerpc'', ''ppc''), (''powerpc64'', ''ppc64''),
      (''powerpc64le'', ''ppc64le'')]"

definition getPPCTargetCPU :: "arm_parser \<Rightarrow> ArgList \<Rightarrow> string res" where
  "getPPCTargetCPU P Args =
     (case getLastArg Args [Tool OPT_mcpu_EQ] of
        None \<Rightarrow> Inr []
      | Some A \<Rightarrow> bnd (getValue A) (\<lambda>CPUName.
          if CPUName = ''native'' then
            let CPU = getHostCPUName P in Inr (if CPU \<noteq> [] \<and> CPU \<noteq> ''generic'' then CPU else [])
          else Inr (switch ppc_cpus [] CPUName)))"

definition getR600TargetGPU :: "ArgList \<Rightarrow> string res" where
  "getR600TargetGPU Args =
     (case getLastArg Args [Tool OPT_mcpu_EQ] of
        None \<Rightarrow> Inr []
      | Some A \<Rightarrow> bnd (getValue A) (\<lambda>GPUName. Inr (switch
          [(''rv630'', ''r600''), (''rv635'', ''r600''), (''rv610'', ''rs880''), (''rv620'', ''rs880''),
           (''rs780'', ''rs880''), (''rv740'', ''rv770''), (''palm'', ''cedar''), (''sumo'', ''sumo''),
           (''sumo2'', ''sumo''), (''hemlock'', ''cypress''), (''aruba'', ''cayman'')] GPUName GPUName)))"

definition getLanaiTargetCPU :: "ArgList \<Rightarrow> string res" where
  "getLanaiTargetCPU Args = value_or (getLastArg Args [Tool OPT_mcpu_EQ]) []"

definition getSystemZTargetCPU :: "ArgList \<Rightarrow> string res" where
  "getSystemZTargetCPU Args = value_or (getLastArg Args [Tool OPT_march_EQ]) ''z10''"

subsection \<open>X86 and WebAssembly\<close>

definition slash_arch_cpu :: "Triple \<Rightarrow> string \<Rightarrow> string option" where
  "slash_arch_cpu T Arch =
     (if t_Arch T = Arch_x86 then
        map_of [(''IA32'', ''i386''), (''SSE'', ''pentium3''), (''SSE2'', ''pentium4''), (''AVX'', ''sandybridge''),
          (''AVX2'', ''haswell'')] Arch
      else map_of [(''AVX'', ''sandybridge''), (''AVX2'', ''haswell'')] Arch)"

definition x86_default_cpu :: "Triple \<Rightarrow> string option" where
  "x86_default_cpu T =
     (let Is64Bit = (t_Arch T = Arch_x86_64)
      in if t_Arch T \<noteq> Arch_x86_64 \<and> t_Arch T \<noteq> Arch_x86 then None
         else Some (
           if t_isOSDarwin T then
             if t_ArchName T = ''x86_64h'' then ''core-avx2''
             else if t_isMacOSX T \<and> \<not> t_isOSVersionLT10_12 T then ''penryn''
             else if Is64Bit then ''core2'' else ''yonah''
           else if t_isPS4CPU T then ''btver2''
           else if t_isAndroid T then if Is64Bit then ''x86-64'' else ''i686''
           else if Is64Bit then ''x86-64''
           else if t_OS T \<in> {OS_FreeBSD, OS_NetBSD, OS_OpenBSD} then ''i486''
           else if t_OS T = OS_Haiku then ''i586''
           else if t_OS T = OS_Bitrig then ''i686''
           else ''pentium4''))"

definition x86_march_cpu :: "arm_parser \<Rightarrow> Triple \<Rightarrow> string \<Rightarrow> string option" where
  "x86_march_cpu P T v =
     (if v \<noteq> ''native'' then Some (if t_isOSDarwin T \<and> t_ArchName T = ''x86_64h'' then ''core-avx2'' else v)
      else let CPU = getHostCPUName P in if CPU \<noteq> [] \<and> CPU \<noteq> ''generic'' then Some CPU else None)"

definition from_option :: "Arg option \<Rightarrow> (string \<Rightarrow> string option) \<Rightarrow> string option res" where
  "from_option A f = (case A of None \<Rightarrow> Inr None | Some A \<Rightarrow> bnd (getValue A) (\<lambda>v. Inr (f v)))"

text \<open>\<open>None\<close> is the null pointer.\<close>

definition getX86TargetCPU :: "arm_parser \<Rightarrow> ArgList \<Rightarrow> Triple \<Rightarrow> string option res" where
  "getX86TargetCPU P Args T =
     bnd (from_option (getLastArg Args [Tool OPT_march_EQ]) (x86_march_cpu P T)) (\<lambda>c.
       if c \<noteq> None then Inr c
       else bnd (from_option (getLastArg Args [Tgt OPT__SLASH_arch]) (slash_arch_cpu T)) (\<lambda>c.
         Inr (if c \<noteq> None then c else x86_default_cpu T)))"

text \<open>As compiled for a host that is not WebAssembly itself.\<close>

definition getWebAssemblyTargetCPU :: "ArgList \<Rightarrow> string res" where
  "getWebAssemblyTargetCPU Args = value_or (getLastArg Args [Tool OPT_mcpu_EQ]) ''generic''"

subsection \<open>All targets\<close>

definition getCPUName :: "arm_parser \<Rightarrow> target_env \<Rightarrow> ArgList \<Rightarrow> Triple \<Rightarrow> bool \<Rightarrow> string res" where
  "getCPUName P E Args T FromAs =
     (let a = t_Arch T
      in if a = Arch_aarch64 \<or> a = Arch_aarch64_be then
           bnd (getAArch64TargetCPU P Args) (\<lambda>(CPU, A). Inr CPU)
         else if a \<in> arm_archs then
           bnd (getARMArchCPUFromArgs Args FromAs ([], [])) (\<lambda>(MArch, MCPU). Inr (getARMTargetCPU P MCPU MArch T))
         else if a \<in> mips_archs then bnd (getMipsCPUAndABI Args T) (\<lambda>(CPUName, ABIName). Inr CPUName)
         else if a = Arch_nvptx \<or> a = Arch_nvptx64 then value_or (getLastArg Args [Tool OPT_march_EQ]) []
         else if a = Arch_ppc \<or> a = Arch_ppc64 \<or> a = Arch_ppc64le then
           bnd (getPPCTargetCPU P Args) (\<lambda>TargetCPUName.
             Inr (if TargetCPUName = [] \<and> \<not> t_isOSDarwin T then
                    if a = Arch_ppc64 then ''ppc64'' else if a = Arch_ppc64le then ''ppc64le'' else ''ppc''
                  else TargetCPUName))
         else if a = Arch_sparc \<or> a = Arch_sparcel \<or> a = Arch_sparcv9 then
           value_or (getLastArg Args [Tool OPT_mcpu_EQ]) []
         else if a = Arch_x86 \<or> a = Arch_x86_64 then
           bnd (getX86TargetCPU P Args T) (\<lambda>c. case c of None \<Rightarrow> Inl NullPointer | Some CPU \<Rightarrow> Inr CPU)
         else if a = Arch_hexagon then Inr (''hexagon'' @ te_HexagonCPUVersion E)
         else if a = Arch_lanai then getLanaiTargetCPU Args
         else if a = Arch_systemz then getSystemZTargetCPU Args
         else if a = Arch_r600 \<or> a = Arch_amdgcn then getR600TargetGPU Args
         else if a = Arch_wasm32 \<or> a = Arch_wasm64 then getWebAssemblyTargetCPU Args
         else Inr [])"

subsection \<open>Every target has an answer\<close>

lemma value_last:
  assumes "args_valued Args" and "set ids \<subseteq> valued"
  shows "\<exists>v. value_or (getLastArg Args ids) old = Inr v" "\<exists>v. from_option (getLastArg Args ids) f = Inr v"
  using has_value_last [OF assms]
  by (auto simp: value_or_def from_option_def has_value_def getValue_def vget_def split: option.split)

text \<open>The ABI has a name, and the architecture is one the function expects.\<close>

lemma getMipsCPUAndABI_ok:
  assumes "args_valued Args" and "t_Arch T \<in> mips_archs"
  shows "\<exists>CPU ABI. getMipsCPUAndABI Args T = Inr (CPU, ABI) \<and> ABI \<noteq> []"
proof -
  obtain c where c: "value_or (getLastArg Args [Tool OPT_march_EQ, Tool OPT_mcpu_EQ]) [] = Inr c"
    using value_last(1) [OF assms(1), of "[Tool OPT_march_EQ, Tool OPT_mcpu_EQ]" "[]"] by auto
  obtain a where a: "value_or (getLastArg Args [Tool OPT_mabi_EQ]) [] = Inr a"
    using value_last(1) [OF assms(1), of "[Tool OPT_mabi_EQ]" "[]"] by auto
  show ?thesis
    using assms(2) by (auto simp: getMipsCPUAndABI_def c a split_def Let_def mips_archs_def)
qed

lemma getX86TargetCPU_ok:
  assumes "args_valued Args" and "t_Arch T = Arch_x86 \<or> t_Arch T = Arch_x86_64"
  shows "\<exists>CPU. getX86TargetCPU P Args T = Inr (Some CPU)"
proof -
  obtain c where c: "from_option (getLastArg Args [Tool OPT_march_EQ]) (x86_march_cpu P T) = Inr c"
    using value_last(2) [OF assms(1), of "[Tool OPT_march_EQ]" "x86_march_cpu P T"] by auto
  obtain a where a: "from_option (getLastArg Args [Tgt OPT__SLASH_arch]) (slash_arch_cpu T) = Inr a"
    using value_last(2) [OF assms(1), of "[Tgt OPT__SLASH_arch]" "slash_arch_cpu T"] by auto
  have "x86_default_cpu T \<noteq> None" using assms(2) by (auto simp: x86_default_cpu_def)
  then show ?thesis by (auto simp: getX86TargetCPU_def c a)
qed

lemma assembler_arch_cpu_ok:
  "\<forall>A \<in> set As. a_values A \<noteq> [] \<Longrightarrow> \<exists>r'. assembler_arch_cpu As r = Inr r'"
  by (induction As r rule: assembler_arch_cpu.induct) (simp_all add: getValue_hd)

lemma getARMArchCPUFromArgs_ok:
  assumes "args_valued Args"
  shows "\<exists>a c. getARMArchCPUFromArgs Args FromAs r = Inr (a, c)"
proof -
  obtain a0 c0 where r: "r = (a0, c0)" by (cases r)
  obtain c where c: "value_or (getLastArg Args [Tool OPT_mcpu_EQ]) c0 = Inr c"
    using value_last(1) [OF assms, of "[Tool OPT_mcpu_EQ]" c0] by auto
  obtain a where a: "value_or (getLastArg Args [Tool OPT_march_EQ]) a0 = Inr a"
    using value_last(1) [OF assms, of "[Tool OPT_march_EQ]" a0] by auto
  have "\<forall>A \<in> set (filtered [Tool OPT_Wa_COMMA, Tool OPT_Xassembler] Args). a_values A \<noteq> []"
    using assms by (auto simp: args_valued_def filtered_def valued_def)
  from assembler_arch_cpu_ok [OF this, of "(a, c)"] show ?thesis
    by (auto simp: getARMArchCPUFromArgs_def r a c)
qed

lemma getAArch64TargetCPU_ok:
  assumes "args_valued Args"
  shows "\<exists>CPU A. getAArch64TargetCPU P Args = Inr (CPU, A) \<and> CPU \<noteq> ''native'' \<or>
    getAArch64TargetCPU P Args = Inr (getHostCPUName P, A)"
  using has_value_last [OF assms, of "[Link OPT_mtune_EQ]"] has_value_last [OF assms, of "[Tool OPT_mcpu_EQ]"]
  by (auto simp: getAArch64TargetCPU_def has_value_def getValue_hd split: option.splits)

lemma if_ok: "(b \<Longrightarrow> \<exists>y. x = Inr y) \<Longrightarrow> (\<not> b \<Longrightarrow> \<exists>y. z = Inr y) \<Longrightarrow> \<exists>y. (if b then x else z) = Inr y"
  by simp

lemma getCPUName_ok:
  assumes "args_valued Args"
  shows "\<exists>CPU. getCPUName P E Args T FromAs = Inr CPU"
proof -
  have v: "\<exists>v. value_or (getLastArg Args [Tool OPT_mcpu_EQ]) old = Inr v"
    "\<exists>v. value_or (getLastArg Args [Tool OPT_march_EQ]) old = Inr v" for old
    using value_last(1) [OF assms, of "[Tool OPT_mcpu_EQ]" old] value_last(1) [OF assms, of "[Tool OPT_march_EQ]" old]
    by auto
  have m: "has_value (getLastArg Args [Tool OPT_mcpu_EQ])"
    using has_value_last [OF assms, of "[Tool OPT_mcpu_EQ]"] by simp
  have ppc: "\<exists>c. getPPCTargetCPU P Args = Inr c" and r600: "\<exists>c. getR600TargetGPU Args = Inr c"
    using m by (auto simp: getPPCTargetCPU_def getR600TargetGPU_def has_value_def getValue_hd Let_def split: option.split)
  have mips: "\<exists>c. bnd (getMipsCPUAndABI Args T) (\<lambda>(CPUName, ABIName). Inr CPUName) = Inr c" if "t_Arch T \<in> mips_archs"
    using getMipsCPUAndABI_ok [OF assms that] by auto
  have x86: "\<exists>c. bnd (getX86TargetCPU P Args T) (\<lambda>c. case c of None \<Rightarrow> Inl NullPointer | Some CPU \<Rightarrow> Inr CPU) = Inr c"
    if "t_Arch T = Arch_x86 \<or> t_Arch T = Arch_x86_64"
    using getX86TargetCPU_ok [OF assms that, of P] by auto
  obtain c1 A1 where a64: "getAArch64TargetCPU P Args = Inr (c1, A1)" using getAArch64TargetCPU_ok [OF assms, of P] by auto
  obtain c2 c3 where arm: "getARMArchCPUFromArgs Args FromAs ([], []) = Inr (c2, c3)"
    using getARMArchCPUFromArgs_ok [OF assms, of FromAs "([], [])"] by auto
  show ?thesis
    unfolding getCPUName_def Let_def getLanaiTargetCPU_def getSystemZTargetCPU_def getWebAssemblyTargetCPU_def
    using ppc r600 by (intro if_ok) (auto simp: a64 arm intro: mips x86 v)
qed

text \<open>Parsers that know nothing, for the examples.\<close>

definition demo_target :: target_env where
  "demo_target = \<lparr>te_group = (\<lambda>_. []), te_getAsInteger = (\<lambda>s. if s = ''4'' then Some 4 else if s = ''8'' then Some 8 else None),
     te_HexagonCPUVersion = ''v60'', te_SmallDataThreshold = None, te_parseArch = (\<lambda>_. AK_INVALID),
     te_parseCPUArch = (\<lambda>_. AK_INVALID), te_getArchFeatures = (\<lambda>_. (False, [])),
     te_getDefaultExtensions = (\<lambda>_ _. 0), te_getExtensionFeatures = (\<lambda>_. (False, [])), te_getArchExtFeature = (\<lambda>_. [])\<rparr>"

end
