(* ===== verification/GnuLinker.thy ===== *)
theory GnuLinker
  imports SanitizerRuntimes TargetCPUs "HOL-Library.Sublist"
begin

text \<open>
  The command line of the linker on Linux (\<open>Tools.cpp\<close>, \<open>gnutools::Linker::ConstructJob\<close> with the functions
  it calls). For the embedded triple this is where the runtime of the race detector enters a program. The
  answers of the classes \<open>Linux\<close>, \<open>Driver\<close>, \<open>JobAction\<close> and \<open>InputInfo\<close>, which are not part of the repository,
  are the fields of \<open>linker_env\<close> and \<open>input_info\<close>; so are the rendered arguments. What OpenMP
  offloading adds is a field too.
\<close>

subsection \<open>The surroundings\<close>

datatype OpenMPRuntimeKind = OMPRT_Unknown | OMPRT_OMP | OMPRT_GOMP | OMPRT_IOMP5

datatype RuntimeLibType = RLT_CompilerRT | RLT_Libgcc

record linker_env =
  e_LinkerPath :: string
  e_filename :: "string \<Rightarrow> string"
  e_SysRoot :: string
  e_isPIEDefault :: bool
  e_hasEnvironment :: bool
  e_isOSIAMCU :: bool
  e_isOSCygMing :: bool
  e_isMSVC :: bool
  e_target :: target_env
  e_ExtraOpts :: "string list"
  e_DyldPrefix :: string
  e_DynamicLinker :: string
  e_GetFilePath :: "string \<Rightarrow> string"
  e_FastMath :: "string list"
  e_matching :: "OptID \<Rightarrow> Arg list"
  e_AllArgs :: "OptID \<Rightarrow> string list"
  e_AllArgValues :: "OptID \<Rightarrow> string list"
  e_render :: "Arg \<Rightarrow> string list"
  e_renderAsInput :: "Arg \<Rightarrow> string list"
  e_FilePathLibArgs :: "string list"
  e_Dir :: string
  e_LIBDIR_SUFFIX :: string
  e_ThinLTO :: bool
  e_getAsUnsigned :: "string \<Rightarrow> nat option"
  e_ProfileRT :: "string list"
  e_CXXStdlib :: "string list"
  e_CCKextLib :: "string list"
  e_Libcxx :: bool
  e_OpenMPRuntime :: OpenMPRuntimeKind
  e_HostOffloading :: bool
  e_RuntimeLib :: RuntimeLibType
  e_NativeLLVM :: bool
  e_CrossCompiling :: bool
  e_LIBRARY_PATH :: "string option"
  e_OpenMPLinkerScript :: "string list"

record input_info =
  i_DeviceOffloading :: bool
  i_LLVMIR :: bool
  i_filename :: "string option"
  i_arg :: Arg

type_synonym cmd = "string list \<times> drv"

subsection \<open>Inputs\<close>

text \<open>\<open>addDirectoryList\<close>: \<open>DirList\<close> is the value of the environment variable; \<open>dir_arg\<close> adds one directory,
  the empty one being the current one.\<close>

definition dir_arg :: "string \<Rightarrow> string \<Rightarrow> string list" where
  "dir_arg ArgName dir =
     (let d = (if dir = [] then ''.'' else dir)
      in if ArgName = ''-I'' \<or> ArgName = ''-L'' then [ArgName @ d] else [ArgName, d])"

function add_dirs :: "string \<Rightarrow> string \<Rightarrow> string list \<Rightarrow> string list" where
  "add_dirs ArgName Dirs CmdArgs =
     (case dropWhile (\<lambda>c. c \<noteq> CHR '':'') Dirs of
        [] \<Rightarrow> CmdArgs @ dir_arg ArgName Dirs
      | _ # rest \<Rightarrow> add_dirs ArgName rest (CmdArgs @ dir_arg ArgName (takeWhile (\<lambda>c. c \<noteq> CHR '':'') Dirs)))"
  by pat_completeness auto

termination
proof (relation "measure (\<lambda>(a, ds, c). length ds)")
  show "wf (measure (\<lambda>(a, ds, c). length ds))" by simp
  fix ArgName Dirs :: string and CmdArgs x rest
  assume "dropWhile (\<lambda>c. c \<noteq> CHR '':'') Dirs = x # rest"
  then have "length (x # rest) \<le> length Dirs" by (metis length_dropWhile_le)
  then show "((ArgName, rest, CmdArgs @ dir_arg ArgName (takeWhile (\<lambda>c. c \<noteq> CHR '':'') Dirs)), ArgName, Dirs, CmdArgs)
      \<in> measure (\<lambda>(a, ds, c). length ds)" by simp
qed

declare add_dirs.simps [simp del]

definition addDirectoryList :: "string \<Rightarrow> string option \<Rightarrow> string list \<Rightarrow> string list" where
  "addDirectoryList ArgName DirList CmdArgs =
     (case DirList of
        None \<Rightarrow> CmdArgs
      | Some Dirs \<Rightarrow> if Dirs = [] then CmdArgs else add_dirs ArgName Dirs CmdArgs)"

definition linker_input :: "linker_env \<Rightarrow> ToolChain \<Rightarrow> input_info \<Rightarrow> cmd \<Rightarrow> cmd" where
  "linker_input E TC II = (\<lambda>(CmdArgs, D).
     if e_HostOffloading E \<and> i_DeviceOffloading II then (CmdArgs, D)
     else
       let D1 = Diag_if (\<not> e_NativeLLVM E \<and> i_LLVMIR II) (err_drv_no_linker_llvm_support (t_str (tc_Triple TC))) D
       in case i_filename II of
           Some F \<Rightarrow> (CmdArgs @ [F], D1)
         | None \<Rightarrow>
             let A = i_arg II
             in if a_opt A = Link OPT_Z_reserved_lib_stdcxx then (CmdArgs @ e_CXXStdlib E, D1)
                else if a_opt A = Link OPT_Z_reserved_lib_cckext then (CmdArgs @ e_CCKextLib E, D1)
                else if a_opt A = Link OPT_z then (CmdArgs @ e_render E A, claim A D1)
                else (CmdArgs @ e_renderAsInput E A, D1))"

definition AddLinkerInputs :: "linker_env \<Rightarrow> ToolChain \<Rightarrow> input_info list \<Rightarrow> cmd \<Rightarrow> cmd" where
  "AddLinkerInputs E TC Inputs = (\<lambda>(CmdArgs, D).
     let (c, D1) = fold (linker_input E TC) Inputs (CmdArgs @ e_AllArgValues E (Link OPT_Zlinker_input), D)
     in (if \<not> e_CrossCompiling E then addDirectoryList ''-L'' (e_LIBRARY_PATH E) c else c, D1))"

subsection \<open>Link-time optimisation\<close>

definition getLTOParallelism :: "linker_env \<Rightarrow> ArgList \<Rightarrow> drv \<Rightarrow> (nat \<times> drv) res" where
  "getLTOParallelism E Args D =
     (case getLastArg Args [Link OPT_flto_jobs_EQ] of
        None \<Rightarrow> Inr (0, D)
      | Some A \<Rightarrow> bnd (getValue A) (\<lambda>v.
          case e_getAsUnsigned E v of
            Some n \<Rightarrow> Inr (n, D)
          | None \<Rightarrow> Inr (0, Diag (err_drv_invalid_int_value (a_string A) v) D)))"

definition gold_optimisation :: "ArgList \<Rightarrow> string list res" where
  "gold_optimisation Args =
     (case getLastArg Args [Tool OPT_O_Group] of
        None \<Rightarrow> Inr []
      | Some A \<Rightarrow>
          bnd (if a_opt A = Link OPT_O4 \<or> a_opt A = Link OPT_Ofast then Inr ''3''
               else if a_opt A = Link OPT_O then getValue A
               else if a_opt A = Tool OPT_O0 then Inr ''0'' else Inr []) (\<lambda>OOpt.
            Inr (when_flag (OOpt \<noteq> []) [''-plugin-opt=O'' @ OOpt])))"

definition gold_tuning :: "ArgList \<Rightarrow> string list" where
  "gold_tuning Args =
     (case getLastArg Args [Link OPT_gTune_Group, Link OPT_ggdbN_Group] of
        None \<Rightarrow> []
      | Some A \<Rightarrow>
          [if a_opt A = Link OPT_glldb then ''-plugin-opt=-debugger-tune=lldb''
           else if a_opt A = Link OPT_gsce then ''-plugin-opt=-debugger-tune=sce''
           else ''-plugin-opt=-debugger-tune=gdb''])"

definition gold_profile :: "ToolChain \<Rightarrow> ArgList \<Rightarrow> drv \<Rightarrow> (string list \<times> drv) res" where
  "gold_profile TC Args D =
     (case getLastArg Args [Link OPT_fprofile_sample_use_EQ] of
        None \<Rightarrow> Inr ([], D)
      | Some A \<Rightarrow> bnd (getValue A) (\<lambda>FName.
          Inr (if \<not> tc_exists TC FName then ([], Diag (err_drv_no_such_file FName) D)
               else ([''-plugin-opt=sample-profile='' @ FName], D))))"

definition AddGoldPlugin :: "arm_parser \<Rightarrow> linker_env \<Rightarrow> ToolChain \<Rightarrow> ArgList \<Rightarrow> bool \<Rightarrow> cmd \<Rightarrow> cmd res" where
  "AddGoldPlugin P E TC Args IsThinLTO = (\<lambda>(CmdArgs, D).
     bnd (getCPUName P (e_target E) Args (tc_Triple TC) False) (\<lambda>CPU.
     bnd (gold_optimisation Args) (\<lambda>opt.
     bnd (getLTOParallelism E Args D) (\<lambda>(Parallelism, D1).
     bnd (gold_profile TC Args D1) (\<lambda>(profile, D2).
       let sections = isUseSeparateSections (tc_EffectiveTriple TC)
       in Inr (CmdArgs @ [''-plugin'', e_Dir E @ ''/../lib'' @ e_LIBDIR_SUFFIX E @ ''/LLVMgold.so''] @
           when_flag (CPU \<noteq> []) [''-plugin-opt=mcpu='' @ CPU] @ opt @
           when_flag IsThinLTO [''-plugin-opt=thinlto''] @
           when_flag (Parallelism \<noteq> 0) [''-plugin-opt=jobs='' @ show_nat Parallelism] @
           gold_tuning Args @
           when_flag (hasFlag Args (Link OPT_ffunction_sections) (Link OPT_fno_function_sections) sections)
             [''-plugin-opt=-function-sections''] @
           when_flag (hasFlag Args (Link OPT_fdata_sections) (Link OPT_fno_data_sections) sections)
             [''-plugin-opt=-data-sections''] @ profile, D2))))))"

subsection \<open>Compiler runtimes\<close>

definition AddLibgcc :: "linker_env \<Rightarrow> ToolChain \<Rightarrow> ArgList \<Rightarrow> string list" where
  "AddLibgcc E TC Args =
     (let isAndroid = t_isAndroid (tc_Triple TC); cxx = tc_CCCIsCXX TC;
          StaticLibgcc = hasArg Args [Link OPT_static_libgcc] \<or> hasArg Args [Link OPT_static];
          needed = \<not> cxx \<and> \<not> e_isOSCygMing E
      in when_flag (\<not> cxx) [''-lgcc''] @
         (if StaticLibgcc \<or> isAndroid then when_flag cxx [''-lgcc'']
          else when_flag needed [''--as-needed''] @ [''-lgcc_s''] @ when_flag needed [''--no-as-needed'']) @
         (if StaticLibgcc \<and> \<not> isAndroid \<and> \<not> e_isOSIAMCU E then [''-lgcc_eh'']
          else when_flag (\<not> hasArg Args [Tool OPT_shared] \<and> cxx) [''-lgcc'']) @
         when_flag (isAndroid \<and> \<not> StaticLibgcc) [''-ldl''])"

definition AddRunTimeLibs :: "linker_env \<Rightarrow> ToolChain \<Rightarrow> ArgList \<Rightarrow> cmd \<Rightarrow> cmd res" where
  "AddRunTimeLibs E TC Args = (\<lambda>(CmdArgs, D).
     case e_RuntimeLib E of
       RLT_CompilerRT \<Rightarrow>
         if t_OS (tc_Triple TC) \<in> {OS_Win32, OS_Linux, OS_Fuchsia} then Inr (addClangRT TC CmdArgs, D)
         else Inl Unreachable
     | RLT_Libgcc \<Rightarrow>
         if e_isMSVC E then
           if hasArg Args [Link OPT_rtlib_EQ] then
             case getLastArg Args [Link OPT_rtlib_EQ] of
               None \<Rightarrow> Inl Unreachable
             | Some A \<Rightarrow> bnd (getValue A) (\<lambda>v.
                 Inr (CmdArgs, Diag (err_drv_unsupported_rtlib_for_platform v ''MSVC'') D))
           else Inr (CmdArgs, D)
         else Inr (CmdArgs @ AddLibgcc E TC Args, D))"

definition hasMipsAbiArg :: "ArgList \<Rightarrow> string \<Rightarrow> bool res" where
  "hasMipsAbiArg Args Value =
     (case getLastArg Args [Tool OPT_mabi_EQ] of
        None \<Rightarrow> Inr False
      | Some A \<Rightarrow> bnd (getValue A) (\<lambda>v. Inr (v = Value)))"

definition getLDMOption :: "linker_env \<Rightarrow> Triple \<Rightarrow> ArgList \<Rightarrow> string option res" where
  "getLDMOption E T Args =
     (let a = t_Arch T
      in if a = Arch_x86 then Inr (Some (if e_isOSIAMCU E then ''elf_iamcu'' else ''elf_i386''))
         else if a = Arch_aarch64 then Inr (Some ''aarch64linux'')
         else if a = Arch_aarch64_be then Inr (Some ''aarch64_be_linux'')
         else if a = Arch_arm \<or> a = Arch_thumb then Inr (Some ''armelf_linux_eabi'')
         else if a = Arch_armeb \<or> a = Arch_thumbeb then Inr (Some ''armelfb_linux_eabi'')
         else if a = Arch_ppc then Inr (Some ''elf32ppclinux'')
         else if a = Arch_ppc64 then Inr (Some ''elf64ppc'')
         else if a = Arch_ppc64le then Inr (Some ''elf64lppc'')
         else if a = Arch_sparc \<or> a = Arch_sparcel then Inr (Some ''elf32_sparc'')
         else if a = Arch_sparcv9 then Inr (Some ''elf64_sparc'')
         else if a = Arch_mips then Inr (Some ''elf32btsmip'')
         else if a = Arch_mipsel then Inr (Some ''elf32ltsmip'')
         else if a = Arch_mips64 then
           bnd (hasMipsAbiArg Args ''n32'') (\<lambda>b. Inr (Some (if b then ''elf32btsmipn32'' else ''elf64btsmip'')))
         else if a = Arch_mips64el then
           bnd (hasMipsAbiArg Args ''n32'') (\<lambda>b. Inr (Some (if b then ''elf32ltsmipn32'' else ''elf64ltsmip'')))
         else if a = Arch_systemz then Inr (Some ''elf64_s390'')
         else if a = Arch_x86_64 then
           Inr (Some (if t_Environment T = Env_GNUX32 then ''elf32_x86_64'' else ''elf_x86_64''))
         else Inr None)"

subsection \<open>The linker's job\<close>

text \<open>The parts of \<open>ConstructJob\<close> in order. \<open>link_pie\<close> is \<open>IsPIE\<close>, \<open>crt_files\<close> is \<open>HasCRTBeginEndFiles\<close>.\<close>

definition link_pie :: "linker_env \<Rightarrow> ArgList \<Rightarrow> bool" where
  "link_pie E Args \<longleftrightarrow> \<not> hasArg Args [Tool OPT_shared] \<and> \<not> hasArg Args [Link OPT_static] \<and>
     (hasArg Args [Link OPT_pie] \<or> e_isPIEDefault E)"

definition crt_files :: "linker_env \<Rightarrow> ToolChain \<Rightarrow> bool" where
  "crt_files E TC \<longleftrightarrow> e_hasEnvironment E \<or> t_Vendor (tc_Triple TC) \<noteq> Vendor_MipsTechnologies"

definition link_head :: "arm_parser \<Rightarrow> linker_env \<Rightarrow> ToolChain \<Rightarrow> ArgList \<Rightarrow> string list res" where
  "link_head P E TC Args =
     (let Arch = t_Arch (tc_Triple TC); T = tc_EffectiveTriple TC;
          c0 = when_flag (e_filename E (e_LinkerPath E) = ''lld'')
                 [''-flavor'', ''old-gnu'', ''-target'', t_str (tc_Triple TC)] @
               when_flag (e_SysRoot E \<noteq> []) [''--sysroot='' @ e_SysRoot E] @
               when_flag (link_pie E Args) [''-pie''] @
               when_flag (hasArg Args [Link OPT_rdynamic]) [''-export-dynamic''] @
               when_flag (hasArg Args [Link OPT_s]) [''-s''];
          c1 = (if Arch = Arch_armeb \<or> Arch = Arch_thumbeb then appendEBLinkFlags P T Args c0 else c0)
      in bnd (if Arch = Arch_aarch64 \<and> t_isAndroid (tc_Triple TC)
              then bnd (getCPUName P (e_target E) Args T False) (\<lambda>CPU.
                Inr (when_flag (CPU = [] \<or> CPU = ''generic'' \<or> CPU = ''cortex-a53'') [''--fix-cortex-a53-843419'']))
              else Inr []) (\<lambda>fix.
         Inr (c1 @ fix @ e_ExtraOpts E @ when_flag (\<not> hasArg Args [Link OPT_static]) [''--eh-frame-hdr''])))"

definition link_mode :: "linker_env \<Rightarrow> ToolChain \<Rightarrow> ArgList \<Rightarrow> string list" where
  "link_mode E TC Args =
     (let static = hasArg Args [Link OPT_static]; shared = hasArg Args [Tool OPT_shared]
      in (if static then
            if t_Arch (tc_Triple TC) \<in> {Arch_arm, Arch_armeb, Arch_thumb, Arch_thumbeb} then [''-Bstatic''] else [''-static'']
          else when_flag shared [''-shared'']) @
         when_flag (\<not> static) (
           when_flag (hasArg Args [Link OPT_rdynamic]) [''-export-dynamic''] @
           when_flag (\<not> shared) [''-dynamic-linker'', e_DyldPrefix E @ e_DynamicLinker E]))"

definition crt1 :: "linker_env \<Rightarrow> ArgList \<Rightarrow> string list" where
  "crt1 E Args =
     when_flag (\<not> hasArg Args [Tool OPT_shared])
       [if hasArg Args [Tool OPT_pg] then ''gcrt1.o'' else if link_pie E Args then ''Scrt1.o'' else ''crt1.o'']"

definition crtbegin :: "linker_env \<Rightarrow> ArgList \<Rightarrow> bool \<Rightarrow> string" where
  "crtbegin E Args isAndroid =
     (if hasArg Args [Link OPT_static] then if isAndroid then ''crtbegin_static.o'' else ''crtbeginT.o''
      else if hasArg Args [Tool OPT_shared] then if isAndroid then ''crtbegin_so.o'' else ''crtbeginS.o''
      else if link_pie E Args then if isAndroid then ''crtbegin_dynamic.o'' else ''crtbeginS.o''
      else if isAndroid then ''crtbegin_dynamic.o'' else ''crtbegin.o'')"

definition link_startfiles :: "linker_env \<Rightarrow> ToolChain \<Rightarrow> ArgList \<Rightarrow> string list" where
  "link_startfiles E TC Args =
     (let isAndroid = t_isAndroid (tc_Triple TC); path = e_GetFilePath E
      in when_flag (\<not> hasArg Args [Link OPT_nostdlib, Link OPT_nostartfiles]) (
           when_flag (\<not> isAndroid \<and> \<not> e_isOSIAMCU E) (map path (crt1 E Args) @ [path ''crti.o'']) @
           (if e_isOSIAMCU E then [path ''crt0.o'']
            else when_flag (crt_files E TC) [path (crtbegin E Args isAndroid)]) @
           e_FastMath E))"

definition link_cxx :: "linker_env \<Rightarrow> ToolChain \<Rightarrow> ArgList \<Rightarrow> string list" where
  "link_cxx E TC Args =
     (let OnlyLibstdcxxStatic = hasArg Args [Link OPT_static_libstdcxx] \<and> \<not> hasArg Args [Link OPT_static]
      in when_flag (tc_CCCIsCXX TC \<and> \<not> hasArg Args [Link OPT_nostdlib, Link OPT_nodefaultlibs]) (
           when_flag OnlyLibstdcxxStatic [''-Bstatic''] @ e_CXXStdlib E @
           when_flag OnlyLibstdcxxStatic [''-Bdynamic''] @ [''-lm'']))"

text \<open>\<open>hasFlag\<close> with an alias for the positive option.\<close>

definition openmp_on :: "ArgList \<Rightarrow> bool" where
  "openmp_on Args =
     (case getLastArg Args [Link OPT_fopenmp, Link OPT_fopenmp_EQ, Link OPT_fno_openmp] of
        None \<Rightarrow> False
      | Some A \<Rightarrow> a_opt A \<noteq> Link OPT_fno_openmp)"

definition openmp_libs :: "linker_env \<Rightarrow> string list" where
  "openmp_libs E =
     (case e_OpenMPRuntime E of
        OMPRT_OMP \<Rightarrow> [''-lomp'']
      | OMPRT_GOMP \<Rightarrow> [''-lgomp'', ''-lrt'']
      | OMPRT_IOMP5 \<Rightarrow> [''-liomp5'']
      | OMPRT_Unknown \<Rightarrow> []) @ when_flag (e_HostOffloading E) [''-lomptarget'']"

text \<open>The libraries before and from \<open>AddRunTimeLibs\<close> on. \<open>SanitizerDeps\<close> and \<open>XRayDeps\<close> are
  \<open>NeedsSanitizerDeps\<close> and \<open>NeedsXRayDeps\<close>.\<close>

definition link_deps :: "linker_env \<Rightarrow> ToolChain \<Rightarrow> ArgList \<Rightarrow> bool \<Rightarrow> bool \<Rightarrow> string list \<Rightarrow> string list" where
  "link_deps E TC Args SanitizerDeps XRayDeps CmdArgs =
     (let c1 = CmdArgs @ when_flag (hasArg Args [Link OPT_static]) [''--start-group''];
          c2 = (if SanitizerDeps then linkSanitizerRuntimeDeps TC c1 else c1);
          c3 = (if XRayDeps then linkXRayRuntimeDeps TC (e_Libcxx E) c2 else c2)
      in c3 @ when_flag (openmp_on Args) (openmp_libs E))"

definition system_libs :: "linker_env \<Rightarrow> ToolChain \<Rightarrow> ArgList \<Rightarrow> string list" where
  "system_libs E TC Args =
     (let WantPthread = hasArg Args [Link OPT_pthread] \<or> hasArg Args [Link OPT_pthreads] \<or> openmp_on Args
      in when_flag (WantPthread \<and> \<not> t_isAndroid (tc_Triple TC)) [''-lpthread''] @
         when_flag (hasArg Args [Link OPT_fsplit_stack]) [''--wrap=pthread_create''] @ [''-lc''] @
         when_flag (e_isOSIAMCU E) [''-lgloss''])"

definition link_libs :: "linker_env \<Rightarrow> ToolChain \<Rightarrow> ArgList \<Rightarrow> bool \<Rightarrow> bool \<Rightarrow> cmd \<Rightarrow> cmd res" where
  "link_libs E TC Args SanitizerDeps XRayDeps = (\<lambda>(CmdArgs, D).
     if hasArg Args [Link OPT_nodefaultlibs] then Inr (CmdArgs, D)
     else bnd (AddRunTimeLibs E TC Args (link_deps E TC Args SanitizerDeps XRayDeps CmdArgs, D)) (\<lambda>(c4, D1).
       let c5 = c4 @ system_libs E TC Args
       in bnd (if hasArg Args [Link OPT_static] then Inr (c5 @ [''--end-group''], D1)
               else AddRunTimeLibs E TC Args (c5, D1)) (\<lambda>(c6, D2).
          Inr (c6 @ when_flag (e_isOSIAMCU E) [''--as-needed'', ''-lsoftfp'', ''--no-as-needed''], D2))))"

definition link_endfiles :: "linker_env \<Rightarrow> ToolChain \<Rightarrow> ArgList \<Rightarrow> string list" where
  "link_endfiles E TC Args =
     (let isAndroid = t_isAndroid (tc_Triple TC);
          crtend = (if hasArg Args [Tool OPT_shared] then if isAndroid then ''crtend_so.o'' else ''crtendS.o''
            else if link_pie E Args then if isAndroid then ''crtend_android.o'' else ''crtendS.o''
            else if isAndroid then ''crtend_android.o'' else ''crtend.o'')
      in when_flag (\<not> hasArg Args [Link OPT_nostartfiles] \<and> \<not> e_isOSIAMCU E) (
           when_flag (crt_files E TC) [e_GetFilePath E crtend] @
           when_flag (\<not> isAndroid) [e_GetFilePath E ''crtn.o'']))"

definition ClaimAllArgs :: "linker_env \<Rightarrow> OptID \<Rightarrow> drv \<Rightarrow> drv" where
  "ClaimAllArgs E opt D = fold claim (e_matching E opt) D"

definition link_end :: "linker_env \<Rightarrow> ToolChain \<Rightarrow> ArgList \<Rightarrow> bool \<Rightarrow> bool \<Rightarrow> cmd \<Rightarrow> cmd res" where
  "link_end E TC Args SanitizerDeps XRayDeps r =
     (if hasArg Args [Link OPT_nostdlib] then Inr r
      else bnd (link_libs E TC Args SanitizerDeps XRayDeps r) (\<lambda>(c, D). Inr (c @ link_endfiles E TC Args, D)))"

text \<open>From the sanitizers on; the arguments so far come with the driver.\<close>

definition link_rest :: "sanitizers \<Rightarrow> linker_env \<Rightarrow> ToolChain \<Rightarrow> ArgList \<Rightarrow> needs \<Rightarrow> sanitizer_args \<Rightarrow>
    input_info list \<Rightarrow> cmd \<Rightarrow> cmd res" where
  "link_rest K E TC Args w m Inputs = (\<lambda>(CmdArgs, D).
     let (NeedsSanitizerDeps, c1) = addSanitizerRuntimes K TC Args w m CmdArgs;
         (NeedsXRayDeps, c2) = addXRayRuntime TC Args c1;
         (c3, D1) = AddLinkerInputs E TC Inputs (c2, D);
         c4 = c3 @ e_ProfileRT E @ link_cxx E TC Args;
         D2 = ClaimAllArgs E (Link OPT_stdlib_EQ) D1
     in bnd (link_end E TC Args NeedsSanitizerDeps NeedsXRayDeps (c4, D2)) (\<lambda>(c5, D3).
        Inr (c5 @ e_OpenMPLinkerScript E, D3)))"

text \<open>The result is the command, the linker with its arguments, unless the architecture is unknown.\<close>

definition Linker_ConstructJob :: "sanitizers \<Rightarrow> arm_parser \<Rightarrow> linker_env \<Rightarrow> ToolChain \<Rightarrow> ArgList \<Rightarrow> needs \<Rightarrow>
    sanitizer_args \<Rightarrow> string \<Rightarrow> input_info list \<Rightarrow> drv \<Rightarrow> ((string \<times> string list) option \<times> drv) res" where
  "Linker_ConstructJob K P E TC Args w m Output Inputs D =
     (let D0 = ClaimAllArgs E (Link OPT_w) (ClaimAllArgs E (Link OPT_emit_llvm) (ClaimAllArgs E (Link OPT_g_Group) D))
      in bnd (link_head P E TC Args) (\<lambda>c0.
         bnd (getLDMOption E (tc_Triple TC) Args) (\<lambda>LDMOption.
         case LDMOption of
           None \<Rightarrow> Inr (None, Diag (err_target_unknown_triple (t_str (tc_EffectiveTriple TC))) D0)
         | Some ldm \<Rightarrow>
             let c1 = c0 @ [''-m'', ldm] @ link_mode E TC Args @ [''-o'', Output] @ link_startfiles E TC Args @
                   e_AllArgs E (Link OPT_L) @ e_AllArgs E (Link OPT_u) @ e_FilePathLibArgs E
             in bnd (if tc_isUsingLTO TC then AddGoldPlugin P E TC Args (e_ThinLTO E) (c1, D0) else Inr (c1, D0)) (\<lambda>(c2, D1).
                bnd (link_rest K E TC Args w m Inputs
                  (c2 @ when_flag (hasArg Args [Link OPT_Z_Xlinker__no_demangle]) [''--no-demangle''], D1)) (\<lambda>(c3, D2).
                Inr (Some (e_LinkerPath E, c3), D2))))))"

subsection \<open>Directories from the environment\<close>

text \<open>The reference: the parts between the colons.\<close>

fun split_colon :: "string \<Rightarrow> string list" where
  "split_colon [] = [[]]"
| "split_colon (c # s) =
     (if c = CHR '':'' then [] # split_colon s
      else case split_colon s of [] \<Rightarrow> [[c]] | p # ps \<Rightarrow> (c # p) # ps)"

lemma split_colon_rec:
  "split_colon s = (case dropWhile (\<lambda>c. c \<noteq> CHR '':'') s of
     [] \<Rightarrow> [s] | _ # rest \<Rightarrow> takeWhile (\<lambda>c. c \<noteq> CHR '':'') s # split_colon rest)"
proof (induction s)
  case (Cons c s)
  show ?case
  proof (cases "c = CHR '':''")
    case False
    with Cons.IH show ?thesis
      by (cases "dropWhile (\<lambda>c. c \<noteq> CHR '':'') s") (simp_all del: dropWhile_eq_Nil_conv)
  qed simp
qed simp

lemma add_dirs_eq: "add_dirs ArgName Dirs CmdArgs = CmdArgs @ concat (map (dir_arg ArgName) (split_colon Dirs))"
proof (induction ArgName Dirs CmdArgs rule: add_dirs.induct)
  case (1 ArgName Dirs CmdArgs)
  show ?case
  proof (cases "dropWhile (\<lambda>c. c \<noteq> CHR '':'') Dirs")
    case Nil
    show ?thesis unfolding add_dirs.simps [of ArgName Dirs CmdArgs] split_colon_rec [of Dirs] Nil by simp
  next
    case (Cons c rest)
    from 1 [OF Cons] show ?thesis
      unfolding add_dirs.simps [of ArgName Dirs CmdArgs] split_colon_rec [of Dirs] Cons by simp
  qed
qed

subsection \<open>The command line grows\<close>

lemma sublist_inside: "sublist xs y \<Longrightarrow> sublist xs (p @ y @ q)"
  unfolding sublist_def by (metis append.assoc)

lemma AddRunTimeLibs_extends:
  "AddRunTimeLibs E TC Args (c, D) = Inr (c', D') \<Longrightarrow> \<exists>z. c' = c @ z"
  by (auto simp: AddRunTimeLibs_def addClangRT_def bnd_eq_Inr_iff
      split: RuntimeLibType.splits if_splits option.splits)

lemma sanitizer_deps_eq: "linkSanitizerRuntimeDeps TC c = c @ linkSanitizerRuntimeDeps TC []"
  by (simp add: linkSanitizerRuntimeDeps_def)

lemma link_deps_extends:
  "\<exists>z. link_deps E TC Args deps xray c = c @ z \<and> (deps \<longrightarrow> sublist (linkSanitizerRuntimeDeps TC []) z)"
proof -
  let ?pre = "when_flag (hasArg Args [Link OPT_static]) [''--start-group'']"
  let ?deps = "if deps then linkSanitizerRuntimeDeps TC [] else []"
  let ?post = "(if xray then linkXRayRuntimeDeps TC (e_Libcxx E) [] else []) @ when_flag (openmp_on Args) (openmp_libs E)"
  have "link_deps E TC Args deps xray c = c @ ?pre @ ?deps @ ?post"
    using sanitizer_deps_eq [of TC "c @ ?pre"] by (simp add: link_deps_def linkXRayRuntimeDeps_def Let_def)
  then show ?thesis by (auto simp: sublist_def)
qed

lemma link_libs_extends:
  assumes "link_libs E TC Args deps xray (c, D) = Inr (c', D')"
  shows "\<exists>z. c' = c @ z \<and> (deps \<and> \<not> hasArg Args [Link OPT_nodefaultlibs] \<longrightarrow> sublist (linkSanitizerRuntimeDeps TC []) z)"
proof (cases "hasArg Args [Link OPT_nodefaultlibs]")
  case False
  obtain z where z: "link_deps E TC Args deps xray c = c @ z" "deps \<longrightarrow> sublist (linkSanitizerRuntimeDeps TC []) z"
    using link_deps_extends by blast
  from assms False obtain c4 D1 c6 D2 where
    a: "AddRunTimeLibs E TC Args (c @ z, D) = Inr (c4, D1)" and
    b: "(if hasArg Args [Link OPT_static] then Inr ((c4 @ system_libs E TC Args) @ [''--end-group''], D1)
      else AddRunTimeLibs E TC Args (c4 @ system_libs E TC Args, D1)) = Inr (c6, D2)" and
    c': "c' = c6 @ when_flag (e_isOSIAMCU E) [''--as-needed'', ''-lsoftfp'', ''--no-as-needed'']"
    by (auto simp: link_libs_def Let_def bnd_eq_Inr_iff z(1) simp del: append_assoc)
  from AddRunTimeLibs_extends [OF a] obtain y1 where "c4 = (c @ z) @ y1" by blast
  moreover obtain y2 where "c6 = c4 @ system_libs E TC Args @ y2"
    using b AddRunTimeLibs_extends [of E TC Args "c4 @ system_libs E TC Args" D1 c6 D2]
    by (cases "hasArg Args [Link OPT_static]") auto
  ultimately obtain y where "c' = c @ z @ y" unfolding c' by simp
  moreover have "sublist xs (z @ y)" if "sublist xs z" for xs
    using sublist_inside [OF that, of "[]" y] by simp
  ultimately show ?thesis using z(2) by blast
qed (use assms in \<open>simp add: link_libs_def\<close>)

lemma link_end_extends:
  assumes "link_end E TC Args deps xray (c, D) = Inr (c', D')"
  shows "\<exists>z. c' = c @ z \<and> (deps \<and> \<not> hasArg Args [Link OPT_nostdlib] \<and> \<not> hasArg Args [Link OPT_nodefaultlibs] \<longrightarrow>
    sublist (linkSanitizerRuntimeDeps TC []) z)"
proof (cases "hasArg Args [Link OPT_nostdlib]")
  case False
  with assms obtain c6 D4 where l: "link_libs E TC Args deps xray (c, D) = Inr (c6, D4)"
    and c': "c' = c6 @ link_endfiles E TC Args" by (auto simp: link_end_def bnd_eq_Inr_iff)
  from link_libs_extends [OF l] obtain u where u: "c6 = c @ u"
    "deps \<and> \<not> hasArg Args [Link OPT_nodefaultlibs] \<longrightarrow> sublist (linkSanitizerRuntimeDeps TC []) u" by blast
  then have "c' = c @ [] @ u @ link_endfiles E TC Args" by (simp add: c')
  with u(2) sublist_inside show ?thesis by blast
qed (use assms in \<open>simp add: link_end_def\<close>)

lemma linker_input_extends:
  "\<exists>z. fst (linker_input E TC II r) = fst r @ z \<and>
     (\<forall>F. i_filename II = Some F \<and> \<not> (e_HostOffloading E \<and> i_DeviceOffloading II) \<longrightarrow> F \<in> set z)"
  by (cases r) (auto simp: linker_input_def Let_def split: option.split)

lemma linker_inputs_extend:
  "\<exists>z. fst (fold (linker_input E TC) Inputs r) = fst r @ z \<and>
     (\<forall>II \<in> set Inputs. \<forall>F. i_filename II = Some F \<and> \<not> (e_HostOffloading E \<and> i_DeviceOffloading II) \<longrightarrow> F \<in> set z)"
proof (induction Inputs arbitrary: r)
  case (Cons II Inputs)
  obtain z1 where z1: "fst (linker_input E TC II r) = fst r @ z1"
    "\<forall>F. i_filename II = Some F \<and> \<not> (e_HostOffloading E \<and> i_DeviceOffloading II) \<longrightarrow> F \<in> set z1"
    using linker_input_extends by blast
  obtain z2 where z2: "fst (fold (linker_input E TC) Inputs (linker_input E TC II r)) = fst (linker_input E TC II r) @ z2"
    "\<forall>II \<in> set Inputs. \<forall>F. i_filename II = Some F \<and> \<not> (e_HostOffloading E \<and> i_DeviceOffloading II) \<longrightarrow> F \<in> set z2"
    using Cons.IH by blast
  show ?case by (rule exI [of _ "z1 @ z2"]) (use z1 z2 in auto)
qed simp

lemma AddLinkerInputs_extends:
  assumes "AddLinkerInputs E TC Inputs (c, D) = (c', D')"
  shows "\<exists>z. c' = c @ z \<and> (\<forall>II \<in> set Inputs. \<forall>F. i_filename II = Some F \<and>
    \<not> (e_HostOffloading E \<and> i_DeviceOffloading II) \<longrightarrow> F \<in> set z)"
proof -
  let ?r = "(c @ e_AllArgValues E (Link OPT_Zlinker_input), D)"
  obtain z where z: "fst (fold (linker_input E TC) Inputs ?r) = fst ?r @ z"
    "\<forall>II \<in> set Inputs. \<forall>F. i_filename II = Some F \<and> \<not> (e_HostOffloading E \<and> i_DeviceOffloading II) \<longrightarrow> F \<in> set z"
    using linker_inputs_extend by blast
  moreover obtain y where "c' = fst (fold (linker_input E TC) Inputs ?r) @ y"
    using assms by (auto simp: AddLinkerInputs_def split_def Let_def addDirectoryList_def add_dirs_eq
        split: if_splits option.splits)
  ultimately show ?thesis
    by (intro exI [of _ "e_AllArgValues E (Link OPT_Zlinker_input) @ z @ y"]) auto
qed

subsection \<open>The race detector is linked\<close>

text \<open>The inputs that are not left out as device code of OpenMP, by file name.\<close>

definition inputs_in :: "linker_env \<Rightarrow> input_info list \<Rightarrow> string list \<Rightarrow> bool" where
  "inputs_in E Inputs cmd \<longleftrightarrow> (\<forall>II \<in> set Inputs. \<forall>F. i_filename II = Some F \<and>
     \<not> (e_HostOffloading E \<and> i_DeviceOffloading II) \<longrightarrow> F \<in> set cmd)"

lemma link_rest_tsan:
  assumes "link_rest K E TC Args w m Inputs (c, D) = Inr (c', D')"
    and tsan: "''tsan'' \<in> set (StaticRuntimes (collectSanitizerRuntimes K TC Args w m))"
  shows "\<exists>pre post. c' = pre @ [''-whole-archive'', tc_getCompilerRT TC ''tsan'' False, ''-no-whole-archive''] @ post
    \<and> inputs_in E Inputs post
    \<and> (\<not> hasArg Args [Link OPT_nostdlib] \<and> \<not> hasArg Args [Link OPT_nodefaultlibs] \<longrightarrow>
        sublist (linkSanitizerRuntimeDeps TC []) post)"
proof -
  let ?whole = "[''-whole-archive'', tc_getCompilerRT TC ''tsan'' False, ''-no-whole-archive'']"
  obtain deps c1 where san: "addSanitizerRuntimes K TC Args w m c = (deps, c1)" by fastforce
  obtain xray c2 where xr: "addXRayRuntime TC Args c1 = (xray, c2)" by fastforce
  obtain c3 D1 where inp: "AddLinkerInputs E TC Inputs (c2, D) = (c3, D1)" by fastforce
  have "deps \<longleftrightarrow> StaticRuntimes (collectSanitizerRuntimes K TC Args w m) \<noteq> []"
    using san by (auto simp: addSanitizerRuntimes_def Let_def split_def)
  with tsan have deps by auto
  from static_runtimes_linked [OF tsan, of c] san obtain pre p0 where c1: "c1 = pre @ ?whole @ p0"
    by (auto simp: linked_def)
  obtain x where c2: "c2 = c1 @ x" using xr by (auto simp: addXRayRuntime_def split: if_splits)
  from AddLinkerInputs_extends [OF inp] obtain z where
    c3: "c3 = c2 @ z" "inputs_in E Inputs z" unfolding inputs_in_def by blast
  let ?c4 = "c3 @ e_ProfileRT E @ link_cxx E TC Args"
  obtain c5 D3 where c': "c' = c5 @ e_OpenMPLinkerScript E" and
    lib: "link_end E TC Args deps xray (?c4, ClaimAllArgs E (Link OPT_stdlib_EQ) D1) = Inr (c5, D3)"
    using assms(1) by (auto simp: link_rest_def san xr inp Let_def bnd_eq_Inr_iff simp del: append_assoc)
  from link_end_extends [OF lib] \<open>deps\<close> obtain y where y: "c5 = ?c4 @ y"
    "\<not> hasArg Args [Link OPT_nostdlib] \<and> \<not> hasArg Args [Link OPT_nodefaultlibs] \<longrightarrow> sublist (linkSanitizerRuntimeDeps TC []) y"
    by blast
  let ?post = "p0 @ x @ z @ e_ProfileRT E @ link_cxx E TC Args @ y @ e_OpenMPLinkerScript E"
  have "c' = pre @ ?whole @ ?post" by (simp add: c' y(1) c3(1) c2 c1)
  moreover have "inputs_in E Inputs ?post" using c3(2) by (auto simp: inputs_in_def)
  moreover have "sublist ds ?post" if "sublist ds y" for ds
    using sublist_inside [OF that, of "p0 @ x @ z @ e_ProfileRT E @ link_cxx E TC Args"] by simp
  ultimately show ?thesis using y(2) by blast
qed

text \<open>
  C38: Every program linked for \<open>arm-none-linux-gnueabi\<close> contains the race detector, whatever
  \<open>-fsanitize=\<close> says. When the linker's job yields a command for an executable, the command has
  the runtime \<open>tsan\<close> as a whole archive, all input files after it, and, unless the default libraries are
  switched off, after it also the system libraries the runtime depends on.
\<close>

theorem program_links_race_detector:
  assumes "Linker_ConstructJob K P E TC Args w m Output Inputs D = Inr (Some (Exec, cmd), D')"
    and "t_str (tc_Triple TC) = embed_triple" and "t_OS (tc_Triple TC) = OS_Linux"
    and "\<not> hasArg Args [Tool OPT_shared]" and "\<not> t_isAndroid (tc_Triple TC)"
  shows "\<exists>pre post. cmd = pre @ [''-whole-archive'', tc_getCompilerRT TC ''tsan'' False, ''-no-whole-archive''] @ post \<and>
    inputs_in E Inputs post \<and>
    (\<not> hasArg Args [Link OPT_nostdlib] \<and> \<not> hasArg Args [Link OPT_nodefaultlibs] \<longrightarrow>
      sublist [''--no-as-needed'', ''-lpthread'', ''-lrt'', ''-lm'', ''-ldl''] post)"
proof -
  have tsan: "''tsan'' \<in> set (StaticRuntimes (collectSanitizerRuntimes K TC Args w m))"
    using assms(2,4,5) by (simp add: tsan_collected)
  have deps: "linkSanitizerRuntimeDeps TC [] = [''--no-as-needed'', ''-lpthread'', ''-lrt'', ''-lm'', ''-ldl'']"
    using assms(3) by (simp add: linkSanitizerRuntimeDeps_def when_flag_def)
  from assms(1) obtain c D1 where "link_rest K E TC Args w m Inputs (c, D1) = Inr (cmd, D')"
    by (auto simp: Linker_ConstructJob_def Let_def bnd_eq_Inr_iff split: option.splits)
  from link_rest_tsan [OF this tsan] show ?thesis unfolding deps .
qed

text \<open>A program of one object file, without any option.\<close>

definition demo_arm_none :: arm_parser where
  "demo_arm_none = \<lparr>parseArchVersion = (\<lambda>_. 7), parseArchProfile_is_M = (\<lambda>_. False), parseArch = (\<lambda>_. AK_INVALID),
     parseCPUArch = (\<lambda>_. AK_INVALID), getSubArch = (\<lambda>_. []), getARMCPUForArch = (\<lambda>_ _. []),
     getArchExtFeature = (\<lambda>_. []), getHWDivFeatures = (\<lambda>_. (True, [])), getFPUFeatures = (\<lambda>_. (True, [])),
     getHostCPUName = ''generic'', getHostCPUFeatures = None\<rparr>"

definition demo_linker :: linker_env where
  "demo_linker = \<lparr>e_LinkerPath = ''ld'', e_filename = id, e_SysRoot = [], e_isPIEDefault = False,
     e_hasEnvironment = True, e_isOSIAMCU = False, e_isOSCygMing = False, e_isMSVC = False,
     e_target = demo_target, e_ExtraOpts = [], e_DyldPrefix = [], e_DynamicLinker = ''/lib/ld-linux.so.3'',
     e_GetFilePath = id, e_FastMath = [], e_matching = (\<lambda>_. []), e_AllArgs = (\<lambda>_. []),
     e_AllArgValues = (\<lambda>_. []), e_render = (\<lambda>_. []), e_renderAsInput = (\<lambda>_. []), e_FilePathLibArgs = [],
     e_Dir = [], e_LIBDIR_SUFFIX = [], e_ThinLTO = False, e_getAsUnsigned = (\<lambda>_. None), e_ProfileRT = [],
     e_CXXStdlib = [''-lstdc++''], e_CCKextLib = [], e_Libcxx = False, e_OpenMPRuntime = OMPRT_Unknown,
     e_HostOffloading = False, e_RuntimeLib = RLT_Libgcc, e_NativeLLVM = True, e_CrossCompiling = True,
     e_LIBRARY_PATH = None, e_OpenMPLinkerScript = []\<rparr>"

definition demo_input :: input_info where
  "demo_input = \<lparr>i_DeviceOffloading = False, i_LLVMIR = False, i_filename = Some ''a.o'', i_arg = demo_arg 0 OPT_fsanitize_EQ []\<rparr>"

lemma demo_link_job:
  "\<exists>cmd. Linker_ConstructJob demo_sanitizers P demo_linker demo_TC (demo_args []) no_needs demo_object ''a.out'' [demo_input]
      \<lparr>diags = [], claimed = []\<rparr> = Inr (Some (''ld'', cmd), \<lparr>diags = [], claimed = []\<rparr>)"
  by (simp add: Linker_ConstructJob_def link_head_def getLDMOption_def link_rest_def link_end_def link_libs_def
      AddRunTimeLibs_def AddLinkerInputs_def linker_input_def ClaimAllArgs_def demo_linker_def demo_input_def
      demo_defs split_def Let_def Diag_if_def)

theorem program_links_race_detector_witness:
  "\<exists>cmd pre post. Linker_ConstructJob demo_sanitizers demo_arm_none demo_linker demo_TC (demo_args []) no_needs demo_object
      ''a.out'' [demo_input] \<lparr>diags = [], claimed = []\<rparr> = Inr (Some (''ld'', cmd), \<lparr>diags = [], claimed = []\<rparr>) \<and>
    cmd = pre @ [''-whole-archive'', ''tsan'', ''-no-whole-archive''] @ post \<and> ''a.o'' \<in> set post"
proof -
  obtain cmd where job: "Linker_ConstructJob demo_sanitizers demo_arm_none demo_linker demo_TC (demo_args []) no_needs demo_object
      ''a.out'' [demo_input] \<lparr>diags = [], claimed = []\<rparr> = Inr (Some (''ld'', cmd), \<lparr>diags = [], claimed = []\<rparr>)"
    using demo_link_job by blast
  have "t_str (tc_Triple demo_TC) = embed_triple" "t_OS (tc_Triple demo_TC) = OS_Linux"
    "\<not> hasArg (demo_args []) [Tool OPT_shared]" "\<not> t_isAndroid (tc_Triple demo_TC)"
    by (simp_all add: demo_TC_def demo_triple_def demo_args_def)
  from program_links_race_detector [OF job this] obtain pre post where
    "cmd = pre @ [''-whole-archive'', tc_getCompilerRT demo_TC ''tsan'' False, ''-no-whole-archive''] @ post"
    "inputs_in demo_linker [demo_input] post" by blast
  moreover have "''a.o'' \<in> set post" if "inputs_in demo_linker [demo_input] post"
    using that by (simp add: inputs_in_def demo_input_def demo_linker_def)
  ultimately show ?thesis using job by (auto simp: demo_TC_def)
qed

end
