(* ===== verification/TargetFeatures.thy ===== *)
theory TargetFeatures
  imports TargetCPUs
begin

text \<open>
  The subtarget features of every target (\<open>Tools.cpp\<close>, \<open>getTargetFeatures\<close> with the functions it calls). The
  vector \<open>Features\<close> and the driver travel together as \<open>feats\<close>; the ARM part is in \<open>ArmTools\<close>.
\<close>

subsection \<open>Options that name a feature\<close>

text \<open>The option \<open>mno-sse\<close> gives \<open>-sse\<close>. A name without the \<open>m\<close> fails the assertion.\<close>

definition option_feature :: "string \<Rightarrow> string option" where
  "option_feature Name =
     (case after ''m'' Name of
        None \<Rightarrow> None
      | Some N \<Rightarrow> (case after ''no-'' N of Some F \<Rightarrow> Some (''-'' @ F) | None \<Rightarrow> Some (''+'' @ N)))"

fun handle_features :: "Arg list \<Rightarrow> feats \<Rightarrow> feats res" where
  "handle_features [] fd = Inr fd"
| "handle_features (A # As) (Features, D) =
     (case option_feature (a_name A) of
        None \<Rightarrow> Inl Unreachable
      | Some F \<Rightarrow> handle_features As (Features @ [F], claim A D))"

definition handleTargetFeaturesGroup :: "target_env \<Rightarrow> OptID \<Rightarrow> feats \<Rightarrow> feats res" where
  "handleTargetFeaturesGroup E Group = handle_features (te_group E Group)"

definition AddTargetFeature :: "ArgList \<Rightarrow> OptID \<Rightarrow> OptID \<Rightarrow> string \<Rightarrow> feats \<Rightarrow> feats" where
  "AddTargetFeature Args OnOpt OffOpt FeatureName fd =
     (case getLastArg Args [OnOpt, OffOpt] of
        None \<Rightarrow> fd
      | Some A \<Rightarrow> push ((if a_opt A = OnOpt then ''+'' else ''-'') @ FeatureName) fd)"

text \<open>
  The float ABI of MIPS, PowerPC and SPARC, where the code has the same function three times: an option that
  is not known means hard float.
\<close>

definition chosen_float_abi :: "ArgList \<Rightarrow> drv \<Rightarrow> (FloatABI \<times> drv) res" where
  "chosen_float_abi Args D =
     bnd (case getLastArg Args [Tool OPT_msoft_float, Tool OPT_mhard_float, Tool OPT_mfloat_abi_EQ] of
            None \<Rightarrow> Inr (FloatInvalid, D)
          | Some A \<Rightarrow>
              if a_opt A = Tool OPT_msoft_float then Inr (FloatSoft, D)
              else if a_opt A = Tool OPT_mhard_float then Inr (FloatHard, D)
              else bnd (getValue A) (\<lambda>v.
                let ABI = switch [(''soft'', FloatSoft), (''hard'', FloatHard)] FloatInvalid v
                in Inr (if ABI = FloatInvalid \<and> v \<noteq> []
                        then (FloatHard, Diag (err_drv_invalid_mfloat_abi (a_string A)) D) else (ABI, D)))) (\<lambda>(ABI, D1).
       Inr (if ABI = FloatInvalid then FloatHard else ABI, D1))"

definition getMipsFloatABI :: "ArgList \<Rightarrow> drv \<Rightarrow> (FloatABI \<times> drv) res" where
  "getMipsFloatABI = chosen_float_abi"

definition getPPCFloatABI :: "ArgList \<Rightarrow> drv \<Rightarrow> (FloatABI \<times> drv) res" where
  "getPPCFloatABI = chosen_float_abi"

definition getSparcFloatABI :: "ArgList \<Rightarrow> drv \<Rightarrow> (FloatABI \<times> drv) res" where
  "getSparcFloatABI = chosen_float_abi"

subsection \<open>MIPS\<close>

definition getGnuCompatibleMipsABIName :: "string \<Rightarrow> string" where
  "getGnuCompatibleMipsABIName ABI = switch [(''o32'', ''32''), (''n64'', ''64'')] ABI ABI"

text \<open>The encodings of NaN that a CPU has: the legacy one, the one of 2008.\<close>

record NanEncoding =
  NanLegacy :: bool
  Nan2008 :: bool

definition getSupportedNanEncoding :: "string \<Rightarrow> NanEncoding" where
  "getSupportedNanEncoding CPU =
     (let legacy = \<lparr>NanLegacy = True, Nan2008 = False\<rparr>; both = \<lparr>NanLegacy = True, Nan2008 = True\<rparr>;
          new = \<lparr>NanLegacy = False, Nan2008 = True\<rparr>
      in switch
        [(''mips1'', legacy), (''mips2'', legacy), (''mips3'', legacy), (''mips4'', legacy), (''mips5'', legacy),
         (''mips32'', legacy), (''mips32r2'', both), (''mips32r3'', both), (''mips32r5'', both), (''mips32r6'', new),
         (''mips64'', legacy), (''mips64r2'', both), (''mips64r3'', both), (''mips64r5'', both), (''mips64r6'', new)]
        legacy CPU)"

definition hasCompactBranches :: "string \<Rightarrow> bool" where
  "hasCompactBranches = switch [(''mips32r6'', True), (''mips64r6'', True)] False"

definition isUCLibc :: "ArgList \<Rightarrow> bool" where
  "isUCLibc Args = (case getLastArg Args [Mips OPT_m_libc_Group] of None \<Rightarrow> False | Some A \<Rightarrow> a_opt A = Mips OPT_muclibc)"

definition isNaN2008 :: "arm_parser \<Rightarrow> target_env \<Rightarrow> ArgList \<Rightarrow> Triple \<Rightarrow> bool res" where
  "isNaN2008 P E Args T =
     (case getLastArg Args [Mips OPT_mnan_EQ] of
        Some A \<Rightarrow> bnd (getValue A) (\<lambda>v. Inr (switch [(''2008'', True), (''legacy'', False)] False v))
      | None \<Rightarrow> bnd (getCPUName P E Args T False) (\<lambda>CPU.
          Inr (switch [(''mips32r6'', True), (''mips64r6'', True)] False CPU)))"

definition isFP64ADefault :: "Triple \<Rightarrow> string \<Rightarrow> bool" where
  "isFP64ADefault T CPUName \<longleftrightarrow> t_isAndroid T \<and> switch [(''mips32r6'', True)] False CPUName"

definition fpxx_cpus :: "string list" where
  "fpxx_cpus = [''mips2'', ''mips3'', ''mips4'', ''mips5'', ''mips32'', ''mips32r2'', ''mips32r3'', ''mips32r5'',
     ''mips64'', ''mips64r2'', ''mips64r3'', ''mips64r5'']"

definition isFPXXDefault :: "Triple \<Rightarrow> string \<Rightarrow> string \<Rightarrow> FloatABI \<Rightarrow> bool" where
  "isFPXXDefault T CPUName ABIName ABI =
     (if t_Vendor T \<noteq> Vendor_ImaginationTechnologies \<and> t_Vendor T \<noteq> Vendor_MipsTechnologies \<and> \<not> t_isAndroid T
      then False
      else if ABIName \<noteq> ''32'' then False
      else if ABI = FloatSoft then False
      else CPUName \<in> set fpxx_cpus)"

definition shouldUseFPXX :: "ArgList \<Rightarrow> Triple \<Rightarrow> string \<Rightarrow> string \<Rightarrow> FloatABI \<Rightarrow> bool" where
  "shouldUseFPXX Args T CPUName ABIName ABI =
     (let UseFPXX = isFPXXDefault T CPUName ABIName ABI
      in case getLastArg Args [Mips OPT_msingle_float, Mips OPT_mdouble_float] of
           None \<Rightarrow> UseFPXX
         | Some A \<Rightarrow> if a_opt A = Mips OPT_msingle_float then False else UseFPXX)"

definition mips_nan :: "ArgList \<Rightarrow> string \<Rightarrow> feats \<Rightarrow> feats res" where
  "mips_nan Args CPUName fd =
     (case getLastArg Args [Mips OPT_mnan_EQ] of
        None \<Rightarrow> Inr fd
      | Some A \<Rightarrow> bnd (getValue A) (\<lambda>Val. Inr (
          if Val = ''2008'' then
            if Nan2008 (getSupportedNanEncoding CPUName) then push ''+nan2008'' fd
            else report True (warn_target_unsupported_nan2008 CPUName) (push ''-nan2008'' fd)
          else if Val = ''legacy'' then
            if NanLegacy (getSupportedNanEncoding CPUName) then push ''-nan2008'' fd
            else report True (warn_target_unsupported_nanlegacy CPUName) (push ''+nan2008'' fd)
          else report True (err_drv_unsupported_option_argument (a_name A) Val) fd)))"

definition mips_fp :: "ArgList \<Rightarrow> Triple \<Rightarrow> string \<Rightarrow> string \<Rightarrow> FloatABI \<Rightarrow> feats \<Rightarrow> feats" where
  "mips_fp Args T CPUName ABIName ABI fd =
     (case getLastArg Args [Mips OPT_mfp32, Mips OPT_mfpxx, Mips OPT_mfp64] of
        Some A \<Rightarrow>
          if a_opt A = Mips OPT_mfp32 then push ''-fp64'' fd
          else if a_opt A = Mips OPT_mfpxx then push ''+nooddspreg'' (push ''+fpxx'' fd)
          else push ''+fp64'' fd
      | None \<Rightarrow>
          if shouldUseFPXX Args T CPUName ABIName ABI then push ''+nooddspreg'' (push ''+fpxx'' fd)
          else if isFP64ADefault T CPUName then push ''+nooddspreg'' (push ''+fp64'' fd)
          else fd)"

definition getMIPSTargetFeatures :: "Triple \<Rightarrow> ArgList \<Rightarrow> feats \<Rightarrow> feats res" where
  "getMIPSTargetFeatures T Args fd =
     bnd (getMipsCPUAndABI Args T) (\<lambda>(CPUName, ABI0).
     let ABIName = getGnuCompatibleMipsABIName ABI0;
         (Features, D) = AddTargetFeature Args (Mips OPT_mno_abicalls) (Mips OPT_mabicalls) ''noabicalls'' fd
     in bnd (getMipsFloatABI Args D) (\<lambda>(ABI, D1).
        bnd (mips_nan Args CPUName (push_if (ABI = FloatSoft) ''+soft-float'' (Features, D1))) (\<lambda>fd1.
        let fd2 = AddTargetFeature Args (Mips OPT_msingle_float) (Mips OPT_mdouble_float) ''single-float'' fd1;
            fd3 = AddTargetFeature Args (Mips OPT_mips16) (Mips OPT_mno_mips16) ''mips16'' fd2;
            fd4 = AddTargetFeature Args (Mips OPT_mmicromips) (Mips OPT_mno_micromips) ''micromips'' fd3;
            fd5 = AddTargetFeature Args (Mips OPT_mdsp) (Mips OPT_mno_dsp) ''dsp'' fd4;
            fd6 = AddTargetFeature Args (Mips OPT_mdspr2) (Mips OPT_mno_dspr2) ''dspr2'' fd5;
            fd7 = AddTargetFeature Args (Mips OPT_mmsa) (Mips OPT_mno_msa) ''msa'' fd6
        in Inr (AddTargetFeature Args (Mips OPT_mno_odd_spreg) (Mips OPT_modd_spreg) ''nooddspreg''
             (mips_fp Args T CPUName ABIName ABI fd7)))))"

subsection \<open>PowerPC, SPARC, SystemZ, Hexagon, WebAssembly, AMDGPU\<close>

definition getPPCTargetFeatures :: "target_env \<Rightarrow> ArgList \<Rightarrow> feats \<Rightarrow> feats res" where
  "getPPCTargetFeatures E Args fd =
     bnd (handleTargetFeaturesGroup E (Tgt OPT_m_ppc_Features_Group) fd) (\<lambda>(Features, D).
     bnd (getPPCFloatABI Args D) (\<lambda>(ABI, D1).
       Inr (AddTargetFeature Args (Tgt OPT_faltivec) (Tgt OPT_fno_altivec) ''altivec''
         (push_if (ABI = FloatSoft) ''-hard-float'' (Features, D1)))))"

definition getSparcTargetFeatures :: "ArgList \<Rightarrow> feats \<Rightarrow> feats res" where
  "getSparcTargetFeatures Args = (\<lambda>(Features, D).
     bnd (getSparcFloatABI Args D) (\<lambda>(ABI, D1). Inr (push_if (ABI = FloatSoft) ''+soft-float'' (Features, D1))))"

definition getSystemZTargetFeatures :: "ArgList \<Rightarrow> feats \<Rightarrow> feats" where
  "getSystemZTargetFeatures Args fd =
     (let fd1 = (case getLastArg Args [Tgt OPT_mhtm, Tgt OPT_mno_htm] of
            None \<Rightarrow> fd
          | Some A \<Rightarrow> push (if a_opt A = Tgt OPT_mhtm then ''+transactional-execution'' else ''-transactional-execution'') fd)
      in case getLastArg Args [Tgt OPT_mvx, Tgt OPT_mno_vx] of
           None \<Rightarrow> fd1
         | Some A \<Rightarrow> push (if a_opt A = Tgt OPT_mvx then ''+vector'' else ''-vector'') fd1)"

definition getHexagonTargetFeatures :: "target_env \<Rightarrow> ArgList \<Rightarrow> feats \<Rightarrow> feats res" where
  "getHexagonTargetFeatures E Args fd =
     bnd (handleTargetFeaturesGroup E (Tgt OPT_m_hexagon_Features_Group) fd) (\<lambda>fd1.
       let UseLongCalls = (case getLastArg Args [Tool OPT_mlong_calls, Tool OPT_mno_long_calls] of
             None \<Rightarrow> False | Some A \<Rightarrow> a_opt A = Tool OPT_mlong_calls)
       in Inr (push (if UseLongCalls then ''+long-calls'' else ''-long-calls'') fd1))"

definition getWebAssemblyTargetFeatures :: "target_env \<Rightarrow> feats \<Rightarrow> feats res" where
  "getWebAssemblyTargetFeatures E = handleTargetFeaturesGroup E (Tgt OPT_m_wasm_Features_Group)"

definition getAMDGPUTargetFeatures :: "target_env \<Rightarrow> ArgList \<Rightarrow> feats \<Rightarrow> feats res" where
  "getAMDGPUTargetFeatures E Args fd =
     bnd (case getLastArg Args [Tgt OPT_mamdgpu_debugger_abi] of
            None \<Rightarrow> Inr fd
          | Some dAbi \<Rightarrow> bnd (getValue dAbi) (\<lambda>value. Inr (
              if value = ''1.0'' then
                push ''+amdgpu-debugger-emit-prologue'' (push ''+amdgpu-debugger-reserve-regs''
                  (push ''+amdgpu-debugger-insert-nops'' fd))
              else report True (err_drv_clang_unsupported (a_string dAbi)) fd)))
       (handleTargetFeaturesGroup E (Tgt OPT_m_amdgpu_Features_Group))"

subsection \<open>X86\<close>

definition pushes :: "string list \<Rightarrow> feats \<Rightarrow> feats" where
  "pushes Fs = (\<lambda>(Features, D). (Features @ Fs, D))"

definition x86_host_features :: "arm_parser \<Rightarrow> ArgList \<Rightarrow> string list res" where
  "x86_host_features P Args =
     (case getLastArg Args [Tool OPT_march_EQ] of
        None \<Rightarrow> Inr []
      | Some A \<Rightarrow> bnd (getValue A) (\<lambda>v. Inr (
          if v = ''native'' then
            case getHostCPUFeatures P of
              None \<Rightarrow> []
            | Some HostFeatures \<Rightarrow> map (\<lambda>(name, on). (if on then ''+'' else ''-'') @ name) HostFeatures
          else [])))"

definition x86_arch_features :: "Triple \<Rightarrow> string list" where
  "x86_arch_features T =
     (if t_ArchName T = ''x86_64h'' then [''-rdrnd'', ''-aes'', ''-pclmul'', ''-rtm'', ''-hle'', ''-fsgsbase''] else []) @
     (if t_isAndroid T then if t_Arch T = Arch_x86_64 then [''+sse4.2'', ''+popcnt''] else [''+ssse3''] else [])"

text \<open>\<open>/arch:\<close>: the feature it adds, if any, and whether it was used.\<close>

definition slash_arch_features :: "ArchType \<Rightarrow> string \<Rightarrow> string list \<times> bool" where
  "slash_arch_features ArchType Arch =
     (let shared = (ArchType = Arch_x86_64 \<or> ArchType = Arch_x86) \<and> (Arch = ''AVX'' \<or> Arch = ''AVX2'');
          only32 = ArchType = Arch_x86 \<and> (Arch = ''SSE'' \<or> Arch = ''SSE2'')
      in (if shared \<or> only32 then [''+'' @ lower Arch] else [],
          shared \<or> only32 \<or> ArchType = Arch_x86 \<and> Arch = ''IA32''))"

definition getX86TargetFeatures :: "arm_parser \<Rightarrow> target_env \<Rightarrow> Triple \<Rightarrow> ArgList \<Rightarrow> feats \<Rightarrow> feats res" where
  "getX86TargetFeatures P E T Args fd =
     bnd (x86_host_features P Args) (\<lambda>host.
     let fd1 = pushes (host @ x86_arch_features T) fd
     in bnd (case getLastArg Args [Tgt OPT__SLASH_arch] of
               None \<Rightarrow> Inr fd1
             | Some A \<Rightarrow> bnd (getValue A) (\<lambda>Arch.
                 let (Fs, ArchUsed) = slash_arch_features (t_Arch T) Arch
                 in Inr (report (\<not> ArchUsed) (warn_drv_unused_argument (a_string A)) (pushes Fs fd1))))
          (handleTargetFeaturesGroup E (Tgt OPT_m_x86_Features_Group)))"

subsection \<open>AArch64\<close>

fun decode_aarch64 :: "target_env \<Rightarrow> string list \<Rightarrow> feats \<Rightarrow> bool \<times> feats" where
  "decode_aarch64 E [] fd = (True, fd)"
| "decode_aarch64 E (Feature # Fs) fd =
     (let FeatureName = te_getArchExtFeature E Feature
      in if FeatureName \<noteq> [] then decode_aarch64 E Fs (push FeatureName fd)
         else if Feature = ''neon'' \<or> Feature = ''noneon'' then decode_aarch64 E Fs (report True err_drv_no_neon_modifier fd)
         else (False, fd))"

definition DecodeAArch64Features :: "target_env \<Rightarrow> string \<Rightarrow> feats \<Rightarrow> bool \<times> feats" where
  "DecodeAArch64Features E text = decode_aarch64 E (split_all text)"

definition extensions_after :: "target_env \<Rightarrow> string \<Rightarrow> feats \<Rightarrow> bool \<times> feats" where
  "extensions_after E rest fd = (if rest \<noteq> [] then DecodeAArch64Features E rest fd else (True, fd))"

text \<open>The second result is the CPU, the part before the first plus.\<close>

definition DecodeAArch64Mcpu :: "target_env \<Rightarrow> string \<Rightarrow> feats \<Rightarrow> bool \<times> string \<times> feats" where
  "DecodeAArch64Mcpu E Mcpu fd =
     (let (CPU, rest) = split_plus Mcpu
      in if CPU = ''generic'' then
           let (ok, fd1) = extensions_after E rest (push ''+neon'' fd) in (ok, CPU, fd1)
         else
           let ArchKind = te_parseCPUArch E CPU;
               (ok1, Fs1) = te_getArchFeatures E ArchKind; fd1 = pushes Fs1 fd
           in if \<not> ok1 then (False, CPU, fd1)
              else let (ok2, Fs2) = te_getExtensionFeatures E (te_getDefaultExtensions E CPU ArchKind); fd2 = pushes Fs2 fd1
                   in if \<not> ok2 then (False, CPU, fd2)
                      else let (ok, fd3) = extensions_after E rest fd2 in (ok, CPU, fd3))"

definition getAArch64ArchFeaturesFromMarch :: "target_env \<Rightarrow> string \<Rightarrow> feats \<Rightarrow> bool \<times> feats" where
  "getAArch64ArchFeaturesFromMarch E March fd =
     (let (name, rest) = split_plus (lower March); ArchKind = te_parseArch E name
      in if ArchKind = AK_INVALID then (False, fd)
         else let (ok, Fs) = te_getArchFeatures E ArchKind
              in if \<not> ok then (False, pushes Fs fd) else extensions_after E rest (pushes Fs fd))"

definition getAArch64ArchFeaturesFromMcpu :: "target_env \<Rightarrow> string \<Rightarrow> feats \<Rightarrow> bool \<times> feats" where
  "getAArch64ArchFeaturesFromMcpu E Mcpu fd =
     (let (ok, CPU, fd1) = DecodeAArch64Mcpu E (lower Mcpu) fd in (ok, fd1))"

definition getAArch64MicroArchFeaturesFromMtune :: "arm_parser \<Rightarrow> string \<Rightarrow> feats \<Rightarrow> bool \<times> feats" where
  "getAArch64MicroArchFeaturesFromMtune P Mtune fd =
     (let low = lower Mtune; low' = (if low = ''native'' then getHostCPUName P else low)
      in (True, if low' = ''cyclone'' then push ''+zcz'' (push ''+zcm'' fd) else fd))"

text \<open>The features decoded here are thrown away, the diagnostics are not.\<close>

definition getAArch64MicroArchFeaturesFromMcpu :: "arm_parser \<Rightarrow> target_env \<Rightarrow> string \<Rightarrow> feats \<Rightarrow> bool \<times> feats" where
  "getAArch64MicroArchFeaturesFromMcpu P E Mcpu = (\<lambda>(Features, D).
     let (ok, CPU, (_, D1)) = DecodeAArch64Mcpu E (lower Mcpu) ([], D)
     in if \<not> ok then (False, (Features, D1)) else getAArch64MicroArchFeaturesFromMtune P CPU (Features, D1))"

text \<open>A run of the variables \<open>success\<close> and \<open>A\<close>, the argument to blame, with the features.\<close>

type_synonym a64_state = "bool \<times> Arg option \<times> feats"

definition blaming :: "Arg option \<Rightarrow> bool \<times> feats \<Rightarrow> a64_state res" where
  "blaming A = (\<lambda>(ok, fd). Inr (ok, A, fd))"

definition a64_arch :: "arm_parser \<Rightarrow> target_env \<Rightarrow> ArgList \<Rightarrow> feats \<Rightarrow> a64_state res" where
  "a64_arch P E Args fd =
     (case getLastArg Args [Tool OPT_march_EQ] of
        Some A \<Rightarrow> bnd (getValue A) (\<lambda>v. blaming (Some A) (getAArch64ArchFeaturesFromMarch E v fd))
      | None \<Rightarrow>
          (case getLastArg Args [Tool OPT_mcpu_EQ] of
             Some A \<Rightarrow> bnd (getValue A) (\<lambda>v. blaming (Some A) (getAArch64ArchFeaturesFromMcpu E v fd))
           | None \<Rightarrow>
               if hasArg Args [Link OPT_arch] then
                 bnd (getAArch64TargetCPU P Args) (\<lambda>(CPU, A). blaming A (getAArch64ArchFeaturesFromMcpu E CPU fd))
               else Inr (True, None, fd)))"

definition a64_tune :: "arm_parser \<Rightarrow> target_env \<Rightarrow> ArgList \<Rightarrow> feats \<Rightarrow> a64_state res" where
  "a64_tune P E Args fd =
     (case getLastArg Args [Link OPT_mtune_EQ] of
        Some A \<Rightarrow> bnd (getValue A) (\<lambda>v. blaming (Some A) (getAArch64MicroArchFeaturesFromMtune P v fd))
      | None \<Rightarrow>
          (case getLastArg Args [Tool OPT_mcpu_EQ] of
             Some A \<Rightarrow> bnd (getValue A) (\<lambda>v. blaming (Some A) (getAArch64MicroArchFeaturesFromMcpu P E v fd))
           | None \<Rightarrow>
               if hasArg Args [Link OPT_arch] then
                 bnd (getAArch64TargetCPU P Args) (\<lambda>(CPU, A). blaming A (getAArch64MicroArchFeaturesFromMcpu P E CPU fd))
               else Inr (True, None, fd)))"

definition getAArch64TargetFeatures :: "arm_parser \<Rightarrow> target_env \<Rightarrow> ArgList \<Rightarrow> feats \<Rightarrow> feats res" where
  "getAArch64TargetFeatures P E Args fd =
     bnd (a64_arch P E Args (push ''+neon'' fd)) (\<lambda>(ok1, A1, fd1).
     bnd (if ok1 then a64_tune P E Args fd1 else Inr (ok1, A1, fd1)) (\<lambda>(ok, A, fd2).
     bnd (if ok then Inr fd2
          else case A of
              None \<Rightarrow> Inl NullPointer
            | Some A \<Rightarrow> Inr (report True (err_drv_clang_unsupported (a_string A)) fd2)) (\<lambda>fd3.
       let fd4 = (if getLastArg Args [Tgt OPT_mgeneral_regs_only] \<noteq> None
                  then pushes [''-fp-armv8'', ''-crypto'', ''-neon''] fd3 else fd3);
           fd5 = (case getLastArg Args [Tool OPT_mcrc, Tool OPT_mnocrc] of
               None \<Rightarrow> fd4
             | Some A \<Rightarrow> push (if a_opt A = Tool OPT_mcrc then ''+crc'' else ''-crc'') fd4);
           fd6 = (case getLastArg Args [Tool OPT_mno_unaligned_access, Tool OPT_munaligned_access] of
               None \<Rightarrow> fd5
             | Some A \<Rightarrow> push_if (a_opt A = Tool OPT_mno_unaligned_access) ''+strict-align'' fd5)
       in Inr (push_if (hasArg Args [Tgt OPT_ffixed_x18]) ''+reserve-x18'' fd6))))"

subsection \<open>All targets\<close>

text \<open>The switch on the architecture. Only ARM adds arguments itself.\<close>

definition arch_features :: "arm_parser \<Rightarrow> target_env \<Rightarrow> ToolChain \<Rightarrow> Triple \<Rightarrow> ArgList \<Rightarrow> bool \<Rightarrow> string list \<Rightarrow> feats \<Rightarrow>
    (string list \<times> feats) res" where
  "arch_features P E TC T Args ForAS CmdArgs fd =
     (let a = t_Arch T; rest = (\<lambda>r. bnd r (\<lambda>fd'. Inr (CmdArgs, fd')))
      in if a \<in> mips_archs then rest (getMIPSTargetFeatures T Args fd)
         else if a \<in> arm_archs then getARMTargetFeatures P TC T Args ForAS CmdArgs fd
         else if a = Arch_ppc \<or> a = Arch_ppc64 \<or> a = Arch_ppc64le then rest (getPPCTargetFeatures E Args fd)
         else if a = Arch_systemz then rest (Inr (getSystemZTargetFeatures Args fd))
         else if a = Arch_aarch64 \<or> a = Arch_aarch64_be then rest (getAArch64TargetFeatures P E Args fd)
         else if a = Arch_x86 \<or> a = Arch_x86_64 then rest (getX86TargetFeatures P E T Args fd)
         else if a = Arch_hexagon then rest (getHexagonTargetFeatures E Args fd)
         else if a = Arch_wasm32 \<or> a = Arch_wasm64 then rest (getWebAssemblyTargetFeatures E fd)
         else if a = Arch_sparc \<or> a = Arch_sparcel \<or> a = Arch_sparcv9 then rest (getSparcTargetFeatures Args fd)
         else if a = Arch_r600 \<or> a = Arch_amdgcn then rest (getAMDGPUTargetFeatures E Args fd)
         else rest (Inr fd))"

text \<open>The position of the last feature of each name, and the loop that passes on the features at these.\<close>

fun last_opts :: "nat \<Rightarrow> string list \<Rightarrow> (string \<Rightarrow> nat option) \<Rightarrow> (string \<Rightarrow> nat option) res" where
  "last_opts I [] LastOpt = Inr LastOpt"
| "last_opts I (Name # Fs) LastOpt =
     bnd (vget Name 0) (\<lambda>c.
       if c = CHR ''-'' \<or> c = CHR ''+'' then last_opts (I + 1) Fs (LastOpt(tl Name \<mapsto> I)) else Inl Unreachable)"

fun pass_features :: "(string \<Rightarrow> nat option) \<Rightarrow> nat \<Rightarrow> string list \<Rightarrow> string list \<Rightarrow> string list res" where
  "pass_features LastOpt I [] CmdArgs = Inr CmdArgs"
| "pass_features LastOpt I (Name # Fs) CmdArgs =
     (case LastOpt (tl Name) of
        None \<Rightarrow> Inl Unreachable
      | Some Last \<Rightarrow>
          pass_features LastOpt (I + 1) Fs (if Last \<noteq> I then CmdArgs else CmdArgs @ [''-target-feature'', Name]))"

definition getTargetFeatures :: "arm_parser \<Rightarrow> target_env \<Rightarrow> ToolChain \<Rightarrow> Triple \<Rightarrow> ArgList \<Rightarrow> bool \<Rightarrow> string list \<times> drv \<Rightarrow>
    (string list \<times> drv) res" where
  "getTargetFeatures P E TC T Args ForAS = (\<lambda>(CmdArgs, D).
     bnd (arch_features P E TC T Args ForAS CmdArgs ([], D)) (\<lambda>(CmdArgs1, Features, D1).
     bnd (last_opts 0 Features (\<lambda>_. None)) (\<lambda>LastOpt.
     bnd (pass_features LastOpt 0 Features CmdArgs1) (\<lambda>CmdArgs2. Inr (CmdArgs2, D1)))))"

subsection \<open>The last of each feature\<close>

text \<open>The reference: the features that no later one of the same name overrides.\<close>

abbreviation names_of :: "string list \<Rightarrow> string set" where
  "names_of Fs \<equiv> tl ` set Fs"

fun last_of_each :: "string list \<Rightarrow> string list" where
  "last_of_each [] = []"
| "last_of_each (F # Fs) = (if tl F \<in> names_of Fs then last_of_each Fs else F # last_of_each Fs)"

definition feature_flags :: "string list \<Rightarrow> string list" where
  "feature_flags Fs = concat (map (\<lambda>F. [''-target-feature'', F]) Fs)"

definition has_sign :: "string \<Rightarrow> bool" where
  "has_sign F \<longleftrightarrow> F \<noteq> [] \<and> (hd F = CHR ''-'' \<or> hd F = CHR ''+'')"

fun last_index :: "string \<Rightarrow> string list \<Rightarrow> nat" where
  "last_index n [] = 0"
| "last_index n (F # Fs) = (if n \<in> names_of Fs then Suc (last_index n Fs) else 0)"

lemma vget_sign: "has_sign F \<Longrightarrow> vget F 0 = Inr (hd F)"
  by (simp add: has_sign_def vget_def hd_conv_nth)

lemma last_opts_eq:
  "\<forall>F \<in> set Fs. has_sign F \<Longrightarrow>
     last_opts I Fs m = Inr (\<lambda>n. if n \<in> names_of Fs then Some (I + last_index n Fs) else m n)"
proof (induction Fs arbitrary: I m)
  case (Cons F Fs)
  then have "vget F 0 = Inr (hd F)" "hd F = CHR ''-'' \<or> hd F = CHR ''+''" "\<forall>G \<in> set Fs. has_sign G"
    by (simp_all add: vget_sign) (simp add: has_sign_def)
  then have step: "last_opts I (F # Fs) m = last_opts (I + 1) Fs (m(tl F \<mapsto> I))" by auto
  from \<open>\<forall>G \<in> set Fs. has_sign G\<close> show ?case
    unfolding step by (subst Cons.IH) (auto simp: fun_eq_iff)
qed simp

lemma last_opts_signed: "last_opts I Fs m = Inr m' \<Longrightarrow> \<forall>F \<in> set Fs. has_sign F"
proof (induction Fs arbitrary: I m)
  case (Cons F Fs)
  from Cons.prems obtain c where c: "vget F 0 = Inr c" "c = CHR ''-'' \<or> c = CHR ''+''"
    "last_opts (I + 1) Fs (m(tl F \<mapsto> I)) = Inr m'"
    by (auto simp: bnd_eq_Inr_iff split: if_splits)
  then have "has_sign F" by (cases F) (auto simp: vget_def has_sign_def)
  with Cons.IH [OF c(3)] show ?case by simp
qed simp

lemma pass_features_eq:
  "\<forall>n \<in> names_of Fs. m n = Some (I + last_index n Fs) \<Longrightarrow>
     pass_features m I Fs C = Inr (C @ feature_flags (last_of_each Fs))"
proof (induction Fs arbitrary: I C)
  case (Cons F Fs)
  have "\<forall>n \<in> names_of Fs. m n = Some (I + 1 + last_index n Fs)" using Cons.prems by auto
  from Cons.IH [OF this] show ?case using Cons.prems by (auto simp: feature_flags_def)
qed (simp add: feature_flags_def)

text \<open>The two loops, and what the reference list contains.\<close>

lemma feature_loops:
  "bnd (last_opts 0 Fs (\<lambda>_. None)) (\<lambda>LastOpt. pass_features LastOpt 0 Fs C) = Inr C' \<longleftrightarrow>
     (\<forall>F \<in> set Fs. has_sign F) \<and> C' = C @ feature_flags (last_of_each Fs)"
proof (cases "\<forall>F \<in> set Fs. has_sign F")
  case True
  then show ?thesis by (simp add: last_opts_eq pass_features_eq) blast
next
  case False
  then show ?thesis using last_opts_signed by (auto simp: bnd_eq_Inr_iff)
qed

lemma last_of_each_nths:
  "last_of_each Fs = nths Fs {i. \<forall>j. i < j \<and> j < length Fs \<longrightarrow> tl (Fs ! j) \<noteq> tl (Fs ! i)}"
proof (induction Fs)
  case (Cons F Fs)
  let ?A = "{i. \<forall>j. i < j \<and> j < length (F # Fs) \<longrightarrow> tl ((F # Fs) ! j) \<noteq> tl ((F # Fs) ! i)}"
  have "{j. Suc j \<in> ?A} = {i. \<forall>j. i < j \<and> j < length Fs \<longrightarrow> tl (Fs ! j) \<noteq> tl (Fs ! i)}"
    by (auto simp: less_Suc_eq_0_disj nth_Cons split: nat.splits)
  moreover have "0 \<in> ?A \<longleftrightarrow> (\<forall>j < length Fs. tl (Fs ! j) \<noteq> tl F)"
    by (auto simp: nth_Cons split: nat.splits)
  moreover have "(\<forall>j < length Fs. tl (Fs ! j) \<noteq> tl F) \<longleftrightarrow> tl F \<notin> names_of Fs"
    by (metis (no_types, lifting) imageE imageI in_set_conv_nth)
  ultimately show ?case by (simp add: nths_Cons Cons)
qed simp

lemma names_last_of_each [simp]: "names_of (last_of_each Fs) = names_of Fs"
  by (induction Fs) auto

lemma distinct_last_of_each: "distinct (map tl (last_of_each Fs))"
  by (induction Fs) simp_all

lemma in_last_of_each:
  "s # f \<in> set (last_of_each Fs) \<longleftrightarrow>
     (\<exists>before after. Fs = before @ (s # f) # after \<and> (\<forall>F \<in> set after. tl F \<noteq> f))"
proof (induction Fs)
  case (Cons G Fs)
  show ?case
  proof
    assume "s # f \<in> set (last_of_each (G # Fs))"
    then consider "G = s # f" "tl G \<notin> names_of Fs" | "s # f \<in> set (last_of_each Fs)"
      by (auto split: if_splits)
    then show "\<exists>before after. G # Fs = before @ (s # f) # after \<and> (\<forall>F \<in> set after. tl F \<noteq> f)"
    proof cases
      case 1
      then have "\<forall>F \<in> set Fs. tl F \<noteq> f" by force
      with 1 show ?thesis by blast
    next
      case 2
      with Cons.IH obtain b a where "Fs = b @ (s # f) # a" "\<forall>F \<in> set a. tl F \<noteq> f" by blast
      then have "G # Fs = (G # b) @ (s # f) # a \<and> (\<forall>F \<in> set a. tl F \<noteq> f)" by simp
      then show ?thesis by blast
    qed
  next
    assume "\<exists>before after. G # Fs = before @ (s # f) # after \<and> (\<forall>F \<in> set after. tl F \<noteq> f)"
    then obtain b a where ba: "G # Fs = b @ (s # f) # a" "\<forall>F \<in> set a. tl F \<noteq> f" by blast
    then show "s # f \<in> set (last_of_each (G # Fs))"
      using Cons.IH by (cases b) (auto simp: image_iff)
  qed
qed simp

lemma last_of_each_middle:
  "\<forall>F \<in> set ys. tl F \<noteq> f \<Longrightarrow> s # f \<in> set (last_of_each (xs @ (c # f) # ys)) \<longleftrightarrow> s = c"
proof (induction xs)
  case Nil
  have "s # f \<notin> set (last_of_each ys)" if "\<forall>F \<in> set ys. tl F \<noteq> f"
    using that by (auto simp: in_last_of_each)
  with Nil show ?case by (auto simp: image_iff)
qed auto

end
