(* ===== verification/TargetArgs.thy ===== *)
theory TargetArgs
  imports TargetFeatures
begin

text \<open>
  The arguments for the compiler that depend on the target (\<open>Tools.cpp\<close>, the functions \<open>Clang::Add\<dots>TargetArgs\<close>
  other than the one for ARM). The arguments and the driver travel together, as features do.
\<close>

subsection \<open>AArch64\<close>

definition red_zone_args :: "ArgList \<Rightarrow> string list" where
  "red_zone_args Args =
     (if \<not> hasFlag Args (Tgt OPT_mred_zone) (Tgt OPT_mno_red_zone) True \<or> hasArg Args [Tool OPT_mkernel] \<or>
         hasArg Args [Tool OPT_fapple_kext] then [''-disable-red-zone''] else [])"

definition a53_args :: "Triple \<Rightarrow> ArgList \<Rightarrow> string list" where
  "a53_args T Args =
     (case getLastArg Args [Tgt OPT_mfix_cortex_a53_835769, Tgt OPT_mno_fix_cortex_a53_835769] of
        Some A \<Rightarrow> [''-backend-option'',
          if a_opt A = Tgt OPT_mfix_cortex_a53_835769 then ''-aarch64-fix-cortex-a53-835769=1''
          else ''-aarch64-fix-cortex-a53-835769=0'']
      | None \<Rightarrow> if t_isAndroid T then [''-backend-option'', ''-aarch64-fix-cortex-a53-835769=1''] else [])"

definition AddAArch64TargetArgs :: "ToolChain \<Rightarrow> ArgList \<Rightarrow> string list \<Rightarrow> string list res" where
  "AddAArch64TargetArgs TC Args CmdArgs =
     (let T = tc_EffectiveTriple TC
      in bnd (value_or (getLastArg Args [Tool OPT_mabi_EQ]) (if t_isOSDarwin T then ''darwinpcs'' else ''aapcs'')) (\<lambda>ABIName.
         Inr (CmdArgs @ red_zone_args Args @
           (if \<not> hasFlag Args (Tool OPT_mimplicit_float) (Tool OPT_mno_implicit_float) True
            then [''-no-implicit-float''] else []) @
           [''-target-abi'', ABIName] @ a53_args T Args @
           (case getLastArg Args [Tool OPT_mglobal_merge, Tool OPT_mno_global_merge] of
              None \<Rightarrow> []
            | Some A \<Rightarrow> [''-backend-option'',
                if a_opt A = Tool OPT_mno_global_merge then ''-aarch64-global-merge=false''
                else ''-aarch64-global-merge=true'']))))"

subsection \<open>MIPS\<close>

text \<open>The float ABI, which MIPS, PowerPC and SPARC pass on in the same way; anything else fails an assertion.\<close>

definition soft_or_hard :: "FloatABI \<Rightarrow> string list res" where
  "soft_or_hard ABI =
     (if ABI = FloatSoft then Inr [''-msoft-float'', ''-mfloat-abi'', ''soft'']
      else if ABI = FloatHard then Inr [''-mfloat-abi'', ''hard'']
      else Inl Unreachable)"

text \<open>The option \<open>opt\<close>, if it is the last of the two, is passed on to LLVM.\<close>

definition mllvm_if_last :: "ArgList \<Rightarrow> OptID \<Rightarrow> OptID \<Rightarrow> OptID \<Rightarrow> string \<Rightarrow> string list" where
  "mllvm_if_last Args On Off opt F =
     (case getLastArg Args [On, Off] of None \<Rightarrow> [] | Some A \<Rightarrow> if a_opt A = opt then [''-mllvm'', F] else [])"

definition mips_threshold :: "ArgList \<Rightarrow> feats \<Rightarrow> feats res" where
  "mips_threshold Args = (\<lambda>(CmdArgs, D).
     case getLastArg Args [Mips OPT_G] of
       None \<Rightarrow> Inr (CmdArgs, D)
     | Some A \<Rightarrow> bnd (getValue A) (\<lambda>v.
         Inr (CmdArgs @ [''-mllvm'', ''-mips-ssection-threshold='' @ v], claim A D)))"

definition mips_compact_branches :: "ArgList \<Rightarrow> string \<Rightarrow> feats \<Rightarrow> feats res" where
  "mips_compact_branches Args CPUName r =
     (case getLastArg Args [Mips OPT_mcompact_branches_EQ] of
        None \<Rightarrow> Inr r
      | Some A \<Rightarrow> bnd (getValue A) (\<lambda>Val. Inr (
          if hasCompactBranches CPUName then
            if Val = ''never'' \<or> Val = ''always'' \<or> Val = ''optimal''
            then pushes [''-mllvm'', ''-mips-compact-branches='' @ Val] r
            else report True (err_drv_unsupported_option_argument (a_name A) Val) r
          else report True (warn_target_unsupported_compact_branches CPUName) r)))"

definition AddMIPSTargetArgs :: "ToolChain \<Rightarrow> ArgList \<Rightarrow> feats \<Rightarrow> feats res" where
  "AddMIPSTargetArgs TC Args = (\<lambda>(CmdArgs, D).
     bnd (getMipsCPUAndABI Args (tc_Triple TC)) (\<lambda>(CPUName, ABIName).
     bnd (getMipsFloatABI Args D) (\<lambda>(ABI, D1).
     bnd (soft_or_hard ABI) (\<lambda>float_args.
     bnd (mips_threshold Args (CmdArgs @ [''-target-abi'', ABIName] @ float_args @
         mllvm_if_last Args (Mips OPT_mxgot) (Mips OPT_mno_xgot) (Mips OPT_mxgot) ''-mxgot'' @
         mllvm_if_last Args (Mips OPT_mldc1_sdc1) (Mips OPT_mno_ldc1_sdc1) (Mips OPT_mno_ldc1_sdc1) ''-mno-ldc1-sdc1'' @
         mllvm_if_last Args (Mips OPT_mcheck_zero_division) (Mips OPT_mno_check_zero_division)
           (Mips OPT_mno_check_zero_division) ''-mno-check-zero-division'', D1))
       (mips_compact_branches Args CPUName)))))"

subsection \<open>PowerPC, SPARC, SystemZ\<close>

definition ppc64_qpx :: "ArgList \<Rightarrow> bool res" where
  "ppc64_qpx Args =
     bnd (case getLastArg Args [Tool OPT_mcpu_EQ] of
            None \<Rightarrow> Inr False
          | Some A \<Rightarrow> bnd (getValue A) (\<lambda>v. Inr (v = ''a2q''))) (\<lambda>HasQPX.
       Inr (hasFlag Args (Tgt OPT_mqpx) (Tgt OPT_mno_qpx) HasQPX))"

definition ppc_abi :: "ToolChain \<Rightarrow> ArgList \<Rightarrow> string option res" where
  "ppc_abi TC Args =
     bnd (if \<not> t_isOSLinux (tc_Triple TC) then Inr None
          else if t_Arch (tc_Triple TC) = Arch_ppc64 then
            bnd (ppc64_qpx Args) (\<lambda>HasQPX. Inr (Some (if HasQPX then ''elfv1-qpx'' else ''elfv1'')))
          else if t_Arch (tc_Triple TC) = Arch_ppc64le then Inr (Some ''elfv2'')
          else Inr None) (\<lambda>ABIName.
       case getLastArg Args [Tool OPT_mabi_EQ] of
         None \<Rightarrow> Inr ABIName
       | Some A \<Rightarrow> bnd (getValue A) (\<lambda>v. Inr (if v \<noteq> ''altivec'' then Some v else ABIName)))"

definition AddPPCTargetArgs :: "ToolChain \<Rightarrow> ArgList \<Rightarrow> feats \<Rightarrow> feats res" where
  "AddPPCTargetArgs TC Args = (\<lambda>(CmdArgs, D).
     bnd (ppc_abi TC Args) (\<lambda>ABIName.
     bnd (getPPCFloatABI Args D) (\<lambda>(ABI, D1).
     bnd (soft_or_hard ABI) (\<lambda>float_args.
       Inr (CmdArgs @ float_args @ (case ABIName of None \<Rightarrow> [] | Some N \<Rightarrow> [''-target-abi'', N]), D1)))))"

definition hasPPCAbiArg :: "ArgList \<Rightarrow> string \<Rightarrow> bool res" where
  "hasPPCAbiArg Args Value =
     (case getLastArg Args [Tool OPT_mabi_EQ] of None \<Rightarrow> Inr False | Some A \<Rightarrow> bnd (getValue A) (\<lambda>v. Inr (v = Value)))"

definition AddSparcTargetArgs :: "ArgList \<Rightarrow> feats \<Rightarrow> feats res" where
  "AddSparcTargetArgs Args = (\<lambda>(CmdArgs, D).
     bnd (getSparcFloatABI Args D) (\<lambda>(ABI, D1).
     bnd (soft_or_hard ABI) (\<lambda>float_args. Inr (CmdArgs @ float_args, D1))))"

definition AddSystemZTargetArgs :: "ArgList \<Rightarrow> string list \<Rightarrow> string list" where
  "AddSystemZTargetArgs Args CmdArgs =
     CmdArgs @ (if hasFlag Args (Tgt OPT_mbackchain) (Tgt OPT_mno_backchain) False then [''-mbackchain''] else [])"

subsection \<open>X86\<close>

definition x86_no_implicit_float :: "ArgList \<Rightarrow> bool" where
  "x86_no_implicit_float Args =
     (case getLastArg Args [Tool OPT_msoft_float, Tgt OPT_mno_soft_float, Tool OPT_mimplicit_float, Tool OPT_mno_implicit_float] of
        Some A \<Rightarrow> a_opt A = Tool OPT_mno_implicit_float \<or> a_opt A = Tool OPT_msoft_float
      | None \<Rightarrow> hasArg Args [Tool OPT_mkernel] \<or> hasArg Args [Tool OPT_fapple_kext])"

definition asm_syntax :: "ArgList \<Rightarrow> feats \<Rightarrow> feats res" where
  "asm_syntax Args r =
     (case getLastArg Args [Tgt OPT_masm_EQ] of
        None \<Rightarrow> Inr r
      | Some A \<Rightarrow> bnd (getValue A) (\<lambda>Value. Inr (
          if Value = ''intel'' \<or> Value = ''att'' then pushes [''-mllvm'', ''-x86-asm-syntax='' @ Value] r
          else report True (err_drv_unsupported_option_argument (a_name A) Value) r)))"

definition AddX86TargetArgs :: "ArgList \<Rightarrow> feats \<Rightarrow> feats res" where
  "AddX86TargetArgs Args r =
     bnd (asm_syntax Args (pushes (red_zone_args Args @
         (if x86_no_implicit_float Args then [''-no-implicit-float''] else [])) r)) (\<lambda>r1.
       Inr (if hasFlag Args (Tgt OPT_miamcu) (Tgt OPT_mno_iamcu) False
            then pushes [''-mfloat-abi'', ''soft'', ''-mstack-alignment=4''] r1 else r1))"

subsection \<open>Hexagon, Lanai, WebAssembly\<close>

definition AddHexagonTargetArgs :: "target_env \<Rightarrow> ArgList \<Rightarrow> string list \<Rightarrow> string list" where
  "AddHexagonTargetArgs E Args CmdArgs =
     CmdArgs @ [''-mqdsp6-compat'', ''-Wreturn-type''] @
     (case te_SmallDataThreshold E of
        None \<Rightarrow> [] | Some G \<Rightarrow> [''-mllvm'', ''-hexagon-small-data-threshold='' @ show_nat G]) @
     (if \<not> hasArg Args [Tgt OPT_fno_short_enums] then [''-fshort-enums''] else []) @
     (if getLastArg Args [Tgt OPT_mieee_rnd_near] \<noteq> None then [''-mllvm'', ''-enable-hexagon-ieee-rnd-near''] else []) @
     [''-mllvm'', ''-machine-sink-split=0'']"

text \<open>
  \<open>getAsInteger\<close> returns true when the text is no number, and leaves \<open>Mregparm\<close> as it was then: not written.
\<close>

definition AddLanaiTargetArgs :: "target_env \<Rightarrow> ArgList \<Rightarrow> feats \<Rightarrow> feats res" where
  "AddLanaiTargetArgs E Args r =
     bnd (case getLastArg Args [Tool OPT_mcpu_EQ] of
            None \<Rightarrow> Inr r
          | Some A \<Rightarrow> bnd (getValue A) (\<lambda>CPUName. Inr (pushes [''-target-cpu'', CPUName] r))) (\<lambda>r1.
       case getLastArg Args [Tgt OPT_mregparm_EQ] of
         None \<Rightarrow> Inr r1
       | Some A \<Rightarrow> bnd (getValue A) (\<lambda>Value.
           case te_getAsInteger E Value of
             None \<Rightarrow> Inl Uninitialised
           | Some Mregparm \<Rightarrow> Inr r1))"

definition AddWebAssemblyTargetArgs :: "ArgList \<Rightarrow> string list \<Rightarrow> string list" where
  "AddWebAssemblyTargetArgs Args CmdArgs =
     CmdArgs @ (if \<not> hasArg Args [OPT_fvisibility_EQ, Tgt OPT_fvisibility_ms_compat] then [''-fvisibility'', ''hidden''] else [])"

subsection \<open>The part of the compiler's job that depends on the target\<close>

definition in_arg_list :: "drv \<Rightarrow> string list res \<Rightarrow> feats res" where
  "in_arg_list D r = bnd r (\<lambda>CmdArgs. Inr (CmdArgs, D))"

definition target_flags :: "arm_parser \<Rightarrow> target_env \<Rightarrow> ToolChain \<Rightarrow> ArgList \<Rightarrow> feats \<Rightarrow> feats res" where
  "target_flags P E TC Args r =
     (let a = t_Arch (tc_Triple TC); (CmdArgs, D) = r
      in if a \<in> arm_archs then AddARMTargetArgs P TC (tc_EffectiveTriple TC) Args CmdArgs D
         else if a = Arch_aarch64 \<or> a = Arch_aarch64_be then in_arg_list D (AddAArch64TargetArgs TC Args CmdArgs)
         else if a \<in> mips_archs then AddMIPSTargetArgs TC Args r
         else if a = Arch_ppc \<or> a = Arch_ppc64 \<or> a = Arch_ppc64le then AddPPCTargetArgs TC Args r
         else if a = Arch_sparc \<or> a = Arch_sparcel \<or> a = Arch_sparcv9 then AddSparcTargetArgs Args r
         else if a = Arch_systemz then Inr (AddSystemZTargetArgs Args CmdArgs, D)
         else if a = Arch_x86 \<or> a = Arch_x86_64 then AddX86TargetArgs Args r
         else if a = Arch_lanai then AddLanaiTargetArgs E Args r
         else if a = Arch_hexagon then Inr (AddHexagonTargetArgs E Args CmdArgs, D)
         else if a = Arch_wasm32 \<or> a = Arch_wasm64 then Inr (AddWebAssemblyTargetArgs Args CmdArgs, D)
         else Inr r)"

definition target_cpu :: "arm_parser \<Rightarrow> target_env \<Rightarrow> Triple \<Rightarrow> ArgList \<Rightarrow> bool \<Rightarrow> string list \<Rightarrow> string list res" where
  "target_cpu P E T Args FromAs CmdArgs =
     bnd (getCPUName P E Args T FromAs) (\<lambda>CPU.
       Inr (if CPU \<noteq> [] then CmdArgs @ [''-target-cpu'', CPU] else CmdArgs))"

definition target_job :: "arm_parser \<Rightarrow> target_env \<Rightarrow> ToolChain \<Rightarrow> ArgList \<Rightarrow> feats \<Rightarrow> feats res" where
  "target_job P E TC Args = (\<lambda>(CmdArgs, D).
     let T = tc_EffectiveTriple TC
     in bnd (target_cpu P E T Args False CmdArgs) (\<lambda>c1.
        bnd (case getLastArg Args [Asm OPT_mfpmath_EQ] of
               None \<Rightarrow> Inr c1
             | Some A \<Rightarrow> bnd (getValue A) (\<lambda>v. Inr (c1 @ [''-mfpmath'', v]))) (\<lambda>c2.
        bnd (getTargetFeatures P E TC T Args False (c2, D)) (target_flags P E TC Args))))"

subsection \<open>\<open>-mregparm=\<close> on Lanai\<close>

text \<open>
  Every number is accepted, not only 4, without a diagnostic, and a text that is no number makes the code read
  a variable it has not written.
\<close>

lemma lanai_mregparm:
  assumes "getLastArg Args [Tgt OPT_mregparm_EQ] = Some A" and "getLastArg Args [Tool OPT_mcpu_EQ] = None"
    and "a_values A = [v]"
  shows "AddLanaiTargetArgs E Args r = (case te_getAsInteger E v of None \<Rightarrow> Inl Uninitialised | Some n \<Rightarrow> Inr r)"
  using assms by (simp add: AddLanaiTargetArgs_def getValue_def vget_def split: option.split)

end
