(* ===== verification/PicArgs.thy ===== *)
theory PicArgs
  imports SanitizerFacts
begin

text \<open>
  Position independent code (\<open>Tools.cpp\<close>, \<open>ParsePICArgs\<close> and its users): the relocation model, the PIC
  level and whether the program is PIE, from the options and the defaults of the tool chain. The defaults are
  fields of \<open>pic_env\<close>, because the tool chains are not part of the repository; an unsigned level is a natural
  number.
\<close>

subsection \<open>The decision\<close>

record pic_env =
  isPIEDefault :: bool
  isPICDefault :: bool
  isPICDefaultForced :: bool
  pic_Arch :: ArchType

datatype RelocModel = Static | Reloc_PIC | DynamicNoPIC | ROPI | RWPI | ROPI_RWPI

text \<open>The variables \<open>PIE\<close>, \<open>PIC\<close> and \<open>IsPICLevelTwo\<close>.\<close>

record pic =
  PIE :: bool
  PIC :: bool
  IsPICLevelTwo :: bool

definition pic_defaults :: "pic_env \<Rightarrow> ToolChain \<Rightarrow> ArgList \<Rightarrow> pic" where
  "pic_defaults E TC Args =
     (let T = tc_Triple TC;
          off = t_isOSBinFormatMachO T \<and> hasArg Args [Link OPT_static];
          pie = isPIEDefault E \<and> \<not> off;
          pc = (isPIEDefault E \<or> isPICDefault E) \<and> \<not> off;
          p0 = \<lparr>PIE = pie, PIC = pc, IsPICLevelTwo = pc\<rparr>;
          p1 = (if t_isAndroid T then
                  if t_Arch T \<in> arm_archs \<union> {Arch_aarch64, Arch_mips, Arch_mipsel, Arch_mips64, Arch_mips64el}
                  then p0\<lparr>PIC := True\<rparr>
                  else if t_Arch T = Arch_x86 \<or> t_Arch T = Arch_x86_64
                  then p0\<lparr>PIC := True, IsPICLevelTwo := True\<rparr>
                  else p0
                else p0)
      in if t_OS T = OS_OpenBSD then
           if pic_Arch E \<in> {Arch_mips64, Arch_mips64el, Arch_sparcel, Arch_x86, Arch_x86_64}
           then p1\<lparr>IsPICLevelTwo := False\<rparr>
           else if pic_Arch E \<in> {Arch_ppc, Arch_sparc, Arch_sparcv9} then p1\<lparr>IsPICLevelTwo := True\<rparr>
           else p1
         else p1)"

definition pic_options :: "OptID list" where
  "pic_options = map Pic [OPT_fPIC, OPT_fno_PIC, OPT_fpic, OPT_fno_pic, OPT_fPIE, OPT_fno_PIE, OPT_fpie, OPT_fno_pie]"

definition pic_positive :: "OptID list" where
  "pic_positive = map Pic [OPT_fPIC, OPT_fpic, OPT_fPIE, OPT_fpie]"

definition is_pie :: "OptID \<Rightarrow> bool" where
  "is_pie opt \<longleftrightarrow> opt = Pic OPT_fPIE \<or> opt = Pic OPT_fpie"

definition is_level_two :: "OptID \<Rightarrow> bool" where
  "is_level_two opt \<longleftrightarrow> opt = Pic OPT_fPIE \<or> opt = Pic OPT_fPIC"

text \<open>The last option, unless the tool chain forces its default. PS4 keeps PIC outside the kernel model.\<close>

definition pic_last :: "ToolChain \<Rightarrow> ArgList \<Rightarrow> Arg \<Rightarrow> pic \<Rightarrow> drv \<Rightarrow> (pic \<times> drv) res" where
  "pic_last TC Args A p D =
     (if a_opt A \<in> set pic_positive
      then Inr (\<lparr>PIE = is_pie (a_opt A), PIC = True, IsPICLevelTwo = is_level_two (a_opt A)\<rparr>, D)
      else if t_isPS4CPU (tc_EffectiveTriple TC) then
        bnd (case getLastArg Args [Pic OPT_mcmodel_EQ] of None \<Rightarrow> Inr [] | Some M \<Rightarrow> getValue M) (\<lambda>Model.
          if Model \<noteq> ''kernel''
          then Inr (p\<lparr>PIE := False, PIC := True\<rparr>, Diag (warn_drv_ps4_force_pic (a_spelling A)) D)
          else Inr (p\<lparr>PIE := False, PIC := False\<rparr>, D))
      else Inr (p\<lparr>PIE := False, PIC := False\<rparr>, D))"

text \<open>Darwin and PS4 keep level two, and the kernel options switch everything off.\<close>

definition pic_trumps :: "pic_env \<Rightarrow> ToolChain \<Rightarrow> ArgList \<Rightarrow> pic \<Rightarrow> pic" where
  "pic_trumps E TC Args p =
     (let T = tc_Triple TC; ET = tc_EffectiveTriple TC;
          p1 = (if PIC p \<and> (t_isOSDarwin T \<or> t_isPS4CPU ET)
                then p\<lparr>IsPICLevelTwo := IsPICLevelTwo p \<or> isPICDefault E\<rparr> else p)
      in if hasArg Args [Tool OPT_mkernel, Tool OPT_fapple_kext] \<and>
           ((\<not> t_isiOS ET \<or> t_isOSVersionLT6 ET) \<and> t_OS ET \<noteq> OS_WatchOS)
         then p1\<lparr>PIE := False, PIC := False\<rparr> else p1)"

text \<open>\<open>-fropi\<close> or \<open>-frwpi\<close>: whether it is on, and the diagnostic on targets other than ARM.\<close>

definition embedded_pi :: "ToolChain \<Rightarrow> ArgList \<Rightarrow> PicOpt \<Rightarrow> PicOpt \<Rightarrow> drv \<Rightarrow> bool \<times> drv" where
  "embedded_pi TC Args on off D =
     (case getLastArg Args [Pic on, Pic off] of
        None \<Rightarrow> (False, D)
      | Some A \<Rightarrow>
          if a_opt A = Pic on
          then (True, Diag_if (t_Arch (tc_Triple TC) \<notin> arm_archs)
            (err_drv_unsupported_opt_for_target (a_spelling A) (t_str (tc_Triple TC))) D)
          else (False, D))"

definition pic_result :: "ToolChain \<Rightarrow> ArgList \<Rightarrow> pic \<Rightarrow> drv \<Rightarrow> (RelocModel \<times> nat \<times> bool) \<times> drv" where
  "pic_result TC Args p D =
     (let (ropi, D1) = embedded_pi TC Args OPT_fropi OPT_fno_ropi D;
          (rwpi, D2) = embedded_pi TC Args OPT_frwpi OPT_fno_rwpi D1;
          D3 = Diag_if ((ropi \<or> rwpi) \<and> (PIC p \<or> PIE p)) err_drv_ropi_rwpi_incompatible_with_pic D2
      in if PIC p then ((Reloc_PIC, if IsPICLevelTwo p then 2 else 1, PIE p), D3)
         else ((if ropi \<and> rwpi then ROPI_RWPI else if ropi then ROPI else if rwpi then RWPI else Static, 0, False), D3))"

definition dynamic_no_pic :: "pic_env \<Rightarrow> ToolChain \<Rightarrow> Arg \<Rightarrow> drv \<Rightarrow> (RelocModel \<times> nat \<times> bool) \<times> drv" where
  "dynamic_no_pic E TC A D =
     ((DynamicNoPIC, if isPICDefault E \<and> isPICDefaultForced E then 2 else 0, False),
      Diag_if (\<not> t_isOSDarwin (tc_Triple TC))
        (err_drv_unsupported_opt_for_target (a_spelling A) (t_str (tc_Triple TC))) D)"

definition ParsePICArgs :: "pic_env \<Rightarrow> ToolChain \<Rightarrow> ArgList \<Rightarrow> drv \<Rightarrow> ((RelocModel \<times> nat \<times> bool) \<times> drv) res" where
  "ParsePICArgs E TC Args D =
     (let T = tc_Triple TC; Last = getLastArg Args pic_options; p0 = pic_defaults E TC Args
      in case Last of
          Some A \<Rightarrow>
            if t_isOSWindows T \<and> Last = getLastArg Args pic_positive
            then Inr (if t_Arch T = Arch_x86_64 then (Reloc_PIC, 2, False) else (Static, 0, False),
              Diag (err_drv_unsupported_opt_for_target (a_spelling A) (t_str T)) D)
            else bnd (if isPICDefaultForced E then Inr (p0, D) else pic_last TC Args A p0 D) (\<lambda>(p, D1).
              Inr (case getLastArg Args [Pic OPT_mdynamic_no_pic] of
                  Some M \<Rightarrow> dynamic_no_pic E TC M D1
                | None \<Rightarrow> pic_result TC Args (pic_trumps E TC Args p) D1))
        | None \<Rightarrow>
            Inr (case getLastArg Args [Pic OPT_mdynamic_no_pic] of
                Some M \<Rightarrow> dynamic_no_pic E TC M D
              | None \<Rightarrow> pic_result TC Args (pic_trumps E TC Args p0) D))"

fun RelocationModelName :: "RelocModel \<Rightarrow> string" where
  "RelocationModelName Static = ''static''"
| "RelocationModelName Reloc_PIC = ''pic''"
| "RelocationModelName DynamicNoPIC = ''dynamic-no-pic''"
| "RelocationModelName ROPI = ''ropi''"
| "RelocationModelName RWPI = ''rwpi''"
| "RelocationModelName ROPI_RWPI = ''ropi-rwpi''"

definition AddAssemblerKPIC :: "pic_env \<Rightarrow> ToolChain \<Rightarrow> ArgList \<Rightarrow> string list \<Rightarrow> drv \<Rightarrow> (string list \<times> drv) res" where
  "AddAssemblerKPIC E TC Args CmdArgs D =
     bnd (ParsePICArgs E TC Args D) (\<lambda>((RelocationModel, PICLevel, IsPIE), D1).
       Inr (if RelocationModel \<noteq> Static then CmdArgs @ [''-KPIC''] else CmdArgs, D1))"

subsection \<open>What is decided\<close>

definition pie_is_pic :: "pic \<Rightarrow> bool" where
  "pie_is_pic p \<longleftrightarrow> (PIE p \<longrightarrow> PIC p)"

lemma pic_defaults_ok: "pie_is_pic (pic_defaults E TC Args)"
  by (simp add: pic_defaults_def pie_is_pic_def Let_def)

lemma pic_last_ok: "pic_last TC Args A p D = Inr (p', D') \<Longrightarrow> pie_is_pic p'"
  by (auto simp: pic_last_def pie_is_pic_def bnd_eq_Inr_iff split: if_splits option.splits)

lemma pic_trumps_ok: "pie_is_pic p \<Longrightarrow> pie_is_pic (pic_trumps E TC Args p)"
  by (simp add: pic_trumps_def pie_is_pic_def Let_def)

lemma pic_result_ok:
  "pie_is_pic p \<Longrightarrow> pic_result TC Args p D = ((model, level, pie), D') \<Longrightarrow>
   level \<le> 2 \<and> (pie \<longrightarrow> model = Reloc_PIC) \<and> (model = Reloc_PIC \<longleftrightarrow> 0 < level \<and> model \<noteq> DynamicNoPIC)"
  by (auto simp: pic_result_def pie_is_pic_def Let_def split: prod.splits if_splits)

text \<open>A target without defaults of its own, and no option of the kernel or of Darwin's special mode.\<close>

definition plain_target :: "pic_env \<Rightarrow> ToolChain \<Rightarrow> ArgList \<Rightarrow> bool" where
  "plain_target E TC Args \<longleftrightarrow> \<not> t_isOSWindows (tc_Triple TC) \<and> \<not> t_isOSDarwin (tc_Triple TC)
     \<and> \<not> t_isPS4CPU (tc_EffectiveTriple TC) \<and> \<not> isPICDefaultForced E
     \<and> \<not> hasArg Args [Tool OPT_mkernel, Tool OPT_fapple_kext] \<and> getLastArg Args [Pic OPT_mdynamic_no_pic] = None"

lemma plain_last_wins:
  assumes "plain_target E TC Args" and "getLastArg Args pic_options = Some A"
    and "ParsePICArgs E TC Args D = Inr ((model, level, pie), D')"
  shows "(level, pie) = (if a_opt A \<in> set pic_positive
    then (if is_level_two (a_opt A) then 2 else 1, is_pie (a_opt A)) else (0, False))"
  using assms
  by (auto simp: plain_target_def ParsePICArgs_def Let_def pic_last_def pic_trumps_def pic_result_def
      split: prod.splits if_splits)

text \<open>
  C10: The relocation model, the PIC level and the PIE flag fit together: the level is at most 2, PIE needs
  PIC, and the model is PIC exactly when the level is positive, Darwin's mode without PIC apart. On a target
  without special rules the last of the eight options decides level and PIE alone: the defaults of the tool
  chain, Android's and OpenBSD's among them, no longer matter.
\<close>

theorem pic_decision:
  assumes "ParsePICArgs E TC Args D = Inr ((model, level, pie), D')"
  shows "level \<le> 2 \<and> (pie \<longrightarrow> model = Reloc_PIC) \<and> (model = Reloc_PIC \<longleftrightarrow> 0 < level \<and> model \<noteq> DynamicNoPIC) \<and>
    (\<forall>A. plain_target E TC Args \<and> getLastArg Args pic_options = Some A \<longrightarrow>
      (level, pie) = (if a_opt A \<in> set pic_positive
        then (if is_level_two (a_opt A) then 2 else 1, is_pie (a_opt A)) else (0, False)))"
proof -
  have "level \<le> 2 \<and> (pie \<longrightarrow> model = Reloc_PIC) \<and> (model = Reloc_PIC \<longleftrightarrow> 0 < level \<and> model \<noteq> DynamicNoPIC)"
  proof (cases "\<exists>p D1. pie_is_pic p \<and> pic_result TC Args p D1 = ((model, level, pie), D')")
    case True
    then show ?thesis using pic_result_ok by blast
  next
    case False
    then have r: "pic_result TC Args (pic_trumps E TC Args p) D1 \<noteq> ((model, level, pie), D')" if "pie_is_pic p" for p D1
      using that pic_trumps_ok by blast
    note r [OF pic_defaults_ok] r [OF pic_last_ok]
    with assms show ?thesis
      by (auto simp: ParsePICArgs_def Let_def dynamic_no_pic_def bnd_eq_Inr_iff
          split: option.splits if_splits prod.splits)
  qed
  with plain_last_wins [OF _ _ assms] show ?thesis by blast
qed

definition demo_pic_env :: pic_env where
  "demo_pic_env = \<lparr>isPIEDefault = True, isPICDefault = False, isPICDefaultForced = False, pic_Arch = Arch_arm\<rparr>"

theorem pic_decision_witness:
  "\<exists>model level pie D'. ParsePICArgs demo_pic_env demo_TC (demo_args [demo_arg 0 (Pic OPT_fPIE) [], demo_arg 1 (Pic OPT_fpic) []])
      \<lparr>diags = [], claimed = []\<rparr> = Inr ((model, level, pie), D') \<and>
    level \<le> 2 \<and> (model = Reloc_PIC \<longleftrightarrow> 0 < level \<and> model \<noteq> DynamicNoPIC) \<and> (level, pie) = (1, False)"
proof -
  let ?Args = "demo_args [demo_arg 0 (Pic OPT_fPIE) [], demo_arg 1 (Pic OPT_fpic) []]"
  let ?D = "\<lparr>diags = [], claimed = []\<rparr>"
  have p: "ParsePICArgs demo_pic_env demo_TC ?Args ?D = Inr ((Reloc_PIC, 1, False), ?D)"
    by (simp add: ParsePICArgs_def pic_options_def pic_positive_def pic_defaults_def pic_last_def pic_trumps_def
        pic_result_def embedded_pi_def is_pie_def is_level_two_def demo_pic_env_def demo_defs Diag_if_def Let_def)
  from pic_decision [OF p] p show ?thesis by blast
qed

end
