(* ===== verification/Quoting.thy ===== *)
theory Quoting
  imports Prelude
begin

text \<open>
  Strings that other programs read back (\<open>Tools.cpp\<close>): the arguments recorded in the debug information, with
  spaces and backslashes escaped, and target names in dependency files for Make. Each has the reader that
  undoes it.
\<close>

abbreviation backslash :: char where
  "backslash \<equiv> CHR 0x5C"

subsection \<open>Recorded command lines\<close>

text \<open>\<open>Res\<close> is the buffer that is appended to.\<close>

fun EscapeSpacesAndBackslashes :: "string \<Rightarrow> string \<Rightarrow> string" where
  "EscapeSpacesAndBackslashes [] Res = Res"
| "EscapeSpacesAndBackslashes (c # Arg) Res =
     EscapeSpacesAndBackslashes Arg ((if c = CHR '' '' \<or> c = backslash then Res @ [backslash] else Res) @ [c])"

fun debug_flags :: "string \<Rightarrow> string list \<Rightarrow> string" where
  "debug_flags Flags [] = Flags"
| "debug_flags Flags (OriginalArg # Args) =
     debug_flags (Flags @ '' '' @ EscapeSpacesAndBackslashes OriginalArg []) Args"

text \<open>The reader: it splits at the spaces without a backslash before them.\<close>

fun read_flags :: "string \<Rightarrow> string \<Rightarrow> string list" where
  "read_flags acc [] = [acc]"
| "read_flags acc (c # s) =
     (if c = CHR '' '' then acc # read_flags [] s
      else if c = backslash then (case s of [] \<Rightarrow> [acc @ [c]] | d # s' \<Rightarrow> read_flags (acc @ [d]) s')
      else read_flags (acc @ [c]) s)"

definition escaped :: "string \<Rightarrow> string" where
  "escaped s = concat (map (\<lambda>c. if c = CHR '' '' \<or> c = backslash then [backslash, c] else [c]) s)"

lemma Escape_eq: "EscapeSpacesAndBackslashes s Res = Res @ escaped s"
  by (induction s arbitrary: Res) (simp_all add: escaped_def)

lemma debug_flags_eq: "debug_flags Flags Args = Flags @ concat (map (\<lambda>A. '' '' @ escaped A) Args)"
  by (induction Args arbitrary: Flags) (simp_all add: Escape_eq)

lemma read_escaped: "read_flags acc (escaped s @ rest) = read_flags (acc @ s) rest"
  by (induction s arbitrary: acc) (simp_all add: escaped_def)

lemma read_args: "read_flags acc (concat (map (\<lambda>A. '' '' @ escaped A) Args)) = acc # Args"
proof (induction Args arbitrary: acc)
  case (Cons A Args)
  show ?case using Cons.IH [of A] by (simp add: read_escaped)
qed simp

lemma plain_escaped: "CHR '' '' \<notin> set s \<Longrightarrow> backslash \<notin> set s \<Longrightarrow> escaped s = s"
  by (induction s) (auto simp: escaped_def)

text \<open>The path of the compiler itself is not escaped: with a space in it, it is read as two arguments.\<close>

lemma debug_flags_path_with_space:
  "read_flags [] (debug_flags ''/my clang'' [''-g'']) = [''/my'', ''clang'', ''-g'']"
  by (simp add: debug_flags_eq escaped_def)

subsection \<open>Targets in dependency files\<close>

text \<open>The characters before position \<open>i\<close> that are backslashes, back to the first that is none.\<close>

definition slashes_before :: "string \<Rightarrow> nat \<Rightarrow> string" where
  "slashes_before Target i = takeWhile (\<lambda>c. c = backslash) (rev (take i Target))"

definition quoted_char :: "string \<Rightarrow> nat \<Rightarrow> string" where
  "quoted_char Target i =
     (let c = Target ! i
      in (if c = CHR '' '' \<or> c = CHR 0x09 then map (\<lambda>_. backslash) (slashes_before Target i) @ [backslash]
          else if c = CHR ''$'' then ''$''
          else if c = CHR ''#'' then [backslash]
          else []) @ [c])"

definition QuoteTarget :: "string \<Rightarrow> string \<Rightarrow> string" where
  "QuoteTarget Target Res = Res @ concat (map (quoted_char Target) [0..<length Target])"

text \<open>
  How Make reads the first target of a line: \<open>k\<close> counts the backslashes that have been read and not yet
  interpreted. Before a space, a tab or \<open>#\<close> every two of them stand for one, and an odd one quotes the
  character; an unquoted space ends the target, an unquoted \<open>#\<close> the line.
\<close>

fun unquote :: "nat \<Rightarrow> string \<Rightarrow> string" where
  "unquote k [] = replicate k backslash"
| "unquote k (c # s) =
     (if c = backslash then unquote (Suc k) s
      else if c = CHR '' '' \<or> c = CHR 0x09 \<or> c = CHR ''#'' then
        replicate (k div 2) backslash @ (if odd k then c # unquote 0 s else [])
      else if c = CHR ''$'' then replicate k backslash @ c # unquote 0 (drop 1 s)
      else replicate k backslash @ c # unquote 0 s)"

text \<open>The loop as a recursion that counts the backslashes it has passed.\<close>

fun quote_from :: "nat \<Rightarrow> string \<Rightarrow> string" where
  "quote_from k [] = []"
| "quote_from k (c # s) =
     (if c = backslash then c # quote_from (Suc k) s
      else (if c = CHR '' '' \<or> c = CHR 0x09 then replicate (Suc k) backslash
            else if c = CHR ''$'' then ''$'' else if c = CHR ''#'' then [backslash] else []) @ c # quote_from 0 s)"

lemma quote_loop:
  "concat (map (quoted_char (pre @ s)) [length pre..<length pre + length s]) =
     quote_from (length (takeWhile (\<lambda>c. c = backslash) (rev pre))) s"
proof (induction s arbitrary: pre)
  case (Cons c s)
  let ?k = "length (takeWhile (\<lambda>c. c = backslash) (rev pre))"
  have split: "[length pre..<length pre + length (c # s)] = length pre # [Suc (length pre)..<Suc (length pre) + length s]"
    using upt_rec [of "length pre" "length pre + length (c # s)"] by simp
  have char: "quoted_char (pre @ c # s) (length pre) =
      (if c = CHR '' '' \<or> c = CHR 0x09 then replicate (Suc ?k) backslash
       else if c = CHR ''$'' then ''$'' else if c = CHR ''#'' then [backslash] else []) @ [c]"
    by (simp add: quoted_char_def slashes_before_def Let_def map_replicate_const replicate_append_same)
  have rest: "concat (map (quoted_char (pre @ c # s)) [Suc (length pre)..<Suc (length pre) + length s]) =
      quote_from (if c = backslash then Suc ?k else 0) s"
    using Cons.IH [of "pre @ [c]"] by simp
  show ?case unfolding split list.map concat.simps char rest by simp
qed simp

lemma unquote_backslashes: "unquote k (replicate n backslash @ s) = unquote (k + n) s"
  by (induction n arbitrary: k) simp_all

text \<open>A hash has no backslash directly before it, \<open>k\<close> being the number of backslashes before the text.\<close>

fun hashes_plain :: "nat \<Rightarrow> string \<Rightarrow> bool" where
  "hashes_plain k [] = True"
| "hashes_plain k (c # s) = ((c = CHR ''#'' \<longrightarrow> k = 0) \<and> hashes_plain (if c = backslash then Suc k else 0) s)"

lemma hashes_plainI:
  "\<forall>u v. s \<noteq> u @ [backslash, CHR ''#''] @ v \<Longrightarrow> (s \<noteq> [] \<and> hd s = CHR ''#'' \<longrightarrow> k = 0) \<Longrightarrow> hashes_plain k s"
proof (induction s arbitrary: k)
  case (Cons c s)
  have "\<forall>u v. s \<noteq> u @ [backslash, CHR ''#''] @ v" using Cons.prems(1) by (metis append_Cons)
  moreover have "s \<noteq> [] \<and> hd s = CHR ''#'' \<longrightarrow> c \<noteq> backslash"
    using Cons.prems(1) [THEN spec, of "[]", THEN spec, of "tl s"] by (cases s) auto
  ultimately show ?case using Cons.IH Cons.prems(2) by auto
qed simp

lemma unquote_quote: "hashes_plain k s \<Longrightarrow> unquote k (quote_from k s) = replicate k backslash @ s"
proof (induction s arbitrary: k)
  case (Cons c s)
  consider (space) "c = CHR '' '' \<or> c = CHR 0x09" | (slash) "c = backslash" | (hash) "c = CHR ''#''" "k = 0"
    | (other) "c \<noteq> CHR '' ''" "c \<noteq> CHR 0x09" "c \<noteq> backslash" "c \<noteq> CHR ''#''" using Cons.prems by fastforce
  then show ?case
  proof cases
    case space
    then have "quote_from k (c # s) = replicate (Suc k) backslash @ c # quote_from 0 s" "hashes_plain 0 s"
      using Cons.prems by auto
    then show ?thesis
      using space Cons.IH [of 0] unquote_backslashes [of k "Suc k" "c # quote_from 0 s"] by auto
  next
    case slash
    then show ?thesis using Cons.IH [of "Suc k"] Cons.prems by (simp add: replicate_app_Cons_same)
  next
    case hash
    then show ?thesis using Cons.IH [of 0] Cons.prems by simp
  next
    case other
    then show ?thesis using Cons.IH [of 0] Cons.prems by simp
  qed
qed simp

text \<open>One backslash is not enough for a hash that follows another: Make reads the rest as a comment.\<close>

lemma hash_after_backslash: "unquote 0 (QuoteTarget (''a'' @ [backslash, CHR ''#''] @ ''b'') []) = ''a'' @ [backslash]"
  by code_simp

text \<open>
  C12: What is quoted can be read back. The arguments recorded for the debug information are recovered by
  splitting at the spaces that are not escaped, if the path of the compiler has neither spaces nor
  backslashes. A target in a dependency file is recovered by Make's rules for spaces, tabs, \<open>#\<close> and \<open>$\<close>,
  if no \<open>#\<close> in it follows a backslash.
\<close>

theorem quoted_text_read_back:
  "(CHR '' '' \<notin> set Exec \<and> backslash \<notin> set Exec \<longrightarrow> read_flags [] (debug_flags Exec Args) = Exec # Args) \<and>
   ((\<forall>u v. Target \<noteq> u @ [backslash, CHR ''#''] @ v) \<longrightarrow> unquote 0 (QuoteTarget Target []) = Target)"
proof (intro conjI impI)
  assume "CHR '' '' \<notin> set Exec \<and> backslash \<notin> set Exec"
  then have "debug_flags Exec Args = escaped Exec @ concat (map (\<lambda>A. '' '' @ escaped A) Args)"
    by (simp add: debug_flags_eq plain_escaped)
  then show "read_flags [] (debug_flags Exec Args) = Exec # Args"
    using read_args [of Exec Args] by (simp add: read_escaped)
next
  assume "\<forall>u v. Target \<noteq> u @ [backslash, CHR ''#''] @ v"
  then have "hashes_plain 0 Target" by (intro hashes_plainI) simp_all
  then show "unquote 0 (QuoteTarget Target []) = Target"
    using quote_loop [of "[]" Target] unquote_quote [of 0 Target] by (simp add: QuoteTarget_def)
qed

theorem quoted_text_read_back_witness:
  "read_flags [] (debug_flags ''/bin/clang'' [''a b'', [backslash], [], ''-c'']) = [''/bin/clang'', ''a b'', [backslash], [], ''-c''] \<and>
   unquote 0 (QuoteTarget [CHR ''$'', backslash, CHR '' '', CHR ''#'', backslash] []) =
     [CHR ''$'', backslash, CHR '' '', CHR ''#'', backslash]"
proof -
  have "\<forall>u v. [CHR ''$'', backslash, CHR '' '', CHR ''#'', backslash] \<noteq> u @ [backslash, CHR ''#''] @ v"
    by (auto simp: Cons_eq_append_conv)
  with quoted_text_read_back [of "''/bin/clang''" "[''a b'', [backslash], [], ''-c'']"
    "[CHR ''$'', backslash, CHR '' '', CHR ''#'', backslash]"] show ?thesis by simp
qed

end
