(* ===== verification/IntegratedAssembler.thy ===== *)
theory IntegratedAssembler
  imports TargetArgs PicArgs Quoting
begin

text \<open>
  The job of Clang's own assembler (\<open>Tools.cpp\<close>, \<open>ClangAs::ConstructJob\<close> with the functions it calls) and what
  it shares with the job of the GNU assembler. The answers of the classes \<open>Compilation\<close>, \<open>ToolChain\<close> and
  \<open>JobAction\<close>, of the file system, and rendered arguments are the fields of \<open>job_env\<close>. A job is a list of
  commands, each a program with its arguments.
\<close>

subsection \<open>The surroundings\<close>

datatype ActionClass = InputClass | CompileJobClass | BackendJobClass | OtherClass

datatype FileType = TY_Asm | TY_PP_Asm | TY_other

datatype Action = Action ActionClass FileType "Action list"

record job_env =
  j_target :: target_env
  j_pic :: pic_env
  j_matching :: "OptID \<Rightarrow> Arg list"
  j_AllArgs :: "OptID \<Rightarrow> string list"
  j_AllArgValues :: "OptID list \<Rightarrow> string list"
  j_render :: "Arg \<Rightarrow> string list"
  j_actions :: "Action list"
  j_DefaultArch :: ArchType
  j_DefaultMSVC :: bool
  j_DefaultCOFF :: bool
  j_RelaxRelocations :: bool
  j_zlib :: bool
  j_getAsInt64 :: "string \<Rightarrow> int option"
  j_ProgramPath :: "string \<Rightarrow> string"
  j_ClangProgramPath :: string
  j_ClangFullVersion :: string
  j_UseDwarfDebugFlags :: bool
  j_DefaultDwarfVersion :: nat
  j_current_path :: "string option"
  j_stem :: "string \<Rightarrow> string"
  j_replace_extension :: "string \<Rightarrow> string \<Rightarrow> string"
  j_BaseInput :: string
  j_BaseInputName :: string

type_synonym job = "(string \<times> string list) list"

definition claim_all :: "job_env \<Rightarrow> OptID list \<Rightarrow> drv \<Rightarrow> drv" where
  "claim_all E opts D = fold (\<lambda>opt. fold claim (j_matching E opt)) opts D"

definition claimNoWarnArgs :: "job_env \<Rightarrow> drv \<Rightarrow> drv" where
  "claimNoWarnArgs E = claim_all E [Job OPT_flto_EQ, Job OPT_flto, Job OPT_fno_lto]"

subsection \<open>Debug information\<close>

datatype DebugInfoKind = NoDebugInfo | DebugLineTablesOnly | LimitedDebugInfo | FullDebugInfo

datatype DebuggerKind = Debugger_Default | Debugger_GDB | Debugger_LLDB | Debugger_SCE

text \<open>\<open>in_gN\<close> says whether the option is in \<open>gN_Group\<close>, which the code asserts.\<close>

definition DebugLevelToInfoKind :: "bool \<Rightarrow> Arg \<Rightarrow> DebugInfoKind res" where
  "DebugLevelToInfoKind in_gN A =
     (if \<not> in_gN then Inl Unreachable
      else Inr (if a_opt A = Job OPT_g0 \<or> a_opt A = Job OPT_ggdb0 then NoDebugInfo
        else if a_opt A = Job OPT_gline_tables_only \<or> a_opt A = Job OPT_ggdb1 then DebugLineTablesOnly
        else LimitedDebugInfo))"

definition DwarfVersionNum :: "string \<Rightarrow> nat" where
  "DwarfVersionNum = switch [(''-gdwarf-2'', 2), (''-gdwarf-3'', 3), (''-gdwarf-4'', 4), (''-gdwarf-5'', 5)] 0"

definition RenderDebugEnablingArgs :: "DebugInfoKind \<Rightarrow> nat \<Rightarrow> DebuggerKind \<Rightarrow> string list" where
  "RenderDebugEnablingArgs Kind DwarfVersion Tuning =
     (case Kind of
        DebugLineTablesOnly \<Rightarrow> [''-debug-info-kind=line-tables-only'']
      | LimitedDebugInfo \<Rightarrow> [''-debug-info-kind=limited'']
      | FullDebugInfo \<Rightarrow> [''-debug-info-kind=standalone'']
      | NoDebugInfo \<Rightarrow> []) @
     (if DwarfVersion > 0 then [''-dwarf-version='' @ show_nat DwarfVersion] else []) @
     (case Tuning of
        Debugger_GDB \<Rightarrow> [''-debugger-tuning=gdb'']
      | Debugger_LLDB \<Rightarrow> [''-debugger-tuning=lldb'']
      | Debugger_SCE \<Rightarrow> [''-debugger-tuning=sce'']
      | Debugger_Default \<Rightarrow> [])"

definition addDebugCompDirArg :: "job_env \<Rightarrow> string list" where
  "addDebugCompDirArg E = (case j_current_path E of None \<Rightarrow> [] | Some cwd \<Rightarrow> [''-fdebug-compilation-dir'', cwd])"

text \<open>
  The name of the file for split debug information. Without \<open>-o\<close> the code puts the compilation directory
  before the name and then returns the name alone, so the directory does not appear here.
\<close>

definition SplitDebugName :: "job_env \<Rightarrow> ArgList \<Rightarrow> string res" where
  "SplitDebugName E Args =
     (case getLastArg Args [Job OPT_o] of
        Some FinalOutput \<Rightarrow>
          if hasArg Args [Job OPT_c] then bnd (getValue FinalOutput) (\<lambda>v. Inr (j_replace_extension E v ''dwo''))
          else Inr (j_replace_extension E (j_stem E (j_BaseInput E)) ''dwo'')
      | None \<Rightarrow> Inr (j_replace_extension E (j_stem E (j_BaseInput E)) ''dwo''))"

definition SplitDebugInfo :: "job_env \<Rightarrow> string \<Rightarrow> string \<Rightarrow> job" where
  "SplitDebugInfo E Output OutFile =
     (let Exec = j_ProgramPath E ''objcopy''
      in [(Exec, [''--extract-dwo'', Output, OutFile]), (Exec, [''--strip-dwo'', Output])])"

definition split_dwarf_job :: "job_env \<Rightarrow> ToolChain \<Rightarrow> ArgList \<Rightarrow> string \<Rightarrow> job res" where
  "split_dwarf_job E TC Args Output =
     (if hasArg Args [Job OPT_gsplit_dwarf] \<and> t_isOSLinux (tc_Triple TC)
      then bnd (SplitDebugName E Args) (\<lambda>OutFile. Inr (SplitDebugInfo E Output OutFile))
      else Inr [])"

subsection \<open>Actions\<close>

fun ContainsCompileAction :: "Action \<Rightarrow> bool" where
  "ContainsCompileAction (Action c t inputs) =
     (c = CompileJobClass \<or> c = BackendJobClass \<or> list_ex ContainsCompileAction inputs)"

definition UseRelaxAll :: "job_env \<Rightarrow> ArgList \<Rightarrow> bool" where
  "UseRelaxAll E Args =
     (let RelaxDefault = (case getLastArg Args [Tool OPT_O_Group] of None \<Rightarrow> True | Some A \<Rightarrow> a_opt A = Tool OPT_O0)
      in hasFlag Args (Asm OPT_mrelax_all) (Asm OPT_mno_relax_all)
           (RelaxDefault \<and> list_ex ContainsCompileAction (j_actions E)))"

text \<open>The first input, followed down to an input of the compilation.\<close>

fun source_type :: "Action \<Rightarrow> FileType res" where
  "source_type (Action c t []) = (if c = InputClass then Inr t else Inl Unreachable)"
| "source_type (Action c t (input # inputs)) = (if c = InputClass then Inr t else source_type input)"

subsection \<open>\<open>-Wa,\<close> and \<open>-Xassembler\<close>\<close>

record as_state =
  as_args :: "string list"
  as_drv :: drv
  TakeNextArg :: bool
  CompressDebugSections :: bool
  UseRelaxRelocations :: bool
  MipsTargetFeature :: "string option"

definition as_push :: "string list \<Rightarrow> as_state \<Rightarrow> as_state" where
  "as_push Fs s = s\<lparr>as_args := as_args s @ Fs\<rparr>"

definition as_report :: "diag \<Rightarrow> as_state \<Rightarrow> as_state" where
  "as_report d s = s\<lparr>as_drv := Diag d (as_drv s)\<rparr>"

definition mips_as_feature :: "string \<Rightarrow> string option" where
  "mips_as_feature = map_of (map (\<lambda>n. (''-'' @ n, ''+'' @ n))
     [''mips1'', ''mips2'', ''mips3'', ''mips4'', ''mips5'', ''mips32'', ''mips32r2'', ''mips32r3'', ''mips32r5'',
      ''mips32r6'', ''mips64'', ''mips64r2'', ''mips64r3'', ''mips64r5'', ''mips64r6''])"

text \<open>\<open>startswith\<close>, and the values MIPS treats on its own: the flag tells that the loop continues.\<close>

definition startswith :: "string \<Rightarrow> string \<Rightarrow> bool" where
  "startswith Value p \<longleftrightarrow> after p Value \<noteq> None"

definition mips_value :: "string \<Rightarrow> as_state \<Rightarrow> bool \<times> as_state" where
  "mips_value Value s =
     (if Value = ''--trap'' then (True, as_push [''-target-feature'', ''+use-tcc-in-div''] s)
      else if Value = ''--break'' then (True, as_push [''-target-feature'', ''-use-tcc-in-div''] s)
      else if startswith Value ''-msoft-float'' then (True, as_push [''-target-feature'', ''+soft-float''] s)
      else if startswith Value ''-mhard-float'' then (True, as_push [''-target-feature'', ''-soft-float''] s)
      else (mips_as_feature Value \<noteq> None, s\<lparr>MipsTargetFeature := mips_as_feature Value\<rparr>))"

text \<open>\<open>split('=')\<close>; the flag of \<open>defsym_value\<close> and \<open>as_value\<close> is the \<open>break\<close> that leaves the values of the argument.\<close>

definition split_eq :: "string \<Rightarrow> string \<times> string" where
  "split_eq s = (takeWhile (\<lambda>c. c \<noteq> CHR ''='') s, drop 1 (dropWhile (\<lambda>c. c \<noteq> CHR ''='') s))"

definition defsym_value :: "job_env \<Rightarrow> Arg \<Rightarrow> string \<Rightarrow> as_state \<Rightarrow> (bool \<times> as_state) res" where
  "defsym_value E A Value s =
     (if length (a_values A) \<noteq> 2 then Inr (True, as_report (err_drv_defsym_invalid_format Value) s)
      else bnd (vget (a_values A) 1) (\<lambda>S.
        let (Sym, SVal) = split_eq S
        in if Sym = [] \<or> SVal = [] then Inr (True, as_report (err_drv_defsym_invalid_format S) s)
           else if j_getAsInt64 E SVal = None then Inr (True, as_report (err_drv_defsym_invalid_symval SVal) s)
           else Inr (False, as_push [Value] s\<lparr>TakeNextArg := True\<rparr>)))"

definition plain_value :: "job_env \<Rightarrow> Arg \<Rightarrow> string \<Rightarrow> as_state \<Rightarrow> (bool \<times> as_state) res" where
  "plain_value E A Value s =
     (if Value = ''-force_cpusubtype_ALL'' then Inr (False, s)
      else if Value = ''-L'' then Inr (False, as_push [''-msave-temp-labels''] s)
      else if Value = ''--fatal-warnings'' then Inr (False, as_push [''-massembler-fatal-warnings''] s)
      else if Value = ''--noexecstack'' then Inr (False, as_push [''-mnoexecstack''] s)
      else if Value = ''-compress-debug-sections'' \<or> Value = ''--compress-debug-sections'' then
        Inr (False, s\<lparr>CompressDebugSections := True\<rparr>)
      else if Value = ''-nocompress-debug-sections'' \<or> Value = ''--nocompress-debug-sections'' then
        Inr (False, s\<lparr>CompressDebugSections := False\<rparr>)
      else if Value = ''-mrelax-relocations=yes'' \<or> Value = ''--mrelax-relocations=yes'' then
        Inr (False, s\<lparr>UseRelaxRelocations := True\<rparr>)
      else if Value = ''-mrelax-relocations=no'' \<or> Value = ''--mrelax-relocations=no'' then
        Inr (False, s\<lparr>UseRelaxRelocations := False\<rparr>)
      else if startswith Value ''-I'' then
        Inr (False, as_push [Value] (if Value = ''-I'' then s\<lparr>TakeNextArg := True\<rparr> else s))
      else if startswith Value ''-gdwarf-'' then
        Inr (False, as_push (if DwarfVersionNum Value = 0 then [Value]
          else RenderDebugEnablingArgs LimitedDebugInfo (DwarfVersionNum Value) Debugger_Default) s)
      else if startswith Value ''-mcpu'' \<or> startswith Value ''-mfpu'' \<or> startswith Value ''-mhwdiv'' \<or>
        startswith Value ''-march'' then Inr (False, s)
      else if Value = ''-defsym'' then defsym_value E A Value s
      else Inr (False, as_report (err_drv_unsupported_option_argument (a_name A) Value) s))"

definition as_value :: "job_env \<Rightarrow> Arg \<Rightarrow> string \<Rightarrow> as_state \<Rightarrow> (bool \<times> as_state) res" where
  "as_value E A Value s =
     (if TakeNextArg s then Inr (False, as_push [Value] s\<lparr>TakeNextArg := False\<rparr>)
      else if j_DefaultCOFF E \<and> Value = ''-mbig-obj'' then Inr (False, s)
      else if j_DefaultArch E \<in> mips_archs then
        let (continue, s1) = mips_value Value s
        in if continue then Inr (False, s1) else plain_value E A Value s1
      else plain_value E A Value s)"

fun as_values :: "job_env \<Rightarrow> Arg \<Rightarrow> string list \<Rightarrow> as_state \<Rightarrow> as_state res" where
  "as_values E A [] s = Inr s"
| "as_values E A (Value # Values) s =
     bnd (as_value E A Value s) (\<lambda>(stop, s1). if stop then Inr s1 else as_values E A Values s1)"

fun as_arguments :: "job_env \<Rightarrow> Arg list \<Rightarrow> as_state \<Rightarrow> as_state res" where
  "as_arguments E [] s = Inr s"
| "as_arguments E (A # As) s =
     bnd (as_values E A (a_values A) (s\<lparr>as_drv := claim A (as_drv s)\<rparr>)) (as_arguments E As)"

definition implicit_it :: "job_env \<Rightarrow> ArgList \<Rightarrow> feats \<Rightarrow> feats res" where
  "implicit_it E Args r =
     (if j_DefaultArch E \<in> arm_archs then
        case getLastArg Args [Asm OPT_mimplicit_it_EQ] of
          None \<Rightarrow> Inr r
        | Some A \<Rightarrow> bnd (getValue A) (\<lambda>Value. Inr (
            if Value \<in> {''always'', ''never'', ''arm'', ''thumb''} then pushes [''-mllvm'', ''-arm-implicit-it='' @ Value] r
            else report True (err_drv_unsupported_option_argument (a_name A) Value) r))
      else Inr r)"

text \<open>After the loop.\<close>

definition as_finish :: "job_env \<Rightarrow> as_state \<Rightarrow> feats" where
  "as_finish E s =
     (as_args s @ (if CompressDebugSections s \<and> j_zlib E then [''-compress-debug-sections''] else []) @
        (if UseRelaxRelocations s then [''--mrelax-relocations''] else []) @
        (case MipsTargetFeature s of None \<Rightarrow> [] | Some F \<Rightarrow> [''-target-feature'', F]),
      Diag_if (CompressDebugSections s \<and> \<not> j_zlib E) warn_debug_compression_unavailable (as_drv s))"

definition CollectArgsForIntegratedAssembler :: "job_env \<Rightarrow> ArgList \<Rightarrow> feats \<Rightarrow> feats res" where
  "CollectArgsForIntegratedAssembler E Args r =
     bnd (implicit_it E Args (pushes (
         (if UseRelaxAll E Args then [''-mrelax-all''] else []) @
         (if hasFlag Args (Asm OPT_mincremental_linker_compatible) (Asm OPT_mno_incremental_linker_compatible) (j_DefaultMSVC E)
          then [''-mincremental-linker-compatible''] else [])) r)) (\<lambda>(CmdArgs, D).
     bnd (as_arguments E (filtered [Tool OPT_Wa_COMMA, Tool OPT_Xassembler] Args)
         \<lparr>as_args = CmdArgs, as_drv = D, TakeNextArg = False, CompressDebugSections = False,
           UseRelaxRelocations = j_RelaxRelocations E, MipsTargetFeature = None\<rparr>) (\<lambda>s. Inr (as_finish E s)))"

subsection \<open>The job\<close>

definition as_debug :: "job_env \<Rightarrow> ArgList \<Rightarrow> bool \<times> nat" where
  "as_debug E Args =
     (case getLastArg Args [Link OPT_g_Group] of
        None \<Rightarrow> (False, j_DefaultDwarfVersion E)
      | Some A \<Rightarrow>
          let WantDebug = a_opt A \<noteq> Job OPT_g0 \<and> a_opt A \<noteq> Job OPT_ggdb0;
              DwarfVersion = (if WantDebug then DwarfVersionNum (a_spelling A) else 0)
          in (WantDebug, if DwarfVersion = 0 then j_DefaultDwarfVersion E else DwarfVersion))"

definition as_debug_args :: "job_env \<Rightarrow> ArgList \<Rightarrow> FileType \<Rightarrow> string list" where
  "as_debug_args E Args t =
     (let (WantDebug, DwarfVersion) = as_debug E Args; is_asm = t = TY_Asm \<or> t = TY_PP_Asm
      in (if is_asm then addDebugCompDirArg E @ [''-dwarf-debug-producer'', j_ClangFullVersion E] @ j_AllArgs E (Job OPT_I)
          else []) @
         RenderDebugEnablingArgs (if is_asm \<and> WantDebug then LimitedDebugInfo else NoDebugInfo) DwarfVersion Debugger_Default)"

definition dwarf_debug_flags :: "job_env \<Rightarrow> ArgList \<Rightarrow> string list" where
  "dwarf_debug_flags E Args =
     (if j_UseDwarfDebugFlags E
      then [''-dwarf-debug-flags'', debug_flags (j_ClangProgramPath E) (concat (map (j_render E) (al_args Args)))]
      else [])"

text \<open>The target specific arguments of this tool, fewer than those of the compiler.\<close>

definition ClangAs_AddMIPSTargetArgs :: "ToolChain \<Rightarrow> ArgList \<Rightarrow> feats \<Rightarrow> feats res" where
  "ClangAs_AddMIPSTargetArgs TC Args r =
     bnd (getMipsCPUAndABI Args (tc_Triple TC)) (\<lambda>(CPUName, ABIName). Inr (pushes [''-target-abi'', ABIName] r))"

definition ClangAs_AddX86TargetArgs :: "ArgList \<Rightarrow> feats \<Rightarrow> feats res" where
  "ClangAs_AddX86TargetArgs Args r = asm_syntax Args r"

definition as_target_flags :: "ToolChain \<Rightarrow> ArgList \<Rightarrow> feats \<Rightarrow> feats res" where
  "as_target_flags TC Args r =
     (let a = t_Arch (tc_Triple TC)
      in if a \<in> mips_archs then ClangAs_AddMIPSTargetArgs TC Args r
         else if a = Arch_x86 \<or> a = Arch_x86_64 then ClangAs_AddX86TargetArgs Args r
         else Inr r)"

definition as_relocation :: "job_env \<Rightarrow> ToolChain \<Rightarrow> ArgList \<Rightarrow> feats \<Rightarrow> feats res" where
  "as_relocation E TC Args = (\<lambda>(CmdArgs, D).
     bnd (ParsePICArgs (j_pic E) TC Args D) (\<lambda>((RelocationModel, PICLevel, IsPIE), D1).
       Inr (CmdArgs @ [''-mrelocation-model'', RelocationModelName RelocationModel], D1)))"

text \<open>\<open>Output\<close> and \<open>Input\<close> are the file names, if they are any; a job without them fails an assertion.\<close>

definition ClangAs_ConstructJob :: "arm_parser \<Rightarrow> job_env \<Rightarrow> ToolChain \<Rightarrow> Action \<Rightarrow> string option \<Rightarrow> string option \<Rightarrow>
    ArgList \<Rightarrow> drv \<Rightarrow> (job \<times> drv) res" where
  "ClangAs_ConstructJob P E TC JA Output Input Args D =
     (let T = tc_EffectiveTriple TC;
          D1 = claimNoWarnArgs E (claim_all E [Link OPT_w, Link OPT_emit_llvm] D)
      in bnd (target_cpu P (j_target E) T Args True
             [''-cc1as'', ''-triple'', t_str T, ''-filetype'', ''obj'', ''-main-file-name'', j_BaseInputName E]) (\<lambda>c1.
         bnd (getTargetFeatures P (j_target E) TC T Args True (c1, D1)) (\<lambda>(c2, D2).
         bnd (source_type JA) (\<lambda>t.
         bnd (as_relocation E TC Args (c2 @ j_AllArgs E (Asm OPT_I_Group) @ as_debug_args E Args t,
             claim_all E [Link OPT_g_Group] D2)) (\<lambda>(c3, D3).
         bnd (as_target_flags TC Args (c3 @ dwarf_debug_flags E Args, D3)) (\<lambda>(c4, D4).
         bnd (CollectArgsForIntegratedAssembler E Args (c4, claim_all E [Asm OPT_W_Group] D4)) (\<lambda>(c5, D5).
         case (Output, Input) of
           (Some Out, Some In) \<Rightarrow>
             bnd (split_dwarf_job E TC Args Out) (\<lambda>split.
               Inr ((j_ClangProgramPath E, c5 @ j_AllArgs E (Asm OPT_mllvm) @ [''-o'', Out, In]) # split, D5))
         | _ \<Rightarrow> Inl Unreachable)))))))"

end
