(* ===== verification/GnuAssembler.thy ===== *)
theory GnuAssembler
  imports IntegratedAssembler
begin

text \<open>
  The job of the GNU assembler (\<open>Tools.cpp\<close>, \<open>gnutools::Assembler::ConstructJob\<close>), which Clang runs when its
  own assembler is switched off.
\<close>

subsection \<open>SPARC\<close>

definition getSparcAsmModeForCPU :: "string \<Rightarrow> Triple \<Rightarrow> string" where
  "getSparcAsmModeForCPU Name T =
     (if t_Arch T = Arch_sparcv9 then
        switch [(''niagara'', ''-Av9b''), (''niagara2'', ''-Av9b''), (''niagara3'', ''-Av9d''), (''niagara4'', ''-Av9d'')]
          ''-Av9'' Name
      else switch
        [(''v8'', ''-Av8''), (''supersparc'', ''-Av8''), (''sparclite'', ''-Asparclite''), (''f934'', ''-Asparclite''),
         (''hypersparc'', ''-Av8''), (''sparclite86x'', ''-Asparclite''), (''sparclet'', ''-Asparclet''),
         (''tsc701'', ''-Asparclet''), (''v9'', ''-Av8plus''), (''ultrasparc'', ''-Av8plus''),
         (''ultrasparc3'', ''-Av8plus''), (''niagara'', ''-Av8plusb''), (''niagara2'', ''-Av8plusb''),
         (''niagara3'', ''-Av8plusd''), (''niagara4'', ''-Av8plusd''), (''leon2'', ''-Av8''), (''at697e'', ''-Av8''),
         (''at697f'', ''-Av8''), (''leon3'', ''-Av8''), (''ut699'', ''-Av8''), (''gr712rc'', ''-Av8''),
         (''leon4'', ''-Av8''), (''gr740'', ''-Av8'')] ''-Av8'' Name)"

text \<open>The last argument with one of some options, as it was given.\<close>

definition AddLastArg :: "job_env \<Rightarrow> ArgList \<Rightarrow> OptID list \<Rightarrow> string list" where
  "AddLastArg E Args opts = (case getLastArg Args opts of None \<Rightarrow> [] | Some A \<Rightarrow> j_render E A)"

definition sparc_as :: "arm_parser \<Rightarrow> job_env \<Rightarrow> ToolChain \<Rightarrow> ArgList \<Rightarrow> string \<Rightarrow> feats \<Rightarrow> feats res" where
  "sparc_as P E TC Args width = (\<lambda>(CmdArgs, D).
     bnd (getCPUName P (j_target E) Args (tc_Triple TC) False) (\<lambda>CPU.
       AddAssemblerKPIC (j_pic E) TC Args (CmdArgs @ [width, getSparcAsmModeForCPU CPU (tc_Triple TC)]) D))"

subsection \<open>ARM\<close>

definition arm_as_fpu :: "Triple \<Rightarrow> string list" where
  "arm_as_fpu T =
     (case t_SubArch T of
        ARMSubArch_v7 \<Rightarrow> [''-mfpu=neon'']
      | ARMSubArch_v8 \<Rightarrow> [''-mfpu=crypto-neon-fp-armv8'']
      | _ \<Rightarrow> [])"

fun arm_as_float :: "FloatABI \<Rightarrow> string list res" where
  "arm_as_float FloatInvalid = Inl Unreachable"
| "arm_as_float FloatSoft = Inr [''-mfloat-abi=soft'']"
| "arm_as_float FloatSoftFP = Inr [''-mfloat-abi=softfp'']"
| "arm_as_float FloatHard = Inr [''-mfloat-abi=hard'']"

definition arm_as_cpu :: "job_env \<Rightarrow> ArgList \<Rightarrow> string list res" where
  "arm_as_cpu E Args =
     (case getLastArg Args [Tool OPT_mcpu_EQ] of
        None \<Rightarrow> Inr []
      | Some A \<Rightarrow> bnd (getValue A) (\<lambda>v.
          Inr (if lower v = ''krait'' then [''-mcpu=cortex-a15''] else AddLastArg E Args [Tool OPT_mcpu_EQ])))"

definition arm_as :: "arm_parser \<Rightarrow> job_env \<Rightarrow> ToolChain \<Rightarrow> ArgList \<Rightarrow> feats \<Rightarrow> feats res" where
  "arm_as P E TC Args = (\<lambda>(CmdArgs, D).
     bnd (getARMFloatABI P TC Args D) (\<lambda>(ABI, D1).
     bnd (arm_as_float ABI) (\<lambda>float_arg.
     bnd (arm_as_cpu E Args) (\<lambda>cpu.
       Inr (CmdArgs @ arm_as_fpu (tc_Triple TC) @ float_arg @ AddLastArg E Args [Tool OPT_march_EQ] @ cpu @
         AddLastArg E Args [Tool OPT_mfpu_EQ], D1)))))"

subsection \<open>MIPS\<close>

text \<open>The floating point registers: the last option, or the default.\<close>

definition mips_as_fp :: "job_env \<Rightarrow> ToolChain \<Rightarrow> ArgList \<Rightarrow> string \<Rightarrow> string \<Rightarrow> feats \<Rightarrow> feats res" where
  "mips_as_fp E TC Args CPUName ABIName = (\<lambda>(CmdArgs, D).
     case getLastArg Args [Mips OPT_mfp32, Mips OPT_mfpxx, Mips OPT_mfp64] of
       Some A \<Rightarrow> Inr (CmdArgs @ j_render E A, claim A D)
     | None \<Rightarrow> bnd (getMipsFloatABI Args D) (\<lambda>(ABI, D1).
         Inr (CmdArgs @ (if shouldUseFPXX Args (tc_Triple TC) CPUName ABIName ABI then [''-mfpxx''] else []), D1)))"

definition mips_as_mips16 :: "job_env \<Rightarrow> ArgList \<Rightarrow> feats \<Rightarrow> feats" where
  "mips_as_mips16 E Args = (\<lambda>(CmdArgs, D).
     case getLastArg Args [Mips OPT_mips16, Mips OPT_mno_mips16] of
       None \<Rightarrow> (CmdArgs, D)
     | Some A \<Rightarrow> (CmdArgs @ (if a_opt A = Mips OPT_mips16 then j_render E A else [''-no-mips16'']), claim A D))"

definition mips_as_nan :: "ArgList \<Rightarrow> string list res" where
  "mips_as_nan Args =
     (case getLastArg Args [Mips OPT_mnan_EQ] of
        None \<Rightarrow> Inr []
      | Some A \<Rightarrow> bnd (getValue A) (\<lambda>v. Inr (if v = ''2008'' then [''-mnan=2008''] else [])))"

definition mips_as :: "job_env \<Rightarrow> ToolChain \<Rightarrow> ArgList \<Rightarrow> RelocModel \<Rightarrow> feats \<Rightarrow> feats res" where
  "mips_as E TC Args RelocationModel r =
     (let a = t_Arch (tc_Triple TC)
      in bnd (getMipsCPUAndABI Args (tc_Triple TC)) (\<lambda>(CPUName, ABI0).
         let ABIName = getGnuCompatibleMipsABIName ABI0
         in bnd (mips_as_nan Args) (\<lambda>nan.
            bnd (mips_as_fp E TC Args CPUName ABIName (pushes ([''-march'', CPUName, ''-mabi'', ABIName] @
                (if RelocationModel = Static then [''-mno-shared''] else []) @
                [if ABIName = ''64'' then ''-KPIC'' else ''-call_nonpic'',
                 if a = Arch_mips \<or> a = Arch_mips64 then ''-EB'' else ''-EL''] @ nan) r)) (\<lambda>r1.
            let (CmdArgs, D) = mips_as_mips16 E Args r1
            in AddAssemblerKPIC (j_pic E) TC Args (CmdArgs @
                 AddLastArg E Args [Mips OPT_mmicromips, Mips OPT_mno_micromips] @
                 AddLastArg E Args [Mips OPT_mdsp, Mips OPT_mno_dsp] @
                 AddLastArg E Args [Mips OPT_mdspr2, Mips OPT_mno_dspr2] @
                 (case getLastArg Args [Mips OPT_mmsa, Mips OPT_mno_msa] of
                    None \<Rightarrow> [] | Some A \<Rightarrow> if a_opt A = Mips OPT_mmsa then [''-mmsa''] else []) @
                 AddLastArg E Args [Tool OPT_mhard_float, Tool OPT_msoft_float] @
                 AddLastArg E Args [Mips OPT_mdouble_float, Mips OPT_msingle_float] @
                 AddLastArg E Args [Mips OPT_modd_spreg, Mips OPT_mno_odd_spreg]) D))))"

subsection \<open>The job\<close>

definition as_arch_args :: "arm_parser \<Rightarrow> job_env \<Rightarrow> ToolChain \<Rightarrow> ArgList \<Rightarrow> RelocModel \<Rightarrow> drv \<Rightarrow> feats res" where
  "as_arch_args P E TC Args RelocationModel D =
     (let T = tc_Triple TC; a = t_Arch T
      in if a = Arch_x86 then Inr ([''--32''], D)
         else if a = Arch_x86_64 then Inr ([if t_Environment T = Env_GNUX32 then ''--x32'' else ''--64''], D)
         else if a = Arch_ppc then Inr ([''-a32'', ''-mppc'', ''-many''], D)
         else if a = Arch_ppc64 then Inr ([''-a64'', ''-mppc64'', ''-many''], D)
         else if a = Arch_ppc64le then Inr ([''-a64'', ''-mppc64'', ''-many'', ''-mlittle-endian''], D)
         else if a = Arch_sparc \<or> a = Arch_sparcel then sparc_as P E TC Args ''-32'' ([], D)
         else if a = Arch_sparcv9 then sparc_as P E TC Args ''-64'' ([], D)
         else if a \<in> arm_archs then arm_as P E TC Args ([], D)
         else if a \<in> mips_archs then mips_as E TC Args RelocationModel ([], D)
         else if a = Arch_systemz then bnd (getSystemZTargetCPU Args) (\<lambda>CPUName. Inr ([''-march='' @ CPUName], D))
         else Inr ([], D))"

definition Assembler_ConstructJob :: "arm_parser \<Rightarrow> job_env \<Rightarrow> ToolChain \<Rightarrow> string \<Rightarrow> string list \<Rightarrow> ArgList \<Rightarrow> drv \<Rightarrow>
    (job \<times> drv) res" where
  "Assembler_ConstructJob P E TC Output Inputs Args D =
     bnd (ParsePICArgs (j_pic E) TC Args (claimNoWarnArgs E D)) (\<lambda>((RelocationModel, PICLevel, IsPIE), D1).
     bnd (as_arch_args P E TC Args RelocationModel D1) (\<lambda>(CmdArgs, D2).
     bnd (split_dwarf_job E TC Args Output) (\<lambda>split.
       Inr ((j_ProgramPath E ''as'', CmdArgs @ j_AllArgs E (Job OPT_I) @
           j_AllArgValues E [Tool OPT_Wa_COMMA, Tool OPT_Xassembler] @ [''-o'', Output] @ Inputs) # split, D2))))"

end
