(* ===== verification/CompileSteps.thy ===== *)
theory CompileSteps
  imports GnuAssembler
begin

text \<open>
  The frame of Clang's compile job (\<open>Tools.cpp\<close>, \<open>Clang::ConstructJob\<close>). That function is one long sequence
  of small steps, each of which reads the options and appends to \<open>CmdArgs\<close> or emits a diagnostic; a step is a
  function on arguments and driver. What the code asks of \<open>ToolChain\<close>, \<open>Driver\<close>, \<open>JobAction\<close>, \<open>InputInfo\<close> and
  \<open>ObjCRuntime\<close>, none of which is part of this repository, are fields of \<open>cc_env\<close>.
\<close>

subsection \<open>Steps\<close>

type_synonym step = "feats \<Rightarrow> feats res"

fun steps :: "step list \<Rightarrow> step" where
  "steps [] r = Inr r"
| "steps (s # ss) r = bnd (s r) (steps ss)"

definition add :: "string list \<Rightarrow> step" where
  "add Fs r = Inr (pushes Fs r)"

definition add_if :: "bool \<Rightarrow> string list \<Rightarrow> step" where
  "add_if b Fs r = Inr (if b then pushes Fs r else r)"

definition diag_if :: "bool \<Rightarrow> diag \<Rightarrow> step" where
  "diag_if b d r = Inr (report b d r)"

definition claims :: "Arg list \<Rightarrow> step" where
  "claims As = (\<lambda>(CmdArgs, D). Inr (CmdArgs, fold claim As D))"

definition step_if :: "bool \<Rightarrow> step \<Rightarrow> step" where
  "step_if b s r = (if b then s r else Inr r)"

text \<open>The last argument of some options, if there is one; its value; an argument made of its value.\<close>

definition with_last :: "ArgList \<Rightarrow> OptID list \<Rightarrow> (Arg \<Rightarrow> step) \<Rightarrow> step" where
  "with_last Args ids f r = (case getLastArg Args ids of None \<Rightarrow> Inr r | Some A \<Rightarrow> f A r)"

definition with_value :: "Arg \<Rightarrow> (string \<Rightarrow> step) \<Rightarrow> step" where
  "with_value A f r = bnd (getValue A) (\<lambda>v. f v r)"

definition flag_value :: "ArgList \<Rightarrow> OptID list \<Rightarrow> string \<Rightarrow> step" where
  "flag_value Args ids Flag = with_last Args ids (\<lambda>A. with_value A (\<lambda>v. add [Flag, v]))"

definition joined_value :: "ArgList \<Rightarrow> OptID list \<Rightarrow> string \<Rightarrow> step" where
  "joined_value Args ids Prefix = with_last Args ids (\<lambda>A. with_value A (\<lambda>v. add [Prefix @ v]))"

fun for_each :: "(Arg \<Rightarrow> step) \<Rightarrow> Arg list \<Rightarrow> step" where
  "for_each f [] r = Inr r"
| "for_each f (A # As) r = bnd (f A r) (for_each f As)"

text \<open>A failed assertion, and an assertion.\<close>

definition fail :: step where
  "fail r = Inl Unreachable"

definition assert :: "bool \<Rightarrow> step" where
  "assert b r = (if b then Inr r else Inl Unreachable)"

text \<open>
  \<open>hasFlag\<close> with an alias of the positive option: the last of the three decides. The arguments of an option
  that may be a group are told apart from the negative option only.
\<close>

definition hasFlagAlias :: "ArgList \<Rightarrow> OptID \<Rightarrow> OptID \<Rightarrow> OptID \<Rightarrow> bool \<Rightarrow> bool" where
  "hasFlagAlias Args Pos PosAlias Neg Default =
     (case getLastArg Args [Pos, PosAlias, Neg] of None \<Rightarrow> Default | Some A \<Rightarrow> a_opt A \<noteq> Neg)"

text \<open>An option of the compile job by name, and its positive and negative form.\<close>

definition has_opt :: "ArgList \<Rightarrow> string \<Rightarrow> bool" where
  "has_opt Args n = hasArg Args [CC n]"

definition flag :: "ArgList \<Rightarrow> string \<Rightarrow> string \<Rightarrow> bool \<Rightarrow> bool" where
  "flag Args Pos Neg Default = hasFlag Args (CC Pos) (CC Neg) Default"

text \<open>Flags for the compiler: when an option is given, when a flag is on, and when it is off.\<close>

definition given :: "ArgList \<Rightarrow> string \<Rightarrow> string \<Rightarrow> step" where
  "given Args n F = add_if (has_opt Args n) [F]"

definition flag_on :: "ArgList \<Rightarrow> string \<Rightarrow> string \<Rightarrow> bool \<Rightarrow> string \<Rightarrow> step" where
  "flag_on Args Pos Neg Default F = add_if (flag Args Pos Neg Default) [F]"

definition flag_off :: "ArgList \<Rightarrow> string \<Rightarrow> string \<Rightarrow> bool \<Rightarrow> string \<Rightarrow> step" where
  "flag_off Args Pos Neg Default F = add_if (\<not> flag Args Pos Neg Default) [F]"

text \<open>The last of some options is this one.\<close>

definition last_is :: "ArgList \<Rightarrow> OptID list \<Rightarrow> OptID \<Rightarrow> bool" where
  "last_is Args ids opt = (case getLastArg Args ids of None \<Rightarrow> False | Some A \<Rightarrow> a_opt A = opt)"

subsection \<open>The surroundings\<close>

datatype (plugins only: size) question =
    IsCXX | IsObjC | IsLLVMIR | HasPreprocessedType
  | OptimizationLevelFast | IsCLMode | CCCIsCPP | CCCUsePCH | IsForDiagnostics | IsSaveTemps
  | IsUsingLTO | EmbedBitcodeInObject | EmbedBitcodeMarkerOnly | CCPrintHeaders | CCGenDiagnostics | CCLogDiagnostics
  | IsMathErrnoDefault | IsIntegratedAssemblerDefault | UseIntegratedAs | IsUnwindTablesDefault | OpenMPCodeGenRuntime
  | DefaultStandaloneDebug | SupportsProfiling | IsBlocksDefault | HasBlocksRuntime | ShowColors | UseSjLjExceptions
  | IsObjCNonFragileABIDefault | UseObjCMixedDispatch | IsEncodeExtendedBlockSignatureDefault | LibcxxStdlib

datatype (plugins only: size) triple_question =
    IsIAMCU | IsWindowsGNU | IsWindowsCygnus | IsWindowsMSVC | AuxWindowsGNU | AuxWindowsCygnus | AuxWindowsMSVC
  | MacOSXVersionLT10_5 | MacOSXVersionLT10_7 | HasEnvironment | VendorApple | OSSolaris | EffectiveCygwin | ArchLE32 | IsPS4
  | Offload_Cuda | DeviceOffload_Cuda | DeviceOffload_OpenMP | HostOffload_OpenMP | DeviceOffload_None | DeviceOffload_Host | NDEBUG

datatype (plugins only: size) texts =
    AuxTriple | ThreadModel | PrintHeadersFile | DiagnosticsFile | ResourceDir | SysRoot | ErrorColumns | MSVCVersion
  | DependencyFileName | DefaultDepTarget | PchSource | OffloadPrefix | OffloadArch | SessionTime | TempDirectory
  | OutputDirectory | BaseInputFile | InputTypeName | PPObjCXXTypeName | OutputBaseName

datatype (plugins only: size) lists =
    WarningOptions | TargetOptions | CudaIncludes | CXXIncludes | SystemIncludes | IAMCUIncludes | InputArgument
  | MoreInputs

datatype (plugins only: size) JobClass =
    AnalyzeJob | MigrateJob | PreprocessJob | AssembleJob | PrecompileJob | VerifyPCHJob | CompileJob | BackendJob

datatype (plugins only: size) JobType =
    T_Nothing | T_ModuleFile | T_LLVM_IR | T_LTO_IR | T_LLVM_BC | T_LTO_BC | T_PP_Asm | T_AST | T_RewrittenObjC
  | T_RewrittenLegacyObjC | T_Plist | T_Dependencies | T_Object | T_PCH | T_C | T_CXX | T_other

record cc_env =
  cc_job :: job_env
  cc_ask :: "question \<Rightarrow> bool"
  cc_is :: "triple_question \<Rightarrow> bool"
  cc_text :: "texts \<Rightarrow> string"
  cc_list :: "lists \<Rightarrow> string list"
  cc_AllArgs :: "OptID list \<Rightarrow> string list"
  cc_getenv :: "string \<Rightarrow> string option"
  cc_getAsUnsigned :: "string \<Rightarrow> nat option"
  cc_is_directory :: "string \<Rightarrow> bool"
  cc_is_relative :: "string \<Rightarrow> bool"
  cc_JA :: JobClass
  cc_JAType :: JobType
  cc_OutputType :: JobType
  cc_InputType :: JobType
  cc_OutputFile :: "string option"
  cc_InputFile :: "string option"
  cc_Inputs :: nat
  cc_DebuggerTuning :: DebuggerKind
  cc_MSVCMajor :: nat
  cc_StackProtector :: "bool \<Rightarrow> nat"
  cc_getTriple :: "string \<Rightarrow> string"
  cc_VisualStudio :: string
  cc_Username :: "string option"
  cc_uid :: nat
  cc_in_gN :: "Arg \<Rightarrow> bool"

definition last_arg :: "cc_env \<Rightarrow> ArgList \<Rightarrow> OptID list \<Rightarrow> step" where
  "last_arg E Args ids = add (AddLastArg (cc_job E) Args ids)"

definition all_args :: "cc_env \<Rightarrow> OptID list \<Rightarrow> step" where
  "all_args E ids = add (cc_AllArgs E ids)"

definition all_values :: "cc_env \<Rightarrow> OptID list \<Rightarrow> step" where
  "all_values E ids = add (j_AllArgValues (cc_job E) ids)"

definition claim_args :: "cc_env \<Rightarrow> OptID list \<Rightarrow> step" where
  "claim_args E ids = (\<lambda>(CmdArgs, D). Inr (CmdArgs, claim_all (cc_job E) ids D))"

definition render :: "cc_env \<Rightarrow> Arg \<Rightarrow> step" where
  "render E A = add (j_render (cc_job E) A)"

end
