(* ===== verification/CompileActions.thy ===== *)
theory CompileActions
  imports CompileSteps
begin

text \<open>
  The first part of Clang's compile job (\<open>Tools.cpp\<close>, \<open>Clang::ConstructJob\<close> up to the code generation
  options): what kind of job it is, and the options of the static analyser. The compilation database that \<open>-MJ\<close>
  asks for is a text.
\<close>

subsection \<open>Windows\<close>

text \<open>A CUDA compilation looks at the triple of the other side too.\<close>

definition windows_env :: "cc_env \<Rightarrow> triple_question \<Rightarrow> triple_question \<Rightarrow> bool" where
  "windows_env E own aux \<longleftrightarrow> cc_is E own \<or> cc_is E Offload_Cuda \<and> cc_is E aux"

definition WindowsMSVC :: "cc_env \<Rightarrow> bool" where
  "WindowsMSVC E = windows_env E IsWindowsMSVC AuxWindowsMSVC"

definition WindowsGNU :: "cc_env \<Rightarrow> bool" where
  "WindowsGNU E = windows_env E IsWindowsGNU AuxWindowsGNU"

definition WindowsCygnus :: "cc_env \<Rightarrow> bool" where
  "WindowsCygnus E = windows_env E IsWindowsCygnus AuxWindowsCygnus"

definition windows_on_arm :: "Triple \<Rightarrow> bool" where
  "windows_on_arm T \<longleftrightarrow> t_isOSWindows T \<and> (t_Arch T = Arch_arm \<or> t_Arch T = Arch_thumb)"

text \<open>The number after \<open>armv\<close> or \<open>thumbv\<close>; for another name the code reads a variable it has not written.\<close>

definition arm_version :: "cc_env \<Rightarrow> Triple \<Rightarrow> step" where
  "arm_version E T r =
     (if windows_on_arm T then
        (case cc_getAsUnsigned E (drop (if t_Arch T = Arch_arm then 4 else 6) (t_ArchName T)) of
           None \<Rightarrow> Inl Uninitialised
         | Some Version \<Rightarrow> diag_if (Version < 7) (Compile (err_target_unsupported_arch (t_ArchName T) (t_str T))) r)
      else Inr r)"

subsection \<open>The compilation database\<close>

text \<open>
  \<open>cdb_open\<close> is the error of opening the file, \<open>cdb_escape\<close> is \<open>llvm::yaml::escape\<close>, \<open>cdb_skip\<close> tells the
  arguments that select a language, belong to \<open>M_Group\<close> or are inputs. The file stays open between jobs:
  \<open>None\<close> is a database that is not open, \<open>Some\<close> the text so far.
\<close>

record cdb_env =
  cdb_open :: "string \<Rightarrow> string option"
  cdb_escape :: "string \<Rightarrow> string"
  cdb_skip :: "Arg \<Rightarrow> bool"
  cdb_dry_run :: bool
  cdb_ClangExecutable :: string

definition cdb_quoted :: "cdb_env \<Rightarrow> string \<Rightarrow> string" where
  "cdb_quoted C s = '', '' @ ''\"'' @ cdb_escape C s @ ''\"''"

definition cdb_field :: "cdb_env \<Rightarrow> string \<Rightarrow> string \<Rightarrow> string" where
  "cdb_field C name s = ''\"'' @ name @ ''\": \"'' @ cdb_escape C s @ ''\"''"

definition cdb_entry :: "cdb_env \<Rightarrow> cc_env \<Rightarrow> ArgList \<Rightarrow> string \<Rightarrow> string \<Rightarrow> string \<Rightarrow> string" where
  "cdb_entry C E Args Target Output Input =
     ''{ '' @ cdb_field C ''directory'' (case j_current_path (cc_job E) of None \<Rightarrow> ''.'' | Some cwd \<Rightarrow> cwd) @
     '', '' @ cdb_field C ''file'' Input @ '', '' @ cdb_field C ''output'' Output @
     '', \"arguments\": [\"'' @ cdb_escape C (cdb_ClangExecutable C) @ ''\"'' @
     cdb_quoted C (''-x'' @ cc_text E InputTypeName) @
     (if cc_text E SysRoot \<noteq> [] \<and> \<not> has_opt Args ''_sysroot_EQ'' then cdb_quoted C (''--sysroot='' @ cc_text E SysRoot) else []) @
     cdb_quoted C Input @
     concat (map (\<lambda>A. concat (map (cdb_quoted C) (j_render (cc_job E) A))) (filter (\<lambda>A. \<not> cdb_skip C A) (al_args Args))) @
     cdb_quoted C (''--target='' @ Target) @ '']},'' @ [CHR 0x0A]"

definition DumpCompilationDatabase :: "cdb_env \<Rightarrow> cc_env \<Rightarrow> ArgList \<Rightarrow> string \<Rightarrow> string \<Rightarrow> string option \<times> drv \<Rightarrow>
    (string option \<times> drv) res" where
  "DumpCompilationDatabase C E Args Filename Target = (\<lambda>(CDB, D).
     if cdb_dry_run C then Inr (CDB, D)
     else case (if CDB = None then cdb_open C Filename else None) of
         Some msg \<Rightarrow> Inr (CDB, Diag (Compile (err_drv_compilationdatabase Filename msg)) D)
       | None \<Rightarrow>
           (case (cc_OutputFile E, cc_InputFile E) of
              (Some Out, Some In) \<Rightarrow>
                Inr (Some ((case CDB of None \<Rightarrow> [] | Some text \<Rightarrow> text) @ cdb_entry C E Args Target Out In), D)
            | _ \<Rightarrow> Inl Unreachable))"

definition database :: "cdb_env \<Rightarrow> cc_env \<Rightarrow> ArgList \<Rightarrow> string \<Rightarrow> string option \<times> drv \<Rightarrow> (string option \<times> drv) res" where
  "database C E Args Target s =
     (case getLastArg Args [CC ''MJ''] of
        None \<Rightarrow> Inr s
      | Some MJ \<Rightarrow> bnd (getValue MJ) (\<lambda>v. bnd (DumpCompilationDatabase C E Args v Target s) (\<lambda>(CDB, D).
          Inr (CDB, claim_all (cc_job E) [CC ''MJ''] D))))"

subsection \<open>The kind of the job\<close>

text \<open>Which rewriting of Objective-C is asked for.\<close>

datatype RewriteKind = RK_None | RK_Fragile | RK_NonFragile

definition rewrite_kind :: "cc_env \<Rightarrow> RewriteKind" where
  "rewrite_kind E =
     (if cc_JA E = CompileJob \<or> cc_JA E = BackendJob then
        (if cc_JAType E = T_RewrittenObjC then RK_NonFragile
         else if cc_JAType E = T_RewrittenLegacyObjC then RK_Fragile else RK_None)
      else RK_None)"

definition precompile_action :: "cc_env \<Rightarrow> string" where
  "precompile_action E =
     (if cc_JAType E = T_Nothing then ''-fsyntax-only''
      else if cc_JAType E = T_ModuleFile then ''-emit-module-interface''
      else if cc_ask E CCCUsePCH then ''-emit-pch''
      else ''-emit-pth'')"

fun compile_action :: "JobType \<Rightarrow> string option" where
  "compile_action T_Nothing = Some ''-fsyntax-only''"
| "compile_action T_LLVM_IR = Some ''-emit-llvm''"
| "compile_action T_LTO_IR = Some ''-emit-llvm''"
| "compile_action T_LLVM_BC = Some ''-emit-llvm-bc''"
| "compile_action T_LTO_BC = Some ''-emit-llvm-bc''"
| "compile_action T_PP_Asm = Some ''-S''"
| "compile_action T_AST = Some ''-emit-pch''"
| "compile_action T_ModuleFile = Some ''-module-file-info''"
| "compile_action T_RewrittenObjC = Some ''-rewrite-objc''"
| "compile_action T_RewrittenLegacyObjC = Some ''-rewrite-objc''"
| "compile_action _ = None"

definition compile_steps :: "cc_env \<Rightarrow> ArgList \<Rightarrow> step" where
  "compile_steps E Args = steps [
     (case compile_action (cc_JAType E) of None \<Rightarrow> fail | Some F \<Rightarrow> add [F]),
     add_if (cc_JAType E = T_LLVM_BC) [''-emit-llvm-uselists''],
     step_if (cc_ask E IsUsingLTO) (last_arg E Args [Job OPT_flto, Job OPT_flto_EQ])]"

definition action_steps :: "cc_env \<Rightarrow> ArgList \<Rightarrow> step" where
  "action_steps E Args =
     (case cc_JA E of
        AnalyzeJob \<Rightarrow> steps [assert (cc_JAType E = T_Plist), add [''-analyze'']]
      | MigrateJob \<Rightarrow> add [''-migrate'']
      | PreprocessJob \<Rightarrow>
          if cc_OutputType E = T_Dependencies then add [''-Eonly'']
          else add (''-E'' # (if has_opt Args ''rewrite_objc'' \<and> \<not> hasArg Args [Link OPT_g_Group] then [''-P''] else []))
      | AssembleJob \<Rightarrow> steps [add [''-emit-obj''], CollectArgsForIntegratedAssembler (cc_job E) Args]
      | PrecompileJob \<Rightarrow> add [precompile_action E]
      | VerifyPCHJob \<Rightarrow> add [''-verify-pch'']
      | CompileJob \<Rightarrow> compile_steps E Args
      | BackendJob \<Rightarrow> compile_steps E Args)"

definition bitcode_steps :: "cc_env \<Rightarrow> ArgList \<Rightarrow> step" where
  "bitcode_steps E Args = steps [
     with_last Args [CC ''fthinlto_index_EQ''] (\<lambda>A. steps [
       diag_if (\<not> cc_ask E IsLLVMIR) (err_drv_argument_only_allowed_with (a_string A) ''-x ir''),
       last_arg E Args [CC ''fthinlto_index_EQ'']]),
     step_if (cc_ask E EmbedBitcodeInObject \<and> (cc_JA E = BackendJob \<or> cc_JA E = AssembleJob))
       (steps [last_arg E Args [CC ''fembed_bitcode_EQ''], add [''-disable-llvm-passes'']]),
     add_if (cc_ask E EmbedBitcodeMarkerOnly) [''-fembed-bitcode=marker''],
     add_if (\<not> cc_ask E IsForDiagnostics) [''-disable-free''],
     add_if (cc_is E NDEBUG) [''-disable-llvm-verifier'', ''-discard-value-names''],
     add [''-main-file-name'', j_BaseInputName (cc_job E)],
     add_if (hasArg Args [Link OPT_static]) [''-static-define'']]"

subsection \<open>The static analyser\<close>

definition unix_checkers :: "bool \<Rightarrow> string list" where
  "unix_checkers MSVC =
     (if \<not> MSVC then [''-analyzer-checker=unix'']
      else [''-analyzer-checker=unix.API'', ''-analyzer-checker=unix.Malloc'', ''-analyzer-checker=unix.MallocSizeof'',
        ''-analyzer-checker=unix.MismatchedDeallocator'', ''-analyzer-checker=unix.cstring.BadSizeArg'',
        ''-analyzer-checker=unix.cstring.NullArg''])"

definition default_checkers :: "cc_env \<Rightarrow> Triple \<Rightarrow> string list" where
  "default_checkers E T =
     [''-analyzer-checker=core'', ''-analyzer-checker=apiModeling''] @ unix_checkers (WindowsMSVC E) @
     (if t_isPS4CPU T then [''-analyzer-disable-checker=unix.API'', ''-analyzer-disable-checker=unix.Vfork''] else []) @
     (if cc_is E VendorApple then [''-analyzer-checker=osx''] else []) @
     [''-analyzer-checker=deadcode''] @
     (if cc_ask E IsCXX then [''-analyzer-checker=cplusplus''] else []) @
     (if \<not> t_isPS4CPU T then map (\<lambda>c. ''-analyzer-checker=security.insecureAPI.'' @ c)
        [''UncheckedReturn'', ''getpw'', ''gets'', ''mktemp'', ''mkstemp'', ''vfork''] else []) @
     [''-analyzer-checker=nullability.NullPassedToNonnull'', ''-analyzer-checker=nullability.NullReturnedFromNonnull'']"

definition analyzer_steps :: "cc_env \<Rightarrow> Triple \<Rightarrow> ArgList \<Rightarrow> step" where
  "analyzer_steps E T Args = steps [
     add [''-analyzer-store=region'', ''-analyzer-opt-analyze-nested-blocks'', ''-analyzer-eagerly-assume''],
     add_if (\<not> has_opt Args ''_analyzer_no_default_checks'') (default_checkers E T),
     add [''-analyzer-output''],
     \<lambda>r. bnd (value_or (getLastArg Args [CC ''_analyzer_output'']) ''plist'') (\<lambda>v. add [v] r),
     add [''-w''],
     all_values E [CC ''Xanalyzer'']]"

subsection \<open>The beginning of the job\<close>

definition compile_inputs :: "cc_env \<Rightarrow> step" where
  "compile_inputs E = steps [
     assert (cc_Inputs E \<ge> 1),
     assert (cc_is E Offload_Cuda \<or> cc_is E DeviceOffload_OpenMP \<and> cc_Inputs E = 2 \<or> cc_Inputs E = 1),
     diag_if (cc_is E IsIAMCU \<and> cc_ask E IsCXX) (err_drv_clang_unsupported ''C++ for IAMCU'')]"

definition compile_kind :: "cc_env \<Rightarrow> ToolChain \<Rightarrow> ArgList \<Rightarrow> step" where
  "compile_kind E TC Args = steps [
     add_if (cc_is E Offload_Cuda) [''-aux-triple'', cc_text E AuxTriple],
     arm_version E (tc_EffectiveTriple TC),
     add (cc_list E WarningOptions),
     action_steps E Args, bitcode_steps E Args,
     step_if (cc_JA E = AnalyzeJob) (analyzer_steps E (tc_Triple TC) Args)]"

end
