(* ===== verification/LanguageArgs.thy ===== *)
theory LanguageArgs
  imports CompileActions SanitizerArgs
begin

text \<open>
  Functions that \<open>Clang::ConstructJob\<close> calls for exceptions, the runtime of Objective-C, profiles and
  coverage, vectorisation, and the language of the input (\<open>Tools.cpp\<close>).
\<close>

subsection \<open>Exceptions\<close>

text \<open>\<open>ObjCRuntime\<close>: what the code asks of it.\<close>

record objc_runtime =
  oc_string :: string
  oc_isNonFragile :: bool
  oc_FragileMacOSX :: bool
  oc_isNeXTFamily :: bool
  oc_allowsWeak :: bool
  oc_LegacyDispatch :: bool

definition shouldUseExceptionTablesForObjCExceptions :: "cc_env \<Rightarrow> objc_runtime \<Rightarrow> Triple \<Rightarrow> bool" where
  "shouldUseExceptionTablesForObjCExceptions E runtime T =
     (if oc_isNonFragile runtime then True
      else if \<not> t_isMacOSX T then False
      else \<not> cc_is E MacOSXVersionLT10_5 \<and> (t_Arch T = Arch_x86_64 \<or> t_Arch T = Arch_arm))"

definition cxx_exceptions_enabled :: "Triple \<Rightarrow> Arg option \<Rightarrow> bool" where
  "cxx_exceptions_enabled T ExceptionArg =
     (case ExceptionArg of
        None \<Rightarrow> t_Arch T \<noteq> Arch_xcore \<and> \<not> t_isPS4CPU T
      | Some A \<Rightarrow> a_opt A = CC ''fcxx_exceptions'' \<or> a_opt A = CC ''fexceptions'')"

definition ps4_exceptions :: "ToolChain \<Rightarrow> Arg option \<Rightarrow> step" where
  "ps4_exceptions TC ExceptionArg r =
     (case ExceptionArg of
        None \<Rightarrow> Inl Unreachable
      | Some A \<Rightarrow>
          if tc_RTTIMode TC = RM_DisabledExplicitly then
            (case tc_RTTIArg TC of
               None \<Rightarrow> Inl Unreachable
             | Some RTTIArg \<Rightarrow> diag_if True (err_drv_argument_not_allowed_with (a_string RTTIArg) (a_string A)) r)
          else diag_if (tc_RTTIMode TC = RM_EnabledImplicitly) warn_drv_enabling_rtti_with_exceptions r)"

definition addExceptionArgs :: "cc_env \<Rightarrow> ToolChain \<Rightarrow> ArgList \<Rightarrow> bool \<Rightarrow> objc_runtime \<Rightarrow> step" where
  "addExceptionArgs E TC Args KernelOrKext runtime =
     (if KernelOrKext then
        claim_args E [CC ''fexceptions'', CC ''fno_exceptions'', CC ''fobjc_exceptions'', CC ''fno_objc_exceptions'',
          CC ''fcxx_exceptions'', CC ''fno_cxx_exceptions'']
      else
        let T = tc_Triple TC;
            EH = flag Args ''fexceptions'' ''fno_exceptions'' False;
            objc = cc_ask E IsObjC \<and> flag Args ''fobjc_exceptions'' ''fno_objc_exceptions'' True;
            EH1 = (EH \<or> objc \<and> shouldUseExceptionTablesForObjCExceptions E runtime T);
            ExceptionArg = getLastArg Args [CC ''fcxx_exceptions'', CC ''fno_cxx_exceptions'', CC ''fexceptions'', CC ''fno_exceptions''];
            cxx = cc_ask E IsCXX \<and> cxx_exceptions_enabled T ExceptionArg
        in steps [
             add_if objc [''-fobjc-exceptions''],
             step_if cxx (if t_isPS4CPU T then ps4_exceptions TC ExceptionArg
               else (\<lambda>r. if tc_RTTIMode TC = RM_DisabledImplicitly then Inl Unreachable else Inr r)),
             add_if cxx [''-fcxx-exceptions''],
             add_if (EH1 \<or> cxx) [''-fexceptions'']])"

definition ShouldDisableAutolink :: "cc_env \<Rightarrow> ToolChain \<Rightarrow> ArgList \<Rightarrow> bool" where
  "ShouldDisableAutolink E TC Args \<longleftrightarrow>
     \<not> flag Args ''fautolink'' ''fno_autolink'' (if t_isOSDarwin (tc_Triple TC) then cc_ask E UseIntegratedAs else True)"

definition ShouldDisableDwarfDirectory :: "cc_env \<Rightarrow> ArgList \<Rightarrow> bool" where
  "ShouldDisableDwarfDirectory E Args \<longleftrightarrow>
     \<not> flag Args ''fdwarf_directory_asm'' ''fno_dwarf_directory_asm'' (cc_ask E UseIntegratedAs)"

subsection \<open>The runtime of Objective-C\<close>

text \<open>
  The runtimes that are built in, and those that depend on the tool chain or are parsed from a string:
  \<open>oe_tryParse\<close> is \<open>None\<close> for a name that is not known, for which the code keeps the default object.
\<close>

record objc_env =
  oe_MacOSX :: objc_runtime
  oe_FragileMacOSX :: objc_runtime
  oe_GNUstep :: objc_runtime
  oe_GCC :: objc_runtime
  oe_Default :: "bool \<Rightarrow> objc_runtime"
  oe_Unset :: objc_runtime
  oe_tryParse :: "string \<Rightarrow> objc_runtime option"

definition objc_abi :: "cc_env \<Rightarrow> ArgList \<Rightarrow> RewriteKind \<Rightarrow> drv \<Rightarrow> (nat \<times> drv) res" where
  "objc_abi E Args rewriteKind D =
     (case getLastArg Args [CC ''fobjc_abi_version_EQ''] of
        Some abiArg \<Rightarrow> bnd (getValue abiArg) (\<lambda>v.
          Inr (if v = ''1'' then (1, D) else if v = ''2'' then (2, D) else if v = ''3'' then (3, D)
               else (1, Diag (err_drv_clang_unsupported v) D)))
      | None \<Rightarrow>
          if flag Args ''fobjc_nonfragile_abi'' ''fno_objc_nonfragile_abi''
              (rewriteKind = RK_NonFragile \<or> rewriteKind = RK_None \<and> cc_ask E IsObjCNonFragileABIDefault)
          then (case getLastArg Args [CC ''fobjc_nonfragile_abi_version_EQ''] of
              None \<Rightarrow> Inr (3, D)
            | Some abiArg \<Rightarrow> bnd (getValue abiArg) (\<lambda>v.
                Inr (if v = ''1'' then (2, D) else if v = ''2'' then (3, D)
                     else (3, Diag (err_drv_clang_unsupported v) D))))
          else Inr (1, D))"

definition AddObjCRuntimeArgs :: "cc_env \<Rightarrow> objc_env \<Rightarrow> ToolChain \<Rightarrow> ArgList \<Rightarrow> RewriteKind \<Rightarrow> feats \<Rightarrow>
    (objc_runtime \<times> feats) res" where
  "AddObjCRuntimeArgs E R TC Args rewriteKind = (\<lambda>(CmdArgs, D).
     let runtimeArg = getLastArg Args [CC ''fnext_runtime'', CC ''fgnu_runtime'', CC ''fobjc_runtime_EQ'']
     in case runtimeArg of
          Some A \<Rightarrow>
            if a_opt A = CC ''fobjc_runtime_EQ'' then
              bnd (getValue A) (\<lambda>value.
                Inr (case oe_tryParse R value of
                    Some runtime \<Rightarrow> (runtime, CmdArgs @ j_render (cc_job E) A, D)
                  | None \<Rightarrow> (oe_Unset R, CmdArgs @ j_render (cc_job E) A,
                      Diag (Compile (err_drv_unknown_objc_runtime value)) D)))
            else
              bnd (objc_abi E Args rewriteKind D) (\<lambda>(version, D1).
                let isNonFragile = version \<noteq> 1;
                    runtime = (if a_opt A = CC ''fnext_runtime'' then
                        (if t_isOSDarwin (tc_Triple TC) then oe_Default R isNonFragile else oe_MacOSX R)
                      else if isNonFragile then oe_GNUstep R else oe_GCC R)
                in Inr (runtime, CmdArgs @ [''-fobjc-runtime='' @ oc_string runtime], D1))
        | None \<Rightarrow>
            bnd (objc_abi E Args rewriteKind D) (\<lambda>(version, D1).
              let runtime = (case rewriteKind of
                    RK_None \<Rightarrow> oe_Default R (version \<noteq> 1)
                  | RK_Fragile \<Rightarrow> oe_FragileMacOSX R
                  | RK_NonFragile \<Rightarrow> oe_MacOSX R)
              in Inr (runtime, CmdArgs @ [''-fobjc-runtime='' @ oc_string runtime], D1)))"

definition isObjCAutoRefCount :: "ArgList \<Rightarrow> bool" where
  "isObjCAutoRefCount Args = flag Args ''fobjc_arc'' ''fno_objc_arc'' False"

definition isObjCRuntimeLinked :: "cc_env \<Rightarrow> ArgList \<Rightarrow> drv \<Rightarrow> bool \<times> drv" where
  "isObjCRuntimeLinked E Args D =
     (if isObjCAutoRefCount Args then (True, claim_all (cc_job E) [CC ''fobjc_link_runtime''] D)
      else (has_opt Args ''fobjc_link_runtime'', D))"

subsection \<open>Vectorisation and the language of the input\<close>

definition shouldEnableVectorizerAtOLevel :: "cc_env \<Rightarrow> ArgList \<Rightarrow> bool \<Rightarrow> bool res" where
  "shouldEnableVectorizerAtOLevel E Args isSlpVec =
     (case getLastArg Args [Tool OPT_O_Group] of
        None \<Rightarrow> Inr False
      | Some A \<Rightarrow>
          if a_opt A = Link OPT_O4 \<or> a_opt A = Link OPT_Ofast then Inr True
          else if a_opt A = Tool OPT_O0 then Inr False
          else if a_opt A \<noteq> Link OPT_O then Inl Unreachable
          else bnd (getValue A) (\<lambda>S.
            Inr (if S = ''s'' then True
                 else if S = ''z'' then isSlpVec
                 else case cc_getAsUnsigned E S of None \<Rightarrow> False | Some OptLevel \<Rightarrow> OptLevel > 1)))"

definition addDashXForInput :: "cc_env \<Rightarrow> ArgList \<Rightarrow> string list" where
  "addDashXForInput E Args =
     (if has_opt Args ''verify_pch'' \<and> cc_InputType E = T_PCH then []
      else [''-x'', if has_opt Args ''rewrite_objc'' then cc_text E PPObjCXXTypeName else cc_text E InputTypeName])"

text \<open>The name of the user, or the number of the user if the name has other characters than letters, digits and \<open>_\<close>.\<close>

definition is_alnum :: "char \<Rightarrow> bool" where
  "is_alnum c = (let n = of_char c :: nat in 48 \<le> n \<and> n \<le> 57 \<or> 65 \<le> n \<and> n \<le> 90 \<or> 97 \<le> n \<and> n \<le> 122)"

definition appendUserToPath :: "string option \<Rightarrow> nat \<Rightarrow> string \<Rightarrow> string" where
  "appendUserToPath Username uid Result =
     (case Username of
        Some name \<Rightarrow>
          if list_all (\<lambda>c. is_alnum c \<or> c = CHR ''_'') name \<and> name \<noteq> [] then Result @ name else Result @ show_nat uid
      | None \<Rightarrow> Result @ show_nat uid)"

end
