(* ===== verification/Preprocessing.thy ===== *)
theory Preprocessing
  imports CompileSteps GnuLinker
begin

text \<open>
  The options of the preprocessor (\<open>Tools.cpp\<close>, \<open>Clang::AddPreprocessingOptions\<close>): files with dependencies,
  precompiled headers, include paths. Whether a file exists is asked of the tool chain's \<open>tc_exists\<close>. The list of
  files that a failed job removes, to which the code adds the file of dependencies, is not modelled.
\<close>

subsection \<open>Checks\<close>

definition CheckPreprocessingOptions :: "cc_env \<Rightarrow> ArgList \<Rightarrow> step" where
  "CheckPreprocessingOptions E Args =
     with_last Args [Asm OPT_C, Asm OPT_CC] (\<lambda>A.
       diag_if (\<not> hasArg Args [Asm OPT_E] \<and> \<not> hasArg Args [Asm OPT__SLASH_P] \<and> \<not> hasArg Args [Asm OPT__SLASH_EP] \<and>
           \<not> cc_ask E CCCIsCPP)
         (err_drv_argument_only_allowed_with (a_string A) (if cc_ask E IsCLMode then ''/E, /P or /EP'' else ''-E'')))"

definition CheckCodeGenerationOptions :: "ArgList \<Rightarrow> step" where
  "CheckCodeGenerationOptions Args =
     step_if (hasArg Args [Link OPT_static])
       (with_last Args [Asm OPT_dynamic, Pic OPT_mdynamic_no_pic] (\<lambda>A.
         diag_if True (err_drv_argument_not_allowed_with (a_string A) ''-static'')))"

subsection \<open>Dependencies\<close>

text \<open>The option that asks for a file with dependencies.\<close>

definition dep_option :: "ArgList \<Rightarrow> Arg option" where
  "dep_option Args =
     (case getLastArg Args [CC ''M'', CC ''MM''] of
        Some A \<Rightarrow> Some A
      | None \<Rightarrow> (case getLastArg Args [CC ''MD''] of Some A \<Rightarrow> Some A | None \<Rightarrow> getLastArg Args [CC ''MMD'']))"

definition dep_file :: "cc_env \<Rightarrow> ArgList \<Rightarrow> Arg \<Rightarrow> string res" where
  "dep_file E Args A =
     (case getLastArg Args [CC ''MF''] of
        Some MF \<Rightarrow> getValue MF
      | None \<Rightarrow>
          if cc_OutputType E = T_Dependencies then
            (case cc_OutputFile E of None \<Rightarrow> Inl Unreachable | Some F \<Rightarrow> Inr F)
          else if a_opt A = CC ''M'' \<or> a_opt A = CC ''MM'' then Inr ''-''
          else Inr (cc_text E DependencyFileName))"

definition dep_target :: "cc_env \<Rightarrow> ArgList \<Rightarrow> string res" where
  "dep_target E Args =
     (case getLastArg Args [Job OPT_o] of
        Some OutputOpt \<Rightarrow>
          if cc_OutputType E \<noteq> T_Dependencies then getValue OutputOpt else Inr (cc_text E DefaultDepTarget)
      | None \<Rightarrow> Inr (cc_text E DefaultDepTarget))"

definition dep_args :: "cc_env \<Rightarrow> ArgList \<Rightarrow> Arg \<Rightarrow> step" where
  "dep_args E Args A = steps [
     \<lambda>r. bnd (dep_file E Args A) (\<lambda>DepFile. add [''-dependency-file'', DepFile] r),
     step_if (\<not> has_opt Args ''MT'' \<and> \<not> has_opt Args ''MQ'')
       (\<lambda>r. bnd (dep_target E Args) (\<lambda>DepTarget. add [''-MT'', QuoteTarget DepTarget []] r)),
     add_if (a_opt A = CC ''M'' \<or> a_opt A = CC ''MD'') [''-sys-header-deps''],
     add_if (cc_JA E = PrecompileJob \<and> \<not> has_opt Args ''fno_module_file_deps'' \<or> has_opt Args ''fmodule_file_deps'')
       [''-module-file-deps'']]"

text \<open>\<open>-MQ\<close> becomes \<open>-MT\<close> with its target quoted.\<close>

definition dep_targets :: "cc_env \<Rightarrow> ArgList \<Rightarrow> step" where
  "dep_targets E Args = for_each (\<lambda>A. steps [claims [A],
       if a_opt A = CC ''MQ'' then with_value A (\<lambda>v. add [''-MT'', QuoteTarget v []]) else render E A])
     (filtered [CC ''MT'', CC ''MQ''] Args)"

definition dependencies :: "cc_env \<Rightarrow> ArgList \<Rightarrow> step" where
  "dependencies E Args = steps [
     (case dep_option Args of None \<Rightarrow> add [] | Some A \<Rightarrow> dep_args E Args A),
     step_if (has_opt Args ''MG'') (steps [
       diag_if (case dep_option Args of None \<Rightarrow> True | Some A \<Rightarrow> a_opt A = CC ''MD'' \<or> a_opt A = CC ''MMD'')
         (Compile err_drv_mg_requires_m_or_mm),
       add [''-MG'']]),
     last_arg E Args [CC ''MP''], last_arg E Args [CC ''MV''], dep_targets E Args]"

subsection \<open>Precompiled headers\<close>

text \<open>The index of the last \<open>-include\<close> of the header that \<open>Yc\<close> (or \<open>Yu\<close>) names.\<close>

definition pch_index :: "Arg option \<Rightarrow> Arg list \<Rightarrow> nat option res" where
  "pch_index Y is =
     (case Y of
        None \<Rightarrow> Inr None
      | Some Y \<Rightarrow>
          bnd (getValue Y) (\<lambda>header.
          bnd (foldl (\<lambda>m (AI, A). bnd m (\<lambda>i. if a_opt A \<noteq> CC ''include'' then Inr i
               else bnd (getValue A) (\<lambda>v. Inr (if v = header then Some AI else i)))) (Inr None) (List.enumerate 0 is)) Inr))"

text \<open>
  The file that is looked up for a header, \<open>foo.h.pch\<close>, \<open>foo.h.pth\<close> or \<open>foo.h.gch\<close>; the code replaces the
  extension of \<open>foo.h.dummy\<close>. The result says whether it is there as a PCH, and as a PTH.
\<close>

definition find_pch :: "cc_env \<Rightarrow> ToolChain \<Rightarrow> string \<Rightarrow> string \<times> bool \<times> bool" where
  "find_pch E TC header =
     (let UsePCH = cc_ask E CCCUsePCH;
          ext = (\<lambda>e. j_replace_extension (cc_job E) (header @ ''.dummy'') e)
      in if UsePCH \<and> tc_exists TC (ext ''pch'') then (ext ''pch'', True, False)
         else if tc_exists TC (ext ''pth'') then (ext ''pth'', False, True)
         else if tc_exists TC (ext ''gch'') then (ext ''gch'', UsePCH, \<not> UsePCH)
         else (ext ''gch'', False, False))"

definition gcc_include :: "cc_env \<Rightarrow> ToolChain \<Rightarrow> bool \<Rightarrow> Arg \<Rightarrow> step" where
  "gcc_include E TC IsFirst A =
     with_value A (\<lambda>header.
       let (P, FoundPCH, FoundPTH) = find_pch E TC header
       in if FoundPCH \<or> FoundPTH then
            if IsFirst then
              steps [claims [A], add [if cc_ask E CCCUsePCH then ''-include-pch'' else ''-include-pth'', P]]
            else steps [diag_if True (Compile (warn_drv_pch_not_first_include P (a_string A))), claims [A], render E A]
          else steps [claims [A], render E A])"

text \<open>\<open>cl_include\<close> is the same in the mode of \<open>cl.exe\<close>, where \<open>/Yc\<close> and \<open>/Yu\<close> name the header.\<close>

definition cl_include :: "cc_env \<Rightarrow> (string \<Rightarrow> string) \<Rightarrow> nat option \<Rightarrow> nat option \<Rightarrow> nat \<Rightarrow> Arg \<Rightarrow> step" where
  "cl_include E GetClPchPath Yc Yu AI A =
     (case (if Yc \<noteq> None then Yc else Yu) of
        None \<Rightarrow> steps [claims [A], render E A]
      | Some PchIndex \<Rightarrow>
          if cc_JA E = PrecompileJob then
            if Yc = None then (\<lambda>r. Inl Unreachable)
            else if PchIndex \<le> AI then add []
            else steps [claims [A], render E A]
          else if AI < PchIndex then claims [A]
          else if AI = PchIndex then
            steps [claims [A], with_value A (\<lambda>v. add [''-include-pch'', GetClPchPath v])]
          else steps [claims [A], render E A])"

fun include_args :: "cc_env \<Rightarrow> ToolChain \<Rightarrow> (string \<Rightarrow> string) \<Rightarrow> nat option \<Rightarrow> nat option \<Rightarrow> nat \<Rightarrow> bool \<Rightarrow> Arg list \<Rightarrow> step" where
  "include_args E TC GetClPchPath Yc Yu AI Rendered [] r = Inr r"
| "include_args E TC GetClPchPath Yc Yu AI Rendered (A # As) r =
     bnd ((if cc_ask E IsCLMode \<and> a_opt A = CC ''include'' then cl_include E GetClPchPath Yc Yu AI A
           else if a_opt A = CC ''include'' then gcc_include E TC (\<not> Rendered) A
           else if a_opt A = CC ''isystem_after'' then add []
           else steps [claims [A], render E A]) r)
       (include_args E TC GetClPchPath Yc Yu (Suc AI)
          (Rendered \<or> \<not> cc_ask E IsCLMode \<and> a_opt A = CC ''include'') As)"

definition pch_args :: "cc_env \<Rightarrow> ToolChain \<Rightarrow> (string \<Rightarrow> string) \<Rightarrow> ArgList \<Rightarrow> step" where
  "pch_args E TC GetClPchPath Args r =
     (let is = j_matching (cc_job E) (CC ''clang_i_Group'')
      in bnd (pch_index (getLastArg Args [CC ''_SLASH_Yc'']) is) (\<lambda>Yc.
         bnd (pch_index (getLastArg Args [CC ''_SLASH_Yu'']) is) (\<lambda>Yu.
         bnd (add_if (cc_JA E = PrecompileJob \<and> Yc \<noteq> None) [''-find-pch-source='' @ cc_text E PchSource] r)
           (include_args E TC GetClPchPath Yc Yu 0 False is))))"

subsection \<open>Include paths\<close>

definition include_paths :: "cc_env \<Rightarrow> ArgList \<Rightarrow> step" where
  "include_paths E Args = steps [
     all_args E [CC ''D'', CC ''U'', Asm OPT_I_Group, CC ''F'', CC ''index_header_map''],
     all_values E [CC ''Wp_COMMA'', CC ''Xpreprocessor''],
     with_last Args [CC ''I_''] (\<lambda>A. diag_if True (Compile (err_drv_I_dash_not_supported (a_string A)))),
     add_if (cc_text E SysRoot \<noteq> [] \<and> \<not> has_opt Args ''isysroot'') [''-isysroot'', cc_text E SysRoot],
     \<lambda>(CmdArgs, D). Inr (addDirectoryList ''-objcxx-isystem'' (cc_getenv E ''OBJCPLUS_INCLUDE_PATH'')
       (addDirectoryList ''-objc-isystem'' (cc_getenv E ''OBJC_INCLUDE_PATH'')
       (addDirectoryList ''-cxx-isystem'' (cc_getenv E ''CPLUS_INCLUDE_PATH'')
       (addDirectoryList ''-c-isystem'' (cc_getenv E ''C_INCLUDE_PATH'')
       (addDirectoryList ''-I'' (cc_getenv E ''CPATH'') CmdArgs)))), D),
     add_if (cc_ask E IsCXX) (cc_list E CXXIncludes),
     add (cc_list E (if cc_is E IsIAMCU then IAMCUIncludes else SystemIncludes))]"

definition AddPreprocessingOptions :: "cc_env \<Rightarrow> ToolChain \<Rightarrow> (string \<Rightarrow> string) \<Rightarrow> ArgList \<Rightarrow> step" where
  "AddPreprocessingOptions E TC GetClPchPath Args = steps [
     CheckPreprocessingOptions E Args, last_arg E Args [Asm OPT_C], last_arg E Args [Asm OPT_CC],
     dependencies E Args, add_if (cc_is E Offload_Cuda) (cc_list E CudaIncludes),
     pch_args E TC GetClPchPath Args, include_paths E Args]"

subsection \<open>A PTH file passed as a PCH file\<close>

text \<open>
  With precompiled headers requested as PCH the code also looks for a PTH file, and passes one that it finds
  as the other kind.
\<close>

lemma pth_passed_as_pch:
  assumes "cc_ask E CCCUsePCH" and "a_values A = [''foo.h'']"
    and "\<And>f e. j_replace_extension (cc_job E) (f @ ''.dummy'') e = f @ ''.'' @ e"
    and "tc_exists TC = (\<lambda>f. f = ''foo.h.pth'')"
  shows "gcc_include E TC True A (CmdArgs, D) = Inr (CmdArgs @ [''-include-pch'', ''foo.h.pth''], claim A D)"
proof -
  have "find_pch E TC ''foo.h'' = (''foo.h.pth'', False, True)"
    unfolding find_pch_def Let_def assms(3) by (simp add: assms)
  with assms(1,2) show ?thesis
    by (simp add: gcc_include_def with_value_def getValue_def vget_def claims_def add_def pushes_def)
qed

end
