(* ===== verification/FloatMath.thy ===== *)
theory FloatMath
  imports CompileSteps SanitizerFacts
begin

text \<open>
  The floating point options of the compile job (\<open>Tools.cpp\<close>, in \<open>Clang::ConstructJob\<close>). The code asks for
  the last option of seven overlapping groups; the reference is a state that the options update from left to
  right. \<open>Fast\<close> is \<open>isOptimizationLevelFast\<close>, for which \<open>-Ofast\<close> counts as \<open>-ffast-math\<close>.
\<close>

subsection \<open>The decisions of the code\<close>

definition FastMathAlias :: "bool \<Rightarrow> OptID" where
  "FastMathAlias Fast = (if Fast then Link OPT_Ofast else CC ''ffast_math'')"

text \<open>
  The pattern of every decision: the last of the umbrella options and of \<open>ids\<close>, unless it is one of \<open>off\<close>.
\<close>

definition umbrella :: "bool \<Rightarrow> OptID list" where
  "umbrella Fast = [CC ''ffast_math'', FastMathAlias Fast, CC ''fno_fast_math'']"

definition last_not :: "ArgList \<Rightarrow> OptID list \<Rightarrow> OptID list \<Rightarrow> bool" where
  "last_not Args ids off = (case getLastArg Args ids of None \<Rightarrow> False | Some A \<Rightarrow> a_opt A \<notin> set off)"

definition NoInfs :: "ArgList \<Rightarrow> bool \<Rightarrow> bool" where
  "NoInfs Args Fast = last_not Args
     (umbrella Fast @ [CC ''ffinite_math_only'', CC ''fno_finite_math_only'', CC ''fhonor_infinities'', CC ''fno_honor_infinities''])
     [CC ''fno_fast_math'', CC ''fno_finite_math_only'', CC ''fhonor_infinities'']"

definition NoNaNs :: "ArgList \<Rightarrow> bool \<Rightarrow> bool" where
  "NoNaNs Args Fast = last_not Args
     (umbrella Fast @ [CC ''ffinite_math_only'', CC ''fno_finite_math_only'', CC ''fhonor_nans'', CC ''fno_honor_nans''])
     [CC ''fno_fast_math'', CC ''fno_finite_math_only'', CC ''fhonor_nans'']"

definition MathErrno :: "ArgList \<Rightarrow> bool \<Rightarrow> bool \<Rightarrow> bool" where
  "MathErrno Args Fast Default =
     (case getLastArg Args (umbrella Fast @ [CC ''fmath_errno'', CC ''fno_math_errno'']) of
        None \<Rightarrow> Default
      | Some A \<Rightarrow>
          if a_opt A \<in> {CC ''fno_math_errno'', CC ''ffast_math'', Link OPT_Ofast} then False
          else if a_opt A = CC ''fmath_errno'' then True else Default)"

definition unsafe_math :: "bool \<Rightarrow> OptID list" where
  "unsafe_math Fast = umbrella Fast @ [CC ''funsafe_math_optimizations'', CC ''fno_unsafe_math_optimizations'']"

definition AssociativeMath :: "ArgList \<Rightarrow> bool \<Rightarrow> bool" where
  "AssociativeMath Args Fast = last_not Args (unsafe_math Fast @ [CC ''fassociative_math'', CC ''fno_associative_math''])
     [CC ''fno_fast_math'', CC ''fno_unsafe_math_optimizations'', CC ''fno_associative_math'']"

definition ReciprocalMath :: "ArgList \<Rightarrow> bool \<Rightarrow> bool" where
  "ReciprocalMath Args Fast = last_not Args (unsafe_math Fast @ [CC ''freciprocal_math'', CC ''fno_reciprocal_math''])
     [CC ''fno_fast_math'', CC ''fno_unsafe_math_optimizations'', CC ''fno_reciprocal_math'']"

definition SignedZeros :: "ArgList \<Rightarrow> bool \<Rightarrow> bool" where
  "SignedZeros Args Fast \<longleftrightarrow> \<not> last_not Args (unsafe_math Fast @ [CC ''fsigned_zeros'', CC ''fno_signed_zeros''])
     [CC ''fno_fast_math'', CC ''fno_unsafe_math_optimizations'', CC ''fsigned_zeros'']"

definition TrappingMath :: "ArgList \<Rightarrow> bool \<Rightarrow> bool" where
  "TrappingMath Args Fast \<longleftrightarrow> \<not> last_not Args (unsafe_math Fast @ [CC ''ftrapping_math'', CC ''fno_trapping_math''])
     [CC ''fno_fast_math'', CC ''fno_unsafe_math_optimizations'', CC ''ftrapping_math'']"

definition float_flags :: "ArgList \<Rightarrow> bool \<Rightarrow> bool \<Rightarrow> string list" where
  "float_flags Args Fast Default =
     (if NoInfs Args Fast then [''-menable-no-infs''] else []) @
     (if NoNaNs Args Fast then [''-menable-no-nans''] else []) @
     (if MathErrno Args Fast Default then [''-fmath-errno''] else []) @
     (if \<not> MathErrno Args Fast Default \<and> AssociativeMath Args Fast \<and> ReciprocalMath Args Fast \<and>
         \<not> SignedZeros Args Fast \<and> \<not> TrappingMath Args Fast then [''-menable-unsafe-fp-math''] else []) @
     (if \<not> SignedZeros Args Fast then [''-fno-signed-zeros''] else []) @
     (if ReciprocalMath Args Fast then [''-freciprocal-math''] else []) @
     (if \<not> TrappingMath Args Fast then [''-fno-trapping-math''] else [])"

definition denormal_flags :: "cc_env \<Rightarrow> ArgList \<Rightarrow> step" where
  "denormal_flags E Args =
     step_if (last_not Args (unsafe_math (cc_ask E OptimizationLevelFast) @ [CC ''fdenormal_fp_math_EQ''])
         [CC ''fno_fast_math'', CC ''fno_unsafe_math_optimizations''])
       (last_arg E Args [CC ''fdenormal_fp_math_EQ''])"

definition contract_flags :: "bool \<Rightarrow> ArgList \<Rightarrow> step" where
  "contract_flags Fast Args =
     with_last Args (umbrella Fast @ [CC ''ffp_contract'']) (\<lambda>A.
       if a_opt A = CC ''ffp_contract'' then
         with_value A (\<lambda>Val.
           if Val \<in> {''fast'', ''on'', ''off''} then add [''-ffp-contract='' @ Val]
           else diag_if True (err_drv_unsupported_option_argument (a_name A) Val))
       else if a_opt A = CC ''ffast_math'' \<or> Fast \<and> a_opt A = Link OPT_Ofast then add [''-ffp-contract=fast'']
       else add [])"

definition macro_flags :: "bool \<Rightarrow> ArgList \<Rightarrow> step" where
  "macro_flags Fast Args = add (
     (if last_not Args (umbrella Fast) [CC ''fno_fast_math''] then [''-ffast-math''] else []) @
     (case getLastArg Args [CC ''ffinite_math_only'', CC ''fno_fast_math''] of
        None \<Rightarrow> []
      | Some A \<Rightarrow> if a_opt A = CC ''ffinite_math_only'' then [''-ffinite-math-only''] else []))"

definition math_steps :: "cc_env \<Rightarrow> ArgList \<Rightarrow> step" where
  "math_steps E Args =
     (let Fast = cc_ask E OptimizationLevelFast
      in steps [add (float_flags Args Fast (cc_ask E IsMathErrnoDefault)), denormal_flags E Args,
           contract_flags Fast Args, \<lambda>(CmdArgs, D). Inr (ParseMRecip Args CmdArgs D), macro_flags Fast Args])"

subsection \<open>The reference\<close>

record float_state =
  no_infs :: bool
  no_nans :: bool
  errno :: bool
  associative :: bool
  reciprocal :: bool
  signed_zeros :: bool
  trapping :: bool

definition unsafe_off :: "float_state \<Rightarrow> float_state" where
  "unsafe_off s = s\<lparr>associative := False, reciprocal := False, signed_zeros := True, trapping := True\<rparr>"

definition unsafe_on :: "float_state \<Rightarrow> float_state" where
  "unsafe_on s = s\<lparr>associative := True, reciprocal := True, signed_zeros := False, trapping := False\<rparr>"

text \<open>The state before any option, with the default of the tool chain for \<open>errno\<close>.\<close>

definition precise :: "bool \<Rightarrow> float_state" where
  "precise Default = \<lparr>no_infs = False, no_nans = False, errno = Default, associative = False, reciprocal = False,
     signed_zeros = True, trapping = True\<rparr>"

definition fastest :: float_state where
  "fastest = \<lparr>no_infs = True, no_nans = True, errno = False, associative = True, reciprocal = True,
     signed_zeros = False, trapping = False\<rparr>"

definition float_option :: "bool \<Rightarrow> bool \<Rightarrow> OptID \<Rightarrow> float_state \<Rightarrow> float_state" where
  "float_option Fast Default opt s =
     (if opt = CC ''ffast_math'' \<or> Fast \<and> opt = Link OPT_Ofast then fastest
      else if opt = CC ''fno_fast_math'' then precise Default
      else if opt = CC ''ffinite_math_only'' then s\<lparr>no_infs := True, no_nans := True\<rparr>
      else if opt = CC ''fno_finite_math_only'' then s\<lparr>no_infs := False, no_nans := False\<rparr>
      else if opt = CC ''fhonor_infinities'' then s\<lparr>no_infs := False\<rparr>
      else if opt = CC ''fno_honor_infinities'' then s\<lparr>no_infs := True\<rparr>
      else if opt = CC ''fhonor_nans'' then s\<lparr>no_nans := False\<rparr>
      else if opt = CC ''fno_honor_nans'' then s\<lparr>no_nans := True\<rparr>
      else if opt = CC ''fmath_errno'' then s\<lparr>errno := True\<rparr>
      else if opt = CC ''fno_math_errno'' then s\<lparr>errno := False\<rparr>
      else if opt = CC ''funsafe_math_optimizations'' then unsafe_on s
      else if opt = CC ''fno_unsafe_math_optimizations'' then unsafe_off s
      else if opt = CC ''fassociative_math'' then s\<lparr>associative := True\<rparr>
      else if opt = CC ''fno_associative_math'' then s\<lparr>associative := False\<rparr>
      else if opt = CC ''freciprocal_math'' then s\<lparr>reciprocal := True\<rparr>
      else if opt = CC ''fno_reciprocal_math'' then s\<lparr>reciprocal := False\<rparr>
      else if opt = CC ''fsigned_zeros'' then s\<lparr>signed_zeros := True\<rparr>
      else if opt = CC ''fno_signed_zeros'' then s\<lparr>signed_zeros := False\<rparr>
      else if opt = CC ''ftrapping_math'' then s\<lparr>trapping := True\<rparr>
      else if opt = CC ''fno_trapping_math'' then s\<lparr>trapping := False\<rparr>
      else s)"

definition float_run :: "bool \<Rightarrow> bool \<Rightarrow> Arg list \<Rightarrow> float_state" where
  "float_run Fast Default As = fold (\<lambda>A. float_option Fast Default (a_opt A)) As (precise Default)"

definition state_flags :: "float_state \<Rightarrow> string list" where
  "state_flags s =
     (if no_infs s then [''-menable-no-infs''] else []) @
     (if no_nans s then [''-menable-no-nans''] else []) @
     (if errno s then [''-fmath-errno''] else []) @
     (if \<not> errno s \<and> associative s \<and> reciprocal s \<and> \<not> signed_zeros s \<and> \<not> trapping s
      then [''-menable-unsafe-fp-math''] else []) @
     (if \<not> signed_zeros s then [''-fno-signed-zeros''] else []) @
     (if reciprocal s then [''-freciprocal-math''] else []) @
     (if \<not> trapping s then [''-fno-trapping-math''] else [])"

subsection \<open>The code decides as the reference does\<close>

text \<open>What \<open>getLastArg\<close> promises for options that are no groups.\<close>

definition last_opt :: "OptID list \<Rightarrow> Arg list \<Rightarrow> Arg option" where
  "last_opt ids As = (let xs = filter (\<lambda>A. a_opt A \<in> set ids) As in if xs = [] then None else Some (last xs))"

definition looks_up :: "ArgList \<Rightarrow> bool" where
  "looks_up Args \<longleftrightarrow> (\<forall>ids. set ids \<inter> option_groups = {} \<longrightarrow> getLastArg Args ids = last_opt ids (al_args Args))"

lemma last_opt_snoc: "last_opt ids (As @ [A]) = (if a_opt A \<in> set ids then Some A else last_opt ids As)"
  by (simp add: last_opt_def Let_def)

lemma last_opt_Nil [simp]: "last_opt ids [] = None"
  by (simp add: last_opt_def)

text \<open>A decision by the last option of some is a field of the state, if each option sets the field as the decision says.\<close>

lemma decision_is_field:
  assumes "\<And>opt s. field (float_option Fast Default opt s) = (if opt \<in> set ids then g opt else field s)"
    and "field (precise Default) = d"
  shows "(case last_opt ids As of None \<Rightarrow> d | Some A \<Rightarrow> g (a_opt A)) = field (float_run Fast Default As)"
  by (induction As rule: rev_induct) (simp_all add: float_run_def last_opt_snoc assms)

lemmas math_options = umbrella_def unsafe_math_def FastMathAlias_def

lemma no_math_groups:
  "set (umbrella Fast) \<inter> option_groups = {}" "CC n \<in> option_groups \<longleftrightarrow> n \<in> {''clang_i_Group'', ''R_Group'', ''g_flags_Group'',
     ''clang_ignored_f_Group'', ''clang_ignored_m_Group'', ''clang_ignored_gcc_optimization_f_Group'', ''_SLASH_M_Group'',
     ''_SLASH_volatile_Group''}"
  by (auto simp: umbrella_def FastMathAlias_def option_groups_def)

lemmas option_effects = float_option_def math_options precise_def fastest_def unsafe_on_def unsafe_off_def

lemma NoInfs_option:
  "no_infs (float_option Fast Default opt s) = (if opt \<in> set (umbrella Fast @ [CC ''ffinite_math_only'',
     CC ''fno_finite_math_only'', CC ''fhonor_infinities'', CC ''fno_honor_infinities'']) then opt \<notin> set [CC ''fno_fast_math'',
     CC ''fno_finite_math_only'', CC ''fhonor_infinities''] else no_infs s)"
  by (cases Fast) (simp_all add: option_effects)

lemma NoNaNs_option:
  "no_nans (float_option Fast Default opt s) = (if opt \<in> set (umbrella Fast @ [CC ''ffinite_math_only'',
     CC ''fno_finite_math_only'', CC ''fhonor_nans'', CC ''fno_honor_nans'']) then opt \<notin> set [CC ''fno_fast_math'',
     CC ''fno_finite_math_only'', CC ''fhonor_nans''] else no_nans s)"
  by (cases Fast) (simp_all add: option_effects)

lemma AssociativeMath_option:
  "associative (float_option Fast Default opt s) = (if opt \<in> set (unsafe_math Fast @ [CC ''fassociative_math'', CC ''fno_associative_math'']) then opt \<notin> set [CC ''fno_fast_math'',
     CC ''fno_unsafe_math_optimizations'', CC ''fno_associative_math''] else associative s)"
  by (cases Fast) (simp_all add: option_effects)

lemma ReciprocalMath_option:
  "reciprocal (float_option Fast Default opt s) = (if opt \<in> set (unsafe_math Fast @ [CC ''freciprocal_math'', CC ''fno_reciprocal_math'']) then opt \<notin> set [CC ''fno_fast_math'',
     CC ''fno_unsafe_math_optimizations'', CC ''fno_reciprocal_math''] else reciprocal s)"
  by (cases Fast) (simp_all add: option_effects)

lemma SignedZeros_option:
  "(\<not> signed_zeros (float_option Fast Default opt s)) = (if opt \<in> set (unsafe_math Fast @ [CC ''fsigned_zeros'', CC ''fno_signed_zeros'']) then opt \<notin> set [CC ''fno_fast_math'',
     CC ''fno_unsafe_math_optimizations'', CC ''fsigned_zeros''] else \<not> signed_zeros s)"
  by (cases Fast) (simp_all add: option_effects)

lemma TrappingMath_option:
  "(\<not> trapping (float_option Fast Default opt s)) = (if opt \<in> set (unsafe_math Fast @ [CC ''ftrapping_math'', CC ''fno_trapping_math'']) then opt \<notin> set [CC ''fno_fast_math'',
     CC ''fno_unsafe_math_optimizations'', CC ''ftrapping_math''] else \<not> trapping s)"
  by (cases Fast) (simp_all add: option_effects)

lemma MathErrno_option:
  "errno (float_option Fast Default opt s) = (if opt \<in> set (umbrella Fast @ [CC ''fmath_errno'', CC ''fno_math_errno''])
     then (if opt \<in> {CC ''fno_math_errno'', CC ''ffast_math'', Link OPT_Ofast} then False
           else if opt = CC ''fmath_errno'' then True else Default) else errno s)"
  by (cases Fast) (simp_all add: option_effects)

lemma last_not_field:
  assumes "looks_up Args" and "set ids \<inter> option_groups = {}"
    and "\<And>opt s. field (float_option Fast Default opt s) = (if opt \<in> set ids then opt \<notin> set off else field s)"
    and "\<not> field (precise Default)"
  shows "last_not Args ids off = field (float_run Fast Default (al_args Args))"
  using assms(1,2) decision_is_field [where field = field and g = "\<lambda>opt. opt \<notin> set off" and d = False, OF assms(3)] assms(4)
  by (simp add: last_not_def looks_up_def)

lemma decisions:
  assumes "looks_up Args"
  shows "NoInfs Args Fast = no_infs (float_run Fast Default (al_args Args))"
    "NoNaNs Args Fast = no_nans (float_run Fast Default (al_args Args))"
    "AssociativeMath Args Fast = associative (float_run Fast Default (al_args Args))"
    "ReciprocalMath Args Fast = reciprocal (float_run Fast Default (al_args Args))"
    "SignedZeros Args Fast = signed_zeros (float_run Fast Default (al_args Args))"
    "TrappingMath Args Fast = trapping (float_run Fast Default (al_args Args))"
    "MathErrno Args Fast Default = errno (float_run Fast Default (al_args Args))"
proof -
  have two: "set (umbrella Fast @ [CC a, CC b]) \<inter> option_groups = {}"
    if "CC a \<notin> option_groups" "CC b \<notin> option_groups" for a b
    using that no_math_groups(1) [of Fast] by auto
  have two': "set (unsafe_math Fast @ [CC a, CC b]) \<inter> option_groups = {}"
    if "CC a \<notin> option_groups" "CC b \<notin> option_groups" for a b
    using that no_math_groups(1) [of Fast] by (auto simp: unsafe_math_def no_math_groups(2))
  have four: "set (umbrella Fast @ [CC a, CC b, CC c, CC d]) \<inter> option_groups = {}"
    if "CC a \<notin> option_groups" "CC b \<notin> option_groups" "CC c \<notin> option_groups" "CC d \<notin> option_groups" for a b c d
    using that no_math_groups(1) [of Fast] by auto
  note last = last_not_field [OF assms]
  show "NoInfs Args Fast = no_infs (float_run Fast Default (al_args Args))"
    unfolding NoInfs_def
    by (rule last [OF _ NoInfs_option]) (rule four, simp_all add: no_math_groups(2) precise_def)
  show "NoNaNs Args Fast = no_nans (float_run Fast Default (al_args Args))"
    unfolding NoNaNs_def
    by (rule last [OF _ NoNaNs_option]) (rule four, simp_all add: no_math_groups(2) precise_def)
  show "AssociativeMath Args Fast = associative (float_run Fast Default (al_args Args))"
    unfolding AssociativeMath_def
    by (rule last [OF _ AssociativeMath_option]) (rule two', simp_all add: no_math_groups(2) precise_def)
  show "ReciprocalMath Args Fast = reciprocal (float_run Fast Default (al_args Args))"
    unfolding ReciprocalMath_def
    by (rule last [OF _ ReciprocalMath_option]) (rule two', simp_all add: no_math_groups(2) precise_def)
  have "last_not Args (unsafe_math Fast @ [CC ''fsigned_zeros'', CC ''fno_signed_zeros''])
      [CC ''fno_fast_math'', CC ''fno_unsafe_math_optimizations'', CC ''fsigned_zeros''] =
    (\<not> signed_zeros (float_run Fast Default (al_args Args)))"
    by (rule last [OF _ SignedZeros_option]) (rule two', simp_all add: no_math_groups(2) precise_def)
  then show "SignedZeros Args Fast = signed_zeros (float_run Fast Default (al_args Args))"
    by (simp add: SignedZeros_def)
  have "last_not Args (unsafe_math Fast @ [CC ''ftrapping_math'', CC ''fno_trapping_math''])
      [CC ''fno_fast_math'', CC ''fno_unsafe_math_optimizations'', CC ''ftrapping_math''] =
    (\<not> trapping (float_run Fast Default (al_args Args)))"
    by (rule last [OF _ TrappingMath_option]) (rule two', simp_all add: no_math_groups(2) precise_def)
  then show "TrappingMath Args Fast = trapping (float_run Fast Default (al_args Args))"
    by (simp add: TrappingMath_def)
  have "set (umbrella Fast @ [CC ''fmath_errno'', CC ''fno_math_errno'']) \<inter> option_groups = {}"
    by (rule two) (simp_all add: no_math_groups(2))
  with assms decision_is_field [OF MathErrno_option, of Default Default Fast "al_args Args"]
  show "MathErrno Args Fast Default = errno (float_run Fast Default (al_args Args))"
    by (simp add: MathErrno_def looks_up_def precise_def)
qed

text \<open>
  C6: The floating point options can be read from left to right. Seven lookups of the last option among
  overlapping groups pass to the compiler exactly the flags that a state of seven bits gives, which every
  option updates in turn: \<open>-ffast-math\<close> sets all of them, \<open>-fno-fast-math\<close> resets them to what the tool chain
  wants, and the finer options change their own bits.
\<close>

theorem float_flags_left_to_right:
  assumes "looks_up Args"
  shows "float_flags Args Fast Default = state_flags (float_run Fast Default (al_args Args))"
  by (simp add: float_flags_def state_flags_def decisions [OF assms, of Fast Default])

lemma find_last: "find P (rev xs) = (let ys = filter P xs in if ys = [] then None else Some (last ys))"
  by (induction xs rule: rev_induct) (simp_all add: Let_def)

lemma demo_looks_up: "looks_up (demo_args As)"
  by (simp add: looks_up_def demo_args_def find_last last_opt_def)

theorem float_flags_left_to_right_witness:
  "float_flags (demo_args [demo_arg 0 (CC ''ffast_math'') [], demo_arg 1 (CC ''fhonor_nans'') [], demo_arg 2 (CC ''fmath_errno'') []])
     False False = [''-menable-no-infs'', ''-fmath-errno'', ''-fno-signed-zeros'', ''-freciprocal-math'', ''-fno-trapping-math'']"
  unfolding float_flags_left_to_right [OF demo_looks_up]
  by (simp add: state_flags_def float_run_def float_option_def precise_def fastest_def demo_args_def demo_arg_def)

text \<open>
  \<open>-fno-finite-math-only\<close> takes back the optimisations, but not the flag from which the compiler defines
  \<open>__FINITE_MATH_ONLY__\<close>.
\<close>

lemma finite_math_macro_sticks:
  assumes "looks_up Args"
    and "map a_opt (al_args Args) = [CC ''ffinite_math_only'', CC ''fno_finite_math_only'']"
  shows "macro_flags False Args r = Inr (pushes [''-ffinite-math-only''] r) \<and>
    float_flags Args False Default = (if Default then [''-fmath-errno''] else [])"
proof -
  obtain A B where AB: "al_args Args = [A, B]" "a_opt A = CC ''ffinite_math_only''" "a_opt B = CC ''fno_finite_math_only''"
    using assms(2) by (auto simp: map_eq_Cons_conv)
  have "getLastArg Args ids = last_opt ids [A, B]" if "set ids \<inter> option_groups = {}" for ids
    using assms(1) AB(1) that by (simp add: looks_up_def)
  then have "macro_flags False Args r = Inr (pushes [''-ffinite-math-only''] r)"
    using AB by (simp add: macro_flags_def last_not_def umbrella_def FastMathAlias_def no_math_groups(2) last_opt_def
      add_def)
  moreover have "float_flags Args False Default = (if Default then [''-fmath-errno''] else [])"
    unfolding float_flags_left_to_right [OF assms(1)] using AB
    by (simp add: float_run_def float_option_def precise_def state_flags_def)
  ultimately show ?thesis by blast
qed

end
