(* ===== verification/CodeGenArgs.thy ===== *)
theory CodeGenArgs
  imports LanguageArgs Preprocessing FloatMath
begin

text \<open>
  Options for code generation (\<open>Tools.cpp\<close>, in \<open>Clang::ConstructJob\<close>): the relocation model, aliasing,
  the assembler's output, unwind tables, instrumentation, the stack protector. \<open>T\<close> is the triple of the tool
  chain, \<open>ET\<close> the effective triple.
\<close>

definition KernelOrKext :: "ArgList \<Rightarrow> bool" where
  "KernelOrKext Args = hasArg Args [Tool OPT_mkernel, Tool OPT_fapple_kext]"

definition relocation_steps :: "cc_env \<Rightarrow> ToolChain \<Rightarrow> ArgList \<Rightarrow> step" where
  "relocation_steps E TC Args = steps [
     CheckCodeGenerationOptions Args,
     \<lambda>(CmdArgs, D). bnd (ParsePICArgs (j_pic (cc_job E)) TC Args D) (\<lambda>((RelocationModel, PICLevel, IsPIE), D1). steps [
       diag_if ((RelocationModel = ROPI \<or> RelocationModel = ROPI_RWPI) \<and> cc_ask E IsCXX \<and> \<not> has_opt Args ''fallow_unsupported'')
         (Compile err_drv_ropi_incompatible_with_cxx),
       add [''-mrelocation-model'', RelocationModelName RelocationModel],
       add_if (PICLevel > 0) ([''-pic-level'', if PICLevel = 1 then ''1'' else ''2''] @
         (if IsPIE then [''-pic-is-pie''] else []))] (CmdArgs, D1))]"

subsection \<open>The code generator\<close>

text \<open>\<open>-frewrite-map-file\<close>: a file that does not exist is an error, and then the argument is not claimed.\<close>

definition rewrite_map :: "ToolChain \<Rightarrow> Arg \<Rightarrow> step" where
  "rewrite_map TC A = with_value A (\<lambda>Map.
     if \<not> tc_exists TC Map then diag_if True (err_drv_no_such_file Map)
     else steps [add [''-frewrite-map-file'', Map], claims [A]])"

definition rewrite_maps :: "ToolChain \<Rightarrow> ArgList \<Rightarrow> step" where
  "rewrite_maps TC Args =
     step_if (has_opt Args ''frewrite_map_file'' \<or> has_opt Args ''frewrite_map_file_EQ'')
       (for_each (rewrite_map TC) (filtered [CC ''frewrite_map_file'', CC ''frewrite_map_file_EQ''] Args))"

definition struct_return :: "Triple \<Rightarrow> ArgList \<Rightarrow> step" where
  "struct_return T Args = with_last Args [CC ''fpcc_struct_return'', CC ''freg_struct_return''] (\<lambda>A.
     if t_Arch T \<noteq> Arch_x86 then diag_if True (err_drv_unsupported_opt_for_target (a_spelling A) (t_str T))
     else if a_opt A = CC ''fpcc_struct_return'' then add [''-fpcc-struct-return'']
     else steps [assert (a_opt A = CC ''freg_struct_return''), add [''-freg-struct-return'']])"

text \<open>\<open>-Ofast\<close> counts as \<open>-fstrict-aliasing\<close>; in the mode of \<open>cl.exe\<close> strict aliasing is off by default.\<close>

definition strict_aliasing :: "cc_env \<Rightarrow> ArgList \<Rightarrow> bool" where
  "strict_aliasing E Args =
     hasFlagAlias Args (CC ''fstrict_aliasing'')
       (if cc_ask E OptimizationLevelFast then Link OPT_Ofast else CC ''fstrict_aliasing'')
       (CC ''fno_strict_aliasing'') (\<not> cc_ask E IsCLMode)"

definition generator_steps :: "cc_env \<Rightarrow> ToolChain \<Rightarrow> ArgList \<Rightarrow> step" where
  "generator_steps E TC Args = (let T = tc_Triple TC in steps [
     flag_value Args [CC ''meabi''] ''-meabi'',
     add [''-mthread-model''],
     \<lambda>r. bnd (value_or (getLastArg Args [CC ''mthread_model'']) (cc_text E ThreadModel)) (\<lambda>v. add [v] r),
     last_arg E Args [CC ''fveclib''],
     flag_off Args ''fmerge_all_constants'' ''fno_merge_all_constants'' True ''-fno-merge-all-constants'',
     rewrite_maps TC Args,
     with_last Args [CC ''Wframe_larger_than_EQ''] (\<lambda>A. steps [
       with_value A (\<lambda>v. add [''-mllvm'', ''-warn-stack-size='' @ v]), claims [A]]),
     flag_off Args ''fjump_tables'' ''fno_jump_tables'' True ''-fno-jump-tables'',
     flag_off Args ''fpreserve_as_comments'' ''fno_preserve_as_comments'' True ''-fno-preserve-as-comments'',
     flag_value Args [Tgt OPT_mregparm_EQ] ''-mregparm'',
     struct_return T Args,
     flag_on Args ''mrtd'' ''mno_rtd'' False ''-fdefault-calling-conv=stdcall'',
     add_if (shouldUseFramePointer Args T) [''-mdisable-fp-elim''],
     flag_off Args ''fzero_initialized_in_bss'' ''fno_zero_initialized_in_bss'' True ''-mno-zero-initialized-in-bss'',
     add_if (\<not> strict_aliasing E Args) [''-relaxed-aliasing''],
     flag_off Args ''fstruct_path_tbaa'' ''fno_struct_path_tbaa'' True ''-no-struct-path-tbaa'',
     flag_on Args ''fstrict_enums'' ''fno_strict_enums'' False ''-fstrict-enums'',
     flag_off Args ''fstrict_return'' ''fno_strict_return'' True ''-fno-strict-return'',
     flag_on Args ''fstrict_vtable_pointers'' ''fno_strict_vtable_pointers'' False ''-fstrict-vtable-pointers'',
     flag_off Args ''foptimize_sibling_calls'' ''fno_optimize_sibling_calls'' True ''-mdisable-tail-calls'',
     add_if (hasArg Args [Link OPT_fsplit_stack]) [''-split-stacks'']])"

definition unwind_tables :: "sanitizers \<Rightarrow> sanitizer_args \<Rightarrow> cc_env \<Rightarrow> ArgList \<Rightarrow> bool" where
  "unwind_tables K m E Args =
     flag Args ''funwind_tables'' ''fno_unwind_tables''
       (flag Args ''fasynchronous_unwind_tables'' ''fno_asynchronous_unwind_tables''
         ((cc_ask E IsUnwindTablesDefault \<or> needsUnwindTables K m) \<and> \<not> KernelOrKext Args))"

definition assembly_steps :: "sanitizers \<Rightarrow> sanitizer_args \<Rightarrow> cc_env \<Rightarrow> ToolChain \<Rightarrow> ArgList \<Rightarrow> step" where
  "assembly_steps K m E TC Args = (let T = tc_Triple TC in steps [
     add_if (flag Args ''fverbose_asm'' ''fno_verbose_asm'' (cc_ask E IsIntegratedAssemblerDefault) \<or> has_opt Args ''dA'')
       [''-masm-verbose''],
     flag_off Args ''fintegrated_as'' ''fno_integrated_as'' (cc_ask E IsIntegratedAssemblerDefault) ''-no-integrated-as'',
     add_if (has_opt Args ''fdebug_pass_structure'') [''-mdebug-pass'', ''Structure''],
     add_if (has_opt Args ''fdebug_pass_arguments'') [''-mdebug-pass'', ''Arguments''],
     add_if (\<not> t_isOSDarwin T \<and> \<not> t_isNVPTX T) [''-mconstructor-aliases''],
     add_if (KernelOrKext Args \<and> t_isOSDarwin T) [''-fforbid-guard-variables''],
     flag_on Args ''mms_bitfields'' ''mno_ms_bitfields'' False ''-mms-bitfields'',
     flag_on Args ''mpie_copy_relocations'' ''mno_pie_copy_relocations'' False ''-mpie-copy-relocations'',
     add_if (unwind_tables K m E Args) [''-munwind-tables''],
     add (cc_list E TargetOptions),
     flag_value Args [CC ''flimited_precision_EQ''] ''-mlimit-float-precision'',
     flag_value Args [Pic OPT_mcmodel_EQ] ''-mcode-model''])"

subsection \<open>Sections and instrumentation\<close>

definition xray_supported :: "Triple \<Rightarrow> bool" where
  "xray_supported ET \<longleftrightarrow> t_OS ET = OS_Linux \<and> t_Arch ET \<in> {Arch_x86_64, Arch_arm, Arch_aarch64}"

definition xray_steps :: "Triple \<Rightarrow> ArgList \<Rightarrow> step" where
  "xray_steps ET Args =
     step_if (hasFlag Args (Tool OPT_fxray_instrument) (Tool OPT_fnoxray_instrument) False) (steps [
       diag_if (\<not> xray_supported ET) (err_drv_clang_unsupported
         (if t_OS ET = OS_Linux then ''-fxray-instrument on '' @ t_str ET else ''-fxray-instrument on non-Linux target OS'')),
       add [''-fxray-instrument''],
       flag_value Args [CC ''fxray_instruction_threshold_'', CC ''fxray_instruction_threshold_EQ'']
         ''-fxray-instruction-threshold''])"

definition section_steps :: "cc_env \<Rightarrow> Triple \<Rightarrow> ArgList \<Rightarrow> step" where
  "section_steps E ET Args = steps [
     add_if (hasFlag Args (Link OPT_ffunction_sections) (Link OPT_fno_function_sections) (isUseSeparateSections ET))
       [''-ffunction-sections''],
     add_if (hasFlag Args (Link OPT_fdata_sections) (Link OPT_fno_data_sections) (isUseSeparateSections ET))
       [''-fdata-sections''],
     flag_off Args ''funique_section_names'' ''fno_unique_section_names'' True ''-fno-unique-section-names'',
     all_args E [CC ''finstrument_functions''],
     xray_steps ET Args]"

subsection \<open>The stack\<close>

text \<open>The levels of \<open>LangOptions\<close>: 0 for off, 1 for on, 2 for strong, 3 for required.\<close>

definition StackProtectorLevel :: "cc_env \<Rightarrow> Triple \<Rightarrow> ArgList \<Rightarrow> bool \<Rightarrow> nat" where
  "StackProtectorLevel E ET Args IsHosted =
     (let Default = cc_StackProtector E (KernelOrKext Args)
      in case getLastArg Args [CC ''fno_stack_protector'', CC ''fstack_protector_all'', CC ''fstack_protector_strong'',
             CC ''fstack_protector''] of
           Some A \<Rightarrow>
             if a_opt A = CC ''fstack_protector'' then max 1 Default
             else if a_opt A = CC ''fstack_protector_strong'' then 2
             else if a_opt A = CC ''fstack_protector_all'' then 3
             else 0
         | None \<Rightarrow> if t_isOSDarwin ET \<and> \<not> IsHosted then 0 else Default)"

definition ssp_buffer :: "nat \<Rightarrow> Arg \<Rightarrow> step" where
  "ssp_buffer Level A = with_value A (\<lambda>Str.
     case after ''ssp-buffer-size='' Str of
       None \<Rightarrow> add []
     | Some sz \<Rightarrow> steps [add_if (Level > 0) [''-stack-protector-buffer-size'', sz], claims [A]])"

definition last_value :: "ArgList \<Rightarrow> string \<Rightarrow> string res" where
  "last_value Args n = value_or (getLastArg Args [CC n]) []"

definition stack_steps :: "cc_env \<Rightarrow> Triple \<Rightarrow> ArgList \<Rightarrow> bool \<Rightarrow> step" where
  "stack_steps E ET Args IsHosted = (let Level = StackProtectorLevel E ET Args IsHosted in steps [
     add_if (Level > 0) [''-stack-protector'', show_nat Level],
     for_each (ssp_buffer Level) (filtered [CC ''_param''] Args),
     flag_on Args ''mstackrealign'' ''mno_stackrealign'' False ''-mstackrealign'',
     step_if (has_opt Args ''mstack_alignment'')
       (\<lambda>r. bnd (last_value Args ''mstack_alignment'') (\<lambda>v. add [''-mstack-alignment='' @ v] r)),
     step_if (has_opt Args ''mstack_probe_size'')
       (\<lambda>r. bnd (last_value Args ''mstack_probe_size'') (\<lambda>v.
         add [if v \<noteq> [] then ''-mstack-probe-size='' @ v else ''-mstack-probe-size=0''] r))])"

definition half_arguments :: "Triple \<Rightarrow> bool" where
  "half_arguments T \<longleftrightarrow> t_Arch T \<in> arm_archs \<or> t_Arch T = Arch_aarch64 \<or> t_Arch T = Arch_aarch64_be"

definition restrict_it :: "Triple \<Rightarrow> ArgList \<Rightarrow> string list" where
  "restrict_it ET Args =
     (case getLastArg Args [CC ''mrestrict_it'', CC ''mno_restrict_it''] of
        Some A \<Rightarrow> [''-backend-option'', if a_opt A = CC ''mrestrict_it'' then ''-arm-restrict-it'' else ''-arm-no-restrict-it'']
      | None \<Rightarrow> if windows_on_arm ET then [''-backend-option'', ''-arm-restrict-it''] else [])"

text \<open>The options of OpenCL that are passed on, around \<open>-cl-std=\<close>.\<close>

definition opencl_steps :: "ArgList \<Rightarrow> step" where
  "opencl_steps Args = steps [
     given Args ''cl_opt_disable'' ''-cl-opt-disable'',
     given Args ''cl_strict_aliasing'' ''-cl-strict-aliasing'',
     given Args ''cl_single_precision_constant'' ''-cl-single-precision-constant'',
     given Args ''cl_finite_math_only'' ''-cl-finite-math-only'',
     given Args ''cl_kernel_arg_info'' ''-cl-kernel-arg-info'',
     given Args ''cl_unsafe_math_optimizations'' ''-cl-unsafe-math-optimizations'',
     given Args ''cl_fast_relaxed_math'' ''-cl-fast-relaxed-math'',
     given Args ''cl_mad_enable'' ''-cl-mad-enable'',
     given Args ''cl_no_signed_zeros'' ''-cl-no-signed-zeros'',
     joined_value Args [CC ''cl_std_EQ''] ''-cl-std='',
     given Args ''cl_denorms_are_zero'' ''-cl-denorms-are-zero'',
     given Args ''cl_fp32_correctly_rounded_divide_sqrt'' ''-cl-fp32-correctly-rounded-divide-sqrt'']"

definition machine_steps :: "cc_env \<Rightarrow> ToolChain \<Rightarrow> ArgList \<Rightarrow> bool \<Rightarrow> step" where
  "machine_steps E TC Args IsHosted = steps [
     stack_steps E (tc_EffectiveTriple TC) Args IsHosted,
     add_if (half_arguments (tc_Triple TC)) [''-fallow-half-arguments-and-returns''],
     add (restrict_it (tc_EffectiveTriple TC) Args),
     opencl_steps Args,
     with_last Args [Link OPT_fprofile_sample_use_EQ] (\<lambda>A. with_value A (\<lambda>fname.
       if \<not> tc_exists TC fname then diag_if True (err_drv_no_such_file fname) else render E A))]"

text \<open>The vectorisers: a level of optimisation that wants them counts as their positive option.\<close>

definition vectorize :: "cc_env \<Rightarrow> ArgList \<Rightarrow> bool \<Rightarrow> string \<Rightarrow> string \<Rightarrow> string \<Rightarrow> step" where
  "vectorize E Args isSlpVec Pos Neg F r =
     bnd (shouldEnableVectorizerAtOLevel E Args isSlpVec) (\<lambda>Enable.
       add_if (hasFlagAlias Args (CC Pos) (if Enable then Tool OPT_O_Group else CC Pos) (CC Neg) Enable) [F] r)"

end
