(* ===== verification/ProfileArgs.thy ===== *)
theory ProfileArgs
  imports CompileSteps
begin

text \<open>
  Options for profiles and coverage (\<open>Tools.cpp\<close>, \<open>addPGOAndCoverageFlags\<close> and its neighbours). \<open>CArgs\<close> are
  the arguments of the compilation before the tool chain translates them. Paths are joined and their extensions
  replaced by the functions of the tool chain and the job.
\<close>

subsection \<open>Which profile\<close>

text \<open>The last of some options, unless it is the negative one.\<close>

definition last_but :: "ArgList \<Rightarrow> string list \<Rightarrow> string \<Rightarrow> Arg option" where
  "last_but Args Pos Neg =
     (case getLastArg Args (map CC Pos @ [CC Neg]) of
        None \<Rightarrow> None
      | Some A \<Rightarrow> if a_opt A = CC Neg then None else Some A)"

definition getLastProfileUseArg :: "ArgList \<Rightarrow> Arg option" where
  "getLastProfileUseArg Args =
     last_but Args [''fprofile_instr_use'', ''fprofile_instr_use_EQ'', ''fprofile_use'', ''fprofile_use_EQ''] ''fno_profile_instr_use''"

definition PGOGenerateArg :: "ArgList \<Rightarrow> Arg option" where
  "PGOGenerateArg Args = last_but Args [''fprofile_generate'', ''fprofile_generate_EQ''] ''fno_profile_generate''"

definition ProfileGenerateArg :: "ArgList \<Rightarrow> Arg option" where
  "ProfileGenerateArg Args =
     last_but Args [''fprofile_instr_generate'', ''fprofile_instr_generate_EQ''] ''fno_profile_instr_generate''"

definition conflict :: "Arg option \<Rightarrow> Arg option \<Rightarrow> step" where
  "conflict A B = (case (A, B) of
       (Some A, Some B) \<Rightarrow> diag_if True (err_drv_argument_not_allowed_with (a_spelling A) (a_spelling B))
     | _ \<Rightarrow> add [])"

definition profile_generate :: "Arg option \<Rightarrow> step" where
  "profile_generate A = (case A of
       None \<Rightarrow> add []
     | Some A \<Rightarrow> steps [
         if a_opt A = CC ''fprofile_instr_generate_EQ''
         then with_value A (\<lambda>v. add [''-fprofile-instrument-path='' @ v]) else add [],
         add [''-fprofile-instrument=clang'']])"

definition pgo_generate :: "ToolChain \<Rightarrow> Arg option \<Rightarrow> step" where
  "pgo_generate TC A = (case A of
       None \<Rightarrow> add []
     | Some A \<Rightarrow> steps [
         add [''-fprofile-instrument=llvm''],
         if a_opt A = CC ''fprofile_generate_EQ''
         then with_value A (\<lambda>v. add [''-fprofile-instrument-path='' @ tc_path_append TC v ''default_%m.profraw'']) else add []])"

definition profile_use :: "cc_env \<Rightarrow> ToolChain \<Rightarrow> Arg option \<Rightarrow> step" where
  "profile_use E TC A = (case A of
       None \<Rightarrow> add []
     | Some A \<Rightarrow>
         if a_opt A = CC ''fprofile_instr_use_EQ'' then
           with_value A (\<lambda>v. add [''-fprofile-instrument-use-path='' @ v])
         else if a_opt A = CC ''fprofile_use_EQ'' \<or> a_opt A = CC ''fprofile_instr_use'' then
           (let Path = (case a_values A of [] \<Rightarrow> [] | v # vs \<Rightarrow> v)
            in add [''-fprofile-instrument-use-path='' @
                 (if Path = [] \<or> cc_is_directory E Path then tc_path_append TC Path ''default.profdata'' else Path)])
         else add [])"

subsection \<open>Coverage\<close>

definition wants_coverage :: "ArgList \<Rightarrow> bool" where
  "wants_coverage Args \<longleftrightarrow> has_opt Args ''fprofile_arcs'' \<or> has_opt Args ''coverage''"

definition absolute_in :: "cc_env \<Rightarrow> ToolChain \<Rightarrow> string \<Rightarrow> string" where
  "absolute_in E TC F =
     (if cc_is_relative E F then (case j_current_path (cc_job E) of None \<Rightarrow> F | Some Pwd \<Rightarrow> tc_path_append TC Pwd F) else F)"

definition coverage_files :: "cc_env \<Rightarrow> ToolChain \<Rightarrow> ArgList \<Rightarrow> ArgList \<Rightarrow> step" where
  "coverage_files E TC Args CArgs =
     step_if ((hasArg CArgs [Job OPT_c] \<or> hasArg CArgs [Job OPT_S]) \<and> cc_OutputFile E \<noteq> None) (\<lambda>r.
       bnd (value_or (getLastArg CArgs [Job OPT_o]) (cc_text E OutputBaseName)) (\<lambda>OutputFilename.
         let notes = j_replace_extension (cc_job E) (absolute_in E TC OutputFilename) ''gcno''
         in steps [
           add [''-coverage-notes-file'', notes],
           step_if (wants_coverage Args) (\<lambda>r.
             bnd (case getLastArg Args [CC ''fprofile_dir''] of
                    None \<Rightarrow> Inr notes
                  | Some FProfileDir \<Rightarrow> bnd (getValue FProfileDir) (\<lambda>v. Inr (tc_path_append TC v OutputFilename))) (\<lambda>F.
               add [''-coverage-data-file'', j_replace_extension (cc_job E) F ''gcda''] r))] r))"

definition addPGOAndCoverageFlags :: "cc_env \<Rightarrow> ToolChain \<Rightarrow> ArgList \<Rightarrow> ArgList \<Rightarrow> step" where
  "addPGOAndCoverageFlags E TC Args CArgs =
     (let PGO = PGOGenerateArg Args; Gen = ProfileGenerateArg Args; Use = getLastProfileUseArg Args;
          mapping = flag Args ''fcoverage_mapping'' ''fno_coverage_mapping'' False
      in steps [
        conflict PGO Gen, conflict Use PGO, conflict Gen Use,
        profile_generate Gen, pgo_generate TC PGO, profile_use E TC Use,
        add_if (has_opt Args ''ftest_coverage'' \<or> has_opt Args ''coverage'') [''-femit-coverage-notes''],
        add_if (flag Args ''fprofile_arcs'' ''fno_profile_arcs'' False \<or> has_opt Args ''coverage'') [''-femit-coverage-data''],
        diag_if (mapping \<and> Gen = None) (err_drv_argument_only_allowed_with ''-fcoverage-mapping'' ''-fprofile-instr-generate''),
        add_if mapping [''-fcoverage-mapping''],
        coverage_files E TC Args CArgs])"

definition addPS4ProfileRTArgs :: "ArgList \<Rightarrow> string list" where
  "addPS4ProfileRTArgs Args =
     (if flag Args ''fprofile_arcs'' ''fno_profile_arcs'' False \<or>
         flag Args ''fprofile_generate'' ''fno_profile_instr_generate'' False \<or>
         flag Args ''fprofile_generate_EQ'' ''fno_profile_instr_generate'' False \<or>
         flag Args ''fprofile_instr_generate'' ''fno_profile_instr_generate'' False \<or>
         flag Args ''fprofile_instr_generate_EQ'' ''fno_profile_instr_generate'' False \<or>
         has_opt Args ''fcreate_profile'' \<or> has_opt Args ''coverage''
      then [''--dependent-lib=libclang_rt.profile-x86_64.a''] else [])"

end
