(* ===== verification/FrontendArgs.thy ===== *)
theory FrontendArgs
  imports CodeGenArgs ProfileArgs
begin

text \<open>
  Options of the front end (\<open>Tools.cpp\<close>, in \<open>Clang::ConstructJob\<close>): header search, migration of Objective-C,
  optimisation levels, warnings, language standards, limits, visibility, OpenMP.
\<close>

subsection \<open>Headers and migration\<close>

definition header_steps :: "cc_env \<Rightarrow> ArgList \<Rightarrow> step" where
  "header_steps E Args = steps [
     (if has_opt Args ''nostdinc'' then add [''-nostdsysteminc'', ''-nobuiltininc'']
      else steps [given Args ''nostdlibinc'' ''-nostdsysteminc'', last_arg E Args [CC ''nostdincxx''],
        last_arg E Args [CC ''nobuiltininc'']]),
     add [''-resource-dir'', cc_text E ResourceDir],
     last_arg E Args [CC ''working_directory'']]"

text \<open>The migration to ARC; the option given is none when \<open>-fobjc-arc\<close> or its negation is.\<close>

definition arcmt_arg :: "ArgList \<Rightarrow> Arg option" where
  "arcmt_arg Args =
     (if hasArg Args [CC ''fno_objc_arc'', CC ''fobjc_arc''] then None
      else getLastArg Args [CC ''ccc_arcmt_check'', CC ''ccc_arcmt_modify'', CC ''ccc_arcmt_migrate''])"

definition arcmt_steps :: "cc_env \<Rightarrow> ArgList \<Rightarrow> step" where
  "arcmt_steps E Args =
     (if hasArg Args [CC ''fno_objc_arc'', CC ''fobjc_arc''] then
        claim_args E [CC ''ccc_arcmt_check'', CC ''ccc_arcmt_modify'', CC ''ccc_arcmt_migrate'']
      else case arcmt_arg Args of
          None \<Rightarrow> add []
        | Some A \<Rightarrow>
            if a_opt A = CC ''ccc_arcmt_check'' then add [''-arcmt-check'']
            else if a_opt A = CC ''ccc_arcmt_modify'' then add [''-arcmt-modify'']
            else if a_opt A = CC ''ccc_arcmt_migrate'' then steps [
              with_value A (\<lambda>v. add [''-arcmt-migrate'', ''-mt-migrate-directory'', v]),
              last_arg E Args [CC ''arcmt_migrate_report_output''],
              last_arg E Args [CC ''arcmt_migrate_emit_arc_errors'']]
            else fail)"

definition each_last :: "cc_env \<Rightarrow> ArgList \<Rightarrow> string list \<Rightarrow> step" where
  "each_last E Args ns = add (concat (map (\<lambda>n. AddLastArg (cc_job E) Args [CC n]) ns))"

definition objcmt_steps :: "cc_env \<Rightarrow> ArgList \<Rightarrow> step" where
  "objcmt_steps E Args =
     (let three = [''objcmt_migrate_literals'', ''objcmt_migrate_subscripting'', ''objcmt_migrate_property'']
      in case getLastArg Args [CC ''ccc_objcmt_migrate''] of
           Some A \<Rightarrow> steps [
             diag_if (arcmt_arg Args \<noteq> None) (err_drv_argument_not_allowed_with (a_string A) ''-ccc-arcmt-migrate''),
             with_value A (\<lambda>v. add [''-mt-migrate-directory'', v]),
             (if \<not> hasArg Args (map CC three) then
                add [''-objcmt-migrate-literals'', ''-objcmt-migrate-subscripting'', ''-objcmt-migrate-property'']
              else each_last E Args three)]
         | None \<Rightarrow> each_last E Args (three @ [''objcmt_migrate_all'', ''objcmt_migrate_readonly_property'',
             ''objcmt_migrate_readwrite_property'', ''objcmt_migrate_property_dot_syntax'', ''objcmt_migrate_annotation'',
             ''objcmt_migrate_instancetype'', ''objcmt_migrate_nsmacros'', ''objcmt_migrate_protocol_conformance'',
             ''objcmt_atomic_property'', ''objcmt_returns_innerpointer_property'', ''objcmt_ns_nonatomic_iosonly'',
             ''objcmt_migrate_designated_init'', ''objcmt_whitelist_dir_path'']))"

subsection \<open>Optimisation and warnings\<close>

definition optimisation_steps :: "cc_env \<Rightarrow> ArgList \<Rightarrow> step" where
  "optimisation_steps E Args = steps [
     with_last Args [Tool OPT_O_Group] (\<lambda>A.
       if a_opt A = Link OPT_O4 then steps [add [''-O3''], diag_if True (Compile warn_O4_is_O3)] else render E A),
     for_each (\<lambda>A. steps [diag_if True (Compile (warn_ignored_gcc_optimization (a_string A))), claims [A]])
       (j_matching (cc_job E) (CC ''clang_ignored_gcc_optimization_f_Group'')),
     \<lambda>(CmdArgs, D). Inr (CmdArgs, claimNoWarnArgs (cc_job E) D),
     all_args E [CC ''R_Group''],
     all_args E [Asm OPT_W_Group],
     flag_on Args ''pedantic'' ''no_pedantic'' False ''-pedantic'',
     last_arg E Args [CC ''pedantic_errors''],
     last_arg E Args [Link OPT_w]]"

subsection \<open>The language standard\<close>

text \<open>Without \<open>-std\<close> and \<open>-ansi\<close> a C++ file for MSVC gets the standard that \<open>/std\<close> names, later in the job.\<close>

definition ImplyVCPPCXXVer :: "cc_env \<Rightarrow> ArgList \<Rightarrow> bool" where
  "ImplyVCPPCXXVer E Args \<longleftrightarrow>
     getLastArg Args [CC ''std_EQ'', CC ''ansi''] = None \<and> cc_ask E IsCXX \<and> WindowsMSVC E"

text \<open>The values of \<open>-std-default=\<close> become \<open>-std=\<close>.\<close>

definition standard_steps :: "cc_env \<Rightarrow> ArgList \<Rightarrow> step" where
  "standard_steps E Args =
     (case getLastArg Args [CC ''std_EQ'', CC ''ansi''] of
        Some Std \<Rightarrow> steps [
          (if a_opt Std = CC ''ansi'' then add [if cc_ask E IsCXX then ''-std=c++98'' else ''-std=c89''] else render E Std),
          with_last Args [CC ''std_EQ'', CC ''ansi'', CC ''ftrigraphs'', CC ''fno_trigraphs''] (\<lambda>A.
            if A \<noteq> Std then render E A else add [])]
      | None \<Rightarrow> steps [
          step_if (\<not> cc_ask E IsCXX)
            (add (map (\<lambda>v. ''-std='' @ v) (j_AllArgValues (cc_job E) [CC ''std_default_EQ'']))),
          last_arg E Args [CC ''ftrigraphs'', CC ''fno_trigraphs'']])"

definition language_steps :: "cc_env \<Rightarrow> ToolChain \<Rightarrow> ArgList \<Rightarrow> step" where
  "language_steps E TC Args = steps [
     standard_steps E Args,
     add_if (\<not> cc_ask E IsCXX \<and> last_is Args [CC ''Wwrite_strings'', CC ''Wno_write_strings'', Link OPT_w] (CC ''Wwrite_strings''))
       [''-fconst-strings''],
     add_if (cc_ask E IsCXX \<and> flag Args ''Wdeprecated'' ''Wno_deprecated'' True) [''-fdeprecated-macro''],
     with_last Args [CC ''fasm'', CC ''fno_asm''] (\<lambda>A.
       add [if a_opt A = CC ''fasm'' then ''-fgnu-keywords'' else ''-fno-gnu-keywords'']),
     add_if (ShouldDisableDwarfDirectory E Args) [''-fno-dwarf-directory-asm''],
     add_if (ShouldDisableAutolink E TC Args) [''-fno-autolink''],
     add (addDebugCompDirArg (cc_job E))]"

subsection \<open>Limits\<close>

text \<open>\<open>OLD=NEW\<close>, or a diagnostic; claimed either way.\<close>

definition prefix_map :: "Arg \<Rightarrow> step" where
  "prefix_map A = steps [
     with_value A (\<lambda>Map.
       if CHR ''='' \<notin> set Map then diag_if True (Compile (err_drv_invalid_argument_to_fdebug_prefix_map Map))
       else add [''-fdebug-prefix-map='' @ Map]),
     claims [A]]"

definition by_value_copy :: "ArgList \<Rightarrow> step" where
  "by_value_copy Args = with_last Args [CC ''Wlarge_by_value_copy_EQ'', CC ''Wlarge_by_value_copy_def''] (\<lambda>A.
     if a_values A \<noteq> [] then with_value A (\<lambda>bytes. add [''-Wlarge-by-value-copy='' @ bytes])
     else add [''-Wlarge-by-value-copy=64''])"

definition limit_steps :: "cc_env \<Rightarrow> ArgList \<Rightarrow> step" where
  "limit_steps E Args = steps [
     for_each prefix_map (filtered [CC ''fdebug_prefix_map_EQ''] Args),
     flag_value Args [CC ''ftemplate_depth_'', CC ''ftemplate_depth_EQ''] ''-ftemplate-depth'',
     flag_value Args [CC ''foperator_arrow_depth_EQ''] ''-foperator-arrow-depth'',
     flag_value Args [CC ''fconstexpr_depth_EQ''] ''-fconstexpr-depth'',
     flag_value Args [CC ''fconstexpr_steps_EQ''] ''-fconstexpr-steps'',
     flag_value Args [CC ''fbracket_depth_EQ''] ''-fbracket-depth'',
     by_value_copy Args,
     given Args ''relocatable_pch'' ''-relocatable-pch'',
     flag_value Args [CC ''fconstant_string_class_EQ''] ''-fconstant-string-class'',
     flag_value Args [CC ''ftabstop_EQ''] ''-ftabstop'',
     add [''-ferror-limit''],
     \<lambda>r. bnd (value_or (getLastArg Args [CC ''ferror_limit_EQ'']) ''19'') (\<lambda>v. add [v] r),
     flag_value Args [CC ''fmacro_backtrace_limit_EQ''] ''-fmacro-backtrace-limit'',
     flag_value Args [CC ''ftemplate_backtrace_limit_EQ''] ''-ftemplate-backtrace-limit'',
     flag_value Args [CC ''fconstexpr_backtrace_limit_EQ''] ''-fconstexpr-backtrace-limit'',
     flag_value Args [CC ''fspell_checking_limit_EQ''] ''-fspell-checking-limit'',
     add [''-fmessage-length''],
     \<lambda>r. bnd (value_or (getLastArg Args [CC ''fmessage_length_EQ'']) (cc_text E ErrorColumns)) (\<lambda>v. add [v] r)]"

subsection \<open>Visibility and forwarded flags\<close>

definition visibility :: "ArgList \<Rightarrow> step" where
  "visibility Args = with_last Args [OPT_fvisibility_EQ, Tgt OPT_fvisibility_ms_compat] (\<lambda>A.
     if a_opt A = OPT_fvisibility_EQ then with_value A (\<lambda>v. add [''-fvisibility'', v])
     else steps [assert (a_opt A = Tgt OPT_fvisibility_ms_compat),
       add [''-fvisibility'', ''hidden'', ''-ftype-visibility'', ''default'']])"

definition IsHosted :: "ArgList \<Rightarrow> bool" where
  "IsHosted Args \<longleftrightarrow> \<not> (flag Args ''ffreestanding'' ''fhosted'' False \<or> KernelOrKext Args)"

definition forward_steps :: "cc_env \<Rightarrow> ToolChain \<Rightarrow> ArgList \<Rightarrow> step" where
  "forward_steps E TC Args = (let ET = tc_EffectiveTriple TC in steps [
     visibility Args,
     last_arg E Args [CC ''fvisibility_inlines_hidden''],
     last_arg E Args [CC ''ftlsmodel_EQ''],
     add_if (\<not> IsHosted Args) [''-ffreestanding''],
     each_last E Args [''femit_all_decls'', ''fheinous_gnu_extensions'', ''fno_operator_names''],
     flag_on Args ''femulated_tls'' ''fno_emulated_tls'' (t_isAndroid ET \<or> cc_is E EffectiveCygwin) ''-femulated-tls'',
     step_if (cc_JA E \<noteq> PreprocessJob \<or> cc_OutputType E \<noteq> T_PP_Asm)
       (steps [last_arg E Args [Tgt OPT_faltivec], last_arg E Args [CC ''fzvector'']]),
     each_last E Args [''fdiagnostics_show_template_tree'', ''fno_elide_type'']])"

subsection \<open>OpenMP\<close>

text \<open>\<open>OpenMPCodeGenRuntime\<close> says that the runtime is one of the two for which Clang can generate code.\<close>

definition openmp_steps :: "cc_env \<Rightarrow> ArgList \<Rightarrow> step" where
  "openmp_steps E Args =
     step_if (hasFlagAlias Args (Link OPT_fopenmp) (Link OPT_fopenmp_EQ) (Link OPT_fno_openmp) False \<and>
         (cc_is E DeviceOffload_None \<or> cc_is E DeviceOffload_OpenMP) \<and> cc_ask E OpenMPCodeGenRuntime)
       (steps [add [''-fopenmp''], flag_off Args ''fopenmp_use_tls'' ''fnoopenmp_use_tls'' True ''-fnoopenmp-use-tls'',
         all_args E [CC ''fopenmp_version_EQ'']])"

text \<open>Vectors: AltiVec is for PowerPC only and excludes the vectors of SystemZ.\<close>

definition altivec_steps :: "ToolChain \<Rightarrow> ArgList \<Rightarrow> step" where
  "altivec_steps TC Args = steps [
     with_last Args [Tgt OPT_faltivec] (\<lambda>A.
       diag_if (t_Arch (tc_Triple TC) \<notin> {Arch_ppc, Arch_ppc64, Arch_ppc64le})
         (err_drv_argument_only_allowed_with (a_string A) ''ppc/ppc64/ppc64le'')),
     with_last Args [CC ''fzvector''] (\<lambda>A.
       diag_if (hasArg Args [Tgt OPT_faltivec]) (err_drv_argument_not_allowed_with (a_string A) ''-faltivec''))]"

text \<open>Overflow: an explicit \<open>-fwrapv\<close> wins over \<open>-fstrict-overflow\<close> and its negation.\<close>

definition wraps :: "ArgList \<Rightarrow> bool" where
  "wraps Args =
     (case getLastArg Args [CC ''fwrapv'', CC ''fno_wrapv''] of
        Some A \<Rightarrow> a_opt A = CC ''fwrapv''
      | None \<Rightarrow> last_is Args [CC ''fstrict_overflow'', CC ''fno_strict_overflow''] (CC ''fno_strict_overflow''))"

definition trap_steps :: "cc_env \<Rightarrow> ArgList \<Rightarrow> step" where
  "trap_steps E Args = steps [
     step_if (cc_ask E SupportsProfiling) (last_arg E Args [Tool OPT_pg]),
     flag_off Args ''flax_vector_conversions'' ''fno_lax_vector_conversions'' True ''-fno-lax-vector-conversions'',
     add_if (getLastArg Args [Tool OPT_fapple_kext] \<noteq> None \<or> hasArg Args [Tool OPT_mkernel] \<and> cc_ask E IsCXX) [''-fapple-kext''],
     each_last E Args [''fobjc_sender_dependent_dispatch'', ''fdiagnostics_print_source_range_info'',
       ''fdiagnostics_parseable_fixits'', ''ftime_report'', ''ftrapv''],
     flag_value Args [CC ''ftrapv_handler_EQ''] ''-ftrapv-handler'',
     last_arg E Args [CC ''ftrap_function_EQ''],
     add_if (wraps Args) [''-fwrapv''],
     add_if (last_is Args [CC ''freroll_loops'', CC ''fno_reroll_loops''] (CC ''freroll_loops'')) [''-freroll-loops''],
     last_arg E Args [CC ''fwritable_strings''],
     last_arg E Args [CC ''funroll_loops'', CC ''fno_unroll_loops''],
     last_arg E Args [Link OPT_pthread]]"

end
