(* ===== verification/ModuleArgs.thy ===== *)
theory ModuleArgs
  imports FrontendArgs
begin

text \<open>
  Built-in functions, blocks and modules (\<open>Tools.cpp\<close>, in \<open>Clang::ConstructJob\<close>). The temporary files that a
  crash report adds to the compilation are not modelled.
\<close>

subsection \<open>Built-in functions and blocks\<close>

text \<open>What the code passes on, and what it takes into account for \<open>-fno-builtin-NAME\<close>.\<close>

definition builtins_on :: "ArgList \<Rightarrow> bool" where
  "builtins_on Args = flag Args ''fbuiltin'' ''fno_builtin'' (\<not> hasArg Args [Tool OPT_mkernel])"

definition UseBuiltins :: "ArgList \<Rightarrow> bool" where
  "UseBuiltins Args \<longleftrightarrow> builtins_on Args \<and> \<not> has_opt Args ''ffreestanding''"

definition builtin_steps :: "ArgList \<Rightarrow> step" where
  "builtin_steps Args = steps [
     add_if (\<not> builtins_on Args) [''-fno-builtin''],
     for_each (\<lambda>A. steps [claims [A],
         if \<not> UseBuiltins Args then add [] else with_value A (\<lambda>FuncName. add [''-fno-builtin-'' @ FuncName])])
       (filtered [CC ''fno_builtin_''] Args),
     flag_off Args ''fassume_sane_operator_new'' ''fno_assume_sane_operator_new'' True ''-fno-assume-sane-operator-new'']"

definition blocks_steps :: "cc_env \<Rightarrow> ArgList \<Rightarrow> step" where
  "blocks_steps E Args = steps [
     add_if (flag Args ''fblocks'' ''fno_blocks'' (cc_ask E IsBlocksDefault) \<or>
         has_opt Args ''fgnu_runtime'' \<and> has_opt Args ''fobjc_nonfragile_abi'' \<and> \<not> has_opt Args ''fno_blocks'')
       (''-fblocks'' # (if \<not> has_opt Args ''fgnu_runtime'' \<and> \<not> cc_ask E HasBlocksRuntime then [''-fblocks-runtime-optional''] else [])),
     add_if (flag Args ''fcoroutines_ts'' ''fno_coroutines_ts'' False \<and> cc_ask E IsCXX) [''-fcoroutines-ts'']]"

subsection \<open>Modules\<close>

definition HaveClangModules :: "cc_env \<Rightarrow> ArgList \<Rightarrow> bool" where
  "HaveClangModules E Args \<longleftrightarrow>
     flag Args ''fmodules'' ''fno_modules'' False \<and>
     (flag Args ''fcxx_modules'' ''fno_cxx_modules'' True \<or> \<not> cc_ask E IsCXX)"

definition HaveAnyModules :: "cc_env \<Rightarrow> ArgList \<Rightarrow> bool" where
  "HaveAnyModules E Args \<longleftrightarrow> HaveClangModules E Args \<or> has_opt Args ''fmodules_ts''"

definition output_name :: "cc_env \<Rightarrow> string res" where
  "output_name E = (case cc_OutputFile E of None \<Rightarrow> Inl Unreachable | Some F \<Rightarrow> Inr F)"

definition crash_dir :: "cc_env \<Rightarrow> ToolChain \<Rightarrow> string \<Rightarrow> string res" where
  "crash_dir E TC name =
     bnd (output_name E) (\<lambda>F. Inr (tc_path_append TC (j_replace_extension (cc_job E) F ''.cache'') name))"

definition module_cache :: "cc_env \<Rightarrow> ToolChain \<Rightarrow> ArgList \<Rightarrow> string res" where
  "module_cache E TC Args =
     bnd (value_or (getLastArg Args [CC ''fmodules_cache_path'']) []) (\<lambda>Path.
       if cc_ask E IsForDiagnostics then crash_dir E TC ''modules''
       else if Path = [] then
         Inr (tc_path_append TC (appendUserToPath (cc_Username E) (cc_uid E)
           (tc_path_append TC (cc_text E TempDirectory) ''org.llvm.clang.'')) ''ModuleCache'')
       else Inr Path)"

text \<open>Modules are compiled implicitly, unless the user said no or there is no support for Clang's modules.\<close>

definition implicit_modules :: "cc_env \<Rightarrow> ArgList \<Rightarrow> bool" where
  "implicit_modules E Args = flag Args ''fimplicit_modules'' ''fno_implicit_modules'' (HaveClangModules E Args)"

definition module_kind_steps :: "cc_env \<Rightarrow> ToolChain \<Rightarrow> ArgList \<Rightarrow> step" where
  "module_kind_steps E TC Args = steps [
     add_if (HaveClangModules E Args) [''-fmodules''],
     given Args ''fmodules_ts'' ''-fmodules-ts'',
     flag_on Args ''fimplicit_module_maps'' ''fno_implicit_module_maps'' (HaveClangModules E Args) ''-fimplicit-module-maps'',
     flag_on Args ''fmodules_decluse'' ''fno_modules_decluse'' False ''-fmodules-decluse'',
     flag_on Args ''fmodules_strict_decluse'' ''fno_modules_strict_decluse'' False ''-fmodules-strict-decluse'',
     step_if (HaveAnyModules E Args)
       (if implicit_modules E Args
        then (\<lambda>r. bnd (module_cache E TC Args) (\<lambda>Path. add [''-fmodules-cache-path='' @ Path] r))
        else add [''-fno-implicit-modules''])]"

definition module_map_file :: "cc_env \<Rightarrow> ToolChain \<Rightarrow> string" where
  "module_map_file E TC = tc_path_append TC (tc_path_append TC (cc_text E ResourceDir) ''include'') ''module.modulemap''"

definition module_file_steps :: "cc_env \<Rightarrow> ToolChain \<Rightarrow> ArgList \<Rightarrow> step" where
  "module_file_steps E TC Args = steps [
     step_if (HaveAnyModules E Args)
       (for_each (\<lambda>A. with_value A (\<lambda>v. add [''-fprebuilt-module-path='' @ v])) (filtered [CC ''fprebuilt_module_path''] Args)),
     last_arg E Args [CC ''fmodule_name_EQ''],
     all_args E [CC ''fmodule_map_file''],
     add_if (has_opt Args ''fbuiltin_module_map'' \<and> tc_exists TC (module_map_file E TC))
       [''-fmodule-map-file='' @ module_map_file E TC],
     (if HaveAnyModules E Args then all_args E [CC ''fmodule_file''] else claim_args E [CC ''fmodule_file'']),
     step_if (HaveClangModules E Args \<and> cc_ask E IsForDiagnostics)
       (\<lambda>r. bnd (crash_dir E TC ''vfs'') (\<lambda>VFSDir. add [''-module-dependency-dir'', VFSDir] r)),
     step_if (HaveClangModules E Args) (last_arg E Args [CC ''fmodules_user_build_path'']),
     all_args E [CC ''fmodules_ignore_macro''],
     each_last E Args [''fmodules_prune_interval'', ''fmodules_prune_after'', ''fbuild_session_timestamp'']]"

text \<open>The time of the build session: the last change of the file, which is taken even when there is no file.\<close>

definition session_steps :: "cc_env \<Rightarrow> ToolChain \<Rightarrow> ArgList \<Rightarrow> step" where
  "session_steps E TC Args = steps [
     with_last Args [CC ''fbuild_session_file''] (\<lambda>A. steps [
       diag_if (has_opt Args ''fbuild_session_timestamp'')
         (err_drv_argument_not_allowed_with (a_string A) ''-fbuild-session-timestamp''),
       with_value A (\<lambda>v. diag_if (\<not> tc_exists TC v) (err_drv_no_such_file v)),
       add [''-fbuild-session-timestamp='' @ cc_text E SessionTime]]),
     step_if (getLastArg Args [CC ''fmodules_validate_once_per_build_session''] \<noteq> None) (steps [
       diag_if (getLastArg Args [CC ''fbuild_session_timestamp'', CC ''fbuild_session_file''] = None)
         (Compile err_drv_modules_validate_once_requires_timestamp),
       last_arg E Args [CC ''fmodules_validate_once_per_build_session'']]),
     each_last E Args [''fmodules_validate_system_headers'', ''fmodules_disable_diagnostic_validation'']]"

definition module_steps :: "cc_env \<Rightarrow> ToolChain \<Rightarrow> ArgList \<Rightarrow> step" where
  "module_steps E TC Args = steps [module_kind_steps E TC Args, module_file_steps E TC Args, session_steps E TC Args]"

subsection \<open>\<open>-fno-builtin-NAME\<close> is lost\<close>

text \<open>
  A command line that says \<open>-ffreestanding\<close> and then takes it back with \<open>-fhosted\<close> is neither compiled
  freestanding nor without the function that it names.
\<close>

lemma hosted_loses_no_builtin:
  assumes "has_opt Args ''ffreestanding''" and "builtins_on Args"
    and "flag Args ''fassume_sane_operator_new'' ''fno_assume_sane_operator_new'' True"
  shows "\<exists>D'. builtin_steps Args r = Inr (fst r, D')"
proof -
  have loop: "\<exists>D'. for_each (\<lambda>A. steps [claims [A],
      if \<not> UseBuiltins Args then add [] else with_value A (\<lambda>FuncName. add [''-fno-builtin-'' @ FuncName])]) As r = Inr (fst r, D')"
    for As r
  proof (induction As arbitrary: r)
    case (Cons A As)
    from Cons.IH [of "(fst r, claim A (snd r))"] assms(1) show ?case
      by (simp add: UseBuiltins_def claims_def add_def pushes_def split_def)
  qed (simp, metis prod.collapse)
  show ?thesis
    using loop [of "filtered [CC ''fno_builtin_''] Args" r] assms(2,3)
    by (elim exE) (simp add: builtin_steps_def add_if_def flag_off_def)
qed

end
