(* ===== verification/DialectArgs.thy ===== *)
theory DialectArgs
  imports ModuleArgs
begin

text \<open>
  Dialects (\<open>Tools.cpp\<close>, in \<open>Clang::ConstructJob\<close>): access control, RTTI, characters, the extensions of
  Microsoft's compiler, Objective-C, C++ options, alignment. Diagnostics that \<open>computeMSVCVersion\<close> and
  \<open>CheckObjCARC\<close> of the tool chain emit on their own are not part of the model.
\<close>

subsection \<open>C and C++\<close>

definition no_rtti :: "cc_env \<Rightarrow> ToolChain \<Rightarrow> ArgList \<Rightarrow> bool" where
  "no_rtti E TC Args \<longleftrightarrow>
     KernelOrKext Args \<or>
     cc_ask E IsCXX \<and> (tc_RTTIMode TC = RM_DisabledExplicitly \<or> tc_RTTIMode TC = RM_DisabledImplicitly)"

definition signed_char :: "Triple \<Rightarrow> ArgList \<Rightarrow> bool" where
  "signed_char T Args =
     (case getLastArg Args [CC ''fsigned_char'', CC ''fno_signed_char'', CC ''funsigned_char'', CC ''fno_unsigned_char''] of
        Some A \<Rightarrow> a_opt A \<noteq> CC ''funsigned_char'' \<and> a_opt A \<noteq> CC ''fno_signed_char''
      | None \<Rightarrow> isSignedCharDefault T)"

definition cxa_atexit_default :: "cc_env \<Rightarrow> Triple \<Rightarrow> bool" where
  "cxa_atexit_default E T \<longleftrightarrow>
     \<not> WindowsCygnus E \<and> \<not> WindowsGNU E \<and> \<not> cc_is E OSSolaris \<and> t_Arch T \<noteq> Arch_hexagon \<and> t_Arch T \<noteq> Arch_xcore \<and>
     (t_Vendor T \<noteq> Vendor_MipsTechnologies \<or> cc_is E HasEnvironment)"

definition character_steps :: "cc_env \<Rightarrow> ToolChain \<Rightarrow> ArgList \<Rightarrow> step" where
  "character_steps E TC Args = (let T = tc_Triple TC in steps [
     flag_on Args ''fno_access_control'' ''faccess_control'' False ''-fno-access-control'',
     flag_on Args ''fno_elide_constructors'' ''felide_constructors'' False ''-fno-elide-constructors'',
     add_if (no_rtti E TC Args) [''-fno-rtti''],
     add_if (hasFlag Args (CC ''fshort_enums'') (Tgt OPT_fno_short_enums) (t_Arch T = Arch_hexagon)) [''-fshort-enums''],
     add_if (\<not> signed_char T Args) [''-fno-signed-char''],
     add_if (\<not> flag Args ''fuse_cxa_atexit'' ''fno_use_cxa_atexit'' (cxa_atexit_default E T) \<or> KernelOrKext Args)
       [''-fno-use-cxa-atexit'']])"

subsection \<open>Microsoft's compiler\<close>

definition MSVC2015 :: "cc_env \<Rightarrow> bool" where
  "MSVC2015 E \<longleftrightarrow> cc_MSVCMajor E \<ge> 19"

text \<open>The standard of \<open>/std\<close>; an unknown one is reported as unused.\<close>

definition vcpp_standard :: "cc_env \<Rightarrow> ArgList \<Rightarrow> step" where
  "vcpp_standard E Args =
     (let Default = (if MSVC2015 E then ''-std=c++14'' else ''-std=c++11'')
      in case getLastArg Args [CC ''_SLASH_std''] of
           None \<Rightarrow> add [Default]
         | Some StdArg \<Rightarrow> with_value StdArg (\<lambda>v.
             if v = ''c++14'' then add [''-std=c++14'']
             else if v = ''c++latest'' then add [''-std=c++1z'']
             else steps [diag_if True (warn_drv_unused_argument (a_string StdArg)), add [Default]]))"

definition ms_steps :: "cc_env \<Rightarrow> ArgList \<Rightarrow> step" where
  "ms_steps E Args = steps [
     flag_on Args ''fms_extensions'' ''fno_ms_extensions'' (WindowsMSVC E) ''-fms-extensions'',
     flag_on Args ''fuse_line_directives'' ''fno_use_line_directives'' False ''-fuse-line-directives'',
     flag_on Args ''fms_compatibility'' ''fno_ms_compatibility''
       (WindowsMSVC E \<and> flag Args ''fms_extensions'' ''fno_ms_extensions'' True) ''-fms-compatibility'',
     add_if (cc_text E MSVCVersion \<noteq> []) [''-fms-compatibility-version='' @ cc_text E MSVCVersion],
     step_if (ImplyVCPPCXXVer E Args) (vcpp_standard E Args),
     flag_on Args ''fborland_extensions'' ''fno_borland_extensions'' False ''-fborland-extensions'',
     (if flag Args ''fdeclspec'' ''fno_declspec'' (cc_is E IsPS4) then add [''-fdeclspec'']
      else given Args ''fno_declspec'' ''-fno-declspec''),
     flag_off Args ''fthreadsafe_statics'' ''fno_threadsafe_statics'' (\<not> WindowsMSVC E \<or> MSVC2015 E) ''-fno-threadsafe-statics'',
     flag_on Args ''fdelayed_template_parsing'' ''fno_delayed_template_parsing'' (WindowsMSVC E) ''-fdelayed-template-parsing'',
     with_last Args [CC ''fgnu_keywords'', CC ''fno_gnu_keywords''] (render E),
     flag_on Args ''fgnu89_inline'' ''fno_gnu89_inline'' False ''-fgnu89-inline'',
     given Args ''fno_inline'' ''-fno-inline'',
     with_last Args [CC ''finline_functions'', CC ''finline_hint_functions'', CC ''fno_inline_functions''] (render E),
     last_arg E Args [CC ''fexperimental_new_pass_manager'', CC ''fno_experimental_new_pass_manager'']]"

subsection \<open>Objective-C\<close>

definition dispatch_flags :: "cc_env \<Rightarrow> ArgList \<Rightarrow> objc_runtime \<Rightarrow> string list" where
  "dispatch_flags E Args runtime =
     (if oc_isNonFragile runtime \<and>
         \<not> flag Args ''fobjc_legacy_dispatch'' ''fno_objc_legacy_dispatch'' (oc_LegacyDispatch runtime)
      then [if cc_ask E UseObjCMixedDispatch then ''-fobjc-dispatch-method=mixed'' else ''-fobjc-dispatch-method=non-legacy'']
      else [])"

definition legacy_subscripting :: "cc_env \<Rightarrow> Triple \<Rightarrow> objc_runtime \<Rightarrow> bool" where
  "legacy_subscripting E T runtime \<longleftrightarrow>
     t_Arch T = Arch_x86 \<and> t_isMacOSX T \<and> \<not> cc_is E MacOSXVersionLT10_7 \<and> oc_FragileMacOSX runtime \<and>
     oc_isNeXTFamily runtime"

definition arc_flags :: "cc_env \<Rightarrow> ArgList \<Rightarrow> string list" where
  "arc_flags E Args =
     (if isObjCAutoRefCount Args then
        ''-fobjc-arc'' #
        (if cc_ask E IsCXX \<and> cc_ask E IsObjC
         then [if cc_ask E LibcxxStdlib then ''-fobjc-arc-cxxlib=libc++'' else ''-fobjc-arc-cxxlib=libstdc++''] else []) @
        (if flag Args ''fobjc_arc_exceptions'' ''fno_objc_arc_exceptions'' (cc_ask E IsCXX) then [''-fobjc-arc-exceptions''] else [])
      else [])"

definition weak_step :: "cc_env \<Rightarrow> ArgList \<Rightarrow> objc_runtime \<Rightarrow> step" where
  "weak_step E Args runtime =
     step_if (cc_ask E IsObjC) (with_last Args [CC ''fobjc_weak'', CC ''fno_objc_weak''] (\<lambda>WeakArg.
       if \<not> oc_allowsWeak runtime then diag_if (a_opt WeakArg = CC ''fobjc_weak'') (Compile err_objc_weak_unsupported)
       else render E WeakArg))"

definition runtime_steps :: "cc_env \<Rightarrow> ToolChain \<Rightarrow> ArgList \<Rightarrow> objc_runtime \<Rightarrow> step" where
  "runtime_steps E TC Args runtime = steps [
     add (dispatch_flags E Args runtime),
     add_if (legacy_subscripting E (tc_Triple TC) runtime) [''-fobjc-subscripting-legacy-runtime''],
     add_if (cc_ask E IsEncodeExtendedBlockSignatureDefault) [''-fencode-extended-block-signature''],
     add (arc_flags E Args),
     add_if (rewrite_kind E \<noteq> RK_None) [''-fno-objc-infer-related-result-type''],
     weak_step E Args runtime,
     flag_on Args ''fapplication_extension'' ''fno_application_extension'' False ''-fapplication-extension'',
     step_if (\<not> cc_ask E IsCLMode) (addExceptionArgs E TC Args (KernelOrKext Args) runtime)]"

definition objc_steps :: "cc_env \<Rightarrow> objc_env \<Rightarrow> ToolChain \<Rightarrow> ArgList \<Rightarrow> step" where
  "objc_steps E R TC Args r =
     bnd (AddObjCRuntimeArgs E R TC Args (rewrite_kind E) r) (\<lambda>(runtime, r1). runtime_steps E TC Args runtime r1)"

subsection \<open>Allocation and layout\<close>

definition new_steps :: "cc_env \<Rightarrow> ArgList \<Rightarrow> step" where
  "new_steps E Args = steps [
     add_if (has_opt Args ''fsjlj_exceptions'' \<or> cc_ask E UseSjLjExceptions) [''-fsjlj-exceptions''],
     flag_off Args ''fassume_sane_operator_new'' ''fno_assume_sane_operator_new'' True ''-fno-assume-sane-operator-new'',
     flag_on Args ''frelaxed_template_template_args'' ''fno_relaxed_template_template_args'' False ''-frelaxed-template-template-args'',
     flag_on Args ''fsized_deallocation'' ''fno_sized_deallocation'' False ''-fsized-deallocation'',
     with_last Args [CC ''faligned_allocation'', CC ''fno_aligned_allocation'', CC ''faligned_new_EQ''] (\<lambda>A.
       add [if a_opt A = CC ''fno_aligned_allocation'' then ''-fno-aligned-allocation'' else ''-faligned-allocation'']),
     joined_value Args [CC ''fnew_alignment_EQ'', CC ''faligned_new_EQ''] ''-fnew-alignment='']"

definition pack_struct :: "ArgList \<Rightarrow> step" where
  "pack_struct Args =
     (case getLastArg Args [CC ''fpack_struct_EQ''] of
        Some A \<Rightarrow> with_value A (\<lambda>v. add [''-fpack-struct='' @ v])
      | None \<Rightarrow> flag_on Args ''fpack_struct'' ''fno_pack_struct'' False ''-fpack-struct=1'')"

definition max_type_align :: "Triple \<Rightarrow> ArgList \<Rightarrow> step" where
  "max_type_align T Args =
     (case getLastArg Args [CC ''fmax_type_align_EQ''] of
        Some A \<Rightarrow> step_if (\<not> has_opt Args ''fno_max_type_align'') (with_value A (\<lambda>v. add [''-fmax-type-align='' @ v]))
      | None \<Rightarrow> add_if (t_isOSDarwin T \<and> \<not> has_opt Args ''fno_max_type_align'') [''-fmax-type-align=16''])"

definition layout_steps :: "cc_env \<Rightarrow> ToolChain \<Rightarrow> ArgList \<Rightarrow> step" where
  "layout_steps E TC Args = steps [
     add_if (\<not> flag Args ''fconstant_cfstrings'' ''fno_constant_cfstrings'' True \<or>
         \<not> flag Args ''mconstant_cfstrings'' ''mno_constant_cfstrings'' True) [''-fno-constant-cfstrings''],
     with_last Args [CC ''fshort_wchar'', CC ''fno_short_wchar''] (render E),
     flag_on Args ''fpascal_strings'' ''fno_pascal_strings'' False ''-fpascal-strings'',
     pack_struct Args,
     max_type_align (tc_Triple TC) Args,
     flag_off Args ''fcommon'' ''fno_common'' (\<not> (KernelOrKext Args \<or> isNoCommonDefault (tc_Triple TC))) ''-fno-common'']"

definition dialect_steps :: "cc_env \<Rightarrow> objc_env \<Rightarrow> ToolChain \<Rightarrow> ArgList \<Rightarrow> step" where
  "dialect_steps E R TC Args = steps [
     character_steps E TC Args, ms_steps E Args, objc_steps E R TC Args, new_steps E Args, layout_steps E TC Args]"

end
