(* ===== verification/OutputArgs.thy ===== *)
theory OutputArgs
  imports DialectArgs
begin

text \<open>
  The end of Clang's compile job (\<open>Tools.cpp\<close>, in \<open>Clang::ConstructJob\<close>): diagnostics, vectorisation, records
  and statistics, the files, and the command that \<open>clang-cl\<close> falls back to
  (\<open>visualstudio::Compiler::GetCommand\<close>).
\<close>

subsection \<open>Unsupported forms and diagnostics\<close>

text \<open>A negative form that the compiler does not support, reported with the argument as it was given.\<close>

definition unsupported_form :: "ArgList \<Rightarrow> string \<Rightarrow> string \<Rightarrow> (string \<Rightarrow> diag) \<Rightarrow> step" where
  "unsupported_form Args Pos Neg d =
     step_if (\<not> flag Args Pos Neg True)
       (case getLastArg Args [CC Neg] of None \<Rightarrow> fail | Some A \<Rightarrow> diag_if True (d (a_string A)))"

definition utf8_only :: "ArgList \<Rightarrow> string \<Rightarrow> step" where
  "utf8_only Args n = with_last Args [CC n] (\<lambda>A. with_value A (\<lambda>v.
     diag_if (lower v \<noteq> ''utf-8'') (err_drv_invalid_value (a_string A) v)))"

definition color_options :: "OptID list" where
  "color_options = map CC [''fcolor_diagnostics'', ''fdiagnostics_color'', ''fno_color_diagnostics'',
     ''fno_diagnostics_color'', ''fdiagnostics_color_EQ'']"

definition color_arg :: "Arg \<Rightarrow> step" where
  "color_arg A = steps [
     (if a_opt A = CC ''fdiagnostics_color_EQ'' then with_value A (\<lambda>Value.
        diag_if (Value \<notin> {''always'', ''never'', ''auto''}) (err_drv_clang_unsupported (''-fdiagnostics-color='' @ Value)))
      else add []),
     claims [A]]"

definition diagnostic_steps :: "cc_env \<Rightarrow> ArgList \<Rightarrow> step" where
  "diagnostic_steps E Args = steps [
     unsupported_form Args ''fsigned_bitfields'' ''funsigned_bitfields'' (\<lambda>a. Compile (warn_drv_clang_unsupported a)),
     unsupported_form Args ''ffor_scope'' ''fno_for_scope'' err_drv_clang_unsupported,
     utf8_only Args ''finput_charset_EQ'',
     utf8_only Args ''fexec_charset_EQ'',
     flag_off Args ''fcaret_diagnostics'' ''fno_caret_diagnostics'' True ''-fno-caret-diagnostics'',
     flag_off Args ''fdiagnostics_fixit_info'' ''fno_diagnostics_fixit_info'' True ''-fno-diagnostics-fixit-info'',
     flag_on Args ''fdiagnostics_show_option'' ''fno_diagnostics_show_option'' True ''-fdiagnostics-show-option'',
     flag_value Args [CC ''fdiagnostics_show_category_EQ''] ''-fdiagnostics-show-category'',
     flag_on Args ''fdiagnostics_show_hotness'' ''fno_diagnostics_show_hotness'' False ''-fdiagnostics-show-hotness'',
     flag_value Args [CC ''fdiagnostics_format_EQ''] ''-fdiagnostics-format'',
     with_last Args [CC ''fdiagnostics_show_note_include_stack'', CC ''fno_diagnostics_show_note_include_stack''] (\<lambda>A.
       add [if a_opt A = CC ''fdiagnostics_show_note_include_stack'' then ''-fdiagnostics-show-note-include-stack''
            else ''-fno-diagnostics-show-note-include-stack'']),
     for_each color_arg (filtered color_options Args),
     add_if (cc_ask E ShowColors) [''-fcolor-diagnostics''],
     given Args ''fansi_escape_codes'' ''-fansi-escape-codes'',
     flag_off Args ''fshow_source_location'' ''fno_show_source_location'' True ''-fno-show-source-location'',
     given Args ''fdiagnostics_absolute_paths'' ''-fdiagnostics-absolute-paths'',
     flag_off Args ''fshow_column'' ''fno_show_column'' True ''-fno-show-column'',
     flag_off Args ''fspell_checking'' ''fno_spell_checking'' True ''-fno-spell-checking'',
     flag_on Args ''fasm_blocks'' ''fno_asm_blocks'' False ''-fasm-blocks'',
     flag_off Args ''fgnu_inline_asm'' ''fno_gnu_inline_asm'' True ''-fno-gnu-inline-asm'']"

subsection \<open>Vectorisation and records\<close>

definition vector_steps :: "cc_env \<Rightarrow> ArgList \<Rightarrow> step" where
  "vector_steps E Args = steps [
     vectorize E Args False ''fvectorize'' ''fno_vectorize'' ''-vectorize-loops'',
     vectorize E Args True ''fslp_vectorize'' ''fno_slp_vectorize'' ''-vectorize-slp'',
     flag_on Args ''fslp_vectorize_aggressive'' ''fno_slp_vectorize_aggressive'' False ''-vectorize-slp-aggressive'',
     with_last Args [CC ''fshow_overloads_EQ''] (render E),
     with_last Args [CC ''fsanitize_undefined_strip_path_components_EQ''] (render E),
     with_last Args [CC ''fdollars_in_identifiers'', CC ''fno_dollars_in_identifiers''] (\<lambda>A.
       add [if a_opt A = CC ''fdollars_in_identifiers'' then ''-fdollars-in-identifiers'' else ''-fno-dollars-in-identifiers'']),
     with_last Args [CC ''funit_at_a_time'', CC ''fno_unit_at_a_time''] (\<lambda>A.
       diag_if (a_opt A = CC ''fno_unit_at_a_time'') (Compile (warn_drv_clang_unsupported (a_string A)))),
     flag_on Args ''fapple_pragma_pack'' ''fno_apple_pragma_pack'' False ''-fapple-pragma-pack'',
     add_if (cc_is E ArchLE32) [''-fno-math-builtin'']]"

text \<open>The name of the record of optimisations: from the output, or from the input and the offloading device.\<close>

definition record_base :: "cc_env \<Rightarrow> ArgList \<Rightarrow> string" where
  "record_base E Args =
     (let stem = j_stem (cc_job E) (j_BaseInput (cc_job E))
      in case (if hasArg Args [Job OPT_c] \<or> hasArg Args [Job OPT_S] then cc_OutputFile E else None) of
           Some F \<Rightarrow> F
         | None \<Rightarrow>
             if \<not> cc_is E DeviceOffload_None \<and> \<not> cc_is E DeviceOffload_Host then
               j_replace_extension (cc_job E) stem [] @ cc_text E OffloadPrefix @ ''-'' @ cc_text E OffloadArch
             else stem)"

definition record_steps :: "cc_env \<Rightarrow> ArgList \<Rightarrow> step" where
  "record_steps E Args =
     step_if (flag Args ''fsave_optimization_record'' ''fno_save_optimization_record'' False) (steps [
       add [''-opt-record-file''],
       (case getLastArg Args [CC ''foptimization_record_file_EQ''] of
          Some A \<Rightarrow> with_value A (\<lambda>v. add [v])
        | None \<Rightarrow> add [j_replace_extension (cc_job E) (record_base E Args) ''opt.yaml''])])"

text \<open>The statistics: next to the output, or in the working directory.\<close>

definition stats_steps :: "cc_env \<Rightarrow> ToolChain \<Rightarrow> ArgList \<Rightarrow> step" where
  "stats_steps E TC Args = with_last Args [CC ''save_stats_EQ''] (\<lambda>A. with_value A (\<lambda>SaveStats.
     let file = (\<lambda>dir. add [''-stats-file='' @ j_replace_extension (cc_job E) (tc_path_append TC dir (cc_text E BaseInputFile)) ''stats''])
     in if SaveStats = ''obj'' then file (if cc_OutputFile E \<noteq> None then cc_text E OutputDirectory else [])
        else if SaveStats = ''cwd'' then file []
        else diag_if True (err_drv_invalid_value (a_string A) SaveStats)))"

text \<open>\<open>-mllvm\<close>, with one value that is translated.\<close>

definition mllvm_arg :: "cc_env \<Rightarrow> Arg \<Rightarrow> step" where
  "mllvm_arg E A = steps [claims [A], with_value A (\<lambda>v.
     if v = ''-disable-llvm-optzns'' then add [''-disable-llvm-optzns''] else render E A)]"

definition report_steps :: "cc_env \<Rightarrow> ToolChain \<Rightarrow> ArgList \<Rightarrow> step" where
  "report_steps E TC Args = steps [
     record_steps E Args,
     add_if (flag Args ''frewrite_includes'' ''fno_rewrite_includes'' False \<or>
         cc_ask E IsForDiagnostics \<and> \<not> HaveAnyModules E Args) [''-frewrite-includes''],
     with_last Args [CC ''traditional'', CC ''traditional_cpp''] (\<lambda>A.
       if cc_JA E = PreprocessJob then add [''-traditional-cpp'']
       else diag_if True (err_drv_clang_unsupported (a_string A))),
     each_last E Args [''dM'', ''dD''],
     flag_value Args [CC ''_serialize_diags''] ''-serialize-diagnostic-file'',
     given Args ''fretain_comments_from_system_headers'' ''-fretain-comments-from-system-headers'',
     all_args E [CC ''fcomment_block_commands''],
     all_args E [CC ''fparse_all_comments''],
     for_each (\<lambda>A. steps [with_value A (\<lambda>v. add [''-load'', v]), claims [A]]) (filtered [CC ''fplugin_EQ''] Args),
     stats_steps E TC Args,
     all_values E [CC ''Xclang''],
     for_each (mllvm_arg E) (filtered [Asm OPT_mllvm] Args),
     add_if (cc_ask E IsSaveTemps \<and> \<not> cc_ask E EmbedBitcodeInObject \<and> cc_JA E = CompileJob) [''-disable-llvm-passes'']]"

subsection \<open>The files\<close>

definition input_args :: "cc_env \<Rightarrow> string list" where
  "input_args E = (case cc_InputFile E of Some F \<Rightarrow> [F] | None \<Rightarrow> cc_list E InputArgument)"

text \<open>An output that is not a file is nothing, which the code asserts: there is no third kind here.\<close>

definition output_args :: "cc_env \<Rightarrow> string list" where
  "output_args E =
     (if cc_OutputType E = T_Dependencies then []
      else case cc_OutputFile E of Some F \<Rightarrow> [''-o'', F] | None \<Rightarrow> [])"

definition file_args :: "cc_env \<Rightarrow> ArgList \<Rightarrow> string list" where
  "file_args E Args = output_args E @ addDashXForInput E Args @ input_args E"

subsection \<open>Offloading and whole programs\<close>

text \<open>The triples of the OpenMP targets, which the code takes from the values of the option, joined by commas.\<close>

definition offload_steps :: "cc_env \<Rightarrow> ArgList \<Rightarrow> step" where
  "offload_steps E Args = steps [
     add_if (cc_is E Offload_Cuda \<and> cc_Inputs E > 1)
       (concat (map (\<lambda>F. [''-fcuda-include-gpubinary'', F]) (cc_list E MoreInputs))),
     step_if (cc_is E DeviceOffload_OpenMP \<and> cc_Inputs E = 2)
       (if cc_list E MoreInputs = [] then fail
        else add [''-fopenmp-is-device'', ''-fopenmp-host-ir-file-path'', last (cc_list E MoreInputs)]),
     step_if (cc_JA E = CompileJob \<and> cc_is E HostOffload_OpenMP)
       (case getLastArg Args [CC ''fopenmp_targets_EQ''] of
          None \<Rightarrow> fail
        | Some Tgts \<Rightarrow>
            if a_values Tgts = [] then fail
            else add [''-fopenmp-targets='' @ commas (map (cc_getTriple E) (a_values Tgts))])]"

definition whole_program :: "cc_env \<Rightarrow> ArgList \<Rightarrow> step" where
  "whole_program E Args =
     step_if (flag Args ''fwhole_program_vtables'' ''fno_whole_program_vtables'' False) (steps [
       diag_if (\<not> cc_ask E IsUsingLTO) (err_drv_argument_only_allowed_with ''-fwhole-program-vtables'' ''-flto''),
       add [''-fwhole-program-vtables'']])"

subsection \<open>The fallback to \<open>cl.exe\<close>\<close>

definition one_of :: "ArgList \<Rightarrow> OptID \<Rightarrow> OptID \<Rightarrow> string \<Rightarrow> string \<Rightarrow> string list" where
  "one_of Args Pos Neg F G =
     (case getLastArg Args [Pos, Neg] of None \<Rightarrow> [] | Some A \<Rightarrow> [if a_opt A = Pos then F else G])"

definition cl_optimisation :: "ArgList \<Rightarrow> string list res" where
  "cl_optimisation Args =
     (case getLastArg Args [Link OPT_O, Tool OPT_O0] of
        None \<Rightarrow> Inr []
      | Some A \<Rightarrow>
          if a_opt A = Tool OPT_O0 then Inr [''/Od'']
          else bnd (getValue A) (\<lambda>OptLevel.
            Inr [''/Og'', if OptLevel = ''s'' \<or> OptLevel = ''z'' then ''/Os'' else ''/Ot'', ''/Ob2'']))"

definition cl_flags :: "cc_env \<Rightarrow> ArgList \<Rightarrow> string list" where
  "cl_flags E Args =
     one_of Args (Tool OPT_fomit_frame_pointer) (Tool OPT_fno_omit_frame_pointer) ''/Oy'' ''/Oy-'' @
     (if \<not> has_opt Args ''fwritable_strings'' then [''/GF''] else []) @
     (if flag Args ''_SLASH_GR_'' ''_SLASH_GR'' False then [''/GR-''] else []) @
     (if flag Args ''_SLASH_GS_'' ''_SLASH_GS'' False then [''/GS-''] else []) @
     one_of Args (Link OPT_ffunction_sections) (Link OPT_fno_function_sections) ''/Gy'' ''/Gy-'' @
     one_of Args (Link OPT_fdata_sections) (Link OPT_fno_data_sections) ''/Gw'' ''/Gw-'' @
     (if has_opt Args ''fsyntax_only'' then [''/Zs''] else []) @
     (if hasArg Args [CC ''g_Flag'', Job OPT_gline_tables_only, CC ''_SLASH_Z7''] then [''/Z7''] else []) @
     map (\<lambda>Include. ''/FI'' @ Include) (j_AllArgValues (cc_job E) [CC ''include'']) @
     concat (map (\<lambda>opt. cc_AllArgs E [opt]) [OPT__SLASH_LD, OPT__SLASH_LDd, CC ''_SLASH_GX'', CC ''_SLASH_GX_'',
       CC ''_SLASH_EH'', CC ''_SLASH_Zl'']) @
     AddLastArg (cc_job E) Args [OPT__SLASH_MD, OPT__SLASH_MDd, OPT__SLASH_MT, OPT__SLASH_MTd] @
     one_of Args (CC ''fthreadsafe_statics'') (CC ''fno_threadsafe_statics'') ''/Zc:threadSafeInit'' ''/Zc:threadSafeInit-'' @
     cc_AllArgs E [CC ''UNKNOWN'']"

text \<open>\<open>cc_VisualStudio\<close> is \<open>FindVisualStudioExecutable\<close> for \<open>cl.exe\<close>.\<close>

definition GetCommand :: "cc_env \<Rightarrow> ArgList \<Rightarrow> (string \<times> string list) res" where
  "GetCommand E Args =
     bnd (cl_optimisation Args) (\<lambda>optimisation.
       if cc_Inputs E \<noteq> 1 \<or> cc_InputType E \<notin> {T_C, T_CXX} \<or> cc_OutputType E \<noteq> T_Object then Inl Unreachable
       else bnd (output_name E) (\<lambda>Out.
         Inr (cc_VisualStudio E,
           [''/nologo'', ''/c'', ''/W0''] @ cc_AllArgs E [CC ''D'', CC ''U'', Job OPT_I] @
           one_of Args (CC ''fbuiltin'') (CC ''fno_builtin'') ''/Oi'' ''/Oi-'' @ optimisation @ cl_flags E Args @
           [if cc_InputType E = T_C then ''/Tc'' else ''/Tp''] @ input_args E @ [''/Fo'' @ Out])))"

end
