(* ===== verification/ClangCL.thy ===== *)
theory ClangCL
  imports CompileSteps
begin

text \<open>
  The options of \<open>clang-cl\<close> (\<open>Tools.cpp\<close>, \<open>parseClangCLEHFlags\<close> and \<open>Clang::AddClangCLArgs\<close>).
\<close>

subsection \<open>\<open>/EH\<close>\<close>

record EHFlags =
  Synch :: bool
  Asynch :: bool
  NoUnwindC :: bool

text \<open>The answer and the position after it.\<close>

definition maybeConsumeDash :: "string \<Rightarrow> nat \<Rightarrow> bool \<times> nat" where
  "maybeConsumeDash EH I =
     (let HaveDash = I + 1 < length EH \<and> EH ! (I + 1) = CHR ''-''
      in (\<not> HaveDash, if HaveDash then I + 1 else I))"

definition eh_char :: "char \<Rightarrow> bool \<Rightarrow> EHFlags \<Rightarrow> EHFlags" where
  "eh_char c on EH =
     (if c = CHR ''a'' then EH\<lparr>Asynch := on, Synch := Synch EH \<and> \<not> on\<rparr>
      else if c = CHR ''c'' then EH\<lparr>NoUnwindC := on\<rparr>
      else EH\<lparr>Synch := on, Asynch := Asynch EH \<and> \<not> on\<rparr>)"

function eh_value :: "string \<Rightarrow> nat \<Rightarrow> EHFlags \<Rightarrow> drv \<Rightarrow> EHFlags \<times> drv" where
  "eh_value EHVal I EH D =
     (if length EHVal \<le> I then (EH, D)
      else if EHVal ! I \<in> {CHR ''a'', CHR ''c'', CHR ''s''} then
        (case maybeConsumeDash EHVal I of
           (on, I1) \<Rightarrow> eh_value EHVal (I1 + 1) (eh_char (EHVal ! I) on EH) D)
      else (EH, Diag (err_drv_invalid_value ''/EH'' EHVal) D))"
  by pat_completeness auto
termination
  by (relation "measure (\<lambda>(EHVal, I, _). length EHVal - I)") (auto simp: maybeConsumeDash_def Let_def split: if_splits)

declare eh_value.simps [simp del]

fun eh_values :: "string list \<Rightarrow> EHFlags \<Rightarrow> drv \<Rightarrow> EHFlags \<times> drv" where
  "eh_values [] EH D = (EH, D)"
| "eh_values (EHVal # vs) EH D = (case eh_value EHVal 0 EH D of (EH1, D1) \<Rightarrow> eh_values vs EH1 D1)"

definition parseClangCLEHFlags :: "cc_env \<Rightarrow> ArgList \<Rightarrow> drv \<Rightarrow> EHFlags \<times> drv" where
  "parseClangCLEHFlags E Args D =
     (let EHArgs = j_AllArgValues (cc_job E) [CC ''_SLASH_EH''];
          (EH, D1) = eh_values EHArgs \<lparr>Synch = False, Asynch = False, NoUnwindC = False\<rparr> D
      in if EHArgs = [] \<and> flag Args ''_SLASH_GX'' ''_SLASH_GX_'' False
         then (EH\<lparr>Synch := True, NoUnwindC := True\<rparr>, D1) else (EH, D1))"

subsection \<open>The other options\<close>

definition RTOption :: "ArgList \<Rightarrow> OptID" where
  "RTOption Args =
     (case getLastArg Args [CC ''_SLASH_M_Group''] of
        Some A \<Rightarrow> a_opt A
      | None \<Rightarrow> if hasArg Args [OPT__SLASH_LDd] then OPT__SLASH_MTd else OPT__SLASH_MT)"

definition runtime_flags :: "ArgList \<Rightarrow> (string list \<times> string) res" where
  "runtime_flags Args =
     (let Debug = (if hasArg Args [OPT__SLASH_LDd] then [''-D_DEBUG''] else [])
      in if RTOption Args = OPT__SLASH_MD then Inr (Debug @ [''-D_MT'', ''-D_DLL''], ''--dependent-lib=msvcrt'')
         else if RTOption Args = OPT__SLASH_MDd then Inr ([''-D_DEBUG'', ''-D_MT'', ''-D_DLL''], ''--dependent-lib=msvcrtd'')
         else if RTOption Args = OPT__SLASH_MT then
           Inr (Debug @ [''-D_MT'', ''-flto-visibility-public-std''], ''--dependent-lib=libcmt'')
         else if RTOption Args = OPT__SLASH_MTd then
           Inr ([''-D_DEBUG'', ''-D_MT'', ''-flto-visibility-public-std''], ''--dependent-lib=libcmtd'')
         else Inl Unreachable)"

definition cl_debug :: "ArgList \<Rightarrow> DebugInfoKind \<times> bool" where
  "cl_debug Args =
     (case getLastArg Args [CC ''_SLASH_Z7'', CC ''_SLASH_Zd'', Job OPT_gline_tables_only] of
        None \<Rightarrow> (NoDebugInfo, False)
      | Some A \<Rightarrow> (if a_opt A = CC ''_SLASH_Z7'' then LimitedDebugInfo else DebugLineTablesOnly, True))"

definition cl_exceptions :: "cc_env \<Rightarrow> ArgList \<Rightarrow> step" where
  "cl_exceptions E Args = (\<lambda>(CmdArgs, D).
     let (EH, D1) = parseClangCLEHFlags E Args D
     in Inr (CmdArgs @
          (if Synch EH \<or> Asynch EH then (if cc_ask E IsCXX then [''-fcxx-exceptions''] else []) @ [''-fexceptions''] else []) @
          (if cc_ask E IsCXX \<and> Synch EH \<and> NoUnwindC EH then [''-fexternc-nounwind''] else []), D1))"

definition cl_volatile :: "ToolChain \<Rightarrow> ArgList \<Rightarrow> OptID" where
  "cl_volatile TC Args =
     (case getLastArg Args [CC ''_SLASH_volatile_Group''] of
        Some A \<Rightarrow> a_opt A
      | None \<Rightarrow> if t_Arch (tc_Triple TC) = Arch_x86_64 \<or> t_Arch (tc_Triple TC) = Arch_x86
                then CC ''_SLASH_volatile_ms'' else CC ''_SLASH_volatile_iso'')"

text \<open>Pointers to members: \<open>/vms\<close>, \<open>/vmm\<close> and \<open>/vmv\<close> exclude each other.\<close>

definition cl_memptr :: "ArgList \<Rightarrow> step" where
  "cl_memptr Args =
     (let One = getLastArg Args [CC ''_SLASH_vms'']; Many = getLastArg Args [CC ''_SLASH_vmm''];
          Virtual = getLastArg Args [CC ''_SLASH_vmv''];
          FirstConflict = (if One \<noteq> None then One else Many);
          SecondConflict = (if Virtual \<noteq> None then Virtual else Many)
      in steps [
        (case (FirstConflict, SecondConflict) of
           (Some A, Some B) \<Rightarrow> diag_if (A \<noteq> B) (err_drv_argument_not_allowed_with (a_string A) (a_string B))
         | _ \<Rightarrow> add []),
        add [if One \<noteq> None then ''-fms-memptr-rep=single''
             else if Many \<noteq> None then ''-fms-memptr-rep=multiple'' else ''-fms-memptr-rep=virtual'']])"

definition cl_calling_conv :: "ArgList \<Rightarrow> string list" where
  "cl_calling_conv Args =
     (if getLastArg Args [CC ''_SLASH_Gd''] \<noteq> None then [''-fdefault-calling-conv=cdecl'']
      else if getLastArg Args [CC ''_SLASH_Gr''] \<noteq> None then [''-fdefault-calling-conv=fastcall'']
      else if getLastArg Args [CC ''_SLASH_Gz''] \<noteq> None then [''-fdefault-calling-conv=stdcall'']
      else if getLastArg Args [CC ''_SLASH_Gv''] \<noteq> None then [''-fdefault-calling-conv=vectorcall'']
      else [])"

text \<open>The levels of the stack protector are the numbers of \<open>LangOptions\<close>: 1 for on, 2 for strong, 3 for required.\<close>

definition AddClangCLArgs :: "cc_env \<Rightarrow> ToolChain \<Rightarrow> ArgList \<Rightarrow> step" where
  "AddClangCLArgs E TC Args = steps [
     \<lambda>r. bnd (runtime_flags Args) (\<lambda>(flags, FlagForCRT).
       add (flags @ (if has_opt Args ''_SLASH_Zl'' then [''-D_VC_NODEFAULTLIB''] else [FlagForCRT, ''--dependent-lib=oldnames''])) r),
     step_if (\<not> hasArg Args [Asm OPT_E] \<and> \<not> hasArg Args [Asm OPT__SLASH_EP])
       (with_last Args [CC ''show_includes''] (render E)),
     add_if (flag Args ''_SLASH_GR_'' ''_SLASH_GR'' False) [''-fno-rtti-data''],
     add_if (flag Args ''_SLASH_GS'' ''_SLASH_GS_'' True) [''-stack-protector'', ''2''],
     add_if (snd (cl_debug Args)) [''-gcodeview''],
     cl_exceptions E Args,
     add_if (hasArg Args [Asm OPT__SLASH_EP]) [''-E'', ''-P''],
     add_if (cl_volatile TC Args = CC ''_SLASH_volatile_ms'') [''-fms-volatile''],
     (case (getLastArg Args [CC ''_SLASH_vmg''], getLastArg Args [CC ''_SLASH_vmb'']) of
        (Some A, Some B) \<Rightarrow> diag_if True (err_drv_argument_not_allowed_with (a_string A) (a_string B))
      | _ \<Rightarrow> add []),
     step_if (getLastArg Args [CC ''_SLASH_vmg''] \<noteq> None) (cl_memptr Args),
     add (cl_calling_conv Args),
     with_last Args [CC ''vtordisp_mode_EQ''] (render E),
     add_if (\<not> has_opt Args ''fdiagnostics_format_EQ'')
       [''-fdiagnostics-format'', if has_opt Args ''_SLASH_fallback'' then ''msvc-fallback'' else ''msvc'']]"

subsection \<open>Facts about \<open>/EH\<close>\<close>

text \<open>Synchronous and asynchronous exceptions exclude each other, whatever is given.\<close>

lemma eh_value_exclusive:
  "\<not> (Synch EH \<and> Asynch EH) \<Longrightarrow> \<not> (Synch (fst (eh_value EHVal I EH D)) \<and> Asynch (fst (eh_value EHVal I EH D)))"
proof (induction EHVal I EH D rule: eh_value.induct)
  case (1 EHVal I EH D)
  then show ?case
    by (subst (1 2) eh_value.simps) (auto simp: eh_char_def split: prod.split)
qed

lemma eh_values_exclusive:
  "\<not> (Synch EH \<and> Asynch EH) \<Longrightarrow> \<not> (Synch (fst (eh_values vs EH D)) \<and> Asynch (fst (eh_values vs EH D)))"
proof (induction vs arbitrary: EH D)
  case (Cons v vs)
  then show ?case
    using Cons.IH eh_value_exclusive [OF Cons.prems, of v 0 D] by (cases "eh_value v 0 EH D") simp
qed simp

lemma eh_exclusive: "\<not> (Synch (fst (parseClangCLEHFlags E Args D)) \<and> Asynch (fst (parseClangCLEHFlags E Args D)))"
  using eh_values_exclusive [of "\<lparr>Synch = False, Asynch = False, NoUnwindC = False\<rparr>"
      "j_AllArgValues (cc_job E) [CC ''_SLASH_EH'']" D]
  by (simp only: parseClangCLEHFlags_def Let_def split: prod.split) auto

end
