(* ===== verification/DebugArgs.thy ===== *)
theory DebugArgs
  imports CodeGenArgs ClangCL
begin

text \<open>
  Debug information (\<open>Tools.cpp\<close>, in \<open>Clang::ConstructJob\<close>): the level, the version of DWARF, the debugger and
  whether the information is split, from options that override each other by their order.
\<close>

subsection \<open>What comes with the options of \<open>clang-cl\<close>\<close>

text \<open>The kind of debug information and whether CodeView is emitted, as \<open>AddClangCLArgs\<close> leaves them.\<close>

definition initial_debug :: "cc_env \<Rightarrow> ArgList \<Rightarrow> DebugInfoKind \<times> bool" where
  "initial_debug E Args = (if cc_ask E IsCLMode then cl_debug Args else (NoDebugInfo, False))"

text \<open>What is not supported on 32-bit Darwin.\<close>

definition kext_cxx :: "cc_env \<Rightarrow> Triple \<Rightarrow> ArgList \<Rightarrow> step" where
  "kext_cxx E T Args =
     (let report_it = (\<lambda>A. diag_if True (Compile (err_drv_clang_unsupported_opt_cxx_darwin_i386 (a_name A))))
      in step_if (\<not> has_opt Args ''fallow_unsupported'' \<and> cc_ask E IsCXX \<and> t_isOSDarwin T \<and> t_Arch T = Arch_x86)
           (case getLastArg Args [Tool OPT_fapple_kext] of
              Some A \<Rightarrow> report_it A
            | None \<Rightarrow> with_last Args [Tool OPT_mkernel] report_it))"

definition driver_steps :: "cc_env \<Rightarrow> ToolChain \<Rightarrow> ArgList \<Rightarrow> step" where
  "driver_steps E TC Args = steps [
     step_if (cc_ask E IsCLMode) (AddClangCLArgs E TC Args),
     flag_value Args [CC ''mlinker_version_EQ''] ''-target-linker-version'',
     add_if (\<not> shouldUseLeafFramePointer Args (tc_Triple TC)) [''-momit-leaf-frame-pointer''],
     kext_cxx E (tc_Triple TC) Args,
     all_args E [CC ''v''],
     last_arg E Args [CC ''H''],
     add_if (cc_ask E CCPrintHeaders \<and> \<not> cc_ask E CCGenDiagnostics) [''-header-include-file'', cc_text E PrintHeadersFile],
     last_arg E Args [CC ''P''],
     last_arg E Args [CC ''print_ivar_layout''],
     add_if (cc_ask E CCLogDiagnostics \<and> \<not> cc_ask E CCGenDiagnostics) [''-diagnostic-log-file'', cc_text E DiagnosticsFile]]"

subsection \<open>The decisions\<close>

definition splitDwarfInlining :: "ArgList \<Rightarrow> bool" where
  "splitDwarfInlining Args = flag Args ''fsplit_dwarf_inlining'' ''fno_split_dwarf_inlining'' True"

text \<open>
  The level that the last option of \<open>g_Group\<close> gives, and the option \<open>-gsplit-dwarf\<close> unless it loses: later options
  win, and a level without debug information, or with line tables only, excludes splitting.
\<close>

definition debug_level :: "cc_env \<Rightarrow> ArgList \<Rightarrow> (DebugInfoKind \<times> Arg option) res" where
  "debug_level E Args =
     (let SplitDwarfArg = getLastArg Args [Job OPT_gsplit_dwarf]
      in case getLastArg Args [Link OPT_g_Group] of
           None \<Rightarrow> Inr (fst (initial_debug E Args), SplitDwarfArg)
         | Some A \<Rightarrow>
             if cc_in_gN E A then
               bnd (DebugLevelToInfoKind (cc_in_gN E A) A) (\<lambda>Kind. Inr (
                 case SplitDwarfArg of
                   None \<Rightarrow> (Kind, None)
                 | Some S \<Rightarrow>
                     if a_index A > a_index S then
                       (Kind, if Kind = NoDebugInfo \<or> Kind = DebugLineTablesOnly \<and> splitDwarfInlining Args then None else Some S)
                     else (if splitDwarfInlining Args then NoDebugInfo else Kind, Some S)))
             else Inr (LimitedDebugInfo, SplitDwarfArg))"

definition debugger_tuning :: "cc_env \<Rightarrow> ArgList \<Rightarrow> DebuggerKind" where
  "debugger_tuning E Args =
     (case getLastArg Args [Link OPT_gTune_Group, Link OPT_ggdbN_Group] of
        None \<Rightarrow> cc_DebuggerTuning E
      | Some A \<Rightarrow>
          if a_opt A = Link OPT_glldb then Debugger_LLDB
          else if a_opt A = Link OPT_gsce then Debugger_SCE
          else Debugger_GDB)"

definition given_dwarf :: "ArgList \<Rightarrow> nat" where
  "given_dwarf Args =
     (case getLastArg Args [CC ''gdwarf_2'', CC ''gdwarf_3'', CC ''gdwarf_4'', CC ''gdwarf_5''] of
        None \<Rightarrow> 0 | Some A \<Rightarrow> DwarfVersionNum (a_spelling A))"

definition code_view :: "cc_env \<Rightarrow> ArgList \<Rightarrow> bool" where
  "code_view E Args \<longleftrightarrow> has_opt Args ''gcodeview'' \<or> snd (initial_debug E Args)"

definition dwarf_version :: "cc_env \<Rightarrow> ArgList \<Rightarrow> DebugInfoKind \<Rightarrow> nat" where
  "dwarf_version E Args Kind =
     (if \<not> code_view E Args \<and> given_dwarf Args = 0 \<and> Kind \<noteq> NoDebugInfo then j_DefaultDwarfVersion (cc_job E)
      else given_dwarf Args)"

definition with_modules :: "ArgList \<Rightarrow> DebugInfoKind \<Rightarrow> bool" where
  "with_modules Args Kind \<longleftrightarrow> Kind \<noteq> DebugLineTablesOnly \<and> has_opt Args ''gmodules''"

definition splits :: "ToolChain \<Rightarrow> Arg option \<Rightarrow> bool" where
  "splits TC SplitDwarfArg \<longleftrightarrow> t_isOSLinux (tc_Triple TC) \<and> SplitDwarfArg \<noteq> None"

text \<open>The kind after \<open>-gmodules\<close>, \<open>-gsplit-dwarf\<close> and \<open>-fstandalone-debug\<close>.\<close>

definition final_kind :: "cc_env \<Rightarrow> ToolChain \<Rightarrow> ArgList \<Rightarrow> DebugInfoKind \<times> Arg option \<Rightarrow> DebugInfoKind" where
  "final_kind E TC Args = (\<lambda>(Kind, SplitDwarfArg).
     let Kind1 = (if with_modules Args Kind then LimitedDebugInfo else Kind);
         Kind2 = (if splits TC SplitDwarfArg \<and> Kind1 = NoDebugInfo then LimitedDebugInfo else Kind1);
         NeedFullDebug = flag Args ''fstandalone_debug'' ''fno_standalone_debug'' (cc_ask E DefaultStandaloneDebug)
     in if Kind2 = LimitedDebugInfo \<and> NeedFullDebug then FullDebugInfo else Kind2)"

subsection \<open>The flags\<close>

definition debug_arguments :: "cc_env \<Rightarrow> ToolChain \<Rightarrow> ArgList \<Rightarrow> DebugInfoKind \<times> Arg option \<Rightarrow> string list" where
  "debug_arguments E TC Args = (\<lambda>(Kind, SplitDwarfArg).
     (if code_view E Args then [''-gcodeview''] else []) @
     (if flag Args ''gcolumn_info'' ''gno_column_info''
         (\<not> t_isPS4CPU (tc_Triple TC) \<and> \<not> (WindowsMSVC E \<and> snd (initial_debug E Args)))
      then [''-dwarf-column-info''] else []) @
     (if with_modules Args Kind then [''-dwarf-ext-refs'', ''-fmodule-format=obj''] else []) @
     (if splits TC SplitDwarfArg then
        (if \<not> splitDwarfInlining Args then [''-fno-split-dwarf-inlining''] else []) @
        [''-backend-option'', ''-split-dwarf=Enable'']
      else []) @
     RenderDebugEnablingArgs (final_kind E TC Args (Kind, SplitDwarfArg)) (dwarf_version E Args Kind) (debugger_tuning E Args) @
     (if has_opt Args ''ggnu_pubnames'' then [''-backend-option'', ''-generate-gnu-dwarf-pub-sections''] else []) @
     (if has_opt Args ''gdwarf_aranges'' \<or> t_isPS4CPU (tc_Triple TC)
      then [''-backend-option'', ''-generate-arange-section''] else []) @
     (if flag Args ''fdebug_types_section'' ''fno_debug_types_section'' False
      then [''-backend-option'', ''-generate-type-units''] else []))"

definition debug_steps :: "cc_env \<Rightarrow> ToolChain \<Rightarrow> ArgList \<Rightarrow> step" where
  "debug_steps E TC Args = steps [
     claim_args E [Link OPT_g_Group],
     \<lambda>r. bnd (debug_level E Args) (\<lambda>level. add (debug_arguments E TC Args level) r),
     claim_args E [CC ''g_flags_Group'']]"

end
