(* ===== verification/CompileJob.thy ===== *)
theory CompileJob
  imports OutputArgs DebugArgs
begin

text \<open>
  Clang's compile job (\<open>Tools.cpp\<close>, \<open>Clang::ConstructJob\<close>): the parts of the theories before, in the order in
  which the function has them. \<open>CArgs\<close> are the arguments of the compilation, \<open>Args\<close> those of the tool chain,
  \<open>m\<close> its object \<open>SanitizerArgs\<close>.
\<close>

subsection \<open>The arguments\<close>

definition sanitizer_step :: "sanitizers \<Rightarrow> sanitizer_args \<Rightarrow> needs \<Rightarrow> cc_env \<Rightarrow> ToolChain \<Rightarrow> ArgList \<Rightarrow> step" where
  "sanitizer_step K m N E TC Args =
     (\<lambda>(CmdArgs, D). addArgs K TC Args (cc_ask E IsCXX) (needsStatsRt N) m CmdArgs D)"

text \<open>Up to the options of the target.\<close>

definition code_steps :: "sanitizers \<Rightarrow> arm_parser \<Rightarrow> sanitizer_args \<Rightarrow> cc_env \<Rightarrow> ToolChain \<Rightarrow> ArgList \<Rightarrow> step" where
  "code_steps K P m E TC Args = steps [
     compile_kind E TC Args,
     relocation_steps E TC Args,
     generator_steps E TC Args,
     math_steps E Args,
     assembly_steps K m E TC Args,
     target_job P (j_target (cc_job E)) TC Args]"

text \<open>Debug information, profiles, headers and the preprocessor.\<close>

definition input_steps :: "cc_env \<Rightarrow> ToolChain \<Rightarrow> (string \<Rightarrow> string) \<Rightarrow> ArgList \<Rightarrow> ArgList \<Rightarrow> step" where
  "input_steps E TC GetClPchPath CArgs Args = steps [
     driver_steps E TC Args,
     debug_steps E TC Args,
     section_steps E (tc_EffectiveTriple TC) Args,
     addPGOAndCoverageFlags E TC Args CArgs,
     add_if (t_isPS4CPU (tc_Triple TC)) (addPS4ProfileRTArgs Args),
     header_steps E Args,
     arcmt_steps E Args,
     objcmt_steps E Args,
     step_if (cc_ask E HasPreprocessedType) (AddPreprocessingOptions E TC GetClPchPath Args),
     claim_args E [CC ''D'']]"

definition front_steps :: "cc_env \<Rightarrow> ToolChain \<Rightarrow> ArgList \<Rightarrow> step" where
  "front_steps E TC Args = steps [
     optimisation_steps E Args,
     language_steps E TC Args,
     limit_steps E Args,
     forward_steps E TC Args,
     openmp_steps E Args]"

definition back_steps :: "cc_env \<Rightarrow> objc_env \<Rightarrow> ToolChain \<Rightarrow> ArgList \<Rightarrow> step" where
  "back_steps E R TC Args = steps [
     altivec_steps TC Args,
     trap_steps E Args,
     machine_steps E TC Args (IsHosted Args),
     builtin_steps Args,
     blocks_steps E Args,
     module_steps E TC Args,
     dialect_steps E R TC Args,
     diagnostic_steps E Args,
     vector_steps E Args,
     report_steps E TC Args]"

text \<open>The name of the file for split debug information is also an argument.\<close>

definition SplitDwarf :: "cc_env \<Rightarrow> ToolChain \<Rightarrow> Arg option \<Rightarrow> bool" where
  "SplitDwarf E TC SplitDwarfArg \<longleftrightarrow>
     splits TC SplitDwarfArg \<and> (cc_JA E = AssembleJob \<or> cc_JA E = CompileJob \<or> cc_JA E = BackendJob)"

definition split_name :: "cc_env \<Rightarrow> ToolChain \<Rightarrow> ArgList \<Rightarrow> string option res" where
  "split_name E TC Args =
     bnd (debug_level E Args) (\<lambda>(_, SplitDwarfArg).
       if SplitDwarf E TC SplitDwarfArg then bnd (SplitDebugName (cc_job E) Args) (\<lambda>F. Inr (Some F)) else Inr None)"

definition final_tail :: "cc_env \<Rightarrow> ToolChain \<Rightarrow> ArgList \<Rightarrow> step" where
  "final_tail E TC Args = steps [
     all_args E [CC ''undef''],
     add (dwarf_debug_flags (cc_job E) Args),
     \<lambda>r. bnd (split_name E TC Args) (\<lambda>F. (case F of None \<Rightarrow> add [] | Some F \<Rightarrow> add [''-split-dwarf-file'', F]) r),
     offload_steps E Args,
     whole_program E Args]"

definition final_steps :: "cc_env \<Rightarrow> ToolChain \<Rightarrow> ArgList \<Rightarrow> step" where
  "final_steps E TC Args = steps [add (file_args E Args), final_tail E TC Args]"

definition compile_args :: "sanitizers \<Rightarrow> arm_parser \<Rightarrow> sanitizer_args \<Rightarrow> needs \<Rightarrow> cc_env \<Rightarrow> objc_env \<Rightarrow> ToolChain \<Rightarrow>
    (string \<Rightarrow> string) \<Rightarrow> ArgList \<Rightarrow> ArgList \<Rightarrow> step" where
  "compile_args K P m N E R TC GetClPchPath CArgs Args = steps [
     code_steps K P m E TC Args,
     input_steps E TC GetClPchPath CArgs Args,
     front_steps E TC Args,
     sanitizer_step K m N E TC Args,
     back_steps E R TC Args,
     final_steps E TC Args]"

subsection \<open>The commands\<close>

text \<open>In the fallback mode of \<open>clang-cl\<close> the command carries another one, or counts as a success in any case.\<close>

datatype CommandKind = Command | FallbackCommand "string \<times> string list" | ForceSuccessCommand

definition command_kind :: "cc_env \<Rightarrow> ArgList \<Rightarrow> CommandKind res" where
  "command_kind E Args =
     (if has_opt Args ''_SLASH_fallback'' \<and> cc_OutputType E = T_Object \<and> (cc_InputType E = T_C \<or> cc_InputType E = T_CXX)
      then bnd (GetCommand E Args) (\<lambda>CLCommand. Inr (FallbackCommand CLCommand))
      else Inr (if has_opt Args ''_SLASH_fallback'' \<and> cc_JA E = PrecompileJob then ForceSuccessCommand else Command))"

definition split_commands :: "cc_env \<Rightarrow> ToolChain \<Rightarrow> ArgList \<Rightarrow> job res" where
  "split_commands E TC Args =
     bnd (split_name E TC Args) (\<lambda>F.
       case F of
         None \<Rightarrow> Inr []
       | Some OutFile \<Rightarrow>
           if cc_OutputType E = T_Object
           then bnd (output_name E) (\<lambda>Out. Inr (SplitDebugInfo (cc_job E) Out OutFile)) else Inr [])"

text \<open>The last diagnostic and the arguments that count as used.\<close>

definition last_claims :: "cc_env \<Rightarrow> ArgList \<Rightarrow> drv \<Rightarrow> drv" where
  "last_claims E Args D =
     claim_all (cc_job E) [CC ''fpch_preprocess'', CC ''clang_ignored_f_Group'', CC ''clang_ignored_m_Group'', Link OPT_emit_llvm]
       (case getLastArg Args [Tool OPT_pg] of
          None \<Rightarrow> D
        | Some A \<Rightarrow> Diag_if (hasArg Args [Tool OPT_fomit_frame_pointer])
            (err_drv_argument_not_allowed_with ''-fomit-frame-pointer'' (a_string A)) D)"

record compile_job =
  cj_kind :: CommandKind
  cj_args :: "string list"
  cj_split :: job
  cj_CDB :: "string option"
  cj_drv :: drv

definition Clang_ConstructJob :: "sanitizers \<Rightarrow> arm_parser \<Rightarrow> sanitizer_args \<Rightarrow> needs \<Rightarrow> cdb_env \<Rightarrow> cc_env \<Rightarrow> objc_env \<Rightarrow>
    ToolChain \<Rightarrow> (string \<Rightarrow> string) \<Rightarrow> ArgList \<Rightarrow> ArgList \<Rightarrow> string option \<Rightarrow> drv \<Rightarrow> compile_job res" where
  "Clang_ConstructJob K P m N C E R TC GetClPchPath CArgs Args CDB D =
     (let TripleStr = t_str (tc_EffectiveTriple TC)
      in bnd (steps [compile_inputs E, add [''-cc1'', ''-triple'', TripleStr]] ([], D)) (\<lambda>(c0, D0).
         bnd (database C E Args TripleStr (CDB, D0)) (\<lambda>(CDB1, D1).
         bnd (compile_args K P m N E R TC GetClPchPath CArgs Args (c0, D1)) (\<lambda>(CmdArgs, D2).
         bnd (command_kind E Args) (\<lambda>kind.
         bnd (split_commands E TC Args) (\<lambda>split.
           Inr \<lparr>cj_kind = kind, cj_args = CmdArgs, cj_split = split, cj_CDB = CDB1, cj_drv = last_claims E Args D2\<rparr>))))))"

end
