(* ===== verification/ArmFacts.thy ===== *)
theory ArmFacts
  imports ArmTools SanitizerFacts
begin

text \<open>
  Facts about the ARM target of \<open>ArmTools\<close>: every step of \<open>getARMTargetFeatures\<close> returns and only appends
  features and diagnostics, and a soft float ABI ends with NEON switched off.
\<close>

subsection \<open>Steps only append\<close>

definition extends :: "feats \<Rightarrow> feats \<Rightarrow> bool" where
  "extends fd fd' \<longleftrightarrow> (\<exists>fs ds. fst fd' = fst fd @ fs \<and> diags (snd fd') = diags (snd fd) @ ds)"

lemma extends_refl [simp, intro]: "extends fd fd"
  by (simp add: extends_def)

lemma extends_trans [trans]: "extends fd fd' \<Longrightarrow> extends fd' fd'' \<Longrightarrow> extends fd fd''"
  by (fastforce simp: extends_def)

lemma diags_if_append: "\<exists>ds. diags (Diag_if b d D) = diags D @ ds"
  by (simp add: Diag_if_def)

lemma extends_step: "extends fd fd' \<Longrightarrow> (\<And>x. extends x (f x)) \<Longrightarrow> extends fd (f fd')"
  by (blast intro: extends_trans)

lemma extends_report [simp, intro]: "extends fd (report b d fd)"
  by (cases fd) (simp add: extends_def report_def diags_if_append)

lemma extends_push [simp, intro]: "extends fd (push F fd)"
  by (cases fd) (simp add: extends_def push_def)

lemma extends_unused [simp, intro]: "extends fd (unused A fd)"
  by (simp add: unused_def)

lemma extends_add_parsed [simp, intro]: "extends fd (add_parsed r A fd)"
  by (cases fd) (simp add: extends_def add_parsed_def diags_if_append)

lemma decode_features_appends: "\<exists>fs. snd (decode_features P Fs Features) = Features @ fs"
proof (induction Fs arbitrary: Features)
  case (Cons F Fs)
  from Cons.IH [of "Features @ [getArchExtFeature P F]"] show ?case by (auto simp: Let_def)
qed simp

lemma extends_check_name [simp, intro]: "extends fd (check_name P invalid e A fd)"
proof (cases fd)
  case (Pair Features D)
  obtain ok Features' where d: "DecodeARMFeatures P e Features = (ok, Features')" by fastforce
  then obtain fs where "Features' = Features @ fs"
    using decode_features_appends [of P "split_all e" Features] by (auto simp: DecodeARMFeatures_def)
  with Pair d show ?thesis by (simp add: extends_def check_name_def diags_if_append)
qed

lemma extends_fold: "(\<And>x fd. extends fd (f x fd)) \<Longrightarrow> extends fd (fold f xs fd)"
proof (induction xs arbitrary: fd)
  case (Cons x xs)
  have "extends fd (f x fd)" by (rule Cons.prems)
  also have "extends (f x fd) (fold f xs (f x fd))" by (rule Cons.IH) (rule Cons.prems)
  finally show ?case by simp
qed simp

lemma extends_native [simp, intro]: "extends fd (native_features P CPUName fd)"
  by (auto simp: native_features_def split: option.split intro: extends_fold)

subsection \<open>Steps return\<close>

lemma overridden_returns:
  "has_value Wa \<Longrightarrow> has_value Plain \<Longrightarrow> \<exists>r fd'. overridden Wa n Plain fd = Inr (r, fd') \<and> extends fd fd'"
  by (auto simp: overridden_def has_value_def getValue_hd simp del: split_paired_Ex split: option.split)

lemma march_returns:
  assumes "args_valued Args" and "has_value (WaArch w)"
  shows "\<exists>N fd'. march_features P T Args w fd = Inr (N, fd') \<and> extends fd fd'"
proof -
  have "has_value (getLastArg Args [Tool OPT_march_EQ])"
    using assms(1) by (rule has_value_last) (simp add: valued_def)
  from overridden_returns [OF assms(2) this, of 7 fd] obtain r fd1 where
    "overridden (WaArch w) 7 (getLastArg Args [Tool OPT_march_EQ]) fd = Inr (r, fd1)" "extends fd fd1" by blast
  then show ?thesis
    by (auto simp: march_features_def checkARMArchName_def Let_def simp del: split_paired_Ex
        split: option.split intro: extends_step)
qed

lemma mcpu_returns:
  assumes "args_valued Args" and "has_value (WaCPU w)"
  shows "\<exists>N fd'. mcpu_features P T Args w AN fd = Inr (N, fd') \<and> extends fd fd'"
proof -
  have "has_value (getLastArg Args [Tool OPT_mcpu_EQ])"
    using assms(1) by (rule has_value_last) (simp add: valued_def)
  from overridden_returns [OF assms(2) this, of 6 fd] obtain r fd1 where
    "overridden (WaCPU w) 6 (getLastArg Args [Tool OPT_mcpu_EQ]) fd = Inr (r, fd1)" "extends fd fd1" by blast
  then show ?thesis
    by (auto simp: mcpu_features_def checkARMCPUName_def simp del: split_paired_Ex
        split: option.split intro: extends_step)
qed

lemma mfpu_returns:
  assumes "args_valued Args" and "has_value (WaFPU w)"
  shows "\<exists>fd'. mfpu_features P Args w fd = Inr fd' \<and> extends fd fd'"
proof -
  have "has_value (getLastArg Args [Tool OPT_mfpu_EQ])"
    using assms(1) by (rule has_value_last) (simp add: valued_def)
  from overridden_returns [OF assms(2) this, of 6 fd] obtain r fd1 where
    "overridden (WaFPU w) 6 (getLastArg Args [Tool OPT_mfpu_EQ]) fd = Inr (r, fd1)" "extends fd fd1" by blast
  then show ?thesis
    by (auto simp: mfpu_features_def getARMFPUFeatures_def simp del: split_paired_Ex
        split: option.split intro: extends_step)
qed

lemma mhwdiv_returns:
  assumes "args_valued Args" and "has_value (WaHDiv w)"
  shows "\<exists>fd'. mhwdiv_features P Args w fd = Inr fd' \<and> extends fd fd'"
proof -
  have "has_value (getLastArg Args [Tool OPT_mhwdiv_EQ])"
    using assms(1) by (rule has_value_last) (simp add: valued_def)
  from overridden_returns [OF assms(2) this, of 8 fd] obtain r fd1 where
    "overridden (WaHDiv w) 8 (getLastArg Args [Tool OPT_mhwdiv_EQ]) fd = Inr (r, fd1)" "extends fd fd1" by blast
  then show ?thesis
    by (auto simp: mhwdiv_features_def getARMHWDivFeatures_def simp del: split_paired_Ex
        split: option.split intro: extends_step)
qed

definition wa_valued :: "wa_args \<Rightarrow> bool" where
  "wa_valued w \<longleftrightarrow> has_value (WaCPU w) \<and> has_value (WaFPU w) \<and> has_value (WaHDiv w) \<and> has_value (WaArch w)"

lemma wa_valued_update:
  "wa_valued w \<Longrightarrow> a_values A \<noteq> [] \<Longrightarrow> wa_valued (w\<lparr>WaCPU := Some A\<rparr>)"
  "wa_valued w \<Longrightarrow> a_values A \<noteq> [] \<Longrightarrow> wa_valued (w\<lparr>WaFPU := Some A\<rparr>)"
  "wa_valued w \<Longrightarrow> a_values A \<noteq> [] \<Longrightarrow> wa_valued (w\<lparr>WaHDiv := Some A\<rparr>)"
  "wa_valued w \<Longrightarrow> a_values A \<noteq> [] \<Longrightarrow> wa_valued (w\<lparr>WaArch := Some A\<rparr>)"
  by (simp_all add: wa_valued_def has_value_def)

lemma find_wa_returns:
  "\<forall>A \<in> set As. a_values A \<noteq> [] \<Longrightarrow> wa_valued w \<Longrightarrow> \<exists>w'. find_wa As w = Inr w' \<and> wa_valued w'"
proof (induction As arbitrary: w)
  case (Cons A As)
  then have A: "a_values A \<noteq> []" by simp
  from Cons.prems A show ?case
    by (simp add: getValue_hd Cons.IH wa_valued_update)
qed simp

subsection \<open>The float ABI is always chosen\<close>

definition more :: "drv \<Rightarrow> drv \<Rightarrow> bool" where
  "more D D' \<longleftrightarrow> (\<exists>ds. diags D' = diags D @ ds)"

lemma more_intros [simp, intro]: "more D D" "more D (Diag d D)" "more D (Diag_if b d D)"
  by (simp_all add: more_def Diag_if_def)

lemma more_trans [trans]: "more D D' \<Longrightarrow> more D' D'' \<Longrightarrow> more D D''"
  by (fastforce simp: more_def)

lemma default_float_abi_chosen:
  "fst (default_float_abi P T D) \<noteq> FloatInvalid \<and> more D (snd (default_float_abi P T D))"
  by (auto simp: default_float_abi_def darwin_float_abi_def env_float_abi_def split: EnvironmentType.split)

lemma float_abi_option_returns:
  "a_opt A = Tool OPT_mfloat_abi_EQ \<longrightarrow> a_values A \<noteq> [] \<Longrightarrow>
   a_opt A \<in> Tool ` {OPT_msoft_float, OPT_mhard_float, OPT_mfloat_abi_EQ} \<Longrightarrow>
   \<exists>ABI D'. float_abi_option A D = Inr (ABI, D') \<and> more D D'"
  by (auto simp: float_abi_option_def getValue_hd)

lemma getARMFloatABI_returns:
  assumes "args_valued Args"
  shows "\<exists>ABI D'. getARMFloatABI P TC Args D = Inr (ABI, D') \<and> ABI \<noteq> FloatInvalid \<and> more D D'"
proof -
  let ?T = "tc_EffectiveTriple TC"
  let ?A = "getLastArg Args [Tool OPT_msoft_float, Tool OPT_mhard_float, Tool OPT_mfloat_abi_EQ]"
  have choice: "\<exists>ABI' D'. (let (ABI', D3) = (if ABI = FloatInvalid then default_float_abi P ?T D2 else (ABI, D2))
      in if ABI' = FloatInvalid then Inl Unreachable else Inr (ABI', D3)) = Inr (ABI', D')
      \<and> ABI' \<noteq> FloatInvalid \<and> more D2 D'" for ABI D2
    using default_float_abi_chosen [of P ?T D2] by (cases "default_float_abi P ?T D2") auto
  show ?thesis
  proof (cases ?A)
    case None
    then show ?thesis using choice [of FloatInvalid D] by (simp add: getARMFloatABI_def Let_def)
  next
    case (Some A)
    with assms have "a_opt A = Tool OPT_mfloat_abi_EQ \<longrightarrow> a_values A \<noteq> []"
      "a_opt A \<in> Tool ` {OPT_msoft_float, OPT_mhard_float, OPT_mfloat_abi_EQ}"
      using getLastArg_opt [OF assms _ Some] by (auto simp: valued_def option_groups_def)
    from float_abi_option_returns [OF this, of D] obtain ABI D1 where
      o: "float_abi_option A D = Inr (ABI, D1)" "more D D1" by blast
    let ?D2 = "Diag_if (t_isOSBinFormatMachO ?T \<and> \<not> useAAPCSForMachO P ?T \<and> ABI = FloatHard)
      (err_drv_unsupported_opt_for_target (a_string A) (t_ArchName ?T)) D1"
    from choice [of ABI ?D2] obtain ABI' D' where
      c: "(let (ABI', D3) = (if ABI = FloatInvalid then default_float_abi P ?T ?D2 else (ABI, ?D2))
        in if ABI' = FloatInvalid then Inl Unreachable else Inr (ABI', D3)) = Inr (ABI', D')"
      "ABI' \<noteq> FloatInvalid" "more ?D2 D'" by blast
    have "getARMFloatABI P TC Args D = Inr (ABI', D')"
      unfolding getARMFloatABI_def Let_def [of ?T] Some option.case o(1) bnd_Inr prod.case by (rule c(1))
    moreover have "more D D'" using o(2) c(3) by (meson more_intros(3) more_trans)
    ultimately show ?thesis using c(2) by blast
  qed
qed

subsection \<open>The features\<close>

text \<open>The features that the options after the float ABI may add.\<close>

definition late_features :: "string set" where
  "late_features = {''+crc'', ''-crc'', ''+long-calls'', ''+strict-align'', ''+reserve-r9'', ''+no-movt''}"

definition adds_late :: "feats \<Rightarrow> feats \<Rightarrow> bool" where
  "adds_late fd fd' \<longleftrightarrow> (\<exists>fs. fst fd' = fst fd @ fs \<and> set fs \<subseteq> late_features \<and> more (snd fd) (snd fd'))"

lemma adds_late_trans [trans]: "adds_late fd fd' \<Longrightarrow> adds_late fd' fd'' \<Longrightarrow> adds_late fd fd''"
  by (fastforce simp: adds_late_def intro: more_trans)

lemma adds_late_push_if [simp, intro]: "F \<in> late_features \<Longrightarrow> adds_late fd (push_if b F fd)"
  by (cases fd) (simp add: adds_late_def push_if_def push_def)

lemma adds_late_report [simp, intro]: "adds_late fd (report b d fd)"
  by (cases fd) (simp add: adds_late_def report_def)

lemma adds_late_refl [simp, intro]: "adds_late fd fd"
  by (simp add: adds_late_def)

lemma adds_late_push [simp, intro]: "F \<in> late_features \<Longrightarrow> adds_late fd (push F fd)"
  by (cases fd) (simp add: adds_late_def push_def)

lemma adds_late_options:
  "adds_late fd (crc_features Args fd)"
  "adds_late fd (long_calls_features T Args K fd)"
  "adds_late fd (snd (execute_only P T Args CmdArgs fd))"
  "adds_late fd (strict_align P T Args K fd)"
  by (auto simp: crc_features_def long_calls_features_def execute_only_def strict_align_def
      late_features_def split: option.split)

lemma tail_adds_late:
  assumes "execute_only P T Args CmdArgs (long_calls_features T Args K (crc_features Args fd)) = (C', fd7)"
  shows "adds_late fd (push_if b ''+no-movt'' (push_if c ''+reserve-r9'' (strict_align P T Args K fd7)))"
proof -
  have "adds_late fd fd7"
    using assms adds_late_options(3) [of "long_calls_features T Args K (crc_features Args fd)" P T Args CmdArgs]
    by simp (meson adds_late_options(1,2) adds_late_trans)
  also have "adds_late fd7 (strict_align P T Args K fd7)" by (rule adds_late_options)
  also have "adds_late (strict_align P T Args K fd7) (push_if c ''+reserve-r9'' (strict_align P T Args K fd7))"
    by (simp add: late_features_def)
  finally have "adds_late fd (push_if c ''+reserve-r9'' (strict_align P T Args K fd7))" .
  then show ?thesis by (rule adds_late_trans) (simp add: late_features_def)
qed

lemma checked_features:
  assumes "args_valued Args" and "wa_valued w"
  shows "\<exists>AN fd2 CN fd3 fd4 fd5. march_features P T Args w fd = Inr (AN, fd2) \<and>
    mcpu_features P T Args w AN fd2 = Inr (CN, fd3) \<and>
    mfpu_features P Args w (native_features P CN fd3) = Inr fd4 \<and>
    mhwdiv_features P Args w fd4 = Inr fd5 \<and> extends fd fd5"
proof -
  from assms(2) have wa: "has_value (WaArch w)" "has_value (WaCPU w)" "has_value (WaFPU w)" "has_value (WaHDiv w)"
    by (simp_all add: wa_valued_def)
  from march_returns [OF assms(1) wa(1)] obtain AN fd2 where
    f2: "march_features P T Args w fd = Inr (AN, fd2)" "extends fd fd2" by blast
  from mcpu_returns [OF assms(1) wa(2)] obtain CN fd3 where
    f3: "mcpu_features P T Args w AN fd2 = Inr (CN, fd3)" "extends fd2 fd3" by blast
  from mfpu_returns [OF assms(1) wa(3)] obtain fd4 where
    f4: "mfpu_features P Args w (native_features P CN fd3) = Inr fd4" "extends (native_features P CN fd3) fd4" by blast
  from mhwdiv_returns [OF assms(1) wa(4)] obtain fd5 where
    f5: "mhwdiv_features P Args w fd4 = Inr fd5" "extends fd4 fd5" by blast
  have "extends fd fd5"
    using f2(2) f3(2) f4(2) f5(2) extends_native by (meson extends_trans)
  with f2 f3 f4 f5 show ?thesis by blast
qed

lemma arm_features_shape:
  assumes "args_valued Args"
  shows "\<exists>ABI D1 C' mid late D'.
    getARMFloatABI P TC Args D = Inr (ABI, D1) \<and> ABI \<noteq> FloatInvalid \<and>
    getARMTargetFeatures P TC T Args ForAS CmdArgs (Features, D) =
      Inr (C', Features
        @ (if ForAS then [] else (if ABI = FloatSoft then [''+soft-float''] else [])
             @ (if ABI \<noteq> FloatHard then [''+soft-float-abi''] else []))
        @ mid @ (if ABI = FloatSoft then [''-neon'', ''-crypto''] else []) @ late, D') \<and>
    set late \<subseteq> {''+crc'', ''-crc'', ''+long-calls'', ''+strict-align'', ''+reserve-r9'', ''+no-movt''} \<and>
    (\<exists>ds. diags D' = diags D @ ds)"
proof -
  let ?K = "hasArg Args [Tool OPT_mkernel, Tool OPT_fapple_kext]"
  obtain ABI D1 where abi: "getARMFloatABI P TC Args D = Inr (ABI, D1)" "ABI \<noteq> FloatInvalid" "more D D1"
    using getARMFloatABI_returns [OF assms] by blast
  have "\<forall>A \<in> set (filtered [Tool OPT_Wa_COMMA, Tool OPT_Xassembler] Args). a_values A \<noteq> []"
    using assms by (auto simp: args_valued_def filtered_def valued_def)
  moreover have "wa_valued no_wa" by (simp add: wa_valued_def no_wa_def has_value_def)
  ultimately obtain w where w: "(if ForAS then find_wa (filtered [Tool OPT_Wa_COMMA, Tool OPT_Xassembler] Args) no_wa
      else Inr no_wa) = Inr w" "wa_valued w"
    using find_wa_returns by (cases ForAS) (simp_all, blast)
  let ?soft = "if ForAS then [] else (if ABI = FloatSoft then [''+soft-float''] else [])
    @ (if ABI \<noteq> FloatHard then [''+soft-float-abi''] else [])"
  have f0: "(if ForAS then (Features, D1) else soft_float_features ABI (Features, D1)) = (Features @ ?soft, D1)"
    by (simp add: soft_float_features_def push_if_def push_def)
  from checked_features [OF assms w(2)] obtain AN fd2 CN fd3 fd4 fd5 where
    f2: "march_features P T Args w (Features @ ?soft, D1) = Inr (AN, fd2)" and
    f3: "mcpu_features P T Args w AN fd2 = Inr (CN, fd3)" and
    f4: "mfpu_features P Args w (native_features P CN fd3) = Inr fd4" and
    f5: "mhwdiv_features P Args w fd4 = Inr fd5" and ext: "extends (Features @ ?soft, D1) fd5" by blast
  from ext obtain mid where mid: "fst fd5 = (Features @ ?soft) @ mid" "more D1 (snd fd5)"
    by (auto simp: extends_def more_def)
  let ?fd6 = "long_calls_features T Args ?K (crc_features Args (no_neon ABI fd5))"
  obtain C' fd7 where x: "execute_only P T Args CmdArgs ?fd6 = (C', fd7)" by (rule prod.exhaust)
  let ?fd9 = "push_if (?K \<or> hasArg Args [Tool OPT_mno_movt]) ''+no-movt''
    (push_if (hasArg Args [Tool OPT_ffixed_r9]) ''+reserve-r9'' (strict_align P T Args ?K fd7))"
  from tail_adds_late [OF x] obtain late where late: "fst ?fd9 = fst (no_neon ABI fd5) @ late" "set late \<subseteq> late_features"
    "more (snd (no_neon ABI fd5)) (snd ?fd9)" unfolding adds_late_def by blast
  have neon: "fst (no_neon ABI fd5) = fst fd5 @ (if ABI = FloatSoft then [''-neon'', ''-crypto''] else [])"
    "snd (no_neon ABI fd5) = snd fd5" by (cases fd5; simp add: no_neon_def push_if_def push_def)+
  have "more D (snd ?fd9)" using late(3) unfolding neon(2)
    by (rule more_trans [OF more_trans [OF abi(3) mid(2)]])
  then obtain ds where ds: "diags (snd ?fd9) = diags D @ ds" by (auto simp: more_def)
  have "getARMTargetFeatures P TC T Args ForAS CmdArgs (Features, D) = Inr (C', ?fd9)"
    unfolding getARMTargetFeatures_def Let_def prod.case abi(1) bnd_Inr w(1) f0 f2 f3 f4 f5 x ..
  moreover have "?fd9 = (Features @ ?soft @ mid @ (if ABI = FloatSoft then [''-neon'', ''-crypto''] else []) @ late,
      snd ?fd9)"
    using late(1) neon(1) mid(1) by (intro prod_eqI) simp_all
  ultimately show ?thesis using abi(1,2) late(2) ds unfolding late_features_def by metis
qed

text \<open>
  C18: For a command line whose options have their values, \<open>getARMTargetFeatures\<close> returns, the float ABI is
  always chosen, and the feature list is extended in a fixed shape: for the compiler first the soft
  float features of that ABI, then what the architecture, CPU and FPU ask for, and with a soft float ABI
  after all of these \<open>-neon\<close> and \<open>-crypto\<close>, which nothing that follows reverts. Earlier diagnostics stay.
\<close>

theorem arm_target_features:
  assumes "args_valued Args"
  shows "\<exists>ABI D1 C' mid late D'.
    getARMFloatABI P TC Args D = Inr (ABI, D1) \<and> ABI \<noteq> FloatInvalid \<and>
    getARMTargetFeatures P TC T Args ForAS CmdArgs (Features, D) =
      Inr (C', Features
        @ (if ForAS then [] else (if ABI = FloatSoft then [''+soft-float''] else [])
             @ (if ABI \<noteq> FloatHard then [''+soft-float-abi''] else []))
        @ mid @ (if ABI = FloatSoft then [''-neon'', ''-crypto''] else []) @ late, D') \<and>
    set late \<subseteq> {''+crc'', ''-crc'', ''+long-calls'', ''+strict-align'', ''+reserve-r9'', ''+no-movt''} \<and>
    (\<exists>ds. diags D' = diags D @ ds)"
  using assms by (rule arm_features_shape)

text \<open>Soft float asked for together with a NEON unit on the embedded triple.\<close>

definition demo_arm :: arm_parser where
  "demo_arm = \<lparr>parseArchVersion = (\<lambda>_. 7), parseArchProfile_is_M = (\<lambda>_. False), parseArch = (\<lambda>_. AK_other 1),
     parseCPUArch = (\<lambda>_. AK_other 1), getSubArch = (\<lambda>_. ''v7''), getARMCPUForArch = (\<lambda>_ _. ''generic''),
     getArchExtFeature = (\<lambda>_. []), getHWDivFeatures = (\<lambda>_. (True, [])),
     getFPUFeatures = (\<lambda>_. (True, [''+neon''])), getHostCPUName = ''generic'', getHostCPUFeatures = None\<rparr>"

definition demo_float_line :: ArgList where
  "demo_float_line = demo_args [demo_arg 0 (Tool OPT_mfpu_EQ) [''neon''], demo_arg 1 (Tool OPT_msoft_float) []]"

lemma demo_float_line_valued: "args_valued demo_float_line"
  by (auto simp: args_valued_def demo_float_line_def demo_args_def demo_arg_def valued_def
      find_Some_iff find_None_iff split: if_splits)

theorem arm_target_features_witness:
  "args_valued demo_float_line \<and>
   (\<exists>ABI D1 C' mid late D'.
    getARMFloatABI demo_arm demo_TC demo_float_line \<lparr>diags = [], claimed = []\<rparr> = Inr (ABI, D1) \<and> ABI \<noteq> FloatInvalid \<and>
    getARMTargetFeatures demo_arm demo_TC demo_triple demo_float_line False [] ([], \<lparr>diags = [], claimed = []\<rparr>) =
      Inr (C', []
        @ (if False then [] else (if ABI = FloatSoft then [''+soft-float''] else [])
             @ (if ABI \<noteq> FloatHard then [''+soft-float-abi''] else []))
        @ mid @ (if ABI = FloatSoft then [''-neon'', ''-crypto''] else []) @ late, D') \<and>
    set late \<subseteq> {''+crc'', ''-crc'', ''+long-calls'', ''+strict-align'', ''+reserve-r9'', ''+no-movt''} \<and>
    (\<exists>ds. diags D' = diags \<lparr>diags = [], claimed = []\<rparr> @ ds))"
  using demo_float_line_valued arm_target_features [OF demo_float_line_valued] by blast

lemma demo_float_features:
  "getARMTargetFeatures demo_arm demo_TC demo_triple demo_float_line False [] ([], \<lparr>diags = [], claimed = []\<rparr>) =
     Inr ([], [''+soft-float'', ''+soft-float-abi'', ''+neon'', ''-neon'', ''-crypto''], \<lparr>diags = [], claimed = []\<rparr>)"
  by (simp add: getARMTargetFeatures_def getARMFloatABI_def float_abi_option_def demo_float_line_def demo_defs
      demo_arm_def no_wa_def march_features_def mcpu_features_def mfpu_features_def mhwdiv_features_def
      overridden_def getARMFPUFeatures_def add_parsed_def native_features_def getValue_def vget_def
      soft_float_features_def no_neon_def push_if_def push_def crc_features_def long_calls_features_def
      execute_only_def strict_align_def default_strict_align_def Diag_if_def Let_def
      getARMSubArchVersionNumber_def)

end
