(* ===== verification/TargetFacts.thy ===== *)
theory TargetFacts
  imports TargetFeatures ArmFacts
begin

text \<open>
  Facts about \<open>getTargetFeatures\<close>: it returns for every target, every feature has a sign, and every
  feature is passed on once, with the sign that was asked for last.
\<close>

subsection \<open>Features have a sign\<close>

definition all_signed :: "feats \<Rightarrow> bool" where
  "all_signed fd \<longleftrightarrow> (\<forall>F \<in> set (fst fd). has_sign F)"

definition parsers_signed :: "arm_parser \<Rightarrow> target_env \<Rightarrow> bool" where
  "parsers_signed P E \<longleftrightarrow>
     (\<forall>F. getArchExtFeature P F \<noteq> [] \<longrightarrow> has_sign (getArchExtFeature P F)) \<and>
     (\<forall>F. te_getArchExtFeature E F \<noteq> [] \<longrightarrow> has_sign (te_getArchExtFeature E F)) \<and>
     (\<forall>s. list_all has_sign (snd (getHWDivFeatures P s)) \<and> list_all has_sign (snd (getFPUFeatures P s))) \<and>
     (\<forall>k. list_all has_sign (snd (te_getArchFeatures E k))) \<and>
     (\<forall>n. list_all has_sign (snd (te_getExtensionFeatures E n))) \<and>
     (\<forall>G. \<forall>A \<in> set (te_group E G). option_feature (a_name A) \<noteq> None)"

declare split_paired_Ex [simp del] split_paired_All [simp del]

lemma has_sign_Cons [simp]: "has_sign (c # n) \<longleftrightarrow> c = CHR ''-'' \<or> c = CHR ''+''"
  by (simp add: has_sign_def)

lemma has_sign_choice: "has_sign ((if b then ''+'' else ''-'') @ n)"
  by simp

lemma signed_push [simp]: "has_sign F \<Longrightarrow> all_signed fd \<Longrightarrow> all_signed (push F fd)"
  by (cases fd) (auto simp: all_signed_def push_def)

lemma signed_push_if [simp]: "has_sign F \<Longrightarrow> all_signed fd \<Longrightarrow> all_signed (push_if b F fd)"
  by (simp add: push_if_def)

lemma signed_pushes [simp]: "list_all has_sign Fs \<Longrightarrow> all_signed fd \<Longrightarrow> all_signed (pushes Fs fd)"
  by (cases fd) (auto simp: all_signed_def pushes_def list_all_iff)

lemma signed_report [simp]: "all_signed (report b d fd) = all_signed fd"
  by (cases fd) (simp add: all_signed_def report_def)

lemma signed_unused [simp]: "all_signed (unused A fd) = all_signed fd"
  by (simp add: unused_def)

lemma signed_add_parsed [simp]: "list_all has_sign (snd r) \<Longrightarrow> all_signed fd \<Longrightarrow> all_signed (add_parsed r A fd)"
  by (cases fd) (auto simp: all_signed_def add_parsed_def list_all_iff)

lemma signed_AddTargetFeature [simp]: "all_signed fd \<Longrightarrow> all_signed (AddTargetFeature Args On Off F fd)"
  by (simp add: AddTargetFeature_def split: option.split)

lemma signed_fold: "(\<And>x fd. all_signed fd \<Longrightarrow> all_signed (f x fd)) \<Longrightarrow> all_signed fd \<Longrightarrow> all_signed (fold f xs fd)"
  by (induction xs arbitrary: fd) simp_all

text \<open>The groups of options.\<close>

lemma option_feature_sign: "option_feature n = Some F \<Longrightarrow> has_sign F"
  by (auto simp: option_feature_def split: option.splits)

lemma handle_features_eq:
  "\<forall>A \<in> set As. option_feature (a_name A) \<noteq> None \<Longrightarrow>
     handle_features As (Features, D) =
       Inr (Features @ map (\<lambda>A. the (option_feature (a_name A))) As, fold claim As D)"
  by (induction As arbitrary: Features D) auto

lemma group_ok:
  assumes "parsers_signed P E" and "all_signed fd"
  shows "\<exists>fd'. handleTargetFeaturesGroup E G fd = Inr fd' \<and> all_signed fd'"
proof -
  obtain Features D where fd: "fd = (Features, D)" by (cases fd)
  have known: "\<forall>A \<in> set (te_group E G). option_feature (a_name A) \<noteq> None"
    using assms(1) by (simp add: parsers_signed_def)
  have "\<forall>A \<in> set (te_group E G). has_sign (the (option_feature (a_name A)))"
    using known option_feature_sign by fastforce
  with assms(2) show ?thesis
    by (auto simp: fd handleTargetFeaturesGroup_def handle_features_eq [OF known] all_signed_def)
qed

subsection \<open>Every target but ARM and AArch64\<close>

lemma chosen_float_abi_ok:
  assumes "args_valued Args"
  shows "\<exists>ABI D'. chosen_float_abi Args D = Inr (ABI, D')"
proof (cases "getLastArg Args [Tool OPT_msoft_float, Tool OPT_mhard_float, Tool OPT_mfloat_abi_EQ]")
  case (Some A)
  have "a_opt A \<in> {Tool OPT_msoft_float, Tool OPT_mhard_float, Tool OPT_mfloat_abi_EQ} \<and>
      (a_opt A \<in> valued \<longrightarrow> a_values A \<noteq> [])"
    using getLastArg_opt [OF assms _ Some] by (simp add: option_groups_def)
  then show ?thesis by (auto simp: chosen_float_abi_def Some getValue_hd Let_def)
qed (simp add: chosen_float_abi_def)

lemma value_of_last:
  assumes "args_valued Args" and "opt \<in> valued"
  shows "getLastArg Args [opt] = Some A \<Longrightarrow> getValue A = Inr (hd (a_values A))"
  using has_value_last [OF assms(1), of "[opt]"] assms(2) by (auto simp: has_value_def getValue_hd)

lemma mips_nan_ok:
  assumes "args_valued Args" and "all_signed fd"
  shows "\<exists>fd'. mips_nan Args CPU fd = Inr fd' \<and> all_signed fd'"
  using assms(2) value_of_last [OF assms(1), of "Mips OPT_mnan_EQ"]
  by (simp add: mips_nan_def split: option.split)

lemma mips_ok:
  assumes "args_valued Args" and "t_Arch T \<in> mips_archs" and "all_signed fd"
  shows "\<exists>fd'. getMIPSTargetFeatures T Args fd = Inr fd' \<and> all_signed fd'"
proof -
  obtain CPU ABI0 where c: "getMipsCPUAndABI Args T = Inr (CPU, ABI0)"
    using getMipsCPUAndABI_ok [OF assms(1,2)] by blast
  obtain F D where fd1: "AddTargetFeature Args (Mips OPT_mno_abicalls) (Mips OPT_mabicalls) ''noabicalls'' fd = (F, D)"
    by fastforce
  have "all_signed (F, D)" using assms(3) unfolding fd1 [symmetric] by simp
  moreover obtain ABI D1 where abi: "getMipsFloatABI Args D = Inr (ABI, D1)"
    using chosen_float_abi_ok [OF assms(1), of D] by (auto simp: getMipsFloatABI_def)
  ultimately have "all_signed (push_if (ABI = FloatSoft) ''+soft-float'' (F, D1))"
    by (simp add: all_signed_def push_if_def push_def)
  from mips_nan_ok [OF assms(1) this, of CPU] obtain fd2 where
    nan: "mips_nan Args CPU (push_if (ABI = FloatSoft) ''+soft-float'' (F, D1)) = Inr fd2" "all_signed fd2" by blast
  have "all_signed (mips_fp Args T CPU n ABI x)" if "all_signed x" for n x
    using that by (simp add: mips_fp_def split: option.split)
  then show ?thesis
    using nan(2) by (simp add: getMIPSTargetFeatures_def c fd1 abi nan(1) Let_def)
qed

lemma ppc_ok:
  assumes "args_valued Args" and "parsers_signed P E" and "all_signed fd"
  shows "\<exists>fd'. getPPCTargetFeatures E Args fd = Inr fd' \<and> all_signed fd'"
proof -
  obtain F D where g: "handleTargetFeaturesGroup E (Tgt OPT_m_ppc_Features_Group) fd = Inr (F, D)" "all_signed (F, D)"
    using group_ok [OF assms(2,3), of "Tgt OPT_m_ppc_Features_Group"] by auto
  obtain ABI D1 where abi: "getPPCFloatABI Args D = Inr (ABI, D1)"
    using chosen_float_abi_ok [OF assms(1), of D] by (auto simp: getPPCFloatABI_def)
  have "all_signed (F, D1)" using g(2) by (simp add: all_signed_def)
  then show ?thesis by (simp add: getPPCTargetFeatures_def g(1) abi)
qed

lemma sparc_ok:
  assumes "args_valued Args" and "all_signed fd"
  shows "\<exists>fd'. getSparcTargetFeatures Args fd = Inr fd' \<and> all_signed fd'"
proof -
  obtain F D where fd: "fd = (F, D)" by (cases fd)
  obtain ABI D1 where abi: "getSparcFloatABI Args D = Inr (ABI, D1)"
    using chosen_float_abi_ok [OF assms(1), of D] by (auto simp: getSparcFloatABI_def)
  have "all_signed (F, D1)" using assms(2) by (simp add: fd all_signed_def)
  then show ?thesis by (simp add: getSparcTargetFeatures_def fd abi)
qed

lemma systemz_signed: "all_signed fd \<Longrightarrow> all_signed (getSystemZTargetFeatures Args fd)"
  by (simp add: getSystemZTargetFeatures_def split: option.split)

lemma hexagon_ok:
  assumes "parsers_signed P E" and "all_signed fd"
  shows "\<exists>fd'. getHexagonTargetFeatures E Args fd = Inr fd' \<and> all_signed fd'"
  using group_ok [OF assms, of "Tgt OPT_m_hexagon_Features_Group"] by (auto simp: getHexagonTargetFeatures_def)

lemma amdgpu_ok:
  assumes "args_valued Args" and "parsers_signed P E" and "all_signed fd"
  shows "\<exists>fd'. getAMDGPUTargetFeatures E Args fd = Inr fd' \<and> all_signed fd'"
  using assms(3) group_ok [OF assms(2)] value_of_last [OF assms(1), of "Tgt OPT_mamdgpu_debugger_abi"]
  by (auto simp: getAMDGPUTargetFeatures_def split: option.split)

lemma slash_arch_signed: "slash_arch_features a Arch = (Fs, used) \<Longrightarrow> list_all has_sign Fs"
  by (auto simp: slash_arch_features_def Let_def split: if_splits)

lemma host_features_signed: "list_all has_sign (map (\<lambda>(name, on). (if on then ''+'' else ''-'') @ name) Fs)"
  by (induction Fs) (simp_all add: split_def)

lemma x86_host_ok:
  assumes "args_valued Args"
  shows "\<exists>host. x86_host_features P Args = Inr host \<and> list_all has_sign host"
proof (cases "getLastArg Args [Tool OPT_march_EQ]")
  case (Some A)
  have v: "getValue A = Inr (hd (a_values A))"
    using value_of_last [OF assms _ Some] by simp
  show ?thesis
    by (cases "getHostCPUFeatures P") (simp_all add: x86_host_features_def Some v host_features_signed)
qed (simp add: x86_host_features_def)

lemma x86_features_eq:
  assumes "args_valued Args"
  shows "\<exists>fd'. getX86TargetFeatures P E T Args fd = handleTargetFeaturesGroup E (Tgt OPT_m_x86_Features_Group) fd' \<and>
    (all_signed fd \<longrightarrow> all_signed fd')"
proof -
  obtain host where host: "x86_host_features P Args = Inr host" "list_all has_sign host"
    using x86_host_ok [OF assms] by blast
  have arch: "list_all has_sign (x86_arch_features T)" by (simp add: x86_arch_features_def)
  show ?thesis
  proof (cases "getLastArg Args [Tgt OPT__SLASH_arch]")
    case None
    then show ?thesis using host arch by (auto simp: getX86TargetFeatures_def)
  next
    case (Some A)
    obtain Fs used where s: "slash_arch_features (t_Arch T) (hd (a_values A)) = (Fs, used)" by fastforce
    with Some host arch slash_arch_signed [OF s] value_of_last [OF assms _ Some] show ?thesis
      by (auto simp: getX86TargetFeatures_def)
  qed
qed

subsection \<open>AArch64\<close>

definition knows_cyclone :: "target_env \<Rightarrow> bool" where
  "knows_cyclone E \<longleftrightarrow> (\<forall>fd. fst (DecodeAArch64Mcpu E ''cyclone'' fd))"

lemma decode_aarch64_signed:
  assumes "parsers_signed P E"
  shows "all_signed fd \<Longrightarrow> all_signed (snd (decode_aarch64 E Fs fd))"
  using assms
  by (induction E Fs fd rule: decode_aarch64.induct) (simp_all add: Let_def parsers_signed_def)

lemma extensions_after_signed:
  "parsers_signed P E \<Longrightarrow> all_signed fd \<Longrightarrow> all_signed (snd (extensions_after E rest fd))"
  by (simp add: extensions_after_def DecodeAArch64Features_def decode_aarch64_signed)

lemma parsers_signedD:
  assumes "parsers_signed P E"
  shows "list_all has_sign (snd (te_getArchFeatures E k))" "list_all has_sign (snd (te_getExtensionFeatures E n))"
    "list_all has_sign (snd (getHWDivFeatures P s))" "list_all has_sign (snd (getFPUFeatures P s))"
    "getArchExtFeature P F \<noteq> [] \<Longrightarrow> has_sign (getArchExtFeature P F)"
  using assms by (simp_all add: parsers_signed_def)

lemma mcpu_signed:
  assumes "parsers_signed P E" and "all_signed fd"
  shows "all_signed (snd (snd (DecodeAArch64Mcpu E Mcpu fd)))"
  using assms extensions_after_signed [OF assms(1)] parsers_signedD [OF assms(1)]
  by (auto simp: DecodeAArch64Mcpu_def Let_def split_def)

lemma march_signed:
  assumes "parsers_signed P E" and "all_signed fd"
  shows "all_signed (snd (getAArch64ArchFeaturesFromMarch E March fd))"
  using assms extensions_after_signed [OF assms(1)] parsers_signedD [OF assms(1)]
  by (auto simp: getAArch64ArchFeaturesFromMarch_def Let_def split_def)

lemma mtune_signed: "all_signed fd \<Longrightarrow> all_signed (snd (getAArch64MicroArchFeaturesFromMtune P Mtune fd))"
  by (simp add: getAArch64MicroArchFeaturesFromMtune_def Let_def)

lemma micro_mcpu_signed:
  assumes "all_signed fd"
  shows "all_signed (snd (getAArch64MicroArchFeaturesFromMcpu P E Mcpu fd))"
proof -
  obtain F D where fd: "fd = (F, D)" by (cases fd)
  have "all_signed (F, D')" for D' using assms by (simp add: fd all_signed_def)
  then show ?thesis
    by (simp add: fd getAArch64MicroArchFeaturesFromMcpu_def Let_def split_def mtune_signed)
qed

lemma arch_mcpu_signed:
  "parsers_signed P E \<Longrightarrow> all_signed fd \<Longrightarrow> all_signed (snd (getAArch64ArchFeaturesFromMcpu E Mcpu fd))"
  by (simp add: getAArch64ArchFeaturesFromMcpu_def Let_def split_def mcpu_signed)

text \<open>Without an argument to blame there is no failure: the CPU is then \<open>cyclone\<close>.\<close>

definition a64_ok :: "a64_state res \<Rightarrow> bool" where
  "a64_ok r \<longleftrightarrow> (\<exists>ok A fd. r = Inr (ok, A, fd) \<and> all_signed fd \<and> (A = None \<longrightarrow> ok))"

lemma blaming_ok: "all_signed (snd r) \<Longrightarrow> (A = None \<Longrightarrow> fst r) \<Longrightarrow> a64_ok (blaming A r)"
  by (cases r) (auto simp: blaming_def a64_ok_def)

lemma lower_cyclone: "lower ''cyclone'' = ''cyclone''"
  by (simp add: lower_def)

lemma cyclone_ok:
  assumes "knows_cyclone E"
  shows "fst (getAArch64ArchFeaturesFromMcpu E ''cyclone'' fd)" "fst (getAArch64MicroArchFeaturesFromMcpu P E ''cyclone'' fd)"
  using assms
  by (simp_all add: getAArch64ArchFeaturesFromMcpu_def getAArch64MicroArchFeaturesFromMcpu_def
      getAArch64MicroArchFeaturesFromMtune_def knows_cyclone_def lower_cyclone Let_def split_def)

lemma arch_cpu:
  assumes "args_valued Args" and "hasArg Args [Link OPT_arch]"
  shows "\<exists>CPU A. getAArch64TargetCPU P Args = Inr (CPU, A) \<and> (A = None \<longrightarrow> CPU = ''cyclone'')"
  using assms(2) value_of_last [OF assms(1), of "Link OPT_mtune_EQ"] value_of_last [OF assms(1), of "Tool OPT_mcpu_EQ"] assms(1)
  by (auto simp: getAArch64TargetCPU_def args_valued_def split: option.split)

lemma a64_arch_ok:
  assumes "args_valued Args" and "parsers_signed P E" and "knows_cyclone E" and "all_signed fd"
  shows "a64_ok (a64_arch P E Args fd)"
  using value_of_last [OF assms(1), of "Tool OPT_march_EQ"] value_of_last [OF assms(1), of "Tool OPT_mcpu_EQ"]
    arch_cpu [OF assms(1), of P] march_signed [OF assms(2,4)] arch_mcpu_signed [OF assms(2,4)] cyclone_ok(1) [OF assms(3), of fd]
    assms(4)
  by (auto simp: a64_arch_def intro!: blaming_ok split: option.split) (auto simp: a64_ok_def)

lemma a64_tune_ok:
  assumes "args_valued Args" and "knows_cyclone E" and "all_signed fd"
  shows "a64_ok (a64_tune P E Args fd)"
  using value_of_last [OF assms(1), of "Link OPT_mtune_EQ"] value_of_last [OF assms(1), of "Tool OPT_mcpu_EQ"]
    arch_cpu [OF assms(1), of P] mtune_signed [OF assms(3)] micro_mcpu_signed [OF assms(3)] cyclone_ok(2) [OF assms(2), of P fd]
    assms(3)
  by (auto simp: a64_tune_def intro!: blaming_ok split: option.split) (auto simp: a64_ok_def)

lemma aarch64_ok:
  assumes "args_valued Args" and "parsers_signed P E" and "knows_cyclone E" and "all_signed fd"
  shows "\<exists>fd'. getAArch64TargetFeatures P E Args fd = Inr fd' \<and> all_signed fd'"
proof -
  obtain ok1 A1 fd1 where a: "a64_arch P E Args (push ''+neon'' fd) = Inr (ok1, A1, fd1)" "all_signed fd1" "A1 = None \<longrightarrow> ok1"
    using a64_arch_ok [OF assms(1-3), of "push ''+neon'' fd"] assms(4) by (auto simp: a64_ok_def)
  obtain ok A fd2 where t: "(if ok1 then a64_tune P E Args fd1 else Inr (ok1, A1, fd1)) = Inr (ok, A, fd2)"
    "all_signed fd2" "A = None \<longrightarrow> ok"
    using a64_tune_ok [OF assms(1,3) a(2), of P] a(2,3) by (cases ok1) (auto simp: a64_ok_def)
  then show ?thesis
    by (cases A) (auto simp: getAArch64TargetFeatures_def a(1) Let_def split: option.split)
qed

subsection \<open>ARM\<close>

lemma decode_features_signed:
  "parsers_signed P E \<Longrightarrow> \<forall>F \<in> set Features. has_sign F \<Longrightarrow> \<forall>F \<in> set (snd (decode_features P Fs Features)). has_sign F"
  by (induction P Fs Features rule: decode_features.induct) (auto simp: Let_def parsers_signedD(5))

lemma check_name_signed:
  assumes "parsers_signed P E" and "all_signed fd"
  shows "all_signed (check_name P invalid e A fd)"
proof -
  obtain F D where fd: "fd = (F, D)" by (cases fd)
  have "\<forall>G \<in> set (snd (DecodeARMFeatures P e F)). has_sign G"
    using decode_features_signed [OF assms(1), of F "split_all e"] assms(2)
    by (simp add: fd all_signed_def DecodeARMFeatures_def)
  with assms(2) show ?thesis by (simp add: fd check_name_def all_signed_def split_def Let_def)
qed

lemma native_signed: "all_signed fd \<Longrightarrow> all_signed (native_features P CPUName fd)"
  by (auto simp: native_features_def intro!: signed_fold split: option.split)

lemma overridden_signed: "overridden Wa n Plain fd = Inr (r, fd') \<Longrightarrow> all_signed fd \<Longrightarrow> all_signed fd'"
  by (auto simp: overridden_def bnd_eq_Inr_iff split: option.splits)

lemma arm_steps_signed:
  assumes "parsers_signed P E" and "all_signed fd"
  shows "march_features P T Args w fd = Inr (n, fd') \<Longrightarrow> all_signed fd'"
    "mcpu_features P T Args w AN fd = Inr (n, fd') \<Longrightarrow> all_signed fd'"
    "mfpu_features P Args w fd = Inr fd' \<Longrightarrow> all_signed fd'"
    "mhwdiv_features P Args w fd = Inr fd' \<Longrightarrow> all_signed fd'"
  using assms(2) check_name_signed [OF assms(1)] parsers_signedD(3,4) [OF assms(1)]
  by (auto simp: march_features_def mcpu_features_def mfpu_features_def mhwdiv_features_def checkARMArchName_def
      checkARMCPUName_def getARMFPUFeatures_def getARMHWDivFeatures_def bnd_eq_Inr_iff Let_def
      dest!: overridden_signed split: option.splits)

lemma arm_tail_signed:
  assumes "all_signed fd"
  shows "all_signed (crc_features Args fd)" "all_signed (long_calls_features T Args K fd)"
    "all_signed (snd (execute_only P T Args C fd))" "all_signed (strict_align P T Args K fd)"
    "all_signed (no_neon ABI fd)" "all_signed (soft_float_features ABI fd)"
  using assms
  by (auto simp: crc_features_def long_calls_features_def execute_only_def strict_align_def no_neon_def
      soft_float_features_def split: option.split)

lemma arm_signed:
  assumes "parsers_signed P E" and "all_signed (Features, D)"
    and "getARMTargetFeatures P TC T Args ForAS CmdArgs (Features, D) = Inr (C', fd')"
  shows "all_signed fd'"
proof -
  let ?K = "hasArg Args [Tool OPT_mkernel, Tool OPT_fapple_kext]"
  let ?tail = "\<lambda>ABI fd. push_if (?K \<or> hasArg Args [Tool OPT_mno_movt]) ''+no-movt''
    (push_if (hasArg Args [Tool OPT_ffixed_r9]) ''+reserve-r9'' (strict_align P T Args ?K
      (snd (execute_only P T Args CmdArgs (long_calls_features T Args ?K (crc_features Args (no_neon ABI fd)))))))"
  obtain r0 w r1 r2 fd4 fd5 where f:
    "march_features P T Args w (if ForAS then (Features, snd r0) else soft_float_features (fst r0) (Features, snd r0)) = Inr r1"
    "mcpu_features P T Args w (fst r1) (snd r1) = Inr r2" "mfpu_features P Args w (native_features P (fst r2) (snd r2)) = Inr fd4"
    "mhwdiv_features P Args w fd4 = Inr fd5" "fd' = ?tail (fst r0) fd5"
    using assms(3) unfolding getARMTargetFeatures_def
    by (simp add: bnd_eq_Inr_iff Let_def split_def cong: if_cong) (elim exE conjE, erule (3) that, simp)
  have "all_signed (if ForAS then (Features, snd r0) else soft_float_features (fst r0) (Features, snd r0))"
    using arm_tail_signed(6) [of "(Features, snd r0)" "fst r0"] assms(2) by (simp add: all_signed_def)
  then have "all_signed (snd r1)" using arm_steps_signed(1) [OF assms(1)] f(1) by (metis prod.collapse)
  then have "all_signed (native_features P (fst r2) (snd r2))"
    using arm_steps_signed(2) [OF assms(1)] f(2) by (metis native_signed prod.collapse)
  from arm_steps_signed(3) [OF assms(1) this f(3)] have "all_signed fd4" .
  from arm_steps_signed(4) [OF assms(1) this f(4)] show ?thesis by (simp add: f(5) arm_tail_signed)
qed

lemma arm_ok:
  assumes "args_valued Args" and "parsers_signed P E" and "all_signed (Features, D)"
  shows "\<exists>C' fd'. getARMTargetFeatures P TC T Args ForAS CmdArgs (Features, D) = Inr (C', fd') \<and> all_signed fd'"
  using arm_features_shape [OF assms(1), of P TC D T ForAS CmdArgs Features] arm_signed [OF assms(2,3)] by metis

subsection \<open>All targets\<close>

lemma arch_features_ok:
  assumes "args_valued Args" and "parsers_signed P E" and "knows_cyclone E"
  shows "\<exists>C' Features D'. arch_features P E TC T Args ForAS CmdArgs ([], D) = Inr (C', Features, D') \<and>
    (\<forall>F \<in> set Features. has_sign F)"
proof -
  have s: "all_signed ([], D)" by (simp add: all_signed_def)
  have rest: "\<exists>C' Features D'. bnd r (\<lambda>fd'. Inr (CmdArgs, fd')) = Inr (C', Features, D') \<and>
      (\<forall>F \<in> set Features. has_sign F)" if "\<exists>fd'. r = Inr fd' \<and> all_signed fd'" for r
    using that by (auto simp: all_signed_def)
  have sz: "\<exists>Features D'. getSystemZTargetFeatures Args ([], D) = (Features, D') \<and> (\<forall>F \<in> set Features. has_sign F)"
    using systemz_signed [OF s, of Args] by (cases "getSystemZTargetFeatures Args ([], D)") (simp add: all_signed_def)
  have x86: "\<exists>fd'. getX86TargetFeatures P E T Args ([], D) = Inr fd' \<and> all_signed fd'"
    using x86_features_eq [OF assms(1), of P E T "([], D)"] group_ok [OF assms(2)] s by metis
  show ?thesis
    using arm_ok [OF assms(1,2) s, of TC T ForAS CmdArgs] sz
    by (auto simp: arch_features_def Let_def all_signed_def getWebAssemblyTargetFeatures_def
      simp del: ex_simps
      intro!: rest mips_ok [OF assms(1) _ s] ppc_ok [OF assms(1,2) s] aarch64_ok [OF assms s] x86 sparc_ok [OF assms(1) s]
        hexagon_ok [OF assms(2) s] amdgpu_ok [OF assms(1,2) s] group_ok [OF assms(2) s])
qed

lemma getTargetFeatures_eq:
  assumes "arch_features P E TC T Args ForAS CmdArgs ([], D) = Inr (C1, Features, D1)"
    and "\<forall>F \<in> set Features. has_sign F"
  shows "getTargetFeatures P E TC T Args ForAS (CmdArgs, D) = Inr (C1 @ feature_flags (last_of_each Features), D1)"
  using feature_loops [of Features C1 "C1 @ feature_flags (last_of_each Features)"] assms
  by (auto simp: getTargetFeatures_def bnd_eq_Inr_iff)

text \<open>
  C24: For every target and every command line, \<open>getTargetFeatures\<close> returns and passes each feature to the
  compiler exactly once, with the sign it was given last, in the order of these last occurrences. What is passed
  is \<open>Features\<close> without the entries that a later one of the same name follows. So no name is passed twice, and
  \<open>-target-feature +f\<close> is among the arguments exactly when the last of all entries for \<open>f\<close> is \<open>+f\<close>.
\<close>

theorem features_passed_once:
  assumes "args_valued Args" and "parsers_signed P E" and "knows_cyclone E"
  shows "\<exists>C1 Features D1 passed.
    arch_features P E TC T Args ForAS CmdArgs ([], D) = Inr (C1, Features, D1) \<and>
    getTargetFeatures P E TC T Args ForAS (CmdArgs, D) =
      Inr (C1 @ concat (map (\<lambda>F. [''-target-feature'', F]) passed), D1) \<and>
    passed = nths Features {i. \<forall>j. i < j \<and> j < length Features \<longrightarrow> tl (Features ! j) \<noteq> tl (Features ! i)} \<and>
    distinct (map tl passed) \<and>
    (\<forall>s f. s # f \<in> set passed \<longleftrightarrow>
      (\<exists>before after. Features = before @ (s # f) # after \<and> (\<forall>F \<in> set after. tl F \<noteq> f)))"
proof -
  obtain C1 Features D1 where a: "arch_features P E TC T Args ForAS CmdArgs ([], D) = Inr (C1, Features, D1)"
    "\<forall>F \<in> set Features. has_sign F"
    using arch_features_ok [OF assms] by blast
  have "s # f \<in> set (last_of_each Features) \<longleftrightarrow>
      (\<exists>before after. Features = before @ (s # f) # after \<and> (\<forall>F \<in> set after. tl F \<noteq> f))" for s f
    by (rule in_last_of_each)
  with a getTargetFeatures_eq [OF a] show ?thesis
    using distinct_last_of_each [of Features] last_of_each_nths [of Features] unfolding feature_flags_def by blast
qed

text \<open>An x86 program with \<open>-msse2 -mno-sse -msse\<close>.\<close>

definition demo_options :: target_env where
  "demo_options = demo_target\<lparr>
     te_group := (\<lambda>G. if G = Tgt OPT_m_x86_Features_Group then
       map (\<lambda>n. (demo_arg 0 OPT__SLASH_LD [])\<lparr>a_name := n\<rparr>) [''msse2'', ''mno-sse'', ''msse'']
       else []),
     te_getArchFeatures := (\<lambda>_. (True, [''+neon''])), te_getExtensionFeatures := (\<lambda>_. (True, []))\<rparr>"

definition demo_x86 :: Triple where
  "demo_x86 = demo_triple\<lparr>t_Arch := Arch_x86, t_ArchName := ''i386''\<rparr>"

lemma demo_options_ok:
  "args_valued (demo_args [])" "parsers_signed demo_arm demo_options" "knows_cyclone demo_options"
  by (auto simp: args_valued_def demo_args_def parsers_signed_def demo_arm_def demo_options_def demo_target_def
      option_feature_def after_def knows_cyclone_def DecodeAArch64Mcpu_def split_plus_def extensions_after_def
      is_plus_def Let_def split_def)

lemma demo_x86_features:
  "getTargetFeatures demo_arm demo_options demo_TC demo_x86 (demo_args []) False ([], \<lparr>diags = [], claimed = []\<rparr>) =
     Inr ([''-target-feature'', ''+sse2'', ''-target-feature'', ''+sse''], \<lparr>diags = [], claimed = [0, 0, 0]\<rparr>)"
  by (simp add: getTargetFeatures_def arch_features_def getX86TargetFeatures_def x86_host_features_def
      x86_arch_features_def handleTargetFeaturesGroup_def demo_options_def demo_target_def demo_x86_def demo_defs
      option_feature_def after_def pushes_def mips_archs_def arm_archs_def vget_def Let_def claim_def)

theorem features_passed_once_witness:
  "\<exists>C1 Features D1 passed.
    arch_features demo_arm demo_options demo_TC demo_x86 (demo_args []) False [] ([], \<lparr>diags = [], claimed = []\<rparr>) =
      Inr (C1, Features, D1) \<and>
    [''-target-feature'', ''+sse2'', ''-target-feature'', ''+sse''] =
      C1 @ concat (map (\<lambda>F. [''-target-feature'', F]) passed) \<and>
    passed = nths Features {i. \<forall>j. i < j \<and> j < length Features \<longrightarrow> tl (Features ! j) \<noteq> tl (Features ! i)} \<and>
    distinct (map tl passed) \<and>
    (\<forall>s f. s # f \<in> set passed \<longleftrightarrow>
      (\<exists>before after. Features = before @ (s # f) # after \<and> (\<forall>F \<in> set after. tl F \<noteq> f)))"
  using features_passed_once [OF demo_options_ok, of demo_TC demo_x86 False "[]" "\<lparr>diags = [], claimed = []\<rparr>"]
  unfolding demo_x86_features by (auto simp only: sum.inject prod.inject)

text \<open>
  C13: A program compiled for ARM with a soft float ABI never gets NEON: whatever \<open>-march\<close>, \<open>-mcpu\<close>,
  \<open>-mfpu\<close> and the host ask for, the compiler is told \<open>-neon\<close> and \<open>-crypto\<close>, and never \<open>+neon\<close> or \<open>+crypto\<close>.
\<close>

theorem soft_float_without_neon:
  assumes "args_valued Args" and "parsers_signed P E" and "t_Arch T \<in> arm_archs"
    and "getARMFloatABI P TC Args D = Inr (FloatSoft, D1)"
  shows "\<exists>C1 passed D2. getTargetFeatures P E TC T Args ForAS (CmdArgs, D) =
      Inr (C1 @ concat (map (\<lambda>F. [''-target-feature'', F]) passed), D2) \<and>
    {''-neon'', ''-crypto''} \<subseteq> set passed \<and> {''+neon'', ''+crypto''} \<inter> set passed = {}"
proof -
  have arch: "arch_features P E TC T Args ForAS CmdArgs ([], D) = getARMTargetFeatures P TC T Args ForAS CmdArgs ([], D)"
    using assms(3) by (auto simp: arch_features_def arm_archs_def mips_archs_def)
  obtain ABI D1' C1 mid late D2 where abi: "getARMFloatABI P TC Args D = Inr (ABI, D1')" and
    shape: "getARMTargetFeatures P TC T Args ForAS CmdArgs ([], D) =
      Inr (C1, [] @ (if ForAS then [] else (if ABI = FloatSoft then [''+soft-float''] else [])
        @ (if ABI \<noteq> FloatHard then [''+soft-float-abi''] else [])) @ mid
        @ (if ABI = FloatSoft then [''-neon'', ''-crypto''] else []) @ late, D2)"
    "set late \<subseteq> {''+crc'', ''-crc'', ''+long-calls'', ''+strict-align'', ''+reserve-r9'', ''+no-movt''}"
    using arm_features_shape [OF assms(1), of P TC D T ForAS CmdArgs "[]"] by blast
  from abi assms(4) have "ABI = FloatSoft" by simp
  define early where "early = (if ForAS then [] else [''+soft-float'', ''+soft-float-abi'']) @ mid"
  have f: "getARMTargetFeatures P TC T Args ForAS CmdArgs ([], D) =
      Inr (C1, early @ [''-neon'', ''-crypto''] @ late, D2)"
    unfolding shape(1) early_def \<open>ABI = FloatSoft\<close> by simp
  have "\<forall>F \<in> set (early @ [''-neon'', ''-crypto''] @ late). has_sign F"
    using arm_signed [OF assms(2) _ f] by (simp add: all_signed_def)
  from getTargetFeatures_eq [OF arch [unfolded f] this]
  have job: "getTargetFeatures P E TC T Args ForAS (CmdArgs, D) =
     Inr (C1 @ feature_flags (last_of_each (early @ ''-neon'' # ''-crypto'' # late)), D2)" by simp
  have late: "\<forall>F \<in> set late. tl F \<noteq> ''neon'' \<and> tl F \<noteq> ''crypto''" using shape(2) by auto
  have "s # ''neon'' \<in> set (last_of_each (early @ ''-neon'' # ''-crypto'' # late)) \<longleftrightarrow> s = CHR ''-''" for s
    using late by (intro last_of_each_middle) auto
  moreover have "s # ''crypto'' \<in> set (last_of_each (early @ ''-neon'' # ''-crypto'' # late)) \<longleftrightarrow> s = CHR ''-''" for s
    using late last_of_each_middle [of late "''crypto''" s "early @ [''-neon'']" "CHR ''-''"] by auto
  ultimately have "{''-neon'', ''-crypto''} \<subseteq> set (last_of_each (early @ ''-neon'' # ''-crypto'' # late))"
    "{''+neon'', ''+crypto''} \<inter> set (last_of_each (early @ ''-neon'' # ''-crypto'' # late)) = {}" by auto
  with job show ?thesis unfolding feature_flags_def by blast
qed

text \<open>The embedded target with \<open>-mfpu=neon -msoft-float\<close>.\<close>

lemma demo_soft: "getARMFloatABI demo_arm demo_TC demo_float_line \<lparr>diags = [], claimed = []\<rparr> =
    Inr (FloatSoft, \<lparr>diags = [], claimed = []\<rparr>)"
  by (simp add: getARMFloatABI_def float_abi_option_def demo_float_line_def demo_defs demo_arm_def Diag_if_def Let_def)

theorem soft_float_without_neon_witness:
  "\<exists>C1 passed D2. getTargetFeatures demo_arm demo_options demo_TC demo_triple demo_float_line False
      ([], \<lparr>diags = [], claimed = []\<rparr>) =
      Inr (C1 @ concat (map (\<lambda>F. [''-target-feature'', F]) passed), D2) \<and>
    {''-neon'', ''-crypto''} \<subseteq> set passed \<and> {''+neon'', ''+crypto''} \<inter> set passed = {}"
  by (rule soft_float_without_neon [OF demo_float_line_valued demo_options_ok(2) _ demo_soft])
    (simp add: demo_triple_def arm_archs_def)

end
