(* ===== verification/AssemblerFacts.thy ===== *)
theory AssemblerFacts
  imports GnuAssembler TargetFacts "HOL-Library.Sublist"
begin

text \<open>
  Facts about the jobs of the two assemblers: they are produced for every command line, they get the float ABI
  of the compiler, and what the order of the options for the MIPS assembler changes.
\<close>

subsection \<open>Parts of the job return\<close>

text \<open>A computation returns when all its steps do.\<close>

definition returns :: "'a res \<Rightarrow> bool" where
  "returns r \<longleftrightarrow> (\<exists>x. r = Inr x)"

lemma returns_Inr [simp, intro]: "returns (Inr x)"
  by (simp add: returns_def)

lemma returns_if [intro]: "(b \<Longrightarrow> returns x) \<Longrightarrow> (\<not> b \<Longrightarrow> returns y) \<Longrightarrow> returns (if b then x else y)"
  by simp

lemma returns_bnd: "returns m \<Longrightarrow> (\<And>x. m = Inr x \<Longrightarrow> returns (f x)) \<Longrightarrow> returns (bnd m f)"
  by (auto simp: returns_def)

lemma returns_prod [intro]: "(\<And>a b. x = (a, b) \<Longrightarrow> returns (f a b)) \<Longrightarrow> returns (case x of (a, b) \<Rightarrow> f a b)"
  by (cases x) simp

lemma returns_option [intro]:
  "(x = None \<Longrightarrow> returns f) \<Longrightarrow> (\<And>a. x = Some a \<Longrightarrow> returns (g a)) \<Longrightarrow>
     returns (case x of None \<Rightarrow> f | Some a \<Rightarrow> g a)"
  by (cases x) simp_all

lemma ParsePICArgs_ok:
  assumes "args_valued Args"
  shows "returns (ParsePICArgs E TC Args D)"
proof -
  have last: "returns (pic_last TC Args A p D)" for A p
    unfolding pic_last_def
    by (intro returns_if returns_Inr returns_bnd returns_option) (simp add: value_of_last [OF assms, of "Pic OPT_mcmodel_EQ"])
  show ?thesis
    unfolding ParsePICArgs_def Let_def
    by (intro returns_option returns_if returns_Inr returns_bnd returns_prod last)
qed

lemma target_cpu_ok: "args_valued Args \<Longrightarrow> \<exists>c. target_cpu P E T Args FromAs CmdArgs = Inr (CmdArgs @ c)"
  using getCPUName_ok [of Args P E T FromAs] by (auto simp: target_cpu_def intro: exI [of _ "[]"])

lemma execute_only_keeps: "\<exists>c. fst (execute_only P T Args CmdArgs fd) = CmdArgs @ c"
  by (simp add: execute_only_def split: option.split)

lemma getARMTargetFeatures_keeps:
  "getARMTargetFeatures P TC T Args ForAS CmdArgs fd = Inr (C1, fd1) \<Longrightarrow> \<exists>c. C1 = CmdArgs @ c"
  using execute_only_keeps [of P T Args CmdArgs]
  by (cases fd) (simp add: getARMTargetFeatures_def Let_def bnd_eq_Inr_iff split_def, metis)

lemma arch_features_keeps:
  "arch_features P E TC T Args ForAS CmdArgs fd = Inr (C1, fd1) \<Longrightarrow> \<exists>c. C1 = CmdArgs @ c"
  by (auto simp: arch_features_def Let_def bnd_eq_Inr_iff dest: getARMTargetFeatures_keeps split: if_splits)

lemma getTargetFeatures_appends:
  assumes "args_valued Args" and "parsers_signed P E" and "knows_cyclone E"
  shows "\<exists>c D1. getTargetFeatures P E TC T Args ForAS (CmdArgs, D) = Inr (CmdArgs @ c, D1)"
  using arch_features_ok [OF assms, of TC T ForAS CmdArgs D] getTargetFeatures_eq [of P E TC T Args ForAS CmdArgs D]
    arch_features_keeps [of P E TC T Args ForAS CmdArgs "([], D)"] by fastforce

text \<open>Every chain of inputs ends with an input of the compilation.\<close>

fun leaves_are_inputs :: "Action \<Rightarrow> bool" where
  "leaves_are_inputs (Action c t inputs) =
     ((inputs = [] \<longrightarrow> c = InputClass) \<and> list_all leaves_are_inputs inputs)"

lemma source_type_ok: "leaves_are_inputs JA \<Longrightarrow> \<exists>t. source_type JA = Inr t"
  by (induction JA rule: source_type.induct) auto

text \<open>They also only append to the arguments.\<close>

definition appends :: "feats \<Rightarrow> feats res \<Rightarrow> bool" where
  "appends r x \<longleftrightarrow> (\<exists>Fs D'. x = Inr (fst r @ Fs, D'))"

lemma appends_pushes [simp]: "appends r (Inr (pushes Fs r))"
  by (cases r) (simp add: appends_def pushes_def)

lemma appends_report [simp]: "appends r (Inr (report b d r))"
  by (cases r) (auto simp: appends_def report_def intro: exI [of _ "[]"])

lemma appends_Inr [simp]: "appends r (Inr r)"
  by (cases r) (auto simp: appends_def intro: exI [of _ "[]"])

lemma as_relocation_appends: "args_valued Args \<Longrightarrow> appends r (as_relocation E TC Args r)"
  using ParsePICArgs_ok [of Args "j_pic E" TC "snd r"]
  by (cases r) (auto simp: as_relocation_def appends_def returns_def)

lemma asm_syntax_appends: "args_valued Args \<Longrightarrow> appends r (asm_syntax Args r)"
  using value_of_last [of Args "Tgt OPT_masm_EQ"] by (auto simp: asm_syntax_def split: option.split)

lemma as_target_flags_appends:
  assumes "args_valued Args"
  shows "appends r (as_target_flags TC Args r)"
  using getMipsCPUAndABI_ok [OF assms, of "tc_Triple TC"] asm_syntax_appends [OF assms, of r]
  by (auto simp: as_target_flags_def ClangAs_AddMIPSTargetArgs_def ClangAs_AddX86TargetArgs_def Let_def)

text \<open>The loop over \<open>-Wa,\<close> and \<open>-Xassembler\<close> returns whatever the values are.\<close>

definition grown :: "as_state \<Rightarrow> as_state \<Rightarrow> bool" where
  "grown s s1 \<longleftrightarrow> (\<exists>Fs. as_args s1 = as_args s @ Fs)"

definition as_good :: "as_state \<Rightarrow> (bool \<times> as_state) res \<Rightarrow> bool" where
  "as_good s r \<longleftrightarrow> (\<exists>stop s1. r = Inr (stop, s1) \<and> grown s s1)"

lemma grown_trans: "grown s s1 \<Longrightarrow> grown s1 s2 \<Longrightarrow> grown s s2"
  by (auto simp: grown_def)

lemma grown_steps [simp]:
  "grown s s" "grown s (as_push Fs s)" "grown s (as_report d s)" "grown s (s\<lparr>CompressDebugSections := b\<rparr>)"
  "grown s (s\<lparr>UseRelaxRelocations := b\<rparr>)" "grown s (as_push Fs (s\<lparr>TakeNextArg := b\<rparr>))" "grown s ((as_push Fs s)\<lparr>TakeNextArg := b\<rparr>)"
  "grown s (s\<lparr>MipsTargetFeature := m\<rparr>)" "grown s (s\<lparr>as_drv := D\<rparr>)"
  by (simp_all add: grown_def as_push_def as_report_def)

lemma as_good_Inr [simp]: "as_good s (Inr (stop, s1)) \<longleftrightarrow> grown s s1"
  by (simp add: as_good_def)

lemma as_good_if: "(b \<Longrightarrow> as_good s x) \<Longrightarrow> (\<not> b \<Longrightarrow> as_good s y) \<Longrightarrow> as_good s (if b then x else y)"
  by simp

lemma as_good_trans: "grown s s1 \<Longrightarrow> as_good s1 r \<Longrightarrow> as_good s r"
  unfolding as_good_def using grown_trans by blast

lemma defsym_value_good: "as_good s (defsym_value E A Value s)"
  unfolding defsym_value_def by (rule as_good_if) (simp_all add: vget_def split_def Let_def)

lemma plain_value_good: "as_good s (plain_value E A Value s)"
  unfolding plain_value_def by (intro as_good_if defsym_value_good) simp_all

lemma mips_value_grown: "grown s (snd (mips_value Value s))"
  by (simp add: mips_value_def)

lemma as_value_good: "as_good s (as_value E A Value s)"
proof -
  obtain continue s1 where m: "mips_value Value s = (continue, s1)" by fastforce
  then have g: "grown s s1" using mips_value_grown [of s Value] by simp
  have "as_good s (plain_value E A Value s1)"
    by (rule as_good_trans [OF g plain_value_good])
  then show ?thesis
    unfolding as_value_def m by (intro as_good_if) (simp_all add: g plain_value_good)
qed

lemma as_values_good: "\<exists>s1. as_values E A Values s = Inr s1 \<and> grown s s1"
proof (induction Values arbitrary: s)
  case (Cons Value Values)
  obtain stop s1 where v: "as_value E A Value s = Inr (stop, s1)" "grown s s1"
    using as_value_good [of s E A Value] by (auto simp: as_good_def)
  then show ?case using Cons.IH [of s1] grown_trans by (cases stop) auto
qed simp

lemma as_arguments_good: "\<exists>s1. as_arguments E As s = Inr s1 \<and> grown s s1"
proof (induction As arbitrary: s)
  case (Cons A As)
  let ?s = "s\<lparr>as_drv := claim A (as_drv s)\<rparr>"
  obtain s1 where v: "as_values E A (a_values A) ?s = Inr s1" "grown ?s s1"
    using as_values_good by blast
  moreover have "grown s s1" using v(2) grown_steps(9) grown_trans by blast
  ultimately show ?case using Cons.IH [of s1] grown_trans by auto
qed simp

lemma CollectArgs_appends:
  assumes "args_valued Args"
  shows "appends r (CollectArgsForIntegratedAssembler E Args r)"
proof -
  have it: "appends r (implicit_it E Args r)" for r
    using value_of_last [OF assms, of "Asm OPT_mimplicit_it_EQ"] by (auto simp: implicit_it_def split: option.split)
  let ?r = "pushes ((if UseRelaxAll E Args then [''-mrelax-all''] else []) @
    (if hasFlag Args (Asm OPT_mincremental_linker_compatible) (Asm OPT_mno_incremental_linker_compatible) (j_DefaultMSVC E)
     then [''-mincremental-linker-compatible''] else [])) r"
  obtain Fs D where c: "implicit_it E Args ?r = Inr (fst r @ Fs, D)"
    using it [of ?r] by (cases r) (auto simp: appends_def pushes_def)
  let ?s = "\<lparr>as_args = fst r @ Fs, as_drv = D, TakeNextArg = False, CompressDebugSections = False,
    UseRelaxRelocations = j_RelaxRelocations E, MipsTargetFeature = None\<rparr>"
  obtain s1 where "as_arguments E (filtered [Tool OPT_Wa_COMMA, Tool OPT_Xassembler] Args) ?s = Inr s1" "grown ?s s1"
    using as_arguments_good by blast
  then show ?thesis
    by (auto simp: CollectArgsForIntegratedAssembler_def c appends_def as_finish_def grown_def)
qed

lemma split_dwarf_ok:
  assumes "args_valued Args"
  shows "\<exists>F. split_dwarf_job E TC Args Out = Inr (if hasArg Args [Job OPT_gsplit_dwarf] \<and> t_isOSLinux (tc_Triple TC)
      then [(j_ProgramPath E ''objcopy'', [''--extract-dwo'', Out, F]), (j_ProgramPath E ''objcopy'', [''--strip-dwo'', Out])]
      else [])"
  using value_of_last [OF assms, of "Job OPT_o"]
  by (auto simp: split_dwarf_job_def SplitDebugName_def SplitDebugInfo_def Let_def split: option.split)

subsection \<open>Jobs of Clang's own assembler\<close>

text \<open>
  C14: For every command line whose options have their values, the job of the assembler is produced: Clang
  itself with \<open>-cc1as\<close> first and the output and the input last, and on Linux with \<open>-gsplit-dwarf\<close> the two
  calls of \<open>objcopy\<close> that split the output, nothing else. No assertion fails and no null pointer is used.
\<close>

theorem assembler_job_produced:
  assumes "args_valued Args" and "parsers_signed P (j_target E)" and "knows_cyclone (j_target E)"
    and "leaves_are_inputs JA"
  shows "\<exists>middle F D'. ClangAs_ConstructJob P E TC JA (Some Out) (Some In) Args D =
    Inr ((j_ClangProgramPath E, ''-cc1as'' # middle @ [''-o'', Out, In]) #
      (if hasArg Args [Job OPT_gsplit_dwarf] \<and> t_isOSLinux (tc_Triple TC)
       then [(j_ProgramPath E ''objcopy'', [''--extract-dwo'', Out, F]), (j_ProgramPath E ''objcopy'', [''--strip-dwo'', Out])]
       else []), D')"
proof -
  let ?T = "tc_EffectiveTriple TC"
  let ?D1 = "claimNoWarnArgs E (claim_all E [Link OPT_w, Link OPT_emit_llvm] D)"
  let ?head = "[''-triple'', t_str ?T, ''-filetype'', ''obj'', ''-main-file-name'', j_BaseInputName E]"
  obtain cpu where c1: "target_cpu P (j_target E) ?T Args True (''-cc1as'' # ?head) = Inr (''-cc1as'' # ?head @ cpu)"
    using target_cpu_ok [OF assms(1), of P "j_target E" ?T True "''-cc1as'' # ?head"] by auto
  obtain c2 D2 where c2: "getTargetFeatures P (j_target E) TC ?T Args True (''-cc1as'' # ?head @ cpu, ?D1) =
      Inr (''-cc1as'' # c2, D2)"
    using getTargetFeatures_appends [OF assms(1-3), of TC ?T True "''-cc1as'' # ?head @ cpu" ?D1] by auto
  obtain t where t: "source_type JA = Inr t" using source_type_ok [OF assms(4)] by blast
  obtain c3 D3 where c3: "as_relocation E TC Args (''-cc1as'' # c2 @ j_AllArgs E (Asm OPT_I_Group) @ as_debug_args E Args t,
      claim_all E [Link OPT_g_Group] D2) = Inr (''-cc1as'' # c3, D3)"
    using as_relocation_appends [OF assms(1), of "(''-cc1as'' # c2 @ j_AllArgs E (Asm OPT_I_Group) @ as_debug_args E Args t,
      claim_all E [Link OPT_g_Group] D2)" E TC] by (auto simp: appends_def)
  obtain c4 D4 where c4: "as_target_flags TC Args (''-cc1as'' # c3 @ dwarf_debug_flags E Args, D3) = Inr (''-cc1as'' # c4, D4)"
    using as_target_flags_appends [OF assms(1), of "(''-cc1as'' # c3 @ dwarf_debug_flags E Args, D3)" TC]
    by (auto simp: appends_def)
  obtain c5 D5 where c5: "CollectArgsForIntegratedAssembler E Args (''-cc1as'' # c4, claim_all E [Asm OPT_W_Group] D4) =
      Inr (''-cc1as'' # c5, D5)"
    using CollectArgs_appends [OF assms(1), of "(''-cc1as'' # c4, claim_all E [Asm OPT_W_Group] D4)" E]
    by (auto simp: appends_def)
  obtain F where F: "split_dwarf_job E TC Args Out = Inr (if hasArg Args [Job OPT_gsplit_dwarf] \<and> t_isOSLinux (tc_Triple TC)
      then [(j_ProgramPath E ''objcopy'', [''--extract-dwo'', Out, F]), (j_ProgramPath E ''objcopy'', [''--strip-dwo'', Out])]
      else [])"
    using split_dwarf_ok [OF assms(1)] by blast
  show ?thesis
    by (intro exI [of _ "c5 @ j_AllArgs E (Asm OPT_mllvm)"] exI [of _ F] exI [of _ D5])
      (simp add: ClangAs_ConstructJob_def Let_def c1 c2 [simplified] t c3 c4 c5 F)
qed

text \<open>An assembly file for the embedded target.\<close>

definition demo_job :: job_env where
  "demo_job = \<lparr>j_target = demo_options, j_pic = demo_pic_env, j_matching = (\<lambda>_. []), j_AllArgs = (\<lambda>_. []),
     j_AllArgValues = (\<lambda>_. []), j_render = (\<lambda>_. []), j_actions = [], j_DefaultArch = Arch_mips, j_DefaultMSVC = False,
     j_DefaultCOFF = False, j_RelaxRelocations = False, j_zlib = True, j_getAsInt64 = (\<lambda>_. Some 1),
     j_ProgramPath = (\<lambda>n. ''/usr/bin/'' @ n), j_ClangProgramPath = ''clang'', j_ClangFullVersion = ''clang version 4'',
     j_UseDwarfDebugFlags = True, j_DefaultDwarfVersion = 4, j_current_path = None, j_stem = id,
     j_replace_extension = (\<lambda>f e. f @ ''.'' @ e), j_BaseInput = ''a'', j_BaseInputName = ''a''\<rparr>"

theorem assembler_job_produced_witness:
  "\<exists>middle D'. ClangAs_ConstructJob demo_arm demo_job demo_TC (Action OtherClass TY_other [Action InputClass TY_Asm []])
      (Some ''a.o'') (Some ''a.s'') demo_float_line \<lparr>diags = [], claimed = []\<rparr> =
    Inr ([(''clang'', ''-cc1as'' # middle @ [''-o'', ''a.o'', ''a.s''])], D')"
  using assembler_job_produced [OF demo_float_line_valued, of demo_arm demo_job
      "Action OtherClass TY_other [Action InputClass TY_Asm []]" demo_TC "''a.o''" "''a.s''"] demo_options_ok
  by (auto simp: demo_job_def demo_float_line_def demo_args_def demo_arg_def)

subsection \<open>The order of options for the MIPS assembler\<close>

text \<open>
  C29: An architecture given to the MIPS assembler is forgotten when another option follows it in \<open>-Wa,\<close>:
  with \<open>-mips32r2\<close> (or any other architecture) before \<open>--noexecstack\<close>, \<open>--fatal-warnings\<close> or \<open>-L\<close> nothing is
  passed on, after it the feature is.
\<close>

theorem mips_architecture_must_be_last:
  assumes "j_DefaultArch E \<in> mips_archs" and "mips_as_feature V = Some F"
    and "W \<in> {''--noexecstack'', ''--fatal-warnings'', ''-L''}" and "\<not> TakeNextArg s"
  shows "\<exists>s1 s2. as_values E A [V, W] s = Inr s1 \<and> MipsTargetFeature s1 = None \<and>
      as_values E A [W, V] s = Inr s2 \<and> MipsTargetFeature s2 = Some F \<and>
      fst (as_finish E s2) = fst (as_finish E s1) @ [''-target-feature'', F]"
proof -
  have V: "V \<in> {''-mips1'', ''-mips2'', ''-mips3'', ''-mips4'', ''-mips5'', ''-mips32'', ''-mips32r2'', ''-mips32r3'',
      ''-mips32r5'', ''-mips32r6'', ''-mips64'', ''-mips64r2'', ''-mips64r3'', ''-mips64r5'', ''-mips64r6''}"
    using assms(2) by (auto simp: mips_as_feature_def split: if_splits)
  then have "V \<noteq> ''--trap''" "V \<noteq> ''--break''" "V \<noteq> ''-mbig-obj''" "\<not> startswith V ''-msoft-float''"
    "\<not> startswith V ''-mhard-float''"
    by (elim insertE emptyE; simp add: startswith_def after_def)+
  then have value_V: "mips_value V t = (True, t\<lparr>MipsTargetFeature := Some F\<rparr>) \<and> V \<noteq> ''-mbig-obj''" for t
    by (simp add: mips_value_def assms(2))
  have "W \<noteq> ''--trap''" "W \<noteq> ''--break''" "W \<noteq> ''-mbig-obj''" "\<not> startswith W ''-msoft-float''"
    "\<not> startswith W ''-mhard-float''" "mips_as_feature W = None"
    using assms(3) by (elim insertE emptyE; simp add: startswith_def after_def mips_as_feature_def)+
  then have value_W: "mips_value W t = (False, t\<lparr>MipsTargetFeature := None\<rparr>) \<and> W \<noteq> ''-mbig-obj''" for t
    by (simp add: mips_value_def)
  have "\<exists>x. \<forall>t. plain_value E A W t = Inr (False, as_push [x] t)"
    using assms(3) by (elim insertE emptyE) (simp_all add: plain_value_def, blast+)
  then obtain x where W: "plain_value E A W t = Inr (False, as_push [x] t)" for t by blast
  show ?thesis
    using assms(1,4) value_V value_W
    by (simp add: as_value_def W as_push_def as_finish_def Let_def)
qed

theorem mips_architecture_must_be_last_witness:
  "\<exists>s1 s2. as_values demo_job (demo_arg 0 (Tool OPT_Wa_COMMA) [''-mips32r2'', ''--noexecstack'']) [''-mips32r2'', ''--noexecstack'']
      \<lparr>as_args = [], as_drv = \<lparr>diags = [], claimed = []\<rparr>, TakeNextArg = False, CompressDebugSections = False,
        UseRelaxRelocations = False, MipsTargetFeature = None\<rparr> = Inr s1 \<and>
    fst (as_finish demo_job s1) = [''-mnoexecstack''] \<and>
    fst (as_finish demo_job s2) = [''-mnoexecstack'', ''-target-feature'', ''+mips32r2'']"
proof -
  let ?A = "demo_arg 0 (Tool OPT_Wa_COMMA) [''-mips32r2'', ''--noexecstack'']"
  let ?s = "\<lparr>as_args = [], as_drv = \<lparr>diags = [], claimed = []\<rparr>, TakeNextArg = False, CompressDebugSections = False,
    UseRelaxRelocations = False, MipsTargetFeature = None\<rparr>"
  have "j_DefaultArch demo_job \<in> mips_archs" "mips_as_feature ''-mips32r2'' = Some ''+mips32r2''"
    by (simp_all add: demo_job_def mips_archs_def mips_as_feature_def)
  from mips_architecture_must_be_last [OF this, of "''--noexecstack''" ?s ?A] obtain s1 s2 where
    s: "as_values demo_job ?A [''-mips32r2'', ''--noexecstack''] ?s = Inr s1"
    "fst (as_finish demo_job s2) = fst (as_finish demo_job s1) @ [''-target-feature'', ''+mips32r2'']" by auto
  moreover have "fst (as_finish demo_job s1) = [''-mnoexecstack'']"
    using s(1) by (simp add: as_value_def mips_value_def plain_value_def startswith_def after_def mips_as_feature_def
        demo_job_def mips_archs_def as_push_def Let_def) (auto simp: as_finish_def)
  ultimately show ?thesis by auto
qed

subsection \<open>The GNU assembler\<close>

text \<open>The name of the ABI for the GNU assembler, and what Clang's compiler is told for the same ABI.\<close>

lemma arm_assembler_float_abi:
  assumes "args_valued Args" and "t_Arch (tc_Triple TC) \<in> arm_archs"
  shows "\<exists>ABI D1 before after abi. getARMFloatABI P TC Args D = Inr (ABI, D1) \<and>
    as_arch_args P E TC Args model D = Inr (before @ (''-mfloat-abi='' @ abi) # after, D1) \<and>
    (ABI = FloatSoft \<and> abi = ''soft'' \<or> ABI = FloatSoftFP \<and> abi = ''softfp'' \<or> ABI = FloatHard \<and> abi = ''hard'')"
proof -
  obtain ABI D1 where abi: "getARMFloatABI P TC Args D = Inr (ABI, D1)" "ABI \<noteq> FloatInvalid"
    using getARMFloatABI_returns [OF assms(1)] by blast
  obtain name where name: "arm_as_float ABI = Inr [''-mfloat-abi='' @ name]"
    "ABI = FloatSoft \<and> name = ''soft'' \<or> ABI = FloatSoftFP \<and> name = ''softfp'' \<or> ABI = FloatHard \<and> name = ''hard''"
    using abi(2) by (cases ABI) auto
  obtain cpu where cpu: "arm_as_cpu E Args = Inr cpu"
    using value_of_last [OF assms(1), of "Tool OPT_mcpu_EQ"]
    by (cases "getLastArg Args [Tool OPT_mcpu_EQ]") (auto simp: arm_as_cpu_def)
  have "as_arch_args P E TC Args model D = arm_as P E TC Args ([], D)"
    using assms(2) by (auto simp: as_arch_args_def arm_archs_def Let_def)
  also have "\<dots> = Inr (arm_as_fpu (tc_Triple TC) @ (''-mfloat-abi='' @ name) #
      AddLastArg E Args [Tool OPT_march_EQ] @ cpu @ AddLastArg E Args [Tool OPT_mfpu_EQ], D1)"
    by (simp add: arm_as_def abi(1) name(1) cpu)
  finally show ?thesis using abi(1) name(2) by blast
qed

end
