(* ===== verification/CompileFacts.thy ===== *)
theory CompileFacts
  imports CompileJob AssemblerFacts
begin

text \<open>
  Facts about Clang's compile job: every part of it only appends to the arguments and returns, so that the job of
  an ordinary compilation is always produced and hands the flags of the sanitizers to the compiler; and what the
  order of the options for debug information means.
\<close>

subsection \<open>Steps that append\<close>

definition grows :: "step \<Rightarrow> bool" where
  "grows s \<longleftrightarrow> (\<forall>r. appends r (s r))"

lemma appends_trans:
  assumes "appends r (Inr r1)" and "appends r1 x"
  shows "appends r x"
proof -
  obtain F1 D1 where 1: "r1 = (fst r @ F1, D1)" using assms(1) unfolding appends_def by blast
  obtain F2 D2 where 2: "x = Inr (fst r1 @ F2, D2)" using assms(2) unfolding appends_def by blast
  show ?thesis unfolding appends_def by (intro exI [of _ "F1 @ F2"] exI [of _ D2]) (simp add: 1 2)
qed

lemma appends_InrE:
  assumes "appends r m"
  obtains r1 where "m = Inr r1" and "appends r (Inr r1)"
  using assms unfolding appends_def by blast

lemma appends_bnd: "appends r m \<Longrightarrow> (\<And>r1. appends r1 (f r1)) \<Longrightarrow> appends r (bnd m f)"
  by (erule appends_InrE) (simp add: appends_trans)

lemma growsI: "(\<And>r. appends r (s r)) \<Longrightarrow> grows s"
  by (simp only: grows_def) blast

lemma growsD: "grows s \<Longrightarrow> appends r (s r)"
  by (simp only: grows_def)

named_theorems grow

lemma grows_steps_Nil [grow]: "grows (steps [])"
  by (simp add: grows_def)

lemma grows_steps_Cons [grow]: "grows s \<Longrightarrow> grows (steps ss) \<Longrightarrow> grows (steps (s # ss))"
  by (auto simp: grows_def intro: appends_bnd)

lemma grows_add [grow]: "grows (add Fs)"
  by (simp add: grows_def add_def)

lemma grows_add_if [grow]: "grows (add_if b Fs)"
  by (simp add: grows_def add_if_def)

lemma grows_diag_if [grow]: "grows (diag_if b d)"
  by (simp add: grows_def diag_if_def)

lemma grows_keep:
  assumes "\<And>C D. \<exists>D'. s (C, D) = Inr (C, D')"
  shows "grows s"
proof -
  have "appends r (s r)" for r
    using assms [of "fst r" "snd r"] unfolding appends_def by (metis append_Nil2 prod.collapse)
  then show ?thesis by (simp add: grows_def)
qed

lemma grows_claims [grow]: "grows (claims As)"
  by (rule grows_keep) (simp add: claims_def)

lemma grows_claim_args [grow]: "grows (claim_args E ids)"
  by (rule grows_keep) (simp add: claim_args_def)

lemma grows_step_if [grow]: "(b \<Longrightarrow> grows s) \<Longrightarrow> grows (step_if b s)"
  by (simp add: grows_def step_if_def)

lemma grows_if [grow]: "(b \<Longrightarrow> grows s) \<Longrightarrow> (\<not> b \<Longrightarrow> grows t) \<Longrightarrow> grows (if b then s else t)"
  by simp

lemma grows_flags [grow]:
  "grows (given Args n F)" "grows (flag_on Args Pos Neg Default F)" "grows (flag_off Args Pos Neg Default F)"
  "grows (last_arg E Args ids)" "grows (all_args E ids)" "grows (all_values E ids)" "grows (render E A)"
  "grows (each_last E Args ns)"
  by (simp_all add: given_def flag_on_def flag_off_def last_arg_def all_args_def all_values_def render_def each_last_def
    grows_add grows_add_if)

lemma grows_with_last: "(\<And>A. getLastArg Args ids = Some A \<Longrightarrow> grows (f A)) \<Longrightarrow> grows (with_last Args ids f)"
  by (auto simp: grows_def with_last_def split: option.split)

lemma grows_option [grow]:
  "(x = None \<Longrightarrow> grows f) \<Longrightarrow> (\<And>A. x = Some A \<Longrightarrow> grows (g A)) \<Longrightarrow> grows (case x of None \<Rightarrow> f | Some A \<Rightarrow> g A)"
  by (cases x) simp_all

lemma grows_with_value: "a_values A \<noteq> [] \<Longrightarrow> (\<And>v. grows (f v)) \<Longrightarrow> grows (with_value A f)"
  by (simp add: grows_def with_value_def getValue_hd)

lemma grows_for_each: "(\<And>A. A \<in> set As \<Longrightarrow> grows (f A)) \<Longrightarrow> grows (for_each f As)"
proof (induction As)
  case (Cons A As)
  then have "grows (f A)" "grows (for_each f As)" by auto
  then show ?case by (auto simp: grows_def intro: appends_bnd)
qed (simp add: grows_def)

lemma grows_bnd: "\<exists>v. m = Inr v \<Longrightarrow> (\<And>v. m = Inr v \<Longrightarrow> grows (f v)) \<Longrightarrow> grows (\<lambda>r. bnd m (\<lambda>v. f v r))"
  by (auto simp: grows_def)

subsection \<open>Options that have their values\<close>

lemma grows_with_last_value:
  assumes "args_valued Args" and "set ids \<subseteq> valued" and "\<And>v A. grows (f A v)"
  shows "grows (with_last Args ids (\<lambda>A. with_value A (f A)))"
  using has_value_last [OF assms(1,2)] assms(3)
  by (auto intro!: grows_with_last grows_with_value simp: has_value_def)

lemma grows_values:
  assumes "args_valued Args" and "set ids \<subseteq> valued"
  shows "grows (flag_value Args ids F)" "grows (joined_value Args ids F)"
  using assms by (auto simp: flag_value_def joined_value_def intro!: grows_with_last_value grow)

lemma value_or_ok: "args_valued Args \<Longrightarrow> set ids \<subseteq> valued \<Longrightarrow> \<exists>v. value_or (getLastArg Args ids) d = Inr v"
  using has_value_last [of Args ids] by (auto simp: value_or_def has_value_def getValue_hd split: option.split)

lemma grows_filtered:
  assumes "args_valued Args" and "set ids \<subseteq> valued" and "\<And>A. a_values A \<noteq> [] \<Longrightarrow> grows (f A)"
  shows "grows (for_each f (filtered ids Args))"
  using assms by (intro grows_for_each) (auto simp: filtered_def args_valued_def)

lemma valued_names [simp]:
  "set (map CC ns) \<subseteq> valued \<longleftrightarrow> set ns \<subseteq> set CC_valued"
  by auto

lemma last_values:
  "args_valued Args \<Longrightarrow> getLastArg Args ids = Some A \<Longrightarrow> set ids \<subseteq> valued \<Longrightarrow> a_values A \<noteq> []"
  using has_value_last [of Args ids] by (auto simp: has_value_def)

lemma grows_value_or:
  assumes "args_valued Args" and "set ids \<subseteq> valued" and "\<And>v. grows (f v)"
  shows "grows (\<lambda>r. bnd (value_or (getLastArg Args ids) d) (\<lambda>v. f v r))"
  using value_or_ok [OF assms(1,2)] assms(3) by (intro grows_bnd)

subsection \<open>The parts of the job\<close>

text \<open>The side conditions are memberships in the list of options that have values.\<close>

lemma rewrite_maps_grow: "args_valued Args \<Longrightarrow> grows (rewrite_maps TC Args)"
  unfolding rewrite_maps_def rewrite_map_def
  by (intro grow grows_filtered grows_with_value) (simp_all add: CC_valued_def)

lemma struct_return_grows: "args_valued Args \<Longrightarrow> grows (struct_return T Args)"
  unfolding struct_return_def
  by (intro grow grows_with_last) (auto simp: assert_def grows_def option_groups_def dest!: getLastArg_opt)

lemma generator_grows: "args_valued Args \<Longrightarrow> grows (generator_steps E TC Args)"
  unfolding generator_steps_def Let_def
  by (intro grow grows_values grows_value_or rewrite_maps_grow struct_return_grows grows_with_last
      grows_with_value last_values) (assumption | simp add: CC_valued_def)+

lemma relocation_grows:
  assumes "args_valued Args"
  shows "grows (relocation_steps E TC Args)"
proof -
  have "grows (CheckCodeGenerationOptions Args)"
    unfolding CheckCodeGenerationOptions_def by (intro grow grows_with_last)
  moreover have "appends (C, D) (bnd (ParsePICArgs (j_pic (cc_job E)) TC Args D) (\<lambda>((M, L, P), D1). steps [
       diag_if ((M = ROPI \<or> M = ROPI_RWPI) \<and> cc_ask E IsCXX \<and> \<not> has_opt Args ''fallow_unsupported'')
         (Compile err_drv_ropi_incompatible_with_cxx),
       add [''-mrelocation-model'', RelocationModelName M],
       add_if (L > 0) ([''-pic-level'', if L = 1 then ''1'' else ''2''] @
         (if P then [''-pic-is-pie''] else []))] (C, D1)))" for C D
    using ParsePICArgs_ok [OF assms, of "j_pic (cc_job E)" TC D]
    by (auto simp: returns_def appends_def diag_if_def add_def add_if_def pushes_def report_def)
  ultimately show ?thesis
    unfolding relocation_steps_def by (intro grow) (simp_all add: grows_def split_def)
qed

lemma assembly_grows: "args_valued Args \<Longrightarrow> grows (assembly_steps K m E TC Args)"
  unfolding assembly_steps_def Let_def
  by (intro grow grows_values) (assumption | simp add: CC_valued_def)+

lemma section_grows: "args_valued Args \<Longrightarrow> grows (section_steps E T Args)"
  unfolding section_steps_def xray_steps_def
  by (intro grow grows_values) (assumption | simp add: CC_valued_def)+

lemma stack_grows: "args_valued Args \<Longrightarrow> grows (stack_steps E T Args h)"
  unfolding stack_steps_def ssp_buffer_def last_value_def Let_def
  by (intro grow grows_filtered grows_with_value grows_value_or) (assumption | simp add: CC_valued_def)+

lemma machine_grows: "args_valued Args \<Longrightarrow> grows (machine_steps E TC Args h)"
  unfolding machine_steps_def opencl_steps_def
  by (intro grow stack_grows grows_values grows_with_last_value) (assumption | simp add: CC_valued_def)+

lemma driver_grows: "args_valued Args \<Longrightarrow> \<not> cc_ask E IsCLMode \<Longrightarrow> grows (driver_steps E TC Args)"
  unfolding driver_steps_def kext_cxx_def Let_def
  by (intro grow grows_values grows_with_last) (assumption | simp add: CC_valued_def)+

lemma debug_level_ok: "\<exists>l. debug_level E Args = Inr l"
  by (auto simp: debug_level_def DebugLevelToInfoKind_def Let_def split: option.split)

lemma debug_grows: "grows (debug_steps E TC Args)"
  unfolding debug_steps_def
  by (intro grow grows_bnd debug_level_ok)

lemma header_grows: "grows (header_steps E Args)"
  unfolding header_steps_def by (intro grow)

lemma arcmt_grows: "args_valued Args \<Longrightarrow> grows (arcmt_steps E Args)"
  unfolding arcmt_steps_def arcmt_arg_def
  by (intro grow grows_with_value) (auto simp: option_groups_def CC_valued_def dest!: getLastArg_opt)

lemma objcmt_grows: "args_valued Args \<Longrightarrow> grows (objcmt_steps E Args)"
  unfolding objcmt_steps_def Let_def
  by (intro grow grows_with_value last_values) (assumption | simp add: CC_valued_def)+

lemma optimisation_grows: "grows (optimisation_steps E Args)"
proof -
  have "grows (\<lambda>(CmdArgs, D). Inr (CmdArgs, claimNoWarnArgs (cc_job E) D))" by (rule grows_keep) simp
  then show ?thesis
    unfolding optimisation_steps_def by (intro grow grows_with_last grows_for_each)
qed

lemma language_grows: "grows (language_steps E TC Args)"
  unfolding language_steps_def standard_steps_def by (intro grow grows_with_last)

lemma limit_grows: "args_valued Args \<Longrightarrow> grows (limit_steps E Args)"
  unfolding limit_steps_def by_value_copy_def prefix_map_def
  by (intro grow grows_values grows_value_or grows_filtered grows_with_last grows_with_value)
    (assumption | simp add: CC_valued_def)+

lemma forward_grows: "args_valued Args \<Longrightarrow> grows (forward_steps E TC Args)"
  unfolding forward_steps_def visibility_def Let_def
  by (intro grow grows_with_last grows_with_value) (auto simp: assert_def grows_def option_groups_def dest!: getLastArg_opt)

lemma openmp_grows: "grows (openmp_steps E Args)"
  unfolding openmp_steps_def by (intro grow)

lemma altivec_grows: "grows (altivec_steps TC Args)"
  unfolding altivec_steps_def by (intro grow grows_with_last)

lemma trap_grows: "args_valued Args \<Longrightarrow> grows (trap_steps E Args)"
  unfolding trap_steps_def by (intro grow grows_values) (assumption | simp add: CC_valued_def)+

lemma builtin_grows: "args_valued Args \<Longrightarrow> grows (builtin_steps Args)"
  unfolding builtin_steps_def
  by (intro grow grows_filtered grows_with_value) (assumption | simp add: CC_valued_def)+

lemma blocks_grows: "grows (blocks_steps E Args)"
  unfolding blocks_steps_def by (intro grow)

lemma crash_dir_ok: "cc_OutputFile E = Some F \<Longrightarrow> \<exists>P. crash_dir E TC name = Inr P"
  by (simp add: crash_dir_def output_name_def)

lemma module_cache_ok:
  assumes "args_valued Args" and "cc_OutputFile E = Some F"
  shows "\<exists>P. module_cache E TC Args = Inr P"
  using value_or_ok [OF assms(1), of "[CC ''fmodules_cache_path'']" "[]"] crash_dir_ok [OF assms(2)]
  by (auto simp: module_cache_def CC_valued_def)

lemma module_grows:
  assumes "args_valued Args" and "cc_OutputFile E = Some F"
  shows "grows (module_steps E TC Args)"
  unfolding module_steps_def module_kind_steps_def module_file_steps_def session_steps_def
  using assms
  by (intro grow grows_bnd module_cache_ok crash_dir_ok grows_with_last grows_filtered grows_with_value)
    (assumption | (erule (1) last_values, simp add: CC_valued_def) | simp add: CC_valued_def)+

lemma report_grows: "args_valued Args \<Longrightarrow> grows (report_steps E TC Args)"
  unfolding report_steps_def record_steps_def stats_steps_def mllvm_arg_def Let_def
  by (intro grow grows_values grows_filtered grows_with_last grows_with_value)
    (assumption | (erule (1) last_values, simp add: CC_valued_def) | simp add: CC_valued_def)+

lemma float_flags_grow: "args_valued Args \<Longrightarrow> grows (contract_flags Fast Args)" "grows (macro_flags Fast Args)"
    "grows (denormal_flags E Args)"
  unfolding contract_flags_def macro_flags_def denormal_flags_def umbrella_def FastMathAlias_def
  by (intro grow grows_with_last grows_with_value; auto simp: option_groups_def CC_valued_def dest!: getLastArg_opt split: if_splits)+

lemma objc_abi_ok: "args_valued Args \<Longrightarrow> returns (objc_abi E Args k D)"
  unfolding objc_abi_def
  by (intro returns_option returns_if returns_Inr returns_bnd)
    (auto simp: returns_def CC_valued_def dest!: last_values getValue_hd)

lemma AddObjCRuntimeArgs_ok:
  assumes "args_valued Args"
  shows "\<exists>runtime F D'. AddObjCRuntimeArgs E R TC Args k (C, D) = Inr (runtime, C @ F, D')"
proof -
  obtain v D1 where abi: "objc_abi E Args k D = Inr (v, D1)"
    using objc_abi_ok [OF assms] unfolding returns_def by (metis prod.collapse)
  show ?thesis
  proof (cases "getLastArg Args [CC ''fnext_runtime'', CC ''fgnu_runtime'', CC ''fobjc_runtime_EQ'']")
    case None
    then show ?thesis by (simp add: AddObjCRuntimeArgs_def abi Let_def)
  next
    case (Some A)
    then have "a_opt A = CC ''fobjc_runtime_EQ'' \<Longrightarrow> a_values A \<noteq> []"
      using getLastArg_opt [OF assms _ Some] by (simp add: CC_valued_def option_groups_def)
    with Some show ?thesis
      by (auto simp: AddObjCRuntimeArgs_def abi Let_def getValue_hd split: option.split)
  qed
qed

text \<open>What the tool chain guarantees for RTTI: it is off by default on PS4 only, and off explicitly by an argument.\<close>

definition rtti_known :: "ToolChain \<Rightarrow> bool" where
  "rtti_known TC \<longleftrightarrow> rtti_ok TC \<and> (tc_RTTIMode TC = RM_DisabledImplicitly \<longrightarrow> t_isPS4CPU (tc_Triple TC))"

lemma ps4_exceptions_grow: "rtti_ok TC \<Longrightarrow> A \<noteq> None \<Longrightarrow> grows (ps4_exceptions TC A)"
  by (auto simp: grows_def ps4_exceptions_def rtti_ok_def diag_if_def split: option.split)

lemma exceptions_grow:
  assumes "rtti_known TC"
  shows "grows (addExceptionArgs E TC Args k runtime)"
proof -
  have "grows (\<lambda>r. if tc_RTTIMode TC = RM_DisabledImplicitly then Inl Unreachable else Inr r)"
    if "\<not> t_isPS4CPU (tc_Triple TC)"
    using assms that by (auto simp: grows_def rtti_known_def)
  with assms show ?thesis
    unfolding addExceptionArgs_def Let_def
    by (intro grow ps4_exceptions_grow) (auto simp: rtti_known_def cxx_exceptions_enabled_def split: option.splits)
qed

lemma objc_grows:
  assumes "args_valued Args" and "rtti_known TC"
  shows "grows (objc_steps E R TC Args)"
proof -
  have run: "grows (runtime_steps E TC Args runtime)" for runtime
    unfolding runtime_steps_def weak_step_def
    by (intro grow grows_with_last exceptions_grow assms(2))
  have "appends (C, D) (objc_steps E R TC Args (C, D))" for C D
  proof -
    obtain runtime F D' where "AddObjCRuntimeArgs E R TC Args (rewrite_kind E) (C, D) = Inr (runtime, C @ F, D')"
      using AddObjCRuntimeArgs_ok [OF assms(1)] by blast
    then have "objc_steps E R TC Args (C, D) = runtime_steps E TC Args runtime (C @ F, D')"
      by (simp add: objc_steps_def)
    moreover have "appends (C, D) (Inr (C @ F, D'))" by (simp add: appends_def)
    ultimately show ?thesis using run by (simp add: grows_def appends_trans)
  qed
  then show ?thesis unfolding grows_def by (metis prod.collapse)
qed

lemma dialect_grows: "args_valued Args \<Longrightarrow> rtti_known TC \<Longrightarrow> grows (dialect_steps E R TC Args)"
  unfolding dialect_steps_def character_steps_def ms_steps_def vcpp_standard_def new_steps_def layout_steps_def
    pack_struct_def max_type_align_def Let_def
  by (intro grow objc_grows grows_values grows_with_last grows_with_value)
    (assumption | (erule (1) last_values, simp add: CC_valued_def) | simp add: CC_valued_def)+

text \<open>A flag that is off although it is on by default was switched off by an option.\<close>

definition flags_found :: "ArgList \<Rightarrow> bool" where
  "flags_found Args \<longleftrightarrow> (\<forall>Pos Neg. \<not> hasFlag Args Pos Neg True \<longrightarrow> getLastArg Args [Neg] \<noteq> None)"

lemma diagnostic_grows:
  assumes "args_valued Args" and "flags_found Args"
  shows "grows (diagnostic_steps E Args)"
proof -
  have form: "grows (unsupported_form Args Pos Neg d)" for Pos Neg d
    unfolding unsupported_form_def using assms(2)
    by (intro grow) (metis flags_found_def flag_def)
  have color: "grows (for_each color_arg (filtered color_options Args))"
    unfolding color_arg_def
    by (intro grow grows_for_each grows_with_value) (use assms(1) in \<open>auto simp: filtered_def args_valued_def CC_valued_def\<close>)
  show ?thesis
    unfolding diagnostic_steps_def utf8_only_def
    using assms(1)
    by (intro grow grows_values grows_with_last grows_with_value form color)
      (assumption | (erule (1) last_values, simp add: CC_valued_def) | simp add: CC_valued_def)+
qed

text \<open>The levels of optimisation are \<open>-O0\<close>, \<open>-O4\<close>, \<open>-Ofast\<close> and \<open>-O\<close> with a value.\<close>

definition levels_known :: "ArgList \<Rightarrow> bool" where
  "levels_known Args \<longleftrightarrow> (\<forall>A. getLastArg Args [Tool OPT_O_Group] = Some A \<longrightarrow>
     a_opt A \<in> {Link OPT_O4, Link OPT_Ofast, Tool OPT_O0, Link OPT_O} \<and> (a_opt A = Link OPT_O \<longrightarrow> a_values A \<noteq> []))"

lemma vector_grows: "levels_known Args \<Longrightarrow> grows (vector_steps E Args)"
proof -
  assume "levels_known Args"
  then have "\<exists>v. shouldEnableVectorizerAtOLevel E Args b = Inr v" for b
    by (auto simp: levels_known_def shouldEnableVectorizerAtOLevel_def getValue_hd split: option.split)
  then have "grows (vectorize E Args b Pos Neg F)" for b Pos Neg F
    unfolding vectorize_def by (intro grows_bnd grow) 
  then show ?thesis
    unfolding vector_steps_def by (intro grow grows_with_last)
qed

subsection \<open>Profiles and the preprocessor\<close>

lemma last_but_Some:
  assumes "args_valued Args" and "last_but Args Pos Neg = Some A" and "CC ` set Pos \<inter> option_groups = {}" and "CC Neg \<notin> option_groups"
  shows "a_opt A \<in> valued \<longrightarrow> a_values A \<noteq> []"
  using assms getLastArg_opt [OF assms(1), of "map CC Pos @ [CC Neg]" A]
  by (auto simp: last_but_def split: option.splits if_splits)

lemma coverage_files_grow:
  assumes "args_valued Args" and "args_valued CArgs"
  shows "grows (coverage_files E TC Args CArgs)"
proof -
  have "\<exists>v. (case getLastArg Args [CC ''fprofile_dir''] of None \<Rightarrow> Inr nts
      | Some FProfileDir \<Rightarrow> bnd (getValue FProfileDir) (\<lambda>v. Inr (f v))) = Inr v" for nts f
    using last_values [OF assms(1), of "[CC ''fprofile_dir'']"]
    by (auto simp: CC_valued_def getValue_hd split: option.split)
  then show ?thesis
    unfolding coverage_files_def Let_def
    by (intro grow grows_bnd value_or_ok assms(2)) simp_all
qed

lemma profile_grows:
  assumes "args_valued Args" and "args_valued CArgs"
  shows "grows (addPGOAndCoverageFlags E TC Args CArgs)"
proof -
  have conflict: "grows (conflict A B)" for A B
    unfolding conflict_def by (auto intro: grow split: option.split)
  have gen: "grows (profile_generate (ProfileGenerateArg Args))"
    unfolding profile_generate_def
    by (intro grow grows_with_value)
      (auto simp: ProfileGenerateArg_def option_groups_def CC_valued_def dest!: last_but_Some [OF assms(1)])
  have pgo: "grows (pgo_generate TC (PGOGenerateArg Args))"
    unfolding pgo_generate_def
    by (intro grow grows_with_value)
      (auto simp: PGOGenerateArg_def option_groups_def CC_valued_def dest!: last_but_Some [OF assms(1)])
  have use: "grows (profile_use E TC (getLastProfileUseArg Args))"
    unfolding profile_use_def Let_def
    by (intro grow grows_with_value)
      (auto simp: getLastProfileUseArg_def option_groups_def CC_valued_def dest!: last_but_Some [OF assms(1)])
  show ?thesis
    unfolding addPGOAndCoverageFlags_def Let_def
    by (intro grow conflict gen pgo use coverage_files_grow assms)
qed

text \<open>The headers that the option parser hands out as \<open>-include\<close> have their names.\<close>

definition headers_named :: "cc_env \<Rightarrow> bool" where
  "headers_named E \<longleftrightarrow>
     (\<forall>A \<in> set (j_matching (cc_job E) (CC ''clang_i_Group'')). a_opt A = CC ''include'' \<longrightarrow> a_values A \<noteq> [])"

lemma pch_index_ok:
  assumes "has_value Y" and "\<forall>A \<in> set is. a_opt A = CC ''include'' \<longrightarrow> a_values A \<noteq> []"
  shows "\<exists>i. pch_index Y is = Inr i"
proof -
  have "\<exists>i. foldl (\<lambda>m (AI, A). bnd m (\<lambda>i. if a_opt A \<noteq> CC ''include'' then Inr i
      else bnd (getValue A) (\<lambda>v. Inr (if v = header then Some AI else i)))) (Inr old) (List.enumerate n is) = Inr i"
    for header old n
    using assms(2)
  proof (induction "is" arbitrary: old n)
    case (Cons A "is")
    then show ?case by (cases "a_opt A = CC ''include''") (simp_all add: getValue_hd)
  qed simp
  note walk = this
  show ?thesis
  proof (cases Y)
    case (Some A)
    with assms(1) walk [where header = "hd (a_values A)" and old = None and n = 0] show ?thesis
      by (elim exE) (simp add: pch_index_def has_value_def getValue_hd)
  qed (simp add: pch_index_def)
qed

lemma include_args_grow:
  assumes "\<not> cc_ask E IsCLMode" and "\<forall>A \<in> set is. a_opt A = CC ''include'' \<longrightarrow> a_values A \<noteq> []"
  shows "grows (include_args E TC G Yc Yu n b is)"
  using assms(2)
proof (induction "is" arbitrary: n b)
  case (Cons A "is")
  have "grows (gcc_include E TC first A)" if "a_values A \<noteq> []" for first
    unfolding gcc_include_def using that by (intro grow grows_with_value) (auto intro!: grow split: prod.split)
  moreover have "grows (steps [claims [A], render E A])" by (intro grow)
  ultimately show ?case
    using Cons assms(1) by (auto simp: grows_def intro: appends_bnd grows_add [unfolded grows_def, rule_format])
qed (simp add: grows_def)

lemma pch_args_grow:
  assumes "args_valued Args" and "headers_named E" and "\<not> cc_ask E IsCLMode"
  shows "grows (pch_args E TC G Args)"
proof -
  let ?is = "j_matching (cc_job E) (CC ''clang_i_Group'')"
  have "\<exists>i. pch_index (getLastArg Args [CC n]) ?is = Inr i" if "n \<in> set CC_valued" for n
    using that assms(2) by (intro pch_index_ok has_value_last [OF assms(1)]) (simp_all add: headers_named_def)
  then obtain Yc Yu where y: "pch_index (getLastArg Args [CC ''_SLASH_Yc'']) ?is = Inr Yc"
    "pch_index (getLastArg Args [CC ''_SLASH_Yu'']) ?is = Inr Yu"
    by (metis (no_types, lifting) CC_valued_def list.set_intros(1,2))
  have "appends r (pch_args E TC G Args r)" for r
    unfolding pch_args_def Let_def y bnd_Inr
    using assms(2) by (intro appends_bnd growsD grows_add_if include_args_grow assms(3)) (simp add: headers_named_def)
  then show ?thesis by (rule growsI)
qed

lemma preprocessing_grows:
  assumes "args_valued Args" and "headers_named E" and "\<not> cc_ask E IsCLMode" and "cc_OutputFile E = Some F"
  shows "grows (AddPreprocessingOptions E TC G Args)"
proof -
  have dep: "\<exists>v. dep_file E Args A = Inr v" for A
    using last_values [OF assms(1), of "[CC ''MF'']"] assms(4)
    by (auto simp: dep_file_def CC_valued_def getValue_hd split: option.split)
  have tgt: "\<exists>v. dep_target E Args = Inr v"
    using last_values [OF assms(1), of "[Job OPT_o]"]
    by (auto simp: dep_target_def getValue_hd split: option.split)
  have targets: "grows (dep_targets E Args)"
    unfolding dep_targets_def
    by (intro grows_for_each grow grows_with_value)
      (use assms(1) in \<open>auto simp: filtered_def args_valued_def CC_valued_def\<close>)
  have deps: "grows (dependencies E Args)"
    unfolding dependencies_def dep_args_def by (intro grow grows_bnd dep tgt targets)
  have paths: "grows (include_paths E Args)"
  proof -
    have dir: "\<exists>Fs. addDirectoryList n d C = C @ Fs" for n d C
      by (simp add: addDirectoryList_def add_dirs_eq split: option.split)
    have dirs: "grows (\<lambda>(CmdArgs, D). Inr (addDirectoryList a x (addDirectoryList b y (addDirectoryList c z
        (addDirectoryList d v (addDirectoryList e w CmdArgs)))), D))" for a b c d e v w x y z
      by (rule growsI) (simp add: appends_def split_def, metis append_assoc dir)
    show ?thesis unfolding include_paths_def by (intro grow grows_with_last dirs)
  qed
  show ?thesis
    unfolding AddPreprocessingOptions_def CheckPreprocessingOptions_def
    by (intro grow grows_with_last deps pch_args_grow paths assms)
qed

subsection \<open>The beginning and the target\<close>

text \<open>
  An ordinary compilation: one input file, one output file, no offloading, not the mode of \<open>cl.exe\<close>; a job whose
  result Clang can produce; and a Windows target whose name says which ARM it is.
\<close>

definition version_known :: "cc_env \<Rightarrow> Triple \<Rightarrow> bool" where
  "version_known E T \<longleftrightarrow> (windows_on_arm T \<longrightarrow>
     cc_getAsUnsigned E (drop (if t_Arch T = Arch_arm then 4 else 6) (t_ArchName T)) \<noteq> None)"

definition ordinary :: "cc_env \<Rightarrow> ToolChain \<Rightarrow> ArgList \<Rightarrow> bool" where
  "ordinary E TC Args \<longleftrightarrow>
     cc_Inputs E = 1 \<and> cc_InputFile E \<noteq> None \<and> cc_OutputFile E \<noteq> None \<and>
     \<not> cc_is E HostOffload_OpenMP \<and> \<not> cc_ask E IsCLMode \<and> \<not> has_opt Args ''_SLASH_fallback'' \<and>
     (cc_JA E = AnalyzeJob \<longrightarrow> cc_JAType E = T_Plist) \<and>
     (cc_JA E = CompileJob \<or> cc_JA E = BackendJob \<longrightarrow> compile_action (cc_JAType E) \<noteq> None) \<and>
     version_known E (tc_EffectiveTriple TC)"

lemma arm_version_grows: "version_known E T \<Longrightarrow> grows (arm_version E T)"
  by (rule growsI) (cases "windows_on_arm T"; fastforce simp: version_known_def arm_version_def diag_if_def)

lemma kind_grows:
  assumes "args_valued Args" and "ordinary E TC Args"
  shows "grows (compile_kind E TC Args)"
proof -
  have job: "grows (compile_steps E Args)" if "cc_JA E = CompileJob \<or> cc_JA E = BackendJob"
    using assms(2) that unfolding compile_steps_def by (intro grow) (auto simp: ordinary_def)
  have as: "grows (CollectArgsForIntegratedAssembler (cc_job E) Args)"
    by (rule growsI) (rule CollectArgs_appends [OF assms(1)])
  have version: "grows (arm_version E (tc_EffectiveTriple TC))"
    using assms(2) by (intro arm_version_grows) (simp add: ordinary_def)
  have assert: "grows (assert b)" if b for b
    using that by (intro growsI) (simp add: assert_def)
  have plist: "cc_JA E = AnalyzeJob \<Longrightarrow> cc_JAType E = T_Plist"
    using assms(2) by (simp add: ordinary_def)
  have action: "grows (action_steps E Args)"
    unfolding action_steps_def
    by (cases "cc_JA E"; simp only: JobClass.case plist job simp_thms; intro grow assert as TrueI)
  have bitcode: "grows (bitcode_steps E Args)"
    unfolding bitcode_steps_def by (intro grow grows_with_last)
  have analyzer: "grows (analyzer_steps E (tc_Triple TC) Args)"
    unfolding analyzer_steps_def
    using assms(1) by (intro grow grows_value_or) (assumption | simp add: CC_valued_def)+
  show ?thesis
    unfolding compile_kind_def by (intro grow version action bitcode analyzer)
qed

lemma ParseMRecip_ok: "\<exists>Fs D'. ParseMRecip Args C D = (C @ Fs, D')"
  unfolding ParseMRecip_def Let_def
  by (auto split: option.splits prod.splits list.splits bool.splits if_splits simp del: recip_loop.simps)

lemma math_grows: "args_valued Args \<Longrightarrow> grows (math_steps E Args)"
proof -
  assume "args_valued Args"
  moreover have "grows (\<lambda>(CmdArgs, D). Inr (ParseMRecip Args CmdArgs D))"
    using ParseMRecip_ok [of Args] by (intro growsI) (auto simp: appends_def split: prod.split)
  ultimately show ?thesis
    unfolding math_steps_def Let_def by (intro grow float_flags_grow)
qed

text \<open>The target options for ARM.\<close>

lemma target_grows:
  assumes "args_valued Args" and "parsers_signed P E" and "knows_cyclone E" and "t_Arch (tc_Triple TC) \<in> arm_archs"
  shows "grows (target_job P E TC Args)"
proof (rule growsI)
  fix r :: feats
  obtain C D where r: "r = (C, D)" by fastforce
  let ?T = "tc_EffectiveTriple TC"
  obtain c1 where c1: "target_cpu P E ?T Args False C = Inr (C @ c1)"
    using target_cpu_ok [OF assms(1)] by blast
  obtain c2 where c2: "(case getLastArg Args [Asm OPT_mfpmath_EQ] of None \<Rightarrow> Inr (C @ c1)
      | Some A \<Rightarrow> bnd (getValue A) (\<lambda>v. Inr ((C @ c1) @ [''-mfpmath'', v]))) = Inr (C @ c2)"
    using value_of_last [OF assms(1), of "Asm OPT_mfpmath_EQ"]
    by (cases "getLastArg Args [Asm OPT_mfpmath_EQ]") (simp_all add: that)
  obtain c3 D3 where c3: "getTargetFeatures P E TC ?T Args False (C @ c2, D) = Inr (C @ c2 @ c3, D3)"
    using getTargetFeatures_appends [OF assms(1-3), of TC ?T False "C @ c2" D] by auto
  obtain ABI D4 where abi: "getARMFloatABI P TC Args D3 = Inr (ABI, D4)"
    using getARMFloatABI_returns [OF assms(1)] by blast
  have "appends (C @ c2 @ c3, D3) (AddARMTargetArgs P TC ?T Args (C @ c2 @ c3) D3)"
    using value_of_last [OF assms(1), of "Tool OPT_mabi_EQ"]
    by (auto simp: AddARMTargetArgs_def abi appends_def split: option.split)
  then show "appends r (target_job P E TC Args r)"
    using assms(4) by (auto simp: target_job_def r c1 c2 c3 target_flags_def Let_def appends_def)
qed

subsection \<open>The flags of the sanitizers\<close>

text \<open>What the option \<open>-fsanitize-coverage\<close> and Windows add before them.\<close>

definition before_sanitizers :: "sanitizers \<Rightarrow> ToolChain \<Rightarrow> bool \<Rightarrow> bool \<Rightarrow> sanitizer_args \<Rightarrow> string list" where
  "before_sanitizers K TC isCXX needsStats m =
     concat (map (\<lambda>(F, flag). when_flag (CoverageFeatures m AND F \<noteq> 0) [flag]) coverage_flags) @
     windows_libs K TC isCXX needsStats m"

definition passed_flags :: "sanitizers \<Rightarrow> sanitizer_args \<Rightarrow> string list" where
  "passed_flags K m = (if Sanitizers m = 0 then [] else enabled_flags K m)"

lemma sanitizer_step_eq:
  assumes "\<not> t_isNVPTX (tc_Triple TC)" and "Sanitizers m AND CFIClasses K = 0"
  shows "sanitizer_step K m N E TC Args (C, D) =
    Inr (C @ before_sanitizers K TC (cc_ask E IsCXX) (needsStatsRt N) m @ passed_flags K m, D)"
  using assms by (simp add: sanitizer_step_def addArgs_def before_sanitizers_def passed_flags_def Let_def)

subsection \<open>The job\<close>

lemma split_name_ok: "args_valued Args \<Longrightarrow> \<exists>F. split_name E TC Args = Inr F"
proof -
  assume a: "args_valued Args"
  obtain k S where "debug_level E Args = Inr (k, S)" using debug_level_ok [of E Args] by (metis prod.collapse)
  then show ?thesis
    using value_of_last [OF a, of "Job OPT_o"]
    by (auto simp: split_name_def SplitDebugName_def split: option.split)
qed

lemma split_commands_ok:
  assumes "args_valued Args" and "cc_OutputFile E = Some Out"
  shows "\<exists>js. split_commands E TC Args = Inr js"
proof -
  obtain F where "split_name E TC Args = Inr F" using split_name_ok [OF assms(1)] by blast
  with assms(2) show ?thesis by (cases F) (simp_all add: split_commands_def output_name_def)
qed

lemma final_grows:
  assumes "args_valued Args" and "ordinary E TC Args"
  shows "grows (final_tail E TC Args)"
proof -
  have offload: "grows (offload_steps E Args)"
    unfolding offload_steps_def using assms(2) by (intro grow) (simp_all add: ordinary_def)
  have "grows (\<lambda>r. bnd (split_name E TC Args) (\<lambda>F. (case F of None \<Rightarrow> add [] | Some F \<Rightarrow> add [''-split-dwarf-file'', F]) r))"
    by (intro grows_bnd split_name_ok assms(1) grow)
  then show ?thesis
    unfolding final_tail_def whole_program_def by (intro grow offload)
qed

text \<open>What the option parser guarantees of a command line.\<close>

definition parsed :: "cc_env \<Rightarrow> ArgList \<Rightarrow> bool" where
  "parsed E Args \<longleftrightarrow> args_valued Args \<and> flags_found Args \<and> levels_known Args \<and> headers_named E"

lemma code_grows:
  assumes "parsed E Args" and "ordinary E TC Args" and "parsers_signed P (j_target (cc_job E))"
    and "knows_cyclone (j_target (cc_job E))" and "t_Arch (tc_Triple TC) \<in> arm_archs"
  shows "grows (code_steps K P m E TC Args)"
proof -
  have "args_valued Args" using assms(1) by (simp add: parsed_def)
  then show ?thesis
    unfolding code_steps_def
    by (intro grow kind_grows relocation_grows generator_grows math_grows assembly_grows target_grows assms)
qed

lemma input_grows:
  assumes "parsed E Args" and "args_valued CArgs" and "ordinary E TC Args"
  shows "grows (input_steps E TC G CArgs Args)"
proof -
  have a: "args_valued Args" "headers_named E" "\<not> cc_ask E IsCLMode"
    using assms(1,3) by (simp_all add: parsed_def ordinary_def)
  obtain F where "cc_OutputFile E = Some F" using assms(3) by (auto simp: ordinary_def)
  with a show ?thesis
    unfolding input_steps_def
    by (intro grow driver_grows debug_grows section_grows profile_grows header_grows arcmt_grows objcmt_grows
      preprocessing_grows assms(2))
qed

lemma front_grows: "parsed E Args \<Longrightarrow> grows (front_steps E TC Args)"
  unfolding front_steps_def parsed_def
  by (intro grow optimisation_grows language_grows limit_grows forward_grows openmp_grows) simp_all

lemma back_grows:
  assumes "parsed E Args" and "rtti_known TC" and "ordinary E TC Args"
  shows "grows (back_steps E R TC Args)"
proof -
  have a: "args_valued Args" "flags_found Args" "levels_known Args" using assms(1) by (simp_all add: parsed_def)
  obtain F where "cc_OutputFile E = Some F" using assms(3) by (auto simp: ordinary_def)
  with a assms(2) show ?thesis
    unfolding back_steps_def
    by (intro grow altivec_grows trap_grows machine_grows builtin_grows blocks_grows module_grows dialect_grows
      diagnostic_grows vector_grows report_grows)
qed

lemma database_ok:
  assumes "args_valued Args" and "cc_InputFile E = Some In" and "cc_OutputFile E = Some Out"
  shows "\<exists>s. database C E Args T (CDB, D) = Inr s"
proof (cases "getLastArg Args [CC ''MJ'']")
  case (Some MJ)
  then have "a_values MJ \<noteq> []" using last_values [OF assms(1) Some] by (simp add: CC_valued_def)
  with Some assms(2,3) show ?thesis
    by (auto simp: database_def DumpCompilationDatabase_def getValue_hd split: option.split)
qed (simp add: database_def)

lemma grows_obtain:
  assumes "grows s"
  obtains F D' where "s (C, D) = Inr (C @ F, D')"
  using growsD [OF assms, of "(C, D)"] unfolding appends_def by auto

text \<open>
  C7: The compile job of an ordinary compilation for ARM (one input, an output of a kind the compiler knows,
  neither clang-cl nor offloading, no control flow integrity) is always produced: no assertion fails and no null
  pointer is used on the way. It is one command in the mode \<open>-cc1\<close> for the target, and
  among its arguments are, in one piece, the flags with which the object \<open>SanitizerArgs\<close> switches on the
  instrumentation, before the output and the input.
\<close>

theorem compile_job_passes_sanitizers:
  assumes "parsed E Args" and "args_valued CArgs" and "ordinary E TC Args" and "rtti_known TC"
    and "parsers_signed P (j_target (cc_job E))" and "knows_cyclone (j_target (cc_job E))"
    and "t_Arch (tc_Triple TC) \<in> arm_archs" and "\<not> t_isNVPTX (tc_Triple TC)" and "Sanitizers m AND CFIClasses K = 0"
  shows "\<exists>j before between rest. Clang_ConstructJob K P m N C E R TC G CArgs Args CDB D = Inr j \<and> cj_kind j = Command \<and>
    cj_args j = [''-cc1'', ''-triple'', t_str (tc_EffectiveTriple TC)] @ before @ passed_flags K m @ between @
      file_args E Args @ rest"
proof -
  have valued: "args_valued Args" using assms(1) by (simp add: parsed_def)
  obtain In Out where files: "cc_InputFile E = Some In" "cc_OutputFile E = Some Out"
    using assms(3) by (auto simp: ordinary_def)
  let ?T = "t_str (tc_EffectiveTriple TC)" and ?c0 = "[''-cc1'', ''-triple'', t_str (tc_EffectiveTriple TC)]"
  obtain D0 where start: "steps [compile_inputs E, add [''-cc1'', ''-triple'', ?T]] ([], D) = Inr (?c0, D0)"
    using assms(3) by (simp add: compile_inputs_def assert_def ordinary_def diag_if_def add_def report_def pushes_def)
  obtain CDB1 D1 where db: "database C E Args ?T (CDB, D0) = Inr (CDB1, D1)"
    using database_ok [OF valued files] by (metis prod.collapse)
  obtain F1 D2 where s1: "code_steps K P m E TC Args (?c0, D1) = Inr (?c0 @ F1, D2)"
    by (rule grows_obtain [OF code_grows [OF assms(1,3,5-7)]])
  obtain F2 D3 where s2: "input_steps E TC G CArgs Args (?c0 @ F1, D2) = Inr ((?c0 @ F1) @ F2, D3)"
    by (rule grows_obtain [OF input_grows [OF assms(1-3)]])
  obtain F3 D4 where s3: "front_steps E TC Args ((?c0 @ F1) @ F2, D3) = Inr (((?c0 @ F1) @ F2) @ F3, D4)"
    by (rule grows_obtain [OF front_grows [OF assms(1)]])
  let ?san = "before_sanitizers K TC (cc_ask E IsCXX) (needsStatsRt N) m @ passed_flags K m"
  let ?c4 = "(((?c0 @ F1) @ F2) @ F3) @ ?san"
  obtain F5 D5 where s5: "back_steps E R TC Args (?c4, D4) = Inr (?c4 @ F5, D5)"
    by (rule grows_obtain [OF back_grows [OF assms(1,4,3)]])
  let ?c5 = "?c4 @ F5"
  obtain F6 D6 where s6: "final_tail E TC Args (?c5 @ file_args E Args, D5) = Inr ((?c5 @ file_args E Args) @ F6, D6)"
    by (rule grows_obtain [OF final_grows [OF valued assms(3)]])
  obtain split where split: "split_commands E TC Args = Inr split"
    using split_commands_ok [OF valued files(2)] by blast
  have kind: "command_kind E Args = Inr Command"
    using assms(3) by (simp add: command_kind_def ordinary_def)
  have args: "compile_args K P m N E R TC G CArgs Args (?c0, D1) = Inr ((?c5 @ file_args E Args) @ F6, D6)"
    by (simp only: compile_args_def steps.simps s1 bnd_Inr s2 s3 sanitizer_step_eq [OF assms(8,9)] s5 final_steps_def
      add_def pushes_def prod.case s6)
  show ?thesis
    by (intro exI [of _ "\<lparr>cj_kind = Command, cj_args = (?c5 @ file_args E Args) @ F6, cj_split = split, cj_CDB = CDB1,
          cj_drv = last_claims E Args D6\<rparr>"]
        exI [of _ "F1 @ F2 @ F3 @ before_sanitizers K TC (cc_ask E IsCXX) (needsStatsRt N) m"] exI [of _ F5] exI [of _ F6])
      (simp only: Clang_ConstructJob_def Let_def start bnd_Inr prod.case db args kind split, simp)
qed

text \<open>A C file for the embedded target, with the race detector switched on.\<close>

definition demo_cc :: cc_env where
  "demo_cc = \<lparr>cc_job = demo_job, cc_ask = (\<lambda>_. False), cc_is = (\<lambda>_. False), cc_text = (\<lambda>_. []), cc_list = (\<lambda>_. []),
     cc_AllArgs = (\<lambda>_. []), cc_getenv = (\<lambda>_. None), cc_getAsUnsigned = (\<lambda>_. None), cc_is_directory = (\<lambda>_. False),
     cc_is_relative = (\<lambda>_. False), cc_JA = BackendJob, cc_JAType = T_PP_Asm, cc_OutputType = T_PP_Asm, cc_InputType = T_C,
     cc_OutputFile = Some ''a.s'', cc_InputFile = Some ''a.c'', cc_Inputs = 1, cc_DebuggerTuning = Debugger_GDB,
     cc_MSVCMajor = 0, cc_StackProtector = (\<lambda>_. 0), cc_getTriple = id, cc_VisualStudio = [], cc_Username = None,
     cc_uid = 0, cc_in_gN = (\<lambda>_. True)\<rparr>"

theorem compile_job_passes_sanitizers_witness:
  "\<forall>C R CDB D. \<exists>j. Clang_ConstructJob demo_sanitizers demo_arm (demo_object\<lparr>Sanitizers := 2\<rparr>) no_needs C demo_cc R demo_TC id
      demo_float_line demo_float_line CDB D = Inr j \<and> cj_kind j = Command \<and>
    ''-fsanitize=thread'' \<in> set (cj_args j) \<and> {''-o'', ''a.s'', ''a.c''} \<subseteq> set (cj_args j)"
proof (intro allI)
  fix C R CDB D
  have "parsed demo_cc demo_float_line"
    using demo_float_line_valued
    by (simp add: parsed_def flags_found_def levels_known_def headers_named_def demo_float_line_def demo_args_def demo_arg_def
      demo_cc_def demo_job_def)
  moreover have "ordinary demo_cc demo_TC demo_float_line"
    by (simp add: ordinary_def demo_cc_def has_opt_def demo_float_line_def demo_args_def demo_arg_def version_known_def
      windows_on_arm_def demo_TC_def demo_triple_def)
  moreover have "rtti_known demo_TC" by (simp add: rtti_known_def rtti_ok_def demo_TC_def)
  ultimately obtain j before between rest where
    j: "Clang_ConstructJob demo_sanitizers demo_arm (demo_object\<lparr>Sanitizers := 2\<rparr>) no_needs C demo_cc R demo_TC id
      demo_float_line demo_float_line CDB D = Inr j" "cj_kind j = Command"
    "cj_args j = [''-cc1'', ''-triple'', t_str (tc_EffectiveTriple demo_TC)] @ before @
      passed_flags demo_sanitizers (demo_object\<lparr>Sanitizers := 2\<rparr>) @ between @ file_args demo_cc demo_float_line @ rest"
    using compile_job_passes_sanitizers [of demo_cc demo_float_line demo_float_line demo_TC demo_arm
        "demo_object\<lparr>Sanitizers := 2\<rparr>" demo_sanitizers no_needs C R id CDB D] demo_options_ok demo_float_line_valued
    by (auto simp: demo_cc_def demo_job_def demo_TC_def demo_triple_def arm_archs_def demo_sanitizers_def demo_object_def
      CFIClasses_def)
  moreover have "''-fsanitize=thread'' \<in> set (passed_flags demo_sanitizers (demo_object\<lparr>Sanitizers := 2\<rparr>))"
    by (simp add: passed_flags_def enabled_flags_def toString_def demo_sanitizers_def demo_object_def comma_def has_def)
  moreover have "{''-o'', ''a.s'', ''a.c''} \<subseteq> set (file_args demo_cc demo_float_line)"
    by (simp add: file_args_def output_args_def input_args_def demo_cc_def)
  ultimately show "\<exists>j. Clang_ConstructJob demo_sanitizers demo_arm (demo_object\<lparr>Sanitizers := 2\<rparr>) no_needs C demo_cc R
      demo_TC id demo_float_line demo_float_line CDB D = Inr j \<and> cj_kind j = Command \<and>
    ''-fsanitize=thread'' \<in> set (cj_args j) \<and> {''-o'', ''a.s'', ''a.c''} \<subseteq> set (cj_args j)" by (intro exI [of _ j]) auto
qed

subsection \<open>The order of options for debug information\<close>

text \<open>
  Debug information that is split into files of its own is decided by the order of the options. With
  \<open>-gsplit-dwarf\<close> and an option for the level, it is split on Linux exactly when \<open>-gsplit-dwarf\<close> comes last, or the
  level after it keeps debug information for which splitting makes sense; then there is debug information,
  even if the level was none. When it is not split because debug information was switched off last, there is
  none, unless modules ask for it.
\<close>

theorem split_debug_information:
  assumes "getLastArg Args [Job OPT_gsplit_dwarf] = Some S" and "getLastArg Args [Link OPT_g_Group] = Some A"
    and "cc_in_gN E A" and "DebugLevelToInfoKind True A = Inr Kind"
  shows "\<exists>level. debug_level E Args = Inr level \<and>
    (splits TC (snd level) \<longleftrightarrow> t_isOSLinux (tc_Triple TC) \<and>
       (a_index A \<le> a_index S \<or> Kind = LimitedDebugInfo \<or> Kind = DebugLineTablesOnly \<and> \<not> splitDwarfInlining Args)) \<and>
    (splits TC (snd level) \<longrightarrow> final_kind E TC Args level \<noteq> NoDebugInfo) \<and>
    (Kind = NoDebugInfo \<and> \<not> splits TC (snd level) \<and> \<not> has_opt Args ''gmodules'' \<longrightarrow>
       final_kind E TC Args level = NoDebugInfo)"
proof -
  have kind: "Kind \<noteq> FullDebugInfo"
    using assms(4) by (auto simp: DebugLevelToInfoKind_def split: if_splits)
  let ?late = "a_index A > a_index S" and ?inl = "splitDwarfInlining Args"
  let ?level = "if ?late then (Kind, if Kind = NoDebugInfo \<or> Kind = DebugLineTablesOnly \<and> ?inl then None else Some S)
    else (if ?inl then NoDebugInfo else Kind, Some S)"
  have level: "debug_level E Args = Inr ?level"
    using assms by (simp add: debug_level_def Let_def)
  have kept: "splits TC (snd ?level) \<longleftrightarrow> t_isOSLinux (tc_Triple TC) \<and>
      (\<not> ?late \<or> Kind = LimitedDebugInfo \<or> Kind = DebugLineTablesOnly \<and> \<not> ?inl)"
    using kind by (cases Kind) (auto simp: splits_def)
  have some: "splits TC (snd l) \<longrightarrow> final_kind E TC Args l \<noteq> NoDebugInfo" for l
    by (auto simp: final_kind_def Let_def split_def)
  have none: "Kind = NoDebugInfo \<and> \<not> splits TC (snd ?level) \<and> \<not> has_opt Args ''gmodules'' \<longrightarrow>
      final_kind E TC Args ?level = NoDebugInfo"
    by (auto simp: final_kind_def with_modules_def Let_def)
  show ?thesis
    using level kept some none by (intro exI [of _ ?level]) (simp add: not_less)
qed

theorem split_debug_information_witness:
  "\<exists>level. debug_level demo_cc (demo_args [demo_arg 0 (Job OPT_gsplit_dwarf) [], demo_arg 1 (Link OPT_g_Group) []]) = Inr level \<and>
    splits demo_TC (snd level)"
proof -
  let ?S = "demo_arg 0 (Job OPT_gsplit_dwarf) []" and ?A = "demo_arg 1 (Link OPT_g_Group) []"
  have "DebugLevelToInfoKind True ?A = Inr LimitedDebugInfo"
    by (simp add: DebugLevelToInfoKind_def demo_arg_def)
  with split_debug_information [of "demo_args [?S, ?A]" ?S ?A demo_cc LimitedDebugInfo demo_TC]
  show ?thesis
    by (auto simp: demo_args_def demo_arg_def demo_cc_def demo_TC_def demo_triple_def)
qed

text \<open>
  \<open>-gsplit-dwarf\<close> alone switches debug information on after the version of DWARF was chosen, so the default
  version of the tool chain is not passed on.
\<close>

lemma split_without_version:
  assumes "getLastArg Args [Job OPT_gsplit_dwarf] = Some S" and "getLastArg Args [Link OPT_g_Group] = None"
    and "\<not> cc_ask E IsCLMode" and "given_dwarf Args = 0" and "t_isOSLinux (tc_Triple TC)"
  shows "debug_level E Args = Inr (NoDebugInfo, Some S) \<and> final_kind E TC Args (NoDebugInfo, Some S) \<noteq> NoDebugInfo \<and>
    dwarf_version E Args NoDebugInfo = 0"
  using assms
  by (auto simp: debug_level_def initial_debug_def final_kind_def splits_def dwarf_version_def Let_def)

end
