(* ===== verification/AtomicCode.thy ===== *)
theory AtomicCode
  imports Prelude
begin

unbundle bit_operations_syntax

text \<open>
  The atomic operations that the tool ships for targets without them (\<open>etsan/libs/libatomic.c\<close>).
  A call is modelled as the sequence of its accesses to shared state, a \<open>code\<close>: the steps at which other
  threads may come in between. Calls of the compiler's own builtins are single steps. Pointers to the
  caller's buffers (\<open>val\<close>, \<open>ret\<close>, \<open>expect\<close>, \<open>desired\<close>) stand for their contents, which belong to the caller:
  what a call leaves in \<open>*ret\<close> or \<open>*expect\<close> is part of its outcome. An object is known by its address and
  holds a value: a word for the functions with a size in their name, bytes for the others.
\<close>

type_synonym addr = "32 word"

datatype 'v outcome = Done | Value 'v | Swapped bool 'v

datatype 'v code =
    Fence int "'v code"
  | TestAndSet nat "'v code"
  | Clear nat "'v code"
  | Get addr "'v \<Rightarrow> 'v code"
  | Put addr 'v "'v code"
  | Builtin addr "'v \<Rightarrow> 'v \<times> 'v outcome"
  | Return "'v outcome"

subsection \<open>The table of locks\<close>

definition N_LOCKS :: nat where
  "N_LOCKS = 2 ^ 4"

text \<open>The index into \<open>flag_table\<close>, for pointers of any width.\<close>

definition flag_for_address :: "'a::len word \<Rightarrow> nat" where
  "flag_for_address adr =
     (let p = adr;
          p = p + (drop_bit 2 p + push_bit 4 p);
          p = p + (drop_bit 7 p + push_bit 5 p);
          p = p + (drop_bit 17 p + push_bit 13 p);
          p = (if LENGTH('a) div 8 > 4 then p + drop_bit 31 p else p)
      in unat (p AND (word_of_nat N_LOCKS - 1)))"

subsection \<open>Fences and locks\<close>

text \<open>The values of the compiler's memory models.\<close>

definition ATOMIC_ACQUIRE :: int where "ATOMIC_ACQUIRE = 2"
definition ATOMIC_RELEASE :: int where "ATOMIC_RELEASE = 3"
definition ATOMIC_ACQ_REL :: int where "ATOMIC_ACQ_REL = 4"
definition ATOMIC_SEQ_CST :: int where "ATOMIC_SEQ_CST = 5"

definition maybe_release_fence :: "int \<Rightarrow> 'v code \<Rightarrow> 'v code" where
  "maybe_release_fence model k =
     (if model = ATOMIC_RELEASE then Fence ATOMIC_RELEASE k
      else if model = ATOMIC_ACQ_REL then Fence ATOMIC_ACQ_REL k
      else if model = ATOMIC_SEQ_CST then Fence ATOMIC_SEQ_CST k
      else k)"

definition maybe_acquire_fence :: "int \<Rightarrow> 'v code \<Rightarrow> 'v code" where
  "maybe_acquire_fence model k =
     (if model = ATOMIC_ACQUIRE then Fence ATOMIC_ACQUIRE k
      else if model = ATOMIC_ACQ_REL then Fence ATOMIC_ACQ_REL k
      else if model = ATOMIC_SEQ_CST then Fence ATOMIC_SEQ_CST k
      else k)"

definition get_lock :: "addr \<Rightarrow> int \<Rightarrow> 'v code \<Rightarrow> 'v code" where
  "get_lock adr model k = maybe_release_fence model (TestAndSet (flag_for_address adr) k)"

definition free_lock :: "addr \<Rightarrow> int \<Rightarrow> 'v code \<Rightarrow> 'v code" where
  "free_lock adr model k = Clear (flag_for_address adr) (maybe_acquire_fence model k)"

text \<open>\<open>always_lock_free\<close> is the compiler's \<open>__atomic_always_lock_free\<close>.\<close>

definition is_lock_free :: "(nat \<Rightarrow> bool) \<Rightarrow> nat \<Rightarrow> bool" where
  "is_lock_free always_lock_free sz =
     (if sz = 1 then always_lock_free 1 else if sz = 2 then always_lock_free 2
      else if sz = 4 then always_lock_free 4 else if sz = 8 then always_lock_free 8
      else if sz = 16 then always_lock_free 16 else False)"

subsection \<open>What an atomic operation does to an object\<close>

text \<open>The builtins of the compiler, and the reference for the rest: the new contents and the outcome.\<close>

definition load_n :: "'v \<Rightarrow> 'v \<times> 'v outcome" where
  "load_n cur = (cur, Value cur)"

definition store_n :: "'v \<Rightarrow> 'v \<Rightarrow> 'v \<times> 'v outcome" where
  "store_n val cur = (val, Done)"

definition exchange_n :: "'v \<Rightarrow> 'v \<Rightarrow> 'v \<times> 'v outcome" where
  "exchange_n val cur = (val, Value cur)"

definition compare_exchange_n :: "'v \<Rightarrow> 'v \<Rightarrow> 'v \<Rightarrow> 'v \<times> 'v outcome" where
  "compare_exchange_n expect desired cur =
     (if cur = expect then (desired, Swapped True expect) else (cur, Swapped False cur))"

definition fetch_n :: "('v \<Rightarrow> 'v \<Rightarrow> 'v) \<Rightarrow> 'v \<Rightarrow> 'v \<Rightarrow> 'v \<times> 'v outcome" where
  "fetch_n SYM val cur = (SYM cur val, Value cur)"

definition nand :: "'w::len word \<Rightarrow> 'w word \<Rightarrow> 'w word" where
  "nand cur val = NOT (cur AND val)"

subsection \<open>Functions of one size\<close>

text \<open>The macros; \<open>lock_free\<close> is \<open>__atomic_always_lock_free\<close> for the size of the type.\<close>

definition ATOMIC_LOAD :: "bool \<Rightarrow> addr \<Rightarrow> int \<Rightarrow> 'v code" where
  "ATOMIC_LOAD lock_free mem model =
     (if lock_free then Builtin mem load_n
      else get_lock mem model (Get mem (\<lambda>ret. free_lock mem model (Return (Value ret)))))"

definition ATOMIC_STORE :: "bool \<Rightarrow> addr \<Rightarrow> 'v \<Rightarrow> int \<Rightarrow> 'v code" where
  "ATOMIC_STORE lock_free mem val model =
     (if lock_free then Builtin mem (store_n val)
      else get_lock mem model (Put mem val (free_lock mem model (Return Done))))"

definition ATOMIC_EXCHANGE :: "bool \<Rightarrow> addr \<Rightarrow> 'v \<Rightarrow> int \<Rightarrow> 'v code" where
  "ATOMIC_EXCHANGE lock_free mem val model =
     (if lock_free then Builtin mem (exchange_n val)
      else get_lock mem model (Get mem (\<lambda>ret. Put mem val (free_lock mem model (Return (Value ret))))))"

definition ATOMIC_COMPARE_EXCHANGE :: "bool \<Rightarrow> addr \<Rightarrow> 'v \<Rightarrow> 'v \<Rightarrow> int \<Rightarrow> int \<Rightarrow> 'v code" where
  "ATOMIC_COMPARE_EXCHANGE lock_free mem expect desired success failure =
     (if lock_free then Builtin mem (compare_exchange_n expect desired)
      else get_lock mem success (Get mem (\<lambda>cur.
        if cur = expect then Put mem desired (free_lock mem success (Return (Swapped True expect)))
        else Get mem (\<lambda>cur. free_lock mem failure (Return (Swapped False cur))))))"

definition ATOMIC_FETCH :: "bool \<Rightarrow> ('v \<Rightarrow> 'v \<Rightarrow> 'v) \<Rightarrow> addr \<Rightarrow> 'v \<Rightarrow> int \<Rightarrow> 'v code" where
  "ATOMIC_FETCH lock_free SYM mem val model =
     (if lock_free then Builtin mem (fetch_n SYM val)
      else get_lock mem model (Get mem (\<lambda>ret. Get mem (\<lambda>cur.
        Put mem (SYM cur val) (free_lock mem model (Return (Value ret)))))))"

definition ATOMIC_FETCH_NAND :: "bool \<Rightarrow> addr \<Rightarrow> 'w::len word \<Rightarrow> int \<Rightarrow> 'w word code" where
  "ATOMIC_FETCH_NAND lock_free mem val model =
     (if lock_free then Builtin mem (fetch_n nand val)
      else get_lock mem model (Get mem (\<lambda>ret. Get mem (\<lambda>cur.
        Put mem (NOT (cur AND val)) (free_lock mem model (Return (Value ret)))))))"

subsection \<open>Functions for any size\<close>

text \<open>
  The sizes with a function of their own that the configuration of the file supports. For a lock-free one the
  generic functions call it; otherwise they copy bytes under the lock.
\<close>

definition supported :: "nat set" where
  "supported = {1, 2, 4, 8}"

type_synonym bytes = "8 word list"

definition LOAD :: "(nat \<Rightarrow> bool) \<Rightarrow> nat \<Rightarrow> addr \<Rightarrow> int \<Rightarrow> bytes code option" where
  "LOAD always_lock_free SIZE mem model =
     (if always_lock_free SIZE then Some (ATOMIC_LOAD (always_lock_free SIZE) mem model) else None)"

definition generic_load :: "(nat \<Rightarrow> bool) \<Rightarrow> nat \<Rightarrow> addr \<Rightarrow> int \<Rightarrow> bytes code" where
  "generic_load always_lock_free sz mem model =
     (case (if sz \<in> supported then LOAD always_lock_free sz mem model else None) of
        Some c \<Rightarrow> c
      | None \<Rightarrow> get_lock mem model (Get mem (\<lambda>ret. free_lock mem model (Return (Value ret)))))"

definition STORE :: "(nat \<Rightarrow> bool) \<Rightarrow> nat \<Rightarrow> addr \<Rightarrow> bytes \<Rightarrow> int \<Rightarrow> bytes code option" where
  "STORE always_lock_free SIZE mem val model =
     (if always_lock_free SIZE then Some (ATOMIC_STORE (always_lock_free SIZE) mem val model) else None)"

definition generic_store :: "(nat \<Rightarrow> bool) \<Rightarrow> nat \<Rightarrow> addr \<Rightarrow> bytes \<Rightarrow> int \<Rightarrow> bytes code" where
  "generic_store always_lock_free sz mem val model =
     (case (if sz \<in> supported then STORE always_lock_free sz mem val model else None) of
        Some c \<Rightarrow> c
      | None \<Rightarrow> get_lock mem model (Put mem val (free_lock mem model (Return Done))))"

definition EXCHANGE :: "(nat \<Rightarrow> bool) \<Rightarrow> nat \<Rightarrow> addr \<Rightarrow> bytes \<Rightarrow> int \<Rightarrow> bytes code option" where
  "EXCHANGE always_lock_free SIZE mem val model =
     (if always_lock_free SIZE then Some (ATOMIC_EXCHANGE (always_lock_free SIZE) mem val model) else None)"

definition generic_exchange :: "(nat \<Rightarrow> bool) \<Rightarrow> nat \<Rightarrow> addr \<Rightarrow> bytes \<Rightarrow> int \<Rightarrow> bytes code" where
  "generic_exchange always_lock_free sz mem val model =
     (case (if sz \<in> supported then EXCHANGE always_lock_free sz mem val model else None) of
        Some c \<Rightarrow> c
      | None \<Rightarrow> get_lock mem model (Get mem (\<lambda>ret. Put mem val (free_lock mem model (Return (Value ret))))))"

definition COMPARE_EXCHANGE ::
    "(nat \<Rightarrow> bool) \<Rightarrow> nat \<Rightarrow> addr \<Rightarrow> bytes \<Rightarrow> bytes \<Rightarrow> int \<Rightarrow> int \<Rightarrow> bytes code option" where
  "COMPARE_EXCHANGE always_lock_free SIZE mem expect desired success failure =
     (if always_lock_free SIZE
      then Some (ATOMIC_COMPARE_EXCHANGE (always_lock_free SIZE) mem expect desired success failure) else None)"

definition generic_compare_exchange ::
    "(nat \<Rightarrow> bool) \<Rightarrow> nat \<Rightarrow> addr \<Rightarrow> bytes \<Rightarrow> bytes \<Rightarrow> int \<Rightarrow> int \<Rightarrow> bytes code" where
  "generic_compare_exchange always_lock_free sz mem expect desired success failure =
     (case (if sz \<in> supported then COMPARE_EXCHANGE always_lock_free sz mem expect desired success failure else None) of
        Some c \<Rightarrow> c
      | None \<Rightarrow> get_lock mem success (Get mem (\<lambda>cur.
          if cur = expect then Put mem desired (free_lock mem success (Return (Swapped True expect)))
          else Get mem (\<lambda>cur. free_lock mem failure (Return (Swapped False cur))))))"

subsection \<open>Calls\<close>

text \<open>
  A call of a function of one size, and of a generic one. The size of the object at an address is the same
  in all calls, as \<open>size_at\<close> gives it.
\<close>

datatype fetch_op = Fetch_add | Fetch_sub | Fetch_and | Fetch_or | Fetch_xor

fun symbol :: "fetch_op \<Rightarrow> 'w::len word \<Rightarrow> 'w word \<Rightarrow> 'w word" where
  "symbol Fetch_add = (+)"
| "symbol Fetch_sub = (-)"
| "symbol Fetch_and = (AND)"
| "symbol Fetch_or = (OR)"
| "symbol Fetch_xor = (XOR)"

datatype 'v sized_call =
    Load_N addr int
  | Store_N addr 'v int
  | Exchange_N addr 'v int
  | Compare_exchange_N addr 'v 'v int int
  | Fetch_N fetch_op addr 'v int
  | Fetch_nand_N addr 'v int

datatype any_call =
    Load addr int
  | Store addr bytes int
  | Exchange addr bytes int
  | Compare_exchange addr bytes bytes int int

fun sized_code :: "(nat \<Rightarrow> bool) \<Rightarrow> 'w::len word sized_call \<Rightarrow> 'w word code" where
  "sized_code alf (Load_N mem model) = ATOMIC_LOAD (alf (LENGTH('w) div 8)) mem model"
| "sized_code alf (Store_N mem val model) = ATOMIC_STORE (alf (LENGTH('w) div 8)) mem val model"
| "sized_code alf (Exchange_N mem val model) = ATOMIC_EXCHANGE (alf (LENGTH('w) div 8)) mem val model"
| "sized_code alf (Compare_exchange_N mem expect desired success failure) =
     ATOMIC_COMPARE_EXCHANGE (alf (LENGTH('w) div 8)) mem expect desired success failure"
| "sized_code alf (Fetch_N f mem val model) =
     ATOMIC_FETCH (alf (LENGTH('w) div 8)) (symbol f) mem val model"
| "sized_code alf (Fetch_nand_N mem val model) = ATOMIC_FETCH_NAND (alf (LENGTH('w) div 8)) mem val model"

fun any_code :: "(nat \<Rightarrow> bool) \<Rightarrow> (addr \<Rightarrow> nat) \<Rightarrow> any_call \<Rightarrow> bytes code" where
  "any_code alf size_at (Load mem model) = generic_load alf (size_at mem) mem model"
| "any_code alf size_at (Store mem val model) = generic_store alf (size_at mem) mem val model"
| "any_code alf size_at (Exchange mem val model) = generic_exchange alf (size_at mem) mem val model"
| "any_code alf size_at (Compare_exchange mem expect desired success failure) =
     generic_compare_exchange alf (size_at mem) mem expect desired success failure"

fun sized_addr :: "'v sized_call \<Rightarrow> addr" where
  "sized_addr (Load_N mem _) = mem"
| "sized_addr (Store_N mem _ _) = mem"
| "sized_addr (Exchange_N mem _ _) = mem"
| "sized_addr (Compare_exchange_N mem _ _ _ _) = mem"
| "sized_addr (Fetch_N _ mem _ _) = mem"
| "sized_addr (Fetch_nand_N mem _ _) = mem"

fun any_addr :: "any_call \<Rightarrow> addr" where
  "any_addr (Load mem _) = mem"
| "any_addr (Store mem _ _) = mem"
| "any_addr (Exchange mem _ _) = mem"
| "any_addr (Compare_exchange mem _ _ _ _) = mem"

fun sized_effect :: "'w::len word sized_call \<Rightarrow> 'w word \<Rightarrow> 'w word \<times> 'w word outcome" where
  "sized_effect (Load_N _ _) = load_n"
| "sized_effect (Store_N _ val _) = store_n val"
| "sized_effect (Exchange_N _ val _) = exchange_n val"
| "sized_effect (Compare_exchange_N _ expect desired _ _) = compare_exchange_n expect desired"
| "sized_effect (Fetch_N f _ val _) = fetch_n (symbol f) val"
| "sized_effect (Fetch_nand_N _ val _) = fetch_n nand val"

fun any_effect :: "any_call \<Rightarrow> bytes \<Rightarrow> bytes \<times> bytes outcome" where
  "any_effect (Load _ _) = load_n"
| "any_effect (Store _ val _) = store_n val"
| "any_effect (Exchange _ val _) = exchange_n val"
| "any_effect (Compare_exchange _ expect desired _ _) = compare_exchange_n expect desired"

lemma flag_for_address_bound: "flag_for_address (p :: 'a::len word) < N_LOCKS" if "4 < LENGTH('a)"
proof -
  have "unat (x AND (word_of_nat N_LOCKS - 1)) < 16" for x :: "'a word"
  proof -
    have "(word_of_nat N_LOCKS - 1 :: 'a word) = mask 4" by (simp add: N_LOCKS_def mask_eq_decr_exp)
    then have "x AND (word_of_nat N_LOCKS - 1) = take_bit 4 x" by (simp add: take_bit_eq_mask)
    moreover have "unat (take_bit 4 x) < 2 ^ 4"
      using take_bit_nat_less_exp [of 4 "unat x"] by (simp add: unsigned_take_bit_eq)
    ultimately show ?thesis by simp
  qed
  then show ?thesis by (simp add: flag_for_address_def Let_def N_LOCKS_def)
qed

end
