(* ===== verification/AtomicFacts.thy ===== *)
theory AtomicFacts
  imports AtomicMachine
begin

text \<open>
  The proof that a library of well-formed calls refines the atomic machine and is free of deadlock, and the
  interpretations of the locale on both families of functions of \<open>libatomic.c\<close>.
\<close>

subsection \<open>Running alone\<close>

lemma alone_after: "after_lock c \<Longrightarrow> alone c M = (M, snd (alone c M'))"
  by (induction c arbitrary: M M') auto

lemma alone_after_fst: "after_lock c \<Longrightarrow> fst (alone c M) = M"
  by (induction c arbitrary: M) auto

lemma alone_elsewhere: "critical a c \<Longrightarrow> b \<noteq> a \<Longrightarrow> fst (alone c M) b = M b"
proof (induction c arbitrary: M)
  case (Clear l c)
  then show ?case by (simp add: alone_after_fst)
qed auto

lemma alone_local:
  "critical a c \<Longrightarrow> M a = M' a \<Longrightarrow> snd (alone c M) = snd (alone c M') \<and> fst (alone c M) a = fst (alone c M') a"
proof (induction c arbitrary: M M')
  case (Clear l c)
  then have "alone c M = (M, snd (alone c M'))" by (intro alone_after) simp
  then have "snd (alone c M) = snd (alone c M')" by (metis snd_conv)
  with Clear show ?case by (simp add: alone_after_fst)
next
  case (Get b k)
  from Get.IH [OF rangeI, of "M' a" M M'] Get.prems show ?case by simp
next
  case (Put b v c)
  have "snd (alone c (M(a := v))) = snd (alone c (M'(a := v)))
      \<and> fst (alone c (M(a := v))) a = fst (alone c (M'(a := v))) a"
    by (rule Put.IH) (use Put.prems in simp_all)
  with Put.prems show ?case by simp
qed simp_all

lemma access_inside:
  assumes "critical a code" and "access code (M0, F0) = (c, M, F)"
  shows "alone c M = alone code M0" and "b \<noteq> a \<Longrightarrow> M b = M0 b"
    and "(critical a c \<and> F = F0) \<or> (after_lock c \<and> F = F0(flag_for_address a := False))"
  using assms by (cases code; auto)+

lemma entry_not_after: "entry a e lk c \<Longrightarrow> \<not> after_lock c"
  by (induction c) auto

lemma entry_not_critical: "entry a e lk c \<Longrightarrow> \<not> critical b c"
  by (cases c) auto

lemma critical_not_after: "critical a c \<Longrightarrow> \<not> after_lock c"
  by (cases c) auto

subsection \<open>Well-formed calls\<close>

text \<open>
  The interface: the code of a call accesses only its own object, by one builtin if the object is lock-free
  and otherwise between taking and releasing the lock of its address, and run alone it has the effect of
  the call.
\<close>

locale atomic_library =
  fixes start :: "'c \<Rightarrow> 'v code"
    and adr :: "'c \<Rightarrow> addr"
    and effect :: "'c \<Rightarrow> 'v \<Rightarrow> 'v \<times> 'v outcome"
    and locked :: "addr \<Rightarrow> bool"
  assumes well_formed: "entry (adr c) (effect c) (locked (adr c)) (start c)"
begin

definition target :: "('c, 'v) athread \<Rightarrow> addr" where
  "target th = adr (hd (todo th))"

definition waiting :: "('c, 'v) athread \<Rightarrow> bool" where
  "waiting th \<longleftrightarrow> entry (target th) (effect (hd (todo th))) (locked (target th)) (now th)"

definition inside :: "('c, 'v) athread \<Rightarrow> bool" where
  "inside th \<longleftrightarrow> todo th \<noteq> [] \<and> critical (target th) (now th)"

definition phase_ok :: "('c, 'v) athread \<Rightarrow> bool" where
  "phase_ok th \<longleftrightarrow> (todo th \<noteq> [] \<longrightarrow>
     waiting th \<or> (locked (target th) \<and> critical (target th) (now th)) \<or> after_lock (now th))"

definition owner :: "('c, 'v) machine \<Rightarrow> nat \<Rightarrow> nat \<Rightarrow> bool" where
  "owner s l t \<longleftrightarrow> t < length (threads s) \<and> inside (threads s ! t) \<and> flag_for_address (target (threads s ! t)) = l"

definition inv :: "('c, 'v) machine \<Rightarrow> bool" where
  "inv s \<longleftrightarrow> (\<forall>t < length (threads s). phase_ok (threads s ! t))
     \<and> (\<forall>l t u. owner s l t \<longrightarrow> owner s l u \<longrightarrow> t = u)
     \<and> (\<forall>l. flags s l \<longleftrightarrow> (\<exists>t. owner s l t))"

lemma invD:
  assumes "inv s"
  shows inv_phase: "t < length (threads s) \<Longrightarrow> phase_ok (threads s ! t)"
    and inv_exclusive: "owner s l t \<Longrightarrow> owner s l u \<Longrightarrow> t = u"
    and inv_flags: "flags s l \<longleftrightarrow> (\<exists>t. owner s l t)"
  using assms unfolding inv_def by blast+

lemma next_phase:
  "todo th = cs \<Longrightarrow> now th = next_code start cs \<Longrightarrow> phase_ok th \<and> \<not> inside th"
  using well_formed [of "hd cs"]
  by (cases cs) (auto simp: phase_ok_def waiting_def inside_def target_def next_code_def
      dest: entry_not_critical)

lemma inv_init: "inv (machine_init start M progs)"
proof -
  have "\<not> owner (machine_init start M progs) l t" for l t
    using next_phase by (auto simp: owner_def machine_init_def)
  then show ?thesis using next_phase by (auto simp: inv_def machine_init_def)
qed

text \<open>The three ways in which a step of thread \<open>t\<close> changes who is inside.\<close>

lemma inv_same:
  assumes "inv s" and "t < length (threads s)" and "phase_ok th"
    and "inside th = inside (threads s ! t)" and "target th = target (threads s ! t)"
  shows "inv \<lparr>objects = M, flags = flags s, threads = (threads s)[t := th]\<rparr>"
proof -
  let ?s = "\<lparr>objects = M, flags = flags s, threads = (threads s)[t := th]\<rparr>"
  have "owner ?s l u = owner s l u" for l u
    using assms(2,4,5) by (auto simp: owner_def nth_list_update)
  then show ?thesis using assms(1-3) by (auto simp: inv_def nth_list_update)
qed

lemma inv_leave:
  assumes "inv s" and "t < length (threads s)" and "phase_ok th" and "\<not> inside th"
    and "owner s l t \<or> (\<not> inside (threads s ! t) \<and> F = flags s)"
    and "owner s l t \<longrightarrow> F = (flags s)(l := False)"
  shows "inv \<lparr>objects = M, flags = F, threads = (threads s)[t := th]\<rparr>"
proof -
  let ?s = "\<lparr>objects = M, flags = F, threads = (threads s)[t := th]\<rparr>"
  have own: "owner ?s l' u \<longleftrightarrow> u \<noteq> t \<and> owner s l' u" for l' u
    using assms(2,4) by (auto simp: owner_def nth_list_update)
  have "F l' \<longleftrightarrow> (\<exists>u. u \<noteq> t \<and> owner s l' u)" for l'
  proof (cases "owner s l t")
    case True
    with assms(6) have F: "F = (flags s)(l := False)" by simp
    show ?thesis
    proof (cases "l' = l")
      case True
      with \<open>owner s l t\<close> F inv_exclusive [OF assms(1)] show ?thesis by fastforce
    next
      case False
      with \<open>owner s l t\<close> F inv_flags [OF assms(1), of l'] show ?thesis
        by (auto simp: owner_def)
    qed
  next
    case False
    with assms(5) inv_flags [OF assms(1), of l'] show ?thesis by (auto simp: owner_def)
  qed
  then show ?thesis
    using assms(2,3) inv_phase [OF assms(1)] inv_exclusive [OF assms(1)] unfolding inv_def own
    by (auto simp: nth_list_update)
qed

lemma inv_enter:
  assumes "inv s" and "t < length (threads s)" and "phase_ok th" and "inside th"
    and "\<not> inside (threads s ! t)" and "l = flag_for_address (target th)" and "\<not> flags s l"
  shows "inv \<lparr>objects = M, flags = (flags s)(l := True), threads = (threads s)[t := th]\<rparr>"
proof -
  let ?s = "\<lparr>objects = M, flags = (flags s)(l := True), threads = (threads s)[t := th]\<rparr>"
  have own: "owner ?s l' u \<longleftrightarrow> (if u = t then l' = l else owner s l' u)" for l' u
    using assms(2,4,6) by (auto simp: owner_def nth_list_update)
  have free: "\<not> owner s l u" for u using inv_flags [OF assms(1), of l] assms(7) by blast
  have "\<not> owner s l' t" for l' using assms(5) by (simp add: owner_def)
  then have ex: "(\<exists>u. owner ?s l' u) \<longleftrightarrow> l' = l \<or> (\<exists>u. owner s l' u)" for l'
    unfolding own by metis
  from free show ?thesis
    using assms(2,3) inv_phase [OF assms(1)] inv_exclusive [OF assms(1)] inv_flags [OF assms(1)]
    unfolding inv_def ex unfolding own by (auto simp: nth_list_update)
qed

text \<open>The state of the specification that a state of the machine stands for.\<close>

definition matches :: "(addr \<Rightarrow> 'v) \<Rightarrow> ('c, 'v) athread \<Rightarrow> ('c, 'v) spec_thread \<Rightarrow> bool" where
  "matches M th ath \<longleftrightarrow> s_todo ath = todo th \<and> s_results ath = results th
     \<and> s_result ath = (if todo th = [] \<or> waiting th then None else Some (snd (alone (now th) M)))"

definition sim :: "('c, 'v) machine \<Rightarrow> ('c, 'v) spec \<Rightarrow> bool" where
  "sim s A \<longleftrightarrow> length (s_threads A) = length (threads s)
     \<and> (\<forall>t < length (threads s). matches (objects s) (threads s ! t) (s_threads A ! t))
     \<and> (\<forall>t < length (threads s). inside (threads s ! t) \<longrightarrow>
          s_objects A (target (threads s ! t)) = fst (alone (now (threads s ! t)) (objects s)) (target (threads s ! t)))
     \<and> (\<forall>a. (\<forall>t < length (threads s). inside (threads s ! t) \<longrightarrow> target (threads s ! t) \<noteq> a) \<longrightarrow>
          s_objects A a = objects s a)"

lemma matches_other:
  assumes "matches M th ath" and "phase_ok th" and "\<And>a. inside th \<Longrightarrow> target th = a \<Longrightarrow> M' a = M a"
  shows "matches M' th ath"
proof (cases "todo th = [] \<or> waiting th")
  case False
  then have "inside th \<or> after_lock (now th)" using assms(2) by (auto simp: phase_ok_def inside_def)
  then have "snd (alone (now th) M') = snd (alone (now th) M)"
  proof
    assume "inside th"
    then show ?thesis using assms(3) alone_local [of "target th" "now th" M' M] by (simp add: inside_def)
  next
    assume "after_lock (now th)"
    from alone_after [OF this, of M' M] show ?thesis by simp
  qed
  with False assms(1) show ?thesis by (simp add: matches_def)
qed (use assms(1) in \<open>simp add: matches_def\<close>)

text \<open>A step that touches no object, of a thread that is not inside before or after.\<close>

lemma sim_quiet:
  assumes "sim s A" and "t < length (threads s)" and "\<not> inside (threads s ! t)" and "\<not> inside th"
    and "matches (objects s) th ath"
  shows "sim \<lparr>objects = objects s, flags = F, threads = (threads s)[t := th]\<rparr>
    \<lparr>s_objects = s_objects A, s_threads = (s_threads A)[t := ath]\<rparr>"
  using assms unfolding sim_def by (auto simp: nth_list_update)

text \<open>A step on the object \<open>a\<close> that no other thread is inside of.\<close>

lemma sim_active:
  assumes "sim s A" and "inv s" and "t < length (threads s)" and a: "target (threads s ! t) = a" "target th = a"
    and only: "\<And>u. u < length (threads s) \<Longrightarrow> u \<noteq> t \<Longrightarrow> inside (threads s ! u) \<Longrightarrow> target (threads s ! u) \<noteq> a"
    and "matches M th ath"
    and else_same: "\<And>b. b \<noteq> a \<Longrightarrow> M b = objects s b \<and> B b = s_objects A b"
    and "inside th \<Longrightarrow> B a = fst (alone (now th) M) a" and "\<not> inside th \<Longrightarrow> B a = M a"
  shows "sim \<lparr>objects = M, flags = F, threads = (threads s)[t := th]\<rparr>
    \<lparr>s_objects = B, s_threads = (s_threads A)[t := ath]\<rparr>"
proof -
  have len: "length (s_threads A) = length (threads s)" using assms(1) by (simp add: sim_def)
  have other: "matches M (threads s ! u) (s_threads A ! u)" if u: "u < length (threads s)" "u \<noteq> t" for u
  proof (rule matches_other)
    show "matches (objects s) (threads s ! u) (s_threads A ! u)" using assms(1) u by (simp add: sim_def)
    show "phase_ok (threads s ! u)" using inv_phase [OF assms(2)] u by simp
    show "M b = objects s b" if "inside (threads s ! u)" "target (threads s ! u) = b" for b
      using only [OF u that(1)] that(2) else_same by blast
  qed
  have ins: "B (target (threads s ! u)) = fst (alone (now (threads s ! u)) M) (target (threads s ! u))"
    if "u < length (threads s)" "u \<noteq> t" "inside (threads s ! u)" for u
    using assms(1) that only [OF that] else_same
      alone_local [of "target (threads s ! u)" "now (threads s ! u)" M "objects s"]
    by (auto simp: sim_def inside_def)
  have out: "B b = M b" if "\<forall>u < length (threads s). inside ((threads s)[t := th] ! u) \<longrightarrow>
      target ((threads s)[t := th] ! u) \<noteq> b" for b
  proof (cases "b = a")
    case True
    with that assms(3,10) a show ?thesis by (metis nth_list_update_eq)
  next
    case False
    then have "\<forall>u < length (threads s). inside (threads s ! u) \<longrightarrow> target (threads s ! u) \<noteq> b"
      using that a(1) by (metis nth_list_update_neq)
    with False assms(1) else_same show ?thesis by (simp add: sim_def)
  qed
  show ?thesis
    using len other ins out assms(3,7,9) a(2) by (auto simp: sim_def nth_list_update)
qed

subsection \<open>One step\<close>

lemma run_eq:
  "access (now (threads s ! t)) (objects s, flags s) = (c, M, F) \<Longrightarrow>
   run_thread t s = \<lparr>objects = M, flags = F, threads = (threads s)[t := (threads s ! t)\<lparr>now := c\<rparr>]\<rparr>"
  by (cases s) (simp add: run_thread_def)

definition simulated :: "('c, 'v) spec \<Rightarrow> ('c, 'v) machine \<Rightarrow> bool" where
  "simulated A s' \<longleftrightarrow> inv s' \<and> (\<exists>A'. (A' = A \<or> spec_step adr effect A A') \<and> sim s' A')"

lemma spec_same:
  "t < length (s_threads A) \<Longrightarrow> \<lparr>s_objects = s_objects A, s_threads = (s_threads A)[t := s_threads A ! t]\<rparr> = A"
  by (cases A) simp

lemma sim_matches:
  assumes "sim s A" and "t < length (threads s)"
  shows "matches (objects s) (threads s ! t) (s_threads A ! t)" and "t < length (s_threads A)"
  using assms by (auto simp: sim_def)

text \<open>A step that changes nothing.\<close>

lemma simulated_idle:
  assumes "inv s" and "sim s A" and "run_thread t s = s"
  shows "simulated A (run_thread t s)"
  using assms by (auto simp: simulated_def)

text \<open>A step outside the critical section that touches no object.\<close>

lemma simulated_fence:
  assumes "inv s" and "sim s A" and t: "t < length (threads s)"
    and now: "now (threads s ! t) = Fence f c" and todo: "todo (threads s ! t) \<noteq> []"
  shows "simulated A (run_thread t s)"
proof -
  let ?th = "threads s ! t" let ?th' = "?th\<lparr>now := c\<rparr>"
  have r: "run_thread t s = \<lparr>objects = objects s, flags = flags s, threads = (threads s)[t := ?th']\<rparr>"
    by (rule run_eq) (simp add: now)
  have w: "waiting ?th' = waiting ?th" by (simp add: waiting_def target_def now)
  have n: "\<not> inside ?th" by (simp add: inside_def now)
  have ph: "waiting ?th \<or> after_lock c" using inv_phase [OF assms(1) t] todo now by (auto simp: phase_ok_def)
  have n': "\<not> inside ?th'"
    using ph by (auto simp: inside_def waiting_def now target_def dest: entry_not_critical critical_not_after)
  have "phase_ok ?th'" using ph w by (auto simp: phase_ok_def)
  then have "inv (run_thread t s)"
    unfolding r using n n' by (intro inv_same assms(1) t) (simp_all add: target_def)
  moreover have "sim (run_thread t s) A"
  proof -
    have "matches (objects s) ?th' (s_threads A ! t)"
      using sim_matches(1) [OF assms(2) t] w by (simp add: matches_def now)
    from sim_quiet [OF assms(2) t n n' this, of "flags s"] show ?thesis
      unfolding r spec_same [OF sim_matches(2) [OF assms(2) t]] .
  qed
  ultimately show ?thesis by (auto simp: simulated_def)
qed

text \<open>The specification's step.\<close>

lemma perform_eq:
  "s_todo (s_threads A ! t) = todo th \<Longrightarrow> todo th \<noteq> [] \<Longrightarrow>
   perform adr effect t A = \<lparr>s_objects = (s_objects A)(target th := fst (effect (hd (todo th)) (s_objects A (target th)))),
     s_threads = (s_threads A)[t := (s_threads A ! t)\<lparr>s_result := Some (snd (effect (hd (todo th)) (s_objects A (target th))))\<rparr>]\<rparr>"
  by (cases A) (simp add: perform_def target_def split_def Let_def)

lemma simulated_perform:
  assumes "inv s" and "sim s A" and t: "t < length (threads s)" and th: "th = threads s ! t"
    and todo: "todo th \<noteq> []" and "waiting th"
    and only: "\<And>u. u < length (threads s) \<Longrightarrow> inside (threads s ! u) \<Longrightarrow> target (threads s ! u) \<noteq> target th"
    and r: "run_thread t s = \<lparr>objects = M, flags = F, threads = (threads s)[t := th\<lparr>now := c\<rparr>]\<rparr>"
    and "inv (run_thread t s)" and "\<not> waiting (th\<lparr>now := c\<rparr>)"
    and al: "alone c M = atomically (target th) (effect (hd (todo th))) (objects s)"
    and M: "\<And>b. b \<noteq> target th \<Longrightarrow> M b = objects s b"
    and out: "\<not> inside (th\<lparr>now := c\<rparr>) \<Longrightarrow> M (target th) = fst (effect (hd (todo th)) (objects s (target th)))"
  shows "simulated A (run_thread t s)"
proof -
  let ?a = "target th" and ?e = "effect (hd (todo th))"
  note m = sim_matches [OF assms(2) t]
  have "s_objects A ?a = objects s ?a" using assms(2) only by (auto simp: sim_def)
  then have p: "perform adr effect t A = \<lparr>s_objects = (s_objects A)(?a := fst (?e (objects s ?a))),
      s_threads = (s_threads A)[t := (s_threads A ! t)\<lparr>s_result := Some (snd (?e (objects s ?a)))\<rparr>]\<rparr>"
    using perform_eq [of A t th] m(1) todo th by (simp add: matches_def)
  have "sim (run_thread t s) (perform adr effect t A)"
    unfolding r p
  proof (rule sim_active [OF assms(2,1) t])
    show "matches M (th\<lparr>now := c\<rparr>) ((s_threads A ! t)\<lparr>s_result := Some (snd (?e (objects s ?a)))\<rparr>)"
      using m(1) assms(10) todo th by (simp add: matches_def al atomically_def)
    show "((s_objects A)(?a := fst (?e (objects s ?a)))) ?a = fst (alone (now (th\<lparr>now := c\<rparr>)) M) ?a"
      by (simp add: al atomically_def)
  qed (use only M out th in \<open>auto simp: target_def\<close>)
  moreover have "spec_step adr effect A (perform adr effect t A)"
    using m todo assms(6) th by (intro spec_step.perform) (simp_all add: matches_def)
  ultimately show ?thesis using assms(9) by (auto simp: simulated_def)
qed

lemma inside_locked:
  assumes "inv s" and "t < length (threads s)" and "inside (threads s ! t)"
  shows "locked (target (threads s ! t))"
  using inv_phase [OF assms(1,2)] assms(3)
  by (auto simp: phase_ok_def inside_def waiting_def dest: entry_not_critical critical_not_after)

lemma simulated_acquire:
  assumes "inv s" and "sim s A" and t: "t < length (threads s)" and todo: "todo (threads s ! t) \<noteq> []"
    and now: "now (threads s ! t) = TestAndSet l c"
  shows "simulated A (run_thread t s)"
proof (cases "flags s l")
  case True
  have "run_thread t s = s" by (subst run_eq) (simp_all add: now True, simp flip: now)
  then show ?thesis by (rule simulated_idle [OF assms(1,2)])
next
  case False
  let ?th = "threads s ! t" let ?th' = "?th\<lparr>now := c\<rparr>"
  have r: "run_thread t s = \<lparr>objects = objects s, flags = (flags s)(l := True), threads = (threads s)[t := ?th']\<rparr>"
    by (rule run_eq) (simp add: now False)
  have w: "waiting ?th" using inv_phase [OF assms(1) t] todo now by (auto simp: phase_ok_def)
  then have e: "locked (target ?th)" "l = flag_for_address (target ?th)" "critical (target ?th) c"
    "alone c = atomically (target ?th) (effect (hd (todo ?th)))" by (auto simp: waiting_def now)
  have n: "\<not> inside ?th" and n': "inside ?th'" using e(3) todo by (simp_all add: inside_def now target_def)
  have "inv (run_thread t s)"
    unfolding r using n n' e False by (intro inv_enter assms(1) t) (simp_all add: phase_ok_def target_def)
  moreover have "target (threads s ! u) \<noteq> target ?th" if "u < length (threads s)" "inside (threads s ! u)" for u
    using that False inv_flags [OF assms(1), of l] e(2) by (auto simp: owner_def)
  moreover have "\<not> waiting ?th'" using e(3) by (auto simp: waiting_def target_def dest: entry_not_critical)
  ultimately show ?thesis
    using n' e(4) by (intro simulated_perform [OF assms(1,2) t refl todo w _ r]) simp_all
qed

lemma simulated_builtin:
  assumes "inv s" and "sim s A" and t: "t < length (threads s)" and todo: "todo (threads s ! t) \<noteq> []"
    and now: "now (threads s ! t) = Builtin a f"
  shows "simulated A (run_thread t s)"
proof -
  let ?th = "threads s ! t" let ?c = "Return (snd (f (objects s a)))" let ?th' = "?th\<lparr>now := ?c\<rparr>"
  have r: "run_thread t s = \<lparr>objects = (objects s)(a := fst (f (objects s a))), flags = flags s,
      threads = (threads s)[t := ?th']\<rparr>"
    by (rule run_eq) (simp add: now)
  have w: "waiting ?th" using inv_phase [OF assms(1) t] todo now by (auto simp: phase_ok_def)
  then have e: "\<not> locked (target ?th)" "a = target ?th" "f = effect (hd (todo ?th))" by (auto simp: waiting_def now)
  have n: "\<not> inside ?th" and n': "\<not> inside ?th'" by (simp_all add: inside_def now)
  have "inv (run_thread t s)"
    unfolding r using n n' by (intro inv_same assms(1) t) (simp_all add: phase_ok_def target_def)
  moreover have "target (threads s ! u) \<noteq> target ?th" if "u < length (threads s)" "inside (threads s ! u)" for u
    using inside_locked [OF assms(1) that] e(1) by auto
  moreover have "\<not> waiting ?th'" by (simp add: waiting_def)
  ultimately show ?thesis
    using e by (intro simulated_perform [OF assms(1,2) t refl todo w _ r]) (simp_all add: atomically_def)
qed

lemma simulated_inside:
  assumes "inv s" and "sim s A" and t: "t < length (threads s)" and ins: "inside (threads s ! t)"
  shows "simulated A (run_thread t s)"
proof -
  let ?th = "threads s ! t" let ?a = "target ?th" let ?M = "objects s"
  note m = sim_matches [OF assms(2) t]
  have only: "target (threads s ! u) \<noteq> ?a" if "u < length (threads s)" "u \<noteq> t" "inside (threads s ! u)" for u
    using inv_exclusive [OF assms(1), of "flag_for_address ?a" t u] that t ins by (auto simp: owner_def)
  have todo: "todo ?th \<noteq> []" and crit: "critical ?a (now ?th)" using ins by (simp_all add: inside_def)
  have lk: "locked ?a" by (rule inside_locked [OF assms(1) t ins])
  have nw: "\<not> waiting ?th" using crit by (auto simp: waiting_def dest: entry_not_critical)
  have own: "owner s (flag_for_address ?a) t" using t ins by (simp add: owner_def)
  have A: "s_objects A ?a = fst (alone (now ?th) ?M) ?a" using assms(2) t ins by (simp add: sim_def)
  obtain c M F where acc: "access (now ?th) (?M, flags s) = (c, M, F)" by (rule prod_cases3)
  let ?th' = "?th\<lparr>now := c\<rparr>"
  note r = run_eq [OF acc]
  note al = access_inside(1) [OF crit acc] and M = access_inside(2) [OF crit acc]
    and next_code = access_inside(3) [OF crit acc]
  have tg: "target ?th' = ?a" by (simp add: target_def)
  have nw': "\<not> waiting ?th'"
    using next_code by (auto simp: waiting_def dest: entry_not_critical entry_not_after)
  have ins': "inside ?th' \<longleftrightarrow> critical ?a c" using todo by (simp add: inside_def tg)
  have ph: "phase_ok ?th'" using next_code lk by (auto simp: phase_ok_def tg)
  have "inv (run_thread t s)"
    using next_code
  proof
    assume "critical ?a c \<and> F = flags s"
    then show ?thesis
      unfolding r using ins ins' ph tg by (metis inv_same [OF assms(1) t])
  next
    assume f: "after_lock c \<and> F = (flags s)(flag_for_address ?a := False)"
    then have "\<not> inside ?th'" using ins' by (auto dest: critical_not_after)
    then show ?thesis
      unfolding r using ph own f by (intro inv_leave [where l = "flag_for_address ?a"] assms(1) t) simp_all
  qed
  moreover have "sim (run_thread t s) A"
  proof -
    have "matches M ?th' (s_threads A ! t)" using m(1) todo nw nw' by (simp add: matches_def al)
    moreover have "s_objects A ?a = M ?a" if "\<not> inside ?th'"
    proof -
      have "after_lock c" using that next_code ins' by blast
      then show ?thesis using A alone_after_fst [of c M] by (simp flip: al)
    qed
    ultimately have "sim (run_thread t s) \<lparr>s_objects = s_objects A, s_threads = (s_threads A)[t := s_threads A ! t]\<rparr>"
      unfolding r using M A
      by (intro sim_active [OF assms(2,1) t refl tg only]) (simp_all add: al)
    then show ?thesis unfolding spec_same [OF m(2)] .
  qed
  ultimately show ?thesis by (auto simp: simulated_def)
qed

lemma simulated_run:
  assumes "inv s" and "sim s A" and t: "t < length (threads s)" and todo: "todo (threads s ! t) \<noteq> []"
  shows "simulated A (run_thread t s)"
proof (cases "inside (threads s ! t)")
  case True
  then show ?thesis by (rule simulated_inside [OF assms(1-3)])
next
  case False
  then have ph: "waiting (threads s ! t) \<or> after_lock (now (threads s ! t))"
    using inv_phase [OF assms(1) t] todo by (auto simp: phase_ok_def inside_def)
  show ?thesis
  proof (cases "now (threads s ! t)")
    case (Return r)
    have "run_thread t s = s" by (subst run_eq) (simp_all add: Return, simp flip: Return)
    then show ?thesis by (rule simulated_idle [OF assms(1,2)])
  qed (use ph simulated_fence [OF assms(1-3) _ todo] simulated_acquire [OF assms] simulated_builtin [OF assms]
      in \<open>auto simp: waiting_def\<close>)
qed

lemma simulated_return:
  assumes "inv s" and "sim s A" and t: "t < length (threads s)" and todo: "todo (threads s ! t) \<noteq> []"
    and now: "now (threads s ! t) = Return r"
  shows "simulated A (return_call start t r s)"
proof -
  let ?th = "threads s ! t" let ?cs = "tl (todo ?th)"
  let ?th' = "\<lparr>todo = ?cs, now = next_code start ?cs, results = results ?th @ [r]\<rparr>"
  let ?ath' = "\<lparr>s_todo = ?cs, s_result = None, s_results = results ?th @ [r]\<rparr>"
  note m = sim_matches [OF assms(2) t]
  have res: "return_call start t r s = \<lparr>objects = objects s, flags = flags s, threads = (threads s)[t := ?th']\<rparr>"
    by (cases s) (simp add: return_call_def Let_def)
  have n: "\<not> inside ?th" by (simp add: inside_def now)
  have ph: "phase_ok ?th'" and n': "\<not> inside ?th'" using next_phase [of ?th' ?cs] by simp_all
  have nw: "\<not> waiting ?th" by (simp add: waiting_def now)
  have w: "?cs = [] \<or> waiting ?th'"
    using well_formed by (cases ?cs) (simp_all add: waiting_def target_def next_code_def)
  have "inv (return_call start t r s)"
    unfolding res using n n' ph by (intro inv_leave [where l = 0] assms(1) t) (auto simp: owner_def)
  moreover have "matches (objects s) ?th' ?ath'" using w by (auto simp: matches_def)
  from sim_quiet [OF assms(2) t n n' this, of "flags s"]
  have "sim (return_call start t r s) (spec_return t r A)"
    using m by (cases A) (simp add: res spec_return_def Let_def matches_def)
  moreover have "spec_step adr effect A (spec_return t r A)"
    using m nw todo now by (intro spec_step.spec_return) (auto simp: matches_def)
  ultimately show ?thesis by (auto simp: simulated_def)
qed

lemma simulated_step: "step start s s' \<Longrightarrow> inv s \<Longrightarrow> sim s A \<Longrightarrow> simulated A s'"
  by (cases rule: step.cases, assumption) (auto intro: simulated_run simulated_return)

lemma sim_init: "sim (machine_init start M progs) (spec_init M progs)"
proof -
  let ?th = "\<lambda>cs. \<lparr>todo = cs, now = next_code start cs, results = []\<rparr>"
  have w: "cs = [] \<or> waiting (?th cs)" for cs
    using well_formed by (cases cs) (simp_all add: waiting_def target_def next_code_def)
  have n: "\<not> inside (?th cs)" for cs using next_phase [of "?th cs" cs] by simp
  have m: "matches M (?th cs) \<lparr>s_todo = cs, s_result = None, s_results = []\<rparr>" for cs
    using w [of cs] by (auto simp: matches_def)
  show ?thesis
    unfolding sim_def machine_init_def spec_init_def by (simp add: n m)
qed

lemma reachable:
  "steps start (machine_init start M progs) s \<Longrightarrow>
   inv s \<and> (\<exists>A. (spec_step adr effect)\<^sup>*\<^sup>* (spec_init M progs) A \<and> sim s A)"
proof (induction rule: rtranclp_induct)
  case base
  then show ?case using inv_init sim_init by blast
next
  case (step s s')
  then obtain A where A: "inv s" "(spec_step adr effect)\<^sup>*\<^sup>* (spec_init M progs) A" "sim s A" by blast
  from simulated_step [OF step.hyps(2) A(1,3)] A(2) show ?case
    unfolding simulated_def by (metis rtranclp.rtrancl_into_rtrancl)
qed

text \<open>The refinement: results, calls to come, and every object that no call is working on.\<close>

lemma refinement:
  assumes "steps start (machine_init start M progs) s"
  shows "\<exists>A. (spec_step adr effect)\<^sup>*\<^sup>* (spec_init M progs) A \<and> accounts adr A s"
proof -
  from reachable [OF assms] obtain A where
    A: "(spec_step adr effect)\<^sup>*\<^sup>* (spec_init M progs) A" "sim s A" by blast
  have "map s_results (s_threads A) = map results (threads s)" "map s_todo (s_threads A) = map todo (threads s)"
    using A(2) unfolding sim_def matches_def by (intro nth_equalityI; simp)+
  moreover have "s_objects A a = objects s a"
    if "\<forall>th \<in> set (threads s). todo th \<noteq> [] \<longrightarrow> adr (hd (todo th)) \<noteq> a" for a
    using A(2) that by (auto simp: sim_def inside_def target_def)
  ultimately show ?thesis using A(1) unfolding accounts_def by blast
qed

subsection \<open>Accesses do not race\<close>

lemma no_race:
  assumes "steps start (machine_init start M progs) s" and "t < length (threads s)" and "u < length (threads s)"
    and "t \<noteq> u" and "inside (threads s ! t)" and "inside (threads s ! u)"
  shows "target (threads s ! t) \<noteq> target (threads s ! u)"
  using reachable [OF assms(1)] inv_exclusive [of s "flag_for_address (target (threads s ! t))" t u] assms(2-)
  by (auto simp: owner_def)

subsection \<open>Calls can always be completed\<close>

definition completes :: "nat \<Rightarrow> ('c, 'v) machine \<Rightarrow> bool" where
  "completes t s \<longleftrightarrow> (\<exists>s' r. steps start s s' \<and> threads s' = (threads s)[t :=
     \<lparr>todo = tl (todo (threads s ! t)), now = next_code start (tl (todo (threads s ! t))),
      results = results (threads s ! t) @ [r]\<rparr>])"

lemma completes_return:
  assumes "t < length (threads s)" and "todo (threads s ! t) \<noteq> []" and "now (threads s ! t) = Return r"
  shows "completes t s"
  using step.return [OF assms, of start]
  unfolding completes_def by (intro exI [of _ "return_call start t r s"] exI [of _ r]) (auto simp: return_call_def Let_def)

lemma completes_run:
  assumes "t < length (threads s)" and "todo (threads s ! t) \<noteq> []"
    and "access (now (threads s ! t)) (objects s, flags s) = (c, M, F)"
    and "completes t \<lparr>objects = M, flags = F, threads = (threads s)[t := (threads s ! t)\<lparr>now := c\<rparr>]\<rparr>"
  shows "completes t s"
proof -
  have "step start s (run_thread t s)" using assms(1,2) by (rule step.run)
  then show ?thesis
    using assms(1,4) unfolding run_eq [OF assms(3)] completes_def
    by simp (metis converse_rtranclp_into_rtranclp)
qed

text \<open>One access of thread \<open>t\<close>, whose code is known.\<close>

lemma completes_access:
  assumes "t < length (threads s)" and "todo (threads s ! t) \<noteq> []" and "now (threads s ! t) = code"
    and "access code (objects s, flags s) = (c, M, F)"
    and "\<And>s'. flags s' = F \<Longrightarrow> t < length (threads s') \<Longrightarrow> todo (threads s' ! t) \<noteq> [] \<Longrightarrow>
      now (threads s' ! t) = c \<Longrightarrow> completes t s'"
  shows "completes t s"
proof (rule completes_run [OF assms(1,2)])
  show "access (now (threads s ! t)) (objects s, flags s) = (c, M, F)" using assms(3,4) by simp
  show "completes t \<lparr>objects = M, flags = F, threads = (threads s)[t := (threads s ! t)\<lparr>now := c\<rparr>]\<rparr>"
    by (rule assms(5)) (use assms(1,2) in simp_all)
qed

lemma completes_after:
  "after_lock c \<Longrightarrow> t < length (threads s) \<Longrightarrow> todo (threads s ! t) \<noteq> [] \<Longrightarrow> now (threads s ! t) = c \<Longrightarrow>
   completes t s"
proof (induction c arbitrary: s)
  case (Fence f c)
  from Fence.prems(1) have "after_lock c" by simp
  then show ?case by (rule completes_access [OF Fence.prems(2-4) access.simps(1) Fence.IH])
next
  case (Return r)
  show ?case by (rule completes_return [OF Return.prems(2-4)])
qed simp_all

lemma completes_critical:
  "critical a c \<Longrightarrow> t < length (threads s) \<Longrightarrow> todo (threads s ! t) \<noteq> [] \<Longrightarrow> now (threads s ! t) = c \<Longrightarrow>
   completes t s"
proof (induction c arbitrary: s)
  case (Clear l c)
  from Clear.prems(1) have "after_lock c" by simp
  then show ?case by (rule completes_access [OF Clear.prems(2-4) access.simps(3) completes_after])
next
  case (Get b k)
  from Get.prems(1) have "critical a (k (objects s b))" by simp
  then show ?case by (rule completes_access [OF Get.prems(2-4) access.simps(4) Get.IH [OF rangeI]])
next
  case (Put b v c)
  from Put.prems(1) have "critical a c" by simp
  then show ?case by (rule completes_access [OF Put.prems(2-4) access.simps(5) Put.IH])
qed simp_all

lemma completes_entry:
  "entry a e lk c \<Longrightarrow> \<forall>l. \<not> flags s l \<Longrightarrow> t < length (threads s) \<Longrightarrow> todo (threads s ! t) \<noteq> [] \<Longrightarrow>
   now (threads s ! t) = c \<Longrightarrow> completes t s"
proof (induction c arbitrary: s)
  case (Fence f c)
  show ?case
    by (rule completes_access [OF Fence.prems(3-5) access.simps(1)], rule Fence.IH) (use Fence.prems in simp_all)
next
  case (TestAndSet l c)
  have acc: "access (TestAndSet l c) (objects s, flags s) = (c, objects s, (flags s)(l := True))"
    using TestAndSet.prems(2) by simp
  from TestAndSet.prems(1) have "critical a c" by simp
  then show ?case by (rule completes_access [OF TestAndSet.prems(3-5) acc completes_critical])
next
  case (Builtin b f)
  show ?case by (rule completes_access [OF Builtin.prems(3-5) access.simps(6) completes_return])
qed simp_all

lemma some_completes:
  assumes "inv s" and "\<not> finished s"
  shows "\<exists>t < length (threads s). todo (threads s ! t) \<noteq> [] \<and> completes t s"
proof (cases "\<exists>t < length (threads s). inside (threads s ! t)")
  case True
  then show ?thesis by (auto simp: inside_def dest: completes_critical)
next
  case False
  then have free: "\<forall>l. \<not> flags s l" using inv_flags [OF assms(1)] by (auto simp: owner_def)
  from assms(2) obtain t where t: "t < length (threads s)" "todo (threads s ! t) \<noteq> []"
    by (auto simp: finished_def list_all_length)
  with False inv_phase [OF assms(1) t(1)] have "waiting (threads s ! t) \<or> after_lock (now (threads s ! t))"
    by (auto simp: phase_ok_def inside_def)
  then have "completes t s" using free t by (auto simp: waiting_def intro: completes_entry completes_after)
  with t show ?thesis by blast
qed

lemma sum_list_tl:
  "t < length ths \<Longrightarrow> todo (ths ! t) \<noteq> [] \<Longrightarrow> todo th = tl (todo (ths ! t)) \<Longrightarrow>
   sum_list (map (length \<circ> todo) (ths[t := th])) < sum_list (map (length \<circ> todo) ths)"
  for ths :: "('c, 'v) athread list"
proof (induction ths arbitrary: t)
  case (Cons x ths)
  then show ?case by (cases t) (auto simp: neq_Nil_conv)
qed simp

lemma no_deadlock:
  assumes "steps start (machine_init start M progs) s"
  shows "\<exists>s'. steps start s s' \<and> finished s'"
  using assms
proof (induction "sum_list (map (length \<circ> todo) (threads s))" arbitrary: s rule: less_induct)
  case less
  show ?case
  proof (cases "finished s")
    case False
    have "inv s" using reachable [OF less.prems] by blast
    from some_completes [OF this False] obtain t s1 r where
      t: "t < length (threads s)" "todo (threads s ! t) \<noteq> []" and s1: "steps start s s1"
      "threads s1 = (threads s)[t := \<lparr>todo = tl (todo (threads s ! t)),
        now = next_code start (tl (todo (threads s ! t))), results = results (threads s ! t) @ [r]\<rparr>]"
      unfolding completes_def by blast
    have "sum_list (map (length \<circ> todo) (threads s1)) < sum_list (map (length \<circ> todo) (threads s))"
      unfolding s1(2) using t by (rule sum_list_tl) simp
    moreover have "steps start (machine_init start M progs) s1" using less.prems s1(1) by simp
    ultimately obtain s' where "steps start s1 s'" "finished s'" using less.hyps by blast
    with s1(1) show ?thesis by (meson rtranclp_trans)
  qed blast
qed

end

subsection \<open>The functions of the file\<close>

text \<open>The generic functions are those of one size with another condition for being lock-free.\<close>

definition generic_free :: "(nat \<Rightarrow> bool) \<Rightarrow> nat \<Rightarrow> bool" where
  "generic_free always_lock_free sz \<longleftrightarrow> sz \<in> supported \<and> always_lock_free sz"

lemma generic_eq:
  "generic_load alf sz mem model = ATOMIC_LOAD (generic_free alf sz) mem model"
  "generic_store alf sz mem val model = ATOMIC_STORE (generic_free alf sz) mem val model"
  "generic_exchange alf sz mem val model = ATOMIC_EXCHANGE (generic_free alf sz) mem val model"
  "generic_compare_exchange alf sz mem expect desired success failure =
     ATOMIC_COMPARE_EXCHANGE (generic_free alf sz) mem expect desired success failure"
  by (auto simp: generic_free_def generic_load_def LOAD_def ATOMIC_LOAD_def generic_store_def STORE_def
      ATOMIC_STORE_def generic_exchange_def EXCHANGE_def ATOMIC_EXCHANGE_def generic_compare_exchange_def
      COMPARE_EXCHANGE_def ATOMIC_COMPARE_EXCHANGE_def)

lemma entry_release_fence [simp]: "entry a e lk (maybe_release_fence m c) = entry a e lk c"
  by (simp add: maybe_release_fence_def)

lemma after_acquire_fence [simp]: "after_lock (maybe_acquire_fence m c) = after_lock c"
  by (simp add: maybe_acquire_fence_def)

lemma alone_acquire_fence [simp]: "alone (maybe_acquire_fence m c) M = alone c M"
  by (simp add: maybe_acquire_fence_def)

lemma entry_functions:
  "entry a load_n (\<not> lf) (ATOMIC_LOAD lf a m)"
  "entry a (store_n val) (\<not> lf) (ATOMIC_STORE lf a val m)"
  "entry a (exchange_n val) (\<not> lf) (ATOMIC_EXCHANGE lf a val m)"
  "entry a (compare_exchange_n expect desired) (\<not> lf) (ATOMIC_COMPARE_EXCHANGE lf a expect desired m f)"
  "entry a (fetch_n SYM val) (\<not> lf) (ATOMIC_FETCH lf SYM a val m)"
  by (auto simp: ATOMIC_LOAD_def ATOMIC_STORE_def ATOMIC_EXCHANGE_def ATOMIC_COMPARE_EXCHANGE_def
      ATOMIC_FETCH_def get_lock_def free_lock_def atomically_def load_n_def store_n_def exchange_n_def
      compare_exchange_n_def fetch_n_def fun_eq_iff)

lemma entry_nand: "entry a (fetch_n nand w) (\<not> lf) (ATOMIC_FETCH_NAND lf a w m)"
  by (auto simp: ATOMIC_FETCH_NAND_def get_lock_def free_lock_def atomically_def fetch_n_def nand_def fun_eq_iff)

lemma entry_sized:
  "entry (sized_addr c) (sized_effect c) (\<not> alf (LENGTH('w) div 8)) (sized_code alf c)"
  for c :: "'w::len word sized_call"
  by (cases c) (simp_all add: entry_functions entry_nand)

lemma entry_any:
  "entry (any_addr c) (any_effect c) (\<not> generic_free alf (size_at (any_addr c))) (any_code alf size_at c)"
  by (cases c) (simp_all add: entry_functions generic_eq)

interpretation sized: atomic_library "sized_code alf :: 'w::len word sized_call \<Rightarrow> 'w word code"
    sized_addr sized_effect "\<lambda>_. \<not> alf (LENGTH('w) div 8)"
  by unfold_locales (rule entry_sized)

interpretation any: atomic_library "any_code alf size_at" any_addr any_effect
    "\<lambda>a. \<not> generic_free alf (size_at a)"
  by unfold_locales (rule entry_any)

text \<open>
  C39: However the threads interleave, calls of the functions of one size, and those of the generic
  functions, behave as if each took effect in one step between its start and its return: every reachable
  state of the code is accounted for by a run of the atomic specification. So no update is lost.
\<close>

theorem atomics_linearise:
  fixes size_at :: "addr \<Rightarrow> nat" and progs :: "'w::len word sized_call list list"
  shows "(steps (sized_code alf) (machine_init (sized_code alf) M progs) s \<longrightarrow>
      (\<exists>A. (spec_step sized_addr sized_effect)\<^sup>*\<^sup>* (spec_init M progs) A \<and> accounts sized_addr A s)) \<and>
    (steps (any_code alf size_at) (machine_init (any_code alf size_at) M' progs') s' \<longrightarrow>
      (\<exists>A. (spec_step any_addr any_effect)\<^sup>*\<^sup>* (spec_init M' progs') A \<and> accounts any_addr A s'))"
  using sized.refinement any.refinement by blast

text \<open>Two threads that each add to one object under its lock, the second spinning for a while.\<close>

definition demo_progs :: "32 word sized_call list list" where
  "demo_progs = [[Fetch_N Fetch_add 64 1 5], [Fetch_N Fetch_add 64 2 5]]"

definition demo_machine :: "(32 word sized_call, 32 word) machine" where
  "demo_machine = schedule (sized_code (\<lambda>_. False)) [0, 0, 1, 0, 1, 1, 0, 0, 0, 1, 0, 0, 1, 1, 1, 1, 1, 1]
     (machine_init (sized_code (\<lambda>_. False)) (\<lambda>_. 40) demo_progs)"

lemma demo_machine_value:
  "objects demo_machine 64 = 43 \<and> map results (threads demo_machine) = [[Value 40], [Value 41]]"
  by code_simp

theorem atomics_linearise_witness:
  "\<exists>A. (spec_step sized_addr sized_effect)\<^sup>*\<^sup>* (spec_init (\<lambda>_. 40) demo_progs) A \<and> accounts sized_addr A demo_machine"
  using atomics_linearise schedule_steps unfolding demo_machine_def by blast

text \<open>
  C40: No state is a dead end: from every reachable state of either family of functions some continuation
  lets every call return, so a lock that is taken is always released and a thread that spins is not stuck.
\<close>

theorem atomics_finish:
  fixes size_at :: "addr \<Rightarrow> nat" and progs :: "'w::len word sized_call list list"
  shows "(steps (sized_code alf) (machine_init (sized_code alf) M progs) s \<longrightarrow>
      (\<exists>s1. steps (sized_code alf) s s1 \<and> finished s1)) \<and>
    (steps (any_code alf size_at) (machine_init (any_code alf size_at) M' progs') s' \<longrightarrow>
      (\<exists>s1. steps (any_code alf size_at) s' s1 \<and> finished s1))"
  using sized.no_deadlock any.no_deadlock by blast

theorem atomics_finish_witness:
  "\<exists>s1. steps (sized_code (\<lambda>_. False)) demo_machine s1 \<and> finished s1"
  using atomics_finish schedule_steps unfolding demo_machine_def by blast

end
