(* ===== verification/Spec2Isabelle.thy ===== *)
theory Spec2Isabelle
  imports Interleavings Instrumentation GnuLinker CompileFacts AtomicFacts
begin

text \<open>
  EmbedSanitizer finds data races in programs for 32-bit ARM. Clang's instrumentation pass inserts calls of
  a runtime before the memory accesses and around the synchronisation of a program; the runtime keeps vector
  clocks by the FastTrack rules and prints the races it finds; the driver of Clang is changed so that it
  instruments for and links this runtime. This development models these parts and one library shipped
  beside the runtime.

  The runtime (\<open>src/etsan\<close>).
  \<^item> \<open>Epoch\<close>, \<open>Clocks\<close>, \<open>Runtime\<close>: \<open>defs.h\<close>. Epochs are the packed 32-bit words of the code, vector clocks
    lists of them with every access checked, the tables of thread, variable and lock states association
    lists. \<open>Runtime\<close> holds \<open>getState\<close>, \<open>getVarState\<close>, \<open>getLockState\<close> and \<open>UpdateThreadClocks\<close>; the locale
    \<open>registry\<close> is what the rest relies on: looking up twice gives what was created first.
  \<^item> \<open>FastTrack\<close>: the rules of \<open>fasttrack.h\<close> for reads, writes, acquire, release, fork and join, what they
    preserve, when they leave a vector, and what the flags and loop bounds of the code make them miss.
  \<^item> \<open>HappensBefore\<close>, \<open>EpochDetector\<close>, \<open>Refinement\<close>: the specification and the proof that the code meets it.
    A trace is a list of events; \<open>race\<close> is defined by happens-before alone. A detector with full vector
    clocks finds the races, epochs lose nothing of it until the first report on an address, and the code with
    its packed words and vectors simulates the detector with epochs.
  \<^item> \<open>Race\<close>, \<open>RaceReport\<close>: \<open>race.h\<close>, \<open>race_report.h\<close>, \<open>file_dictionary.h\<close>: messages, call stacks, and the
    set of reported races with the comparison the code gives it.
  \<^item> \<open>Interface\<close>, \<open>Execution\<close>: the callbacks of \<open>tsan_interface.cc\<close> on runtime and reports together, and
    runs of a whole program of callbacks.
  \<^item> \<open>EarlyAccess\<close>, \<open>Interleavings\<close>: callbacks of several threads at once, each a sequence of critical
    sections. \<open>getVarState\<close> records the first access to an address before its rule runs; a detector with such
    early accesses still finds the addresses with races, and the sections refine it.

  The compiler (\<open>src/llvm/lib/Transforms/Instrumentation\<close>).
  \<^item> \<open>DebugInfo\<close>: \<open>EmbedSanitizerDebugInfo.h\<close>, the names and line numbers passed to the callbacks.
  \<^item> \<open>TsanPass\<close>, \<open>Instrumentation\<close>: \<open>ThreadSanitizer.cpp\<close> and \<open>EmbedSanitizerExtension.h\<close>: the choice of
    accesses, the calls inserted for each, and how they fit the functions the runtime defines.

  The driver (\<open>src/llvm/tools/clang/lib/Driver\<close>).
  \<^item> \<open>DriverArgs\<close>: options, diagnostics, the triple and the tool chain, as far as the two files ask them.
  \<^item> \<open>SanitizerArgs\<close>, \<open>SanitizerFacts\<close>: \<open>SanitizerArgs.cpp\<close>, all of it: which sanitizers a command line
    enables, that the last flag wins, that incompatible ones are never enabled together, when the
    constructor returns, and what the triple of the tool changes.
  \<^item> \<open>SanitizerRuntimes\<close>: the part of \<open>Tools.cpp\<close> that links the runtimes.
  \<^item> \<open>ArmTools\<close>, \<open>ArmFacts\<close>: the ARM target in \<open>Tools.cpp\<close>: architecture, CPU, float ABI, features, arguments
    for the compiler, frame pointers, and \<open>-mrecip\<close>.
  \<^item> \<open>TargetCPUs\<close>, \<open>TargetFeatures\<close>, \<open>TargetArgs\<close>, \<open>TargetFacts\<close>: what \<open>Tools.cpp\<close> finds out for the other
    targets too: the CPU, the features, the arguments of \<open>Clang::ConstructJob\<close>. \<open>getTargetFeatures\<close> passes
    the last occurrence of every feature in order, and never NEON to a program with a soft float ABI.
  \<^item> \<open>Quoting\<close>: arguments recorded in the debug information and targets in dependency files, with the
    readers that undo the quoting.
  \<^item> \<open>IntegratedAssembler\<close>, \<open>GnuAssembler\<close>, \<open>AssemblerFacts\<close>: \<open>ClangAs::ConstructJob\<close>, the values of \<open>-Wa,\<close>,
    \<open>gnutools::Assembler::ConstructJob\<close>, split debug information; when the jobs are produced.
  \<^item> \<open>PicArgs\<close>: \<open>ParsePICArgs\<close> in \<open>Tools.cpp\<close>: relocation model, PIC level and PIE.
  \<^item> \<open>GnuLinker\<close>: \<open>gnutools::Linker::ConstructJob\<close> in \<open>Tools.cpp\<close> and the functions it calls, on top of
    \<open>SanitizerRuntimes\<close>: every program linked for the embedded triple contains the race detector.

  \<^item> \<open>CompileSteps\<close>: the vocabulary of the compile job, \<open>Clang::ConstructJob\<close> in \<open>Tools.cpp\<close>: a step
    appends arguments and diagnostics or fails, and the job is a list of steps in the order of the code.
  \<^item> \<open>CompileActions\<close>, \<open>CodeGenArgs\<close>, \<open>DebugArgs\<close>, \<open>FrontendArgs\<close>, \<open>ModuleArgs\<close>, \<open>DialectArgs\<close>, \<open>OutputArgs\<close>:
    the parts of that function from its first line to its last: the kind of the job and the compilation
    database, code generation, debug information, what the front end is told, modules, dialects, diagnostics
    and output; \<open>Preprocessing\<close>, \<open>LanguageArgs\<close>, \<open>ProfileArgs\<close> and \<open>ClangCL\<close> hold the functions it calls.
  \<^item> \<open>FloatMath\<close>: its floating point options, and a state that reads them from left to right.
  \<^item> \<open>CompileJob\<close>, \<open>CompileFacts\<close>: the whole job, that it is produced for ARM without a failed assertion, and
    that the flags of the race detector are in it.

  Atomic operations (\<open>src/etsan/libs/libatomic.c\<close>).
  \<^item> \<open>AtomicCode\<close>, \<open>AtomicMachine\<close>, \<open>AtomicFacts\<close>: every function as the sequence of its accesses to shared
    state; threads that interleave them; the locale \<open>atomic_library\<close>, with both families of functions as
    interpretations, in which these threads refine a machine with atomic calls and cannot get stuck.

  Bounds. The detection theorems hold for at most 239 thread ids and fewer than \<open>2^24 - 2\<close> events, the range
  in which the fields of an epoch do not overflow; \<open>Runtime.clock_overflow\<close> shows what happens beyond.
  They start from a state in which the threads are registered with clocks of full length. The epoch of a thread
  is a signed int: incrementing the largest one is undefined and an error of the model. The code's own
  registration does not lead to that state: its first \<open>getState\<close> of a thread writes one entry past the end of
  the new clock (\<open>Runtime.new_thread_write_out_of_range\<close>), which the model makes an error. No recursion needs
  fuel: every loop of the modelled code is over a list or a vector, except the spinning of \<open>get_lock\<close>, which
  is a step that may repeat.

  Parameters. \<open>pthread_self\<close>, the memory a child's id is read from, the position at which \<open>std::set\<close> inserts,
  the demangler, the alias and capture analysis of LLVM, the option parser, \<open>Sanitizers.def\<close>, the tool chain,
  the target parsers of LLVM, the features of the host, the Hexagon tool chain, and for the jobs the paths, the
  rendering of arguments, the matching options of a group and the OpenMP script are arguments, not definitions.
  The compile job asks its surroundings through the records \<open>cc_env\<close>, \<open>objc_env\<close> and \<open>cdb_env\<close>: the action and
  its files, the answers of the driver, the tool chain and the triple, the runtimes of Objective-C, and the
  escaping of the compilation database.

  Not modelled: the rest of \<open>Tools.cpp\<close>, the jobs of the tools of other systems, which copy options one by
  one to the command lines of external tools, what \<open>computeMSVCVersion\<close> and \<open>CheckObjCARC\<close> diagnose, and the files
  removed after a failure; in the runtime, accesses
  that no mutex orders: \<open>race_report.h\<close> has none, \<open>ft_read\<close> holds \<open>VS\<close> while it reads the clock that \<open>ft_fork\<close>
  and \<open>UpdateThreadClocks\<close> write under \<open>TS\<close>, and the tail of \<open>ft_acquire\<close> and \<open>ft_release\<close> follows the
  unlock; in \<open>Interleavings\<close> such sections are atomic all the same; in the pass, the landing pads that
  \<open>EscapeEnumerator\<close> adds; weak memory
  in \<open>libatomic.c\<close>, where the steps of different threads are sequentially consistent and objects at
  different addresses do not overlap; the scripts and tests.
\<close>

subsection \<open>Race detection as a whole\<close>

text \<open>
  C1: On a freshly registered program of at most 239 thread ids, a trace of fewer than
  \<open>2^24 - 2\<close> events runs without an out-of-range access, and until a race was reported on an
  address, a callback reports a race on it exactly when its access is not ordered by
  happens-before with an earlier conflicting access.
\<close>

theorem first_report_exact:
  assumes "registered idx P N s" and "\<forall>e \<in> set tr. event_threads e \<subseteq> P \<and> proper e"
    and "length tr < 16777214"
  shows "\<exists>bs s'. rt_run tr s = Inr (bs, s') \<and> length bs = length tr \<and>
    (\<forall>j < length tr. accessed (tr ! j) \<inter> reported (take j tr) (take j bs) = {} \<longrightarrow>
      bs ! j = (\<exists>i. race tr i j))"
  using registered_run [OF assms] by metis

theorem first_report_exact_witness:
  "\<exists>bs s'. rt_run demo_trace two_threads = Inr (bs, s') \<and> length bs = length demo_trace \<and>
    (\<forall>j < length demo_trace.
      accessed (demo_trace ! j) \<inter> reported (take j demo_trace) (take j bs) = {} \<longrightarrow>
      bs ! j = (\<exists>i. race demo_trace i j))"
  using first_report_exact [OF two_threads_registered demo_trace_ok(1)] demo_trace_ok(2) by simp

text \<open>
  C2: Over a whole trace the addresses on which a race is reported are exactly the addresses that
  have a race.
\<close>

theorem reported_addresses:
  assumes "registered idx P N s" and "\<forall>e \<in> set tr. event_threads e \<subseteq> P \<and> proper e"
    and "length tr < 16777214"
  shows "\<exists>bs s'. rt_run tr s = Inr (bs, s') \<and>
    (\<forall>a. a \<in> reported tr bs \<longleftrightarrow> (\<exists>i j. race tr i j \<and> a \<in> accessed (tr ! j)))"
proof -
  obtain bs s' where run: "rt_run tr s = Inr (bs, s')" and bs: "length bs = length tr"
    "\<forall>j < length tr. accessed (tr ! j) \<inter> reported (take j tr) (take j bs) = {} \<longrightarrow>
      bs ! j = (\<exists>i. race tr i j)"
    using registered_run [OF assms] by metis
  from run reported_iff_race [OF bs] show ?thesis by blast
qed

theorem reported_addresses_witness:
  "\<exists>bs s'. rt_run demo_trace two_threads = Inr (bs, s') \<and>
    (\<forall>a. a \<in> reported demo_trace bs \<longleftrightarrow> (\<exists>i j. race demo_trace i j \<and> a \<in> accessed (demo_trace ! j)))"
  using reported_addresses [OF two_threads_registered demo_trace_ok(1)] demo_trace_ok(2) by simp

text \<open>C3: A trace without a race is silent, and a trace with one is not.\<close>

theorem silent_iff_race_free:
  assumes "registered idx P N s" and "\<forall>e \<in> set tr. event_threads e \<subseteq> P \<and> proper e"
    and "length tr < 16777214"
  shows "\<exists>bs s'. rt_run tr s = Inr (bs, s') \<and> (True \<in> set bs \<longleftrightarrow> (\<exists>i j. race tr i j))"
proof -
  obtain bs s' where run: "rt_run tr s = Inr (bs, s')" and bs: "length bs = length tr"
    "\<forall>j < length tr. bs ! j \<longrightarrow> accessed (tr ! j) \<noteq> {}"
    "\<forall>j < length tr. accessed (tr ! j) \<inter> reported (take j tr) (take j bs) = {} \<longrightarrow>
      bs ! j = (\<exists>i. race tr i j)"
    using registered_run [OF assms] by metis
  have "True \<in> set bs \<longleftrightarrow> (\<exists>j < length tr. bs ! j)"
    using bs(1) by (auto simp: in_set_conv_nth)
  also have "\<dots> \<longleftrightarrow> (\<exists>a. a \<in> reported tr bs)"
    using bs(2) by (auto simp: reported_def)
  also have "\<dots> \<longleftrightarrow> (\<exists>i j. race tr i j)"
    unfolding reported_iff_race [OF bs(1,3)] using race_accessed by blast
  finally show ?thesis using run by blast
qed

theorem silent_iff_race_free_witness:
  "\<exists>bs s'. rt_run demo_trace two_threads = Inr (bs, s') \<and> (True \<in> set bs \<longleftrightarrow> (\<exists>i j. race demo_trace i j))"
  using silent_iff_race_free [OF two_threads_registered demo_trace_ok(1)] demo_trace_ok(2) by simp

text \<open>
  C4: The callbacks of a whole program, with their test of \<open>isConcurrent\<close> and their printing:
  the accesses made while no child runs are ignored; of the rest the runtime reports, through
  \<open>reportRaceOnRead\<close> and \<open>reportRaceOnWrite\<close> in the order of the calls, accesses to exactly the
  addresses that have a race among the recorded events. No call goes out of range.
\<close>

theorem program_reports:
  assumes "registered idx P N (w_rt w)" and "isConcurrent (w_rt w) = word_of_nat n"
    and "\<forall>e \<in> set (map fst as). event_threads e \<subseteq> P \<and> proper e"
    and "n + length as < 16777214"
  shows "\<exists>bs w'. world_run pos as w = Inr w' \<and>
    w_rep w' = make_reports pos as (answers n (map fst as) bs) (w_rep w) \<and>
    (let tr = recorded n (map fst as)
     in \<forall>a. a \<in> reported tr bs \<longleftrightarrow> (\<exists>i j. race tr i j \<and> a \<in> accessed (tr ! j)))"
proof -
  let ?tr = "recorded n (map fst as)"
  have "\<forall>e \<in> set ?tr. event_threads e \<subseteq> P \<and> proper e"
    using assms(3) recorded_subset [of n "map fst as"] by blast
  moreover have "length ?tr < 16777214"
    using assms(4) length_recorded [of n "map fst as"] by simp
  ultimately obtain bs s' where run: "rt_run ?tr (w_rt w) = Inr (bs, s')" and bs: "length bs = length ?tr"
    "\<forall>j < length ?tr. accessed (?tr ! j) \<inter> reported (take j ?tr) (take j bs) = {} \<longrightarrow>
      bs ! j = (\<exists>i. race ?tr i j)"
    using registered_run [OF assms(1), of ?tr] by metis
  have "world_run pos as w = Inr (w\<lparr>w_rt := s', w_rep := make_reports pos as (answers n (map fst as) bs) (w_rep w)\<rparr>)"
    using gated_run_eq [OF assms(2), of "map fst as"] assms(4) run by (simp add: world_run_eq)
  with reported_iff_race [OF bs] show ?thesis by (auto simp: Let_def)
qed

theorem program_reports_witness:
  "\<exists>bs w'. world_run first_gap (zip demo_trace (replicate 8 (42, (1, ''x''), (2, ''a.c''))))
      \<lparr>w_rt = two_threads, w_rep = reports_init\<rparr> = Inr w' \<and>
    w_rep w' = make_reports first_gap (zip demo_trace (replicate 8 (42, (1, ''x''), (2, ''a.c''))))
      (answers 1 demo_trace bs) reports_init \<and>
    (let tr = recorded 1 demo_trace
     in \<forall>a. a \<in> reported tr bs \<longleftrightarrow> (\<exists>i j. race tr i j \<and> a \<in> accessed (tr ! j)))"
proof -
  let ?as = "zip demo_trace (replicate 8 (42 :: i32, (1 :: nat, ''x''), (2 :: nat, ''a.c'')))"
  have fst: "map fst ?as = demo_trace" using demo_trace_ok(2) by simp
  have len: "length ?as = 8" using demo_trace_ok(2) by simp
  show ?thesis
    using program_reports [of two_ids "{11, 12}" 2 "\<lparr>w_rt = two_threads, w_rep = reports_init\<rparr>" 1 ?as first_gap]
      two_threads_registered demo_trace_ok(1) len
    unfolding fst by (simp add: two_threads_def)
qed

end
